(* ===== verification/Prelude.thy ===== *)
theory Prelude
  imports Main "HOL-Library.Char_ord" "HOL-Library.List_Lexorder"
begin

text \<open>
  Shared vocabulary of the development: results of fallible Go functions, lists read as
  SQL tables, and the collections of rewrite rules the component theories fill.

  A Go function with result \<open>(T, error)\<close> is a value of \<open>'e + 'a\<close>; \<open>bindE\<close> is the
  idiom \<open>x, err := f(); if err != nil { return err }\<close> and \<open>guardE\<close> is
  \<open>if bad { return err }\<close>. A table is the list of its rows in insertion order:
  \<open>SELECT ... WHERE key = k\<close> is \<open>lookup_by\<close>, \<open>UPDATE ... WHERE key = k\<close> is
  \<open>update_by\<close>, \<open>INSERT\<close> appends.
\<close>

named_theorems store_simps \<open>how reads of the store look after a write\<close>
named_theorems op_defs \<open>the definitions of the operations of a component\<close>

section \<open>Results\<close>

fun bindE :: "'e + 'a \<Rightarrow> ('a \<Rightarrow> 'e + 'b) \<Rightarrow> 'e + 'b" where
  "bindE (Inl e) f = Inl e"
| "bindE (Inr x) f = f x"

definition guardE :: "bool \<Rightarrow> 'e \<Rightarrow> 'e + unit" where
  "guardE bad e = (if bad then Inl e else Inr ())"

definition of_opt :: "'e \<Rightarrow> 'a option \<Rightarrow> 'e + 'a" where
  "of_opt e x = (case x of None \<Rightarrow> Inl e | Some y \<Rightarrow> Inr y)"

definition is_ok :: "'e + 'a \<Rightarrow> bool" where
  "is_ok r = (case r of Inl _ \<Rightarrow> False | Inr _ \<Rightarrow> True)"

lemma bindE_Inr_iff: "bindE m f = Inr y \<longleftrightarrow> (\<exists>x. m = Inr x \<and> f x = Inr y)"
  by (cases m) auto

lemma bindE_InrE [elim!]:
  assumes "bindE m f = Inr y"
  obtains x where "m = Inr x" and "f x = Inr y"
  using assms by (auto simp: bindE_Inr_iff)

lemma bindE_Inl_iff:
  "bindE m f = Inl e \<longleftrightarrow> m = Inl e \<or> (\<exists>x. m = Inr x \<and> f x = Inl e)"
  by (cases m) auto

lemma guardE_Inr [simp]: "guardE bad e = Inr u \<longleftrightarrow> \<not> bad"
  by (simp add: guardE_def)

lemma guardE_Inl [simp]: "guardE bad e = Inl e' \<longleftrightarrow> bad \<and> e' = e"
  by (auto simp: guardE_def)

lemma guardE_eval [simp]: "guardE False e = Inr ()" "guardE True e = Inl e"
  by (simp_all add: guardE_def)

lemma of_opt_Inr [simp]: "of_opt e x = Inr y \<longleftrightarrow> x = Some y"
  by (cases x) (simp_all add: of_opt_def)

lemma of_opt_Inl [simp]: "of_opt e x = Inl e' \<longleftrightarrow> x = None \<and> e' = e"
  by (cases x) (auto simp: of_opt_def)

lemma of_opt_eval [simp]: "of_opt e None = Inl e" "of_opt e (Some y) = Inr y"
  by (simp_all add: of_opt_def)

lemma is_ok_simps [simp]: "is_ok (Inl e) = False" "is_ok (Inr x) = True"
  by (simp_all add: is_ok_def)

lemma is_ok_iff: "is_ok r \<longleftrightarrow> (\<exists>x. r = Inr x)"
  by (cases r) auto

section \<open>Lists as tables\<close>

definition lookup_by :: "('r \<Rightarrow> 'k) \<Rightarrow> 'k \<Rightarrow> 'r list \<Rightarrow> 'r option" where
  "lookup_by key k t = find (\<lambda>r. key r = k) t"

definition update_by :: "('r \<Rightarrow> 'k) \<Rightarrow> 'k \<Rightarrow> ('r \<Rightarrow> 'r) \<Rightarrow> 'r list \<Rightarrow> 'r list" where
  "update_by key k f t = map (\<lambda>r. if key r = k then f r else r) t"

lemma lookup_by_Nil [simp]: "lookup_by key k [] = None"
  by (simp add: lookup_by_def)

lemma lookup_by_Cons [simp]:
  "lookup_by key k (r # t) = (if key r = k then Some r else lookup_by key k t)"
  by (simp add: lookup_by_def)

lemma update_by_Nil [simp]: "update_by key k f [] = []"
  by (simp add: update_by_def)

lemma update_by_Cons [simp]:
  "update_by key k f (r # t) = (if key r = k then f r else r) # update_by key k f t"
  by (simp add: update_by_def)

lemma lookup_by_append:
  "lookup_by key k (t @ u) =
     (case lookup_by key k t of None \<Rightarrow> lookup_by key k u | Some r \<Rightarrow> Some r)"
  by (induction t) auto

lemma lookup_by_update:
  assumes "\<And>r. key (f r) = key r"
  shows "lookup_by key j (update_by key k f t) =
     (if j = k then map_option f (lookup_by key k t) else lookup_by key j t)"
  using assms by (induction t) auto

lemma lookup_by_Some: "lookup_by key k t = Some r \<Longrightarrow> key r = k \<and> r \<in> set t"
  by (induction t) (auto split: if_splits)

lemma lookup_by_None: "lookup_by key k t = None \<longleftrightarrow> k \<notin> key ` set t"
  by (induction t) auto

lemma lookup_by_distinct:
  "distinct (map key t) \<Longrightarrow> r \<in> set t \<Longrightarrow> lookup_by key (key r) t = Some r"
  by (induction t) (auto simp: image_iff)

lemma map_key_update_by:
  assumes "\<And>r. key (f r) = key r"
  shows "map key (update_by key k f t) = map key t"
  using assms by (induction t) auto

lemma length_update_by [simp]: "length (update_by key k f t) = length t"
  by (simp add: update_by_def)

lemma filter_update_by_other:
  assumes "\<And>r. key (f r) = key r" and "j \<noteq> k"
  shows "filter (\<lambda>r. key r = j) (update_by key k f t) = filter (\<lambda>r. key r = j) t"
  using assms by (induction t) auto

end
