(* ===== verification/Encoding.thy ===== *)
theory Encoding
  imports Prelude "HOL-Library.Word"
begin

unbundle bit_operations_syntax

text \<open>
  The byte encodings the program uses from Go's standard library: \<open>encoding/hex\<close>,
  \<open>encoding/base64\<close> (\<open>RawURLEncoding\<close>) and \<open>crypto/sha256\<close>. A Go string or byte slice
  is an Isabelle \<open>string\<close>: a \<open>char\<close> is one byte.
\<close>

section \<open>Hexadecimal\<close>

definition nibble :: "nat \<Rightarrow> char" where
  "nibble n = (if n < 10 then char_of (48 + n) else char_of (87 + n))"

fun hex_encode :: "string \<Rightarrow> string" where
  "hex_encode [] = []"
| "hex_encode (c # cs) =
     nibble (of_char c div 16) # nibble (of_char c mod 16) # hex_encode cs"

section \<open>base64.RawURLEncoding\<close>

text \<open>The URL alphabet without padding. \<open>b64_char\<close> encodes six bits, \<open>b64_value\<close> decodes.\<close>

definition b64_char :: "nat \<Rightarrow> char" where
  "b64_char n = (if n < 26 then char_of (65 + n)
     else if n < 52 then char_of (71 + n)
     else if n < 62 then char_of (n - 4)
     else if n = 62 then CHR ''-'' else CHR ''_'')"

definition b64_value :: "char \<Rightarrow> nat option" where
  "b64_value c = (let n = (of_char c :: nat) in
     if 65 \<le> n \<and> n \<le> 90 then Some (n - 65)
     else if 97 \<le> n \<and> n \<le> 122 then Some (n - 71)
     else if 48 \<le> n \<and> n \<le> 57 then Some (n + 4)
     else if n = 45 then Some 62
     else if n = 95 then Some 63 else None)"

fun b64_encode :: "string \<Rightarrow> string" where
  "b64_encode [] = []"
| "b64_encode [a] =
     [b64_char (of_char a div 4), b64_char (of_char a mod 4 * 16)]"
| "b64_encode [a, b] =
     [b64_char (of_char a div 4),
      b64_char (of_char a mod 4 * 16 + of_char b div 16),
      b64_char (of_char b mod 16 * 4)]"
| "b64_encode (a # b # c # cs) =
     b64_char (of_char a div 4)
     # b64_char (of_char a mod 4 * 16 + of_char b div 16)
     # b64_char (of_char b mod 16 * 4 + of_char c div 64)
     # b64_char (of_char c mod 64)
     # b64_encode cs"

text \<open>
  The decoder skips carriage returns and newlines anywhere, reads groups of four digits, and
  accepts a last group of two or three digits (not strict: unused low bits are dropped).
\<close>

fun b64_groups :: "nat list \<Rightarrow> string option" where
  "b64_groups [] = Some []"
| "b64_groups [x] = None"
| "b64_groups [x, y] = Some [char_of (x * 4 + y div 16)]"
| "b64_groups [x, y, z] =
     Some [char_of (x * 4 + y div 16), char_of (y mod 16 * 16 + z div 4)]"
| "b64_groups (x # y # z # w # vs) =
     map_option (\<lambda>r. char_of (x * 4 + y div 16)
                   # char_of (y mod 16 * 16 + z div 4)
                   # char_of (z mod 4 * 64 + w) # r) (b64_groups vs)"

definition b64_decode :: "string \<Rightarrow> string option" where
  "b64_decode s =
     Option.bind (those (map b64_value (filter (\<lambda>c. c \<noteq> CHR 0x0A \<and> c \<noteq> CHR 0x0D) s))) b64_groups"

lemma b64_value_char: "n < 64 \<Longrightarrow> b64_value (b64_char n) = Some n"
  by (auto simp: b64_value_def b64_char_def Let_def)

lemma b64_char_visible: "n < 64 \<Longrightarrow> b64_char n \<noteq> CHR 0x0A \<and> b64_char n \<noteq> CHR 0x0D"
proof -
  assume "n < 64"
  then have "b64_value (b64_char n) = Some n"
    by (rule b64_value_char)
  moreover have "b64_value (CHR 0x0A) = None" "b64_value (CHR 0x0D) = None"
    by (simp_all add: b64_value_def)
  ultimately show ?thesis by auto
qed

fun sextets :: "string \<Rightarrow> nat list" where
  "sextets [] = []"
| "sextets [a] = [of_char a div 4, of_char a mod 4 * 16]"
| "sextets [a, b] =
     [of_char a div 4, of_char a mod 4 * 16 + of_char b div 16, of_char b mod 16 * 4]"
| "sextets (a # b # c # cs) =
     of_char a div 4 # (of_char a mod 4 * 16 + of_char b div 16)
     # (of_char b mod 16 * 4 + of_char c div 64) # of_char c mod 64 # sextets cs"

lemma of_char_less: "(of_char (c :: char) :: nat) < 256"
  using of_char_of [of "of_char c :: nat"] by (metis char_of_def mod_less_divisor of_char_mod_256 zero_less_numeral)

lemma b64_encode_sextets: "b64_encode s = map b64_char (sextets s)"
  by (induction s rule: b64_encode.induct) auto

lemma sextet_bounds:
  fixes a b c :: nat
  assumes "a < 256" and "b < 256" and "c < 256"
  shows "a div 4 < 64" "a mod 4 * 16 < 64" "a mod 4 * 16 + b div 16 < 64"
    "b mod 16 * 4 < 64" "b mod 16 * 4 + c div 64 < 64" "c mod 64 < 64"
proof -
  have "a div 4 < 64" "b div 16 < 16" "c div 64 < 4"
    using assms by (simp_all add: less_mult_imp_div_less)
  moreover have "a mod 4 < 4" "b mod 16 < 16" "c mod 64 < 64" by simp_all
  ultimately show "a div 4 < 64" "a mod 4 * 16 < 64" "a mod 4 * 16 + b div 16 < 64"
    "b mod 16 * 4 < 64" "b mod 16 * 4 + c div 64 < 64" "c mod 64 < 64"
    by linarith+
qed

lemmas char_sextets = sextet_bounds [OF of_char_less of_char_less of_char_less]

lemma sextets_less: "x \<in> set (sextets s) \<Longrightarrow> x < 64"
  by (induction s rule: sextets.induct) (auto simp: char_sextets)

lemma sextet_join:
  fixes a b c :: nat
  assumes "a < 256" and "b < 256" and "c < 256"
  shows "a div 4 * 4 + (a mod 4 * 16) div 16 = a"
    "a div 4 * 4 + (a mod 4 * 16 + b div 16) div 16 = a"
    "(a mod 4 * 16 + b div 16) mod 16 * 16 + (b mod 16 * 4) div 4 = b"
    "(a mod 4 * 16 + b div 16) mod 16 * 16 + (b mod 16 * 4 + c div 64) div 4 = b"
    "(b mod 16 * 4 + c div 64) mod 4 * 64 + c mod 64 = c"
proof -
  have lt: "b div 16 < 16" "c div 64 < 4"
    using assms by (simp_all add: less_mult_imp_div_less)
  have "(a mod 4 * 16 + b div 16) div 16 = a mod 4"
    "(a mod 4 * 16 + b div 16) mod 16 = b div 16"
    "(b mod 16 * 4 + c div 64) div 4 = b mod 16"
    "(b mod 16 * 4 + c div 64) mod 4 = c div 64"
    using lt by (simp_all add: mod_mult_self3 div_mult_self3)
  then show "a div 4 * 4 + (a mod 4 * 16) div 16 = a"
    "a div 4 * 4 + (a mod 4 * 16 + b div 16) div 16 = a"
    "(a mod 4 * 16 + b div 16) mod 16 * 16 + (b mod 16 * 4) div 4 = b"
    "(a mod 4 * 16 + b div 16) mod 16 * 16 + (b mod 16 * 4 + c div 64) div 4 = b"
    "(b mod 16 * 4 + c div 64) mod 4 * 64 + c mod 64 = c"
    by simp_all
qed

lemmas char_join = sextet_join [OF of_char_less of_char_less of_char_less]

lemma b64_groups_sextets: "b64_groups (sextets s) = Some s"
  by (induction s rule: sextets.induct) (simp_all only: sextets.simps b64_groups.simps
      char_join char_of_char option.map)

lemma those_map_b64: "(\<And>x. x \<in> set xs \<Longrightarrow> x < 64) \<Longrightarrow> those (map b64_value (map b64_char xs)) = Some xs"
  by (induction xs) (auto simp: b64_value_char)

theorem b64_decode_encode: "b64_decode (b64_encode s) = Some s"
proof -
  have "filter (\<lambda>c. c \<noteq> CHR 0x0A \<and> c \<noteq> CHR 0x0D) (map b64_char (sextets s))
      = map b64_char (sextets s)"
    by (rule filter_True) (auto dest: sextets_less b64_char_visible)
  then show ?thesis
    by (simp only: b64_decode_def b64_encode_sextets those_map_b64 [OF sextets_less]
        bind.simps b64_groups_sextets)
qed

end
