(* ===== verification/Json.thy ===== *)
theory Json
  imports Encoding
begin

text \<open>
  The part of Go's \<open>encoding/json\<close> the program uses: the scanner and decoder of one value
  from a byte stream (numbers kept as literals, as \<open>UseNumber\<close> and \<open>RawMessage\<close> keep them),
  the normalisation a decode into \<open>map[string]any\<close> performs (last duplicate key wins) and
  \<open>Marshal\<close> (sorted keys, HTML escaping). A syntax tree \<open>json\<close> keeps object members in
  textual order with duplicates; \<open>norm\<close> is what a decode into \<open>any\<close> makes of it.
\<close>

datatype json =
    JNull
  | JBool bool
  | JNum string
  | JStr string
  | JArr "json list"
  | JObj "(string \<times> json) list"

abbreviation byte :: "char \<Rightarrow> nat" where
  "byte c \<equiv> of_char c"

section \<open>Scanning\<close>

definition is_ws :: "char \<Rightarrow> bool" where
  "is_ws c \<longleftrightarrow> byte c = 32 \<or> byte c = 9 \<or> byte c = 10 \<or> byte c = 13"

definition is_digit :: "char \<Rightarrow> bool" where
  "is_digit c \<longleftrightarrow> 48 \<le> byte c \<and> byte c \<le> 57"

definition is_hex :: "char \<Rightarrow> bool" where
  "is_hex c \<longleftrightarrow> is_digit c \<or> 97 \<le> byte c \<and> byte c \<le> 102 \<or> 65 \<le> byte c \<and> byte c \<le> 70"

definition hex_val :: "char \<Rightarrow> nat" where
  "hex_val c = (if is_digit c then byte c - 48 else if 97 \<le> byte c then byte c - 87 else byte c - 55)"

definition skip_ws :: "string \<Rightarrow> string" where
  "skip_ws s = dropWhile is_ws s"

text \<open>Numbers: sign, integer part without leading zeros, fraction, exponent.\<close>

definition scan_digits1 :: "string \<Rightarrow> (string \<times> string) option" where
  "scan_digits1 s = (if takeWhile is_digit s = [] then None
     else Some (takeWhile is_digit s, dropWhile is_digit s))"

fun scan_int :: "string \<Rightarrow> (string \<times> string) option" where
  "scan_int [] = None"
| "scan_int (c # s) = (if c = CHR ''0'' then Some ([c], s) else scan_digits1 (c # s))"

fun scan_frac :: "string \<Rightarrow> (string \<times> string) option" where
  "scan_frac [] = Some ([], [])"
| "scan_frac (c # s) = (if c = CHR ''.''
     then map_option (\<lambda>(ds, r). (c # ds, r)) (scan_digits1 s) else Some ([], c # s))"

fun scan_exp :: "string \<Rightarrow> (string \<times> string) option" where
  "scan_exp [] = Some ([], [])"
| "scan_exp (c # s) = (if c = CHR ''e'' \<or> c = CHR ''E'' then
     (case s of
        x # r \<Rightarrow> if x = CHR ''+'' \<or> x = CHR ''-''
                then map_option (\<lambda>(ds, r'). (c # x # ds, r')) (scan_digits1 r)
                else map_option (\<lambda>(ds, r'). (c # ds, r')) (scan_digits1 s)
      | [] \<Rightarrow> None)
     else Some ([], c # s))"

definition scan_number :: "string \<Rightarrow> (string \<times> string) option" where
  "scan_number s =
     (let (sign, s0) = (case s of c # r \<Rightarrow> if c = CHR ''-'' then ([c], r) else ([], s) | [] \<Rightarrow> ([], s))
      in case scan_int s0 of None \<Rightarrow> None | Some (i, s1) \<Rightarrow>
         (case scan_frac s1 of None \<Rightarrow> None | Some (f, s2) \<Rightarrow>
         (case scan_exp s2 of None \<Rightarrow> None | Some (e, s3) \<Rightarrow> Some (sign @ i @ f @ e, s3))))"

text \<open>The body of a string literal up to its closing quote, escapes still in place.\<close>

fun scan_string :: "string \<Rightarrow> (string \<times> string) option" where
  "scan_string [] = None"
| "scan_string (c # s) =
     (if c = CHR 0x22 then Some ([], s)
      else if c = CHR 0x5C then
        (case s of
           [] \<Rightarrow> None
         | e # r \<Rightarrow>
            if e = CHR ''u'' then
              (case r of
                 a # b # x # y # r' \<Rightarrow>
                   if is_hex a \<and> is_hex b \<and> is_hex x \<and> is_hex y
                   then map_option (\<lambda>(raw, t). (c # e # a # b # x # y # raw, t)) (scan_string r')
                   else None
               | _ \<Rightarrow> None)
            else if e \<in> set (CHR 0x22 # CHR 0x5C # ''/bfnrt'')
            then map_option (\<lambda>(raw, t). (c # e # raw, t)) (scan_string r)
            else None)
      else if byte c < 32 then None
      else map_option (\<lambda>(raw, t). (c # raw, t)) (scan_string s))"

section \<open>UTF-8 and unquoting\<close>

definition cont :: "char \<Rightarrow> bool" where
  "cont c \<longleftrightarrow> 128 \<le> byte c \<and> byte c \<le> 191"

text \<open>Length of the valid UTF-8 sequence at the front, 0 when there is none.\<close>

fun utf8_len :: "string \<Rightarrow> nat" where
  "utf8_len [] = 0"
| "utf8_len (c # s) =
     (let n = byte c in
      if n < 128 then 1
      else if 194 \<le> n \<and> n \<le> 223 then (case s of b # _ \<Rightarrow> if cont b then 2 else 0 | _ \<Rightarrow> 0)
      else if 224 \<le> n \<and> n \<le> 239 then
        (case s of
           b # d # _ \<Rightarrow>
             if cont b \<and> cont d \<and> (n = 224 \<longrightarrow> 160 \<le> byte b) \<and> (n = 237 \<longrightarrow> byte b \<le> 159)
             then 3 else 0
         | _ \<Rightarrow> 0)
      else if 240 \<le> n \<and> n \<le> 244 then
        (case s of
           b # d # e # _ \<Rightarrow>
             if cont b \<and> cont d \<and> cont e \<and> (n = 240 \<longrightarrow> 144 \<le> byte b) \<and> (n = 244 \<longrightarrow> byte b \<le> 143)
             then 4 else 0
         | _ \<Rightarrow> 0)
      else 0)"

definition encode_rune :: "nat \<Rightarrow> string" where
  "encode_rune r =
     (if r < 128 then [char_of r]
      else if r < 2048 then [char_of (192 + r div 64), char_of (128 + r mod 64)]
      else if r < 65536 then
        [char_of (224 + r div 4096), char_of (128 + r div 64 mod 64), char_of (128 + r mod 64)]
      else [char_of (240 + r div 262144), char_of (128 + r div 4096 mod 64),
            char_of (128 + r div 64 mod 64), char_of (128 + r mod 64)])"

definition replacement :: string where
  "replacement = encode_rune 65533"

definition u4 :: "char \<Rightarrow> char \<Rightarrow> char \<Rightarrow> char \<Rightarrow> nat" where
  "u4 a b c d = ((hex_val a * 16 + hex_val b) * 16 + hex_val c) * 16 + hex_val d"

text \<open>The low surrogate escape that follows, if any.\<close>

fun low_surrogate :: "string \<Rightarrow> nat option" where
  "low_surrogate (x # y # a # b # c # d # _) =
     (if x = CHR 0x5C \<and> y = CHR ''u'' \<and> is_hex a \<and> is_hex b \<and> is_hex c \<and> is_hex d
         \<and> 56320 \<le> u4 a b c d \<and> u4 a b c d < 57344
      then Some (u4 a b c d) else None)"
| "low_surrogate _ = None"

definition unescape1 :: "char \<Rightarrow> char" where
  "unescape1 e = (if e = CHR ''b'' then CHR 0x08 else if e = CHR ''f'' then CHR 0x0C
     else if e = CHR ''n'' then CHR 0x0A else if e = CHR ''r'' then CHR 0x0D
     else if e = CHR ''t'' then CHR 0x09 else e)"

function unquote :: "string \<Rightarrow> string" where
  "unquote [] = []"
| "unquote (c # s) =
     (if c = CHR 0x5C then
        (case s of
           [] \<Rightarrow> []
         | e # r \<Rightarrow>
            if e = CHR ''u'' then
              (case r of
                 a # b # x # y # r' \<Rightarrow>
                   (let u = u4 a b x y in
                    if 55296 \<le> u \<and> u < 57344 then
                      (case (if u < 56320 then low_surrogate r' else None) of
                         Some lo \<Rightarrow> encode_rune (65536 + (u - 55296) * 1024 + (lo - 56320))
                                    @ unquote (drop 6 r')
                       | None \<Rightarrow> replacement @ unquote r')
                    else encode_rune u @ unquote r')
               | _ \<Rightarrow> [])
            else unescape1 e # unquote r)
      else if utf8_len (c # s) = 0 then replacement @ unquote s
      else take (utf8_len (c # s)) (c # s) @ unquote (drop (utf8_len (c # s) - 1) s))"
  by pat_completeness auto
termination
  by (relation "measure length") auto

declare unquote.simps(2) [simp del]

section \<open>Values\<close>

definition max_depth :: nat where
  "max_depth = 10000"

text \<open>
  One value at the front of the input. The fuel counts characters: every recursive call
  follows at least one consumed character, so the length of the input is enough.
\<close>

fun parse_value :: "nat \<Rightarrow> nat \<Rightarrow> string \<Rightarrow> (json \<times> string) option"
  and parse_elems :: "nat \<Rightarrow> nat \<Rightarrow> string \<Rightarrow> (json list \<times> string) option"
  and parse_members :: "nat \<Rightarrow> nat \<Rightarrow> string \<Rightarrow> ((string \<times> json) list \<times> string) option" where
  "parse_value 0 d s = None"
| "parse_value (Suc n) d s =
     (case skip_ws s of
        [] \<Rightarrow> None
      | c # r \<Rightarrow>
          if c = CHR ''{'' then
            (if max_depth \<le> d then None
             else if (case skip_ws r of x # _ \<Rightarrow> x = CHR ''}'' | [] \<Rightarrow> False)
             then Some (JObj [], tl (skip_ws r))
             else map_option (\<lambda>(ms, t). (JObj ms, t)) (parse_members n (Suc d) r))
          else if c = CHR ''['' then
            (if max_depth \<le> d then None
             else if (case skip_ws r of x # _ \<Rightarrow> x = CHR '']'' | [] \<Rightarrow> False)
             then Some (JArr [], tl (skip_ws r))
             else map_option (\<lambda>(vs, t). (JArr vs, t)) (parse_elems n (Suc d) r))
          else if c = CHR 0x22 then map_option (\<lambda>(raw, t). (JStr (unquote raw), t)) (scan_string r)
          else if c = CHR ''t'' then
            (if take 3 r = ''rue'' then Some (JBool True, drop 3 r) else None)
          else if c = CHR ''f'' then
            (if take 4 r = ''alse'' then Some (JBool False, drop 4 r) else None)
          else if c = CHR ''n'' then
            (if take 3 r = ''ull'' then Some (JNull, drop 3 r) else None)
          else map_option (\<lambda>(l, t). (JNum l, t)) (scan_number (c # r)))"
| "parse_elems 0 d s = None"
| "parse_elems (Suc n) d s =
     (case parse_value n d s of
        None \<Rightarrow> None
      | Some (v, t) \<Rightarrow>
          (case skip_ws t of
             [] \<Rightarrow> None
           | c # u \<Rightarrow>
               if c = CHR '','' then map_option (\<lambda>(vs, w). (v # vs, w)) (parse_elems n d u)
               else if c = CHR '']'' then Some ([v], u) else None))"
| "parse_members 0 d s = None"
| "parse_members (Suc n) d s =
     (case skip_ws s of
        [] \<Rightarrow> None
      | q # r \<Rightarrow>
          if q \<noteq> CHR 0x22 then None
          else (case scan_string r of
             None \<Rightarrow> None
           | Some (raw, t) \<Rightarrow>
               (case skip_ws t of
                  [] \<Rightarrow> None
                | c # u \<Rightarrow>
                    if c \<noteq> CHR '':'' then None
                    else (case parse_value n d u of
                       None \<Rightarrow> None
                     | Some (v, w) \<Rightarrow>
                         (case skip_ws w of
                            [] \<Rightarrow> None
                          | x # y \<Rightarrow>
                              if x = CHR '','' then
                                map_option (\<lambda>(ms, z). ((unquote raw, v) # ms, z)) (parse_members n d y)
                              else if x = CHR ''}'' then Some ([(unquote raw, v)], y)
                              else None)))))"

definition decode_one :: "string \<Rightarrow> (json \<times> string) option" where
  "decode_one s = parse_value (Suc (length s)) 0 s"

text \<open>\<open>json.Unmarshal\<close> and the two-step \<open>Decode\<close> of the HTTP handlers accept one value only.\<close>

definition decode_all :: "string \<Rightarrow> json option" where
  "decode_all s = (case decode_one s of
     Some (v, r) \<Rightarrow> if skip_ws r = [] then Some v else None
   | None \<Rightarrow> None)"

section \<open>Decoding into \<open>any\<close>\<close>

fun put_key :: "'k::linorder \<Rightarrow> 'v \<Rightarrow> ('k \<times> 'v) list \<Rightarrow> ('k \<times> 'v) list" where
  "put_key k v [] = [(k, v)]"
| "put_key k v ((j, w) # m) =
     (if k < j then (k, v) # (j, w) # m
      else if k = j then (k, v) # m
      else (j, w) # put_key k v m)"

fun norm :: "json \<Rightarrow> json"
  and norm_list :: "json list \<Rightarrow> json list"
  and norm_members :: "(string \<times> json) list \<Rightarrow> (string \<times> json) list \<Rightarrow> (string \<times> json) list" where
  "norm (JArr vs) = JArr (norm_list vs)"
| "norm (JObj ms) = JObj (norm_members [] ms)"
| "norm v = v"
| "norm_list [] = []"
| "norm_list (v # vs) = norm v # norm_list vs"
| "norm_members acc [] = acc"
| "norm_members acc ((k, v) # ms) = norm_members (put_key k (norm v) acc) ms"

section \<open>Marshal\<close>

definition hex4 :: "nat \<Rightarrow> string" where
  "hex4 n = [nibble (n div 4096 mod 16), nibble (n div 256 mod 16), nibble (n div 16 mod 16),
     nibble (n mod 16)]"

definition escape_byte :: "char \<Rightarrow> string" where
  "escape_byte c =
     (if c = CHR 0x22 \<or> c = CHR 0x5C then [CHR 0x5C, c]
      else if c = CHR 0x08 then [CHR 0x5C, CHR ''b'']
      else if c = CHR 0x0C then [CHR 0x5C, CHR ''f'']
      else if c = CHR 0x0A then [CHR 0x5C, CHR ''n'']
      else if c = CHR 0x0D then [CHR 0x5C, CHR ''r'']
      else if c = CHR 0x09 then [CHR 0x5C, CHR ''t'']
      else if byte c < 32 \<or> c = CHR ''<'' \<or> c = CHR ''>'' \<or> c = CHR ''&''
      then CHR 0x5C # CHR ''u'' # hex4 (byte c)
      else [c])"

function escape_string :: "string \<Rightarrow> string" where
  "escape_string [] = []"
| "escape_string (c # s) =
     (if byte c < 128 then escape_byte c @ escape_string s
      else if utf8_len (c # s) = 0 then CHR 0x5C # CHR ''u'' # ''fffd'' @ escape_string s
      else if take 3 (c # s) = encode_rune 8232 then
        CHR 0x5C # CHR ''u'' # ''2028'' @ escape_string (drop 2 s)
      else if take 3 (c # s) = encode_rune 8233 then
        CHR 0x5C # CHR ''u'' # ''2029'' @ escape_string (drop 2 s)
      else take (utf8_len (c # s)) (c # s) @ escape_string (drop (utf8_len (c # s) - 1) s))"
  by pat_completeness auto
termination
  by (relation "measure length") auto

declare escape_string.simps(2) [simp del]

definition marshal_string :: "string \<Rightarrow> string" where
  "marshal_string s = CHR 0x22 # escape_string s @ [CHR 0x22]"

fun marshal :: "json \<Rightarrow> string"
  and marshal_list :: "json list \<Rightarrow> string"
  and marshal_members :: "(string \<times> json) list \<Rightarrow> string" where
  "marshal JNull = ''null''"
| "marshal (JBool b) = (if b then ''true'' else ''false'')"
| "marshal (JNum l) = l"
| "marshal (JStr s) = marshal_string s"
| "marshal (JArr vs) = ''['' @ marshal_list vs @ '']''"
| "marshal (JObj ms) = ''{'' @ marshal_members ms @ ''}''"
| "marshal_list [] = []"
| "marshal_list (v # vs) = marshal v @ (if vs = [] then [] else '','' @ marshal_list vs)"
| "marshal_members [] = []"
| "marshal_members ((k, v) # ms) =
     marshal_string k @ '':'' @ marshal v @ (if ms = [] then [] else '','' @ marshal_members ms)"

section \<open>Reading members\<close>

fun is_object :: "json \<Rightarrow> bool" where
  "is_object (JObj _) = True"
| "is_object _ = False"

text \<open>Go matches member names to struct fields exactly or up to the case of ASCII letters.\<close>

definition to_lower :: "char \<Rightarrow> char" where
  "to_lower c = (if 65 \<le> byte c \<and> byte c \<le> 90 then char_of (byte c + 32) else c)"

definition equal_fold :: "string \<Rightarrow> string \<Rightarrow> bool" where
  "equal_fold a b \<longleftrightarrow> map to_lower a = map to_lower b"

text \<open>
  Decoding one field of a struct from the members in textual order: every matching member
  assigns the field, \<open>null\<close> leaves it, a value of the wrong kind is an error (\<open>None\<close>).
\<close>

fun field :: "(json \<Rightarrow> 'a option) \<Rightarrow> string \<Rightarrow> 'a \<Rightarrow> (string \<times> json) list \<Rightarrow> 'a option" where
  "field rd name x [] = Some x"
| "field rd name x ((k, v) # ms) =
     (if \<not> equal_fold k name then field rd name x ms
      else if v = JNull then field rd name x ms
      else (case rd v of None \<Rightarrow> None | Some y \<Rightarrow> field rd name y ms))"

fun as_string :: "json \<Rightarrow> string option" where
  "as_string (JStr s) = Some s"
| "as_string _ = None"

fun as_bool :: "json \<Rightarrow> bool option" where
  "as_bool (JBool b) = Some b"
| "as_bool _ = None"

definition nat_of_digits :: "string \<Rightarrow> nat" where
  "nat_of_digits ds = foldl (\<lambda>n c. 10 * n + (byte c - 48)) 0 ds"

text \<open>\<open>strconv.ParseInt(s, 10, 64)\<close> on a JSON number literal: no fraction, no exponent, in range.\<close>

definition int64_of_literal :: "string \<Rightarrow> int option" where
  "int64_of_literal s =
     (let (neg, ds) = (case s of c # r \<Rightarrow> if c = CHR ''-'' then (True, r) else (False, s) | [] \<Rightarrow> (False, s));
          n = (if neg then - int (nat_of_digits ds) else int (nat_of_digits ds))
      in if ds \<noteq> [] \<and> list_all is_digit ds \<and> - (2 ^ 63) \<le> n \<and> n < 2 ^ 63 then Some n else None)"

fun as_int64 :: "json \<Rightarrow> int option" where
  "as_int64 (JNum l) = int64_of_literal l"
| "as_int64 _ = None"

end
