(* ===== verification/Domain.thy ===== *)
theory Domain
  imports Json Sha256
begin

text \<open>
  \<open>internal/domain\<close>: errors, operation states and strategies with their string forms, the
  transition table, the records that cross the store interface, and the request and receipt
  fingerprints. A Go string type with named constants is a datatype with those constants and
  one constructor for every other string the type admits. Times are integers (one unit is a
  nanosecond, so a \<open>time.Duration\<close> is an integer of the same unit), raw JSON is a byte string.
\<close>

type_synonym uuid = string
type_synonym uuid_parser = "string \<Rightarrow> uuid option"
type_synonym time = int
type_synonym duration = int

definition millisecond :: duration where
  "millisecond = 1000000"

definition second :: duration where
  "second = 1000 * millisecond"

section \<open>errors.go\<close>

datatype ErrorKind = ErrorValidation | ErrorNotFound | ErrorConflict | ErrorUnavailable

text \<open>
  A Go \<open>error\<close> value: a \<open>*domain.Error\<close>, or any other error, known by its message only.
\<close>

datatype error =
    DomainError (err_kind: ErrorKind) (err_code: string) (err_message: string)
      (err_details: "(string \<times> string) list") (err_cause: "error option")
  | PlainError (plain_message: string)

definition NewError :: "ErrorKind \<Rightarrow> string \<Rightarrow> string \<Rightarrow> error" where
  "NewError kind code message = DomainError kind code message [] None"

fun error_string :: "error \<Rightarrow> string" where
  "error_string (DomainError k c m d (Some cause)) = m @ '': '' @ error_string cause"
| "error_string (DomainError k c m d None) = m"
| "error_string (PlainError m) = m"

fun error_unwrap :: "error \<Rightarrow> error option" where
  "error_unwrap (DomainError k c m d cause) = cause"
| "error_unwrap (PlainError m) = None"

section \<open>types.go\<close>

datatype OperationState =
    StatePrepared | StateConfirmed | StateReconciled | StateRetryable | StateUncertain
  | OtherState string

fun state_string :: "OperationState \<Rightarrow> string" where
  "state_string StatePrepared = ''prepared''"
| "state_string StateConfirmed = ''confirmed''"
| "state_string StateReconciled = ''reconciled''"
| "state_string StateRetryable = ''retryable''"
| "state_string StateUncertain = ''uncertain''"
| "state_string (OtherState s) = s"

definition state_of_string :: "string \<Rightarrow> OperationState" where
  "state_of_string s =
     (if s = ''prepared'' then StatePrepared else if s = ''confirmed'' then StateConfirmed
      else if s = ''reconciled'' then StateReconciled else if s = ''retryable'' then StateRetryable
      else if s = ''uncertain'' then StateUncertain else OtherState s)"

datatype Strategy =
    StrategyBlindRetry | StrategyIdempotencyKey | StrategyCheckpoint | StrategyWatchkeeper
  | OtherStrategy string

datatype ObservationOutcome =
    OutcomeCompleted | OutcomeAbsent | OutcomeUnknown | OutcomeTransient | OutcomeContradictory
  | OtherOutcome string

datatype VerificationMechanism =
    MechanismReceipt | MechanismStatus | MechanismIndirect | MechanismIdempotentRepeat | MechanismNone
  | OtherMechanism string

record Receipt =
  rc_ID :: uuid
  rc_ServiceReceiptID :: string
  rc_ReceiptFingerprint :: string
  rc_Payload :: json
  rc_ReceivedAt :: time

record Operation =
  op_DispatchAuthorized :: bool
  op_ID :: uuid
  op_WorkflowID :: string
  op_LogicalKey :: string
  op_TargetService :: string
  op_Action :: string
  op_RequestFingerprint :: string
  op_ExpectedEffect :: json
  op_CapabilityProfile :: string
  op_State :: OperationState
  op_AttemptCount :: int
  op_Version :: int
  op_PreparedAt :: time
  op_ConfirmedAt :: "time option"
  op_ResolvedAt :: "time option"
  op_CreatedAt :: time
  op_UpdatedAt :: time
  op_Receipt :: "Receipt option"

text \<open>The members of an event's details: texts, and one timestamp.\<close>

datatype detail = DetailText string | DetailTime time

record Event =
  ev_ID :: int
  ev_OperationID :: uuid
  ev_EventType :: string
  ev_FromState :: "OperationState option"
  ev_ToState :: "OperationState option"
  ev_OperationVersion :: int
  ev_Source :: string
  ev_Actor :: string
  ev_ReasonCode :: string
  ev_Details :: "(string \<times> detail) list"
  ev_CreatedAt :: time

record PrepareRequest =
  pr_WorkflowID :: string
  pr_Strategy :: Strategy
  pr_ExperimentRunID :: "uuid option"
  pr_LogicalKey :: string
  pr_TargetService :: string
  pr_Action :: string
  pr_Request :: string
  pr_RequestFingerprint :: string
  pr_ExpectedEffect :: string
  pr_CapabilityProfile :: string
  pr_TraceContext :: string

record ConfirmRequest =
  cr_ExpectedVersion :: int
  cr_ServiceReceiptID :: string
  cr_Receipt :: string
  cr_ReceivedAt :: time

record OperationFilter =
  fl_WorkflowID :: string
  fl_State :: string
  fl_TargetService :: string
  fl_CreatedAfter :: "time option"
  fl_Limit :: int
  fl_Cursor :: string

record Observation =
  ob_Mechanism :: VerificationMechanism
  ob_Outcome :: ObservationOutcome
  ob_Authoritative :: bool
  ob_ExternalReference :: string
  ob_Evidence :: string

record RecoveryClaim =
  cl_Operation :: Operation
  cl_ClaimToken :: string
  cl_AttemptID :: uuid
  cl_LeaseExpiresAt :: time
  cl_Version :: int

record RecoveryResult =
  rr_ClaimToken :: string
  rr_ExpectedVersion :: int
  rr_AttemptID :: uuid
  rr_Observation :: Observation

record ManualResolution =
  mr_ExpectedVersion :: int
  mr_Actor :: string
  mr_Outcome :: string
  mr_Reason :: string
  mr_EvidenceReference :: string

section \<open>state.go\<close>

fun allowedTransitions :: "OperationState \<Rightarrow> OperationState list" where
  "allowedTransitions StatePrepared = [StateConfirmed, StateReconciled, StateRetryable, StateUncertain]"
| "allowedTransitions StateRetryable = [StatePrepared]"
| "allowedTransitions StateUncertain = [StateReconciled, StateRetryable]"
| "allowedTransitions _ = []"

fun ValidState :: "OperationState \<Rightarrow> bool" where
  "ValidState (OtherState _) = False"
| "ValidState _ = True"

definition CanTransition :: "OperationState \<Rightarrow> OperationState \<Rightarrow> bool" where
  "CanTransition frm to \<longleftrightarrow> to \<in> set (allowedTransitions frm)"

definition ValidateTransition :: "OperationState \<Rightarrow> OperationState \<Rightarrow> error + unit" where
  "ValidateTransition frm to =
     (if \<not> ValidState frm \<or> \<not> ValidState to then
        Inl (PlainError (''unknown transition '' @ state_string frm @ '' -> '' @ state_string to))
      else if \<not> CanTransition frm to then
        Inl (PlainError (''transition '' @ state_string frm @ '' -> '' @ state_string to @ '' is not allowed''))
      else Inr ())"

fun ValidStrategy :: "Strategy \<Rightarrow> bool" where
  "ValidStrategy (OtherStrategy _) = False"
| "ValidStrategy _ = True"

lemma state_of_string_inverse: "ValidState s \<Longrightarrow> state_of_string (state_string s) = s"
  by (cases s) (simp_all add: state_of_string_def)

lemma state_string_inverse: "state_string (state_of_string s) = s"
  by (simp add: state_of_string_def)

section \<open>fingerprint.go\<close>

definition CanonicalJSON :: "string \<Rightarrow> error + string" where
  "CanonicalJSON raw =
     (if raw = [] then Inl (PlainError ''JSON value is required'')
      else case decode_one raw of
        None \<Rightarrow> Inl (PlainError ''decode JSON'')
      | Some (value, rest) \<Rightarrow>
          if skip_ws rest \<noteq> [] then
            (case decode_one rest of
               Some _ \<Rightarrow> Inl (PlainError ''multiple JSON values are not allowed'')
             | None \<Rightarrow> Inl (PlainError ''decode trailing JSON''))
          else Inr (marshal (norm value)))"

text \<open>
  The fingerprinted document is the three-member struct in declaration order; a \<open>RawMessage\<close>
  that is canonical already is embedded as it is.
\<close>

definition fingerprint_payload :: "string \<Rightarrow> string \<Rightarrow> string \<Rightarrow> string" where
  "fingerprint_payload targetService action canonical =
     ''{'' @ marshal_string ''target_service'' @ '':'' @ marshal_string targetService
     @ '','' @ marshal_string ''action'' @ '':'' @ marshal_string action
     @ '','' @ marshal_string ''request'' @ '':'' @ canonical @ ''}''"

definition Fingerprint :: "string \<Rightarrow> string \<Rightarrow> string \<Rightarrow> error + string" where
  "Fingerprint targetService action request =
     bindE (CanonicalJSON request) (\<lambda>canonical.
       Inr (sha256_hex (fingerprint_payload targetService action canonical)))"

definition ReceiptFingerprint :: "string \<Rightarrow> error + string" where
  "ReceiptFingerprint receipt = bindE (CanonicalJSON receipt) (\<lambda>canonical. Inr (sha256_hex canonical))"

end
