(* ===== verification/Schema.thy ===== *)
theory Schema
  imports Domain
begin

text \<open>
  The database the store runs on: the tables of \<open>migrations/watchkeeper\<close> as lists of rows,
  what one call observes of its environment (the transaction's clock, generated identifiers,
  failing statements, the fate of the commit, rows locked by others), transactions, and the
  reads the operations share (\<open>getOperationTx\<close>, \<open>getReceiptTx\<close>). PostgreSQL, pgx and
  google/uuid are not part of the repository: they appear as the environment record.
\<close>

section \<open>Rows\<close>

record workflow_row =
  w_id :: uuid
  w_external :: string
  w_strategy :: Strategy
  w_experiment :: "uuid option"

record op_row =
  o_id :: uuid
  o_workflow :: uuid
  o_logical_key :: string
  o_target :: string
  o_action :: string
  o_fingerprint :: string
  o_expected :: json
  o_profile :: string
  o_state :: OperationState
  o_attempts :: int
  o_version :: int
  o_prepared_at :: time
  o_confirmed_at :: "time option"
  o_resolved_at :: "time option"
  o_next_reconcile :: "time option"
  o_lease_owner :: "string option"
  o_lease_hash :: "string option"
  o_lease_expires :: "time option"
  o_trace :: json
  o_created_at :: time
  o_updated_at :: time
  o_authorized :: bool

text \<open>The \<open>CHECK\<close> constraints of the \<open>operations\<close> table.\<close>

definition row_checks :: "op_row \<Rightarrow> bool" where
  "row_checks r \<longleftrightarrow> is_object (o_expected r) \<and> ValidState (o_state r)
     \<and> o_attempts r > 0 \<and> o_version r > 0
     \<and> (o_lease_owner r = None \<and> o_lease_hash r = None \<and> o_lease_expires r = None
        \<or> o_lease_owner r \<noteq> None \<and> o_lease_hash r \<noteq> None \<and> o_lease_expires r \<noteq> None)
     \<and> (o_state r \<noteq> StateConfirmed \<or> o_confirmed_at r \<noteq> None \<and> o_resolved_at r \<noteq> None)
     \<and> (o_state r \<noteq> StateReconciled \<or> o_resolved_at r \<noteq> None)"

record receipt_row =
  r_id :: uuid
  r_operation :: uuid
  r_service_id :: string
  r_fingerprint :: string
  r_payload :: json
  r_received_at :: time

record attempt_row =
  a_id :: uuid
  a_operation :: uuid
  a_number :: int
  a_owner :: string
  a_started :: time
  a_finished :: "time option"
  a_result :: "ObservationOutcome option"

record observation_row =
  b_id :: uuid
  b_attempt :: uuid
  b_mechanism :: VerificationMechanism
  b_outcome :: ObservationOutcome
  b_authoritative :: bool
  b_reference :: string
  b_evidence :: json

record decision_row =
  d_id :: uuid
  d_operation :: uuid
  d_attempt :: "uuid option"
  d_decision :: string
  d_source :: string
  d_actor :: string
  d_reason :: string
  d_refs :: json
  d_from :: OperationState
  d_to :: OperationState
  d_version :: int

record db =
  experiments :: "uuid list"
  workflows :: "workflow_row list"
  operations :: "op_row list"
  receipts :: "receipt_row list"
  attempts :: "attempt_row list"
  observations :: "observation_row list"
  decisions :: "decision_row list"
  events :: "Event list"
  event_seq :: int

definition empty_db :: "uuid list \<Rightarrow> db" where
  "empty_db runs = \<lparr>experiments = runs, workflows = [], operations = [], receipts = [],
     attempts = [], observations = [], decisions = [], events = [], event_seq = 0\<rparr>"

section \<open>The environment of one call\<close>

text \<open>
  A commit can succeed, fail, or succeed at the server with the reply lost: the last two look
  the same to the caller.
\<close>

datatype commit_fate = Committed | CommitRefused | CommitReplyLost

record env =
  now :: time
  fails :: "string \<Rightarrow> bool"         \<comment> \<open>which statements report an error, by the code's label\<close>
  fresh_id :: "string \<Rightarrow> uuid option" \<comment> \<open>what \<open>uuid.NewV7\<close> returns for each use\<close>
  entropy :: "uuid \<Rightarrow> string option" \<comment> \<open>the 32 bytes of \<open>rand.Read\<close> for each claimed row\<close>
  fate :: commit_fate
  locked :: "uuid list"              \<comment> \<open>rows other transactions hold locked\<close>
  seq_gap :: nat                     \<comment> \<open>sequence values consumed by transactions that rolled back\<close>

definition validation :: "string \<Rightarrow> string \<Rightarrow> error" where
  "validation code message = NewError ErrorValidation code message"

definition conflict :: "string \<Rightarrow> string \<Rightarrow> error" where
  "conflict code message = NewError ErrorConflict code message"

definition unavailable :: "string \<Rightarrow> error" where
  "unavailable action =
     DomainError ErrorUnavailable ''database_unavailable'' action [] (Some (PlainError ''database''))"

text \<open>A statement whose failure is wrapped by \<open>unavailable\<close>, and one whose error is returned as it is.\<close>

definition stmtU :: "env \<Rightarrow> string \<Rightarrow> error + unit" where
  "stmtU e label = guardE (fails e label) (unavailable label)"

definition stmtP :: "env \<Rightarrow> string \<Rightarrow> error + unit" where
  "stmtP e label = guardE (fails e label) (PlainError label)"

definition newID :: "env \<Rightarrow> string \<Rightarrow> error + uuid" where
  "newID e purpose = of_opt (PlainError ''generate UUIDv7'') (fresh_id e purpose)"

section \<open>Transactions\<close>

text \<open>
  \<open>BeginTx\<close>, the body on the transaction's own view, \<open>defer tx.Rollback\<close> on every error
  return, \<open>Commit\<close> at the end.
\<close>

definition run_tx :: "env \<Rightarrow> string \<Rightarrow> string \<Rightarrow> db \<Rightarrow> error + ('a \<times> db) \<Rightarrow> (error + 'a) \<times> db" where
  "run_tx e begin_label commit_label s body =
     (if fails e begin_label then (Inl (unavailable begin_label), s)
      else case body of
        Inl err \<Rightarrow> (Inl err, s)
      | Inr (x, s') \<Rightarrow>
          (case fate e of
             Committed \<Rightarrow> (Inr x, s')
           | CommitRefused \<Rightarrow> (Inl (unavailable commit_label), s)
           | CommitReplyLost \<Rightarrow> (Inl (unavailable commit_label), s')))"

lemma run_tx_Inr:
  "run_tx e b c s body = (Inr x, s') \<longleftrightarrow>
     \<not> fails e b \<and> fate e = Committed \<and> body = Inr (x, s')"
  by (auto simp: run_tx_def split: sum.splits commit_fate.splits)

lemma run_tx_ok:
  "is_ok (fst (run_tx e b c s body)) \<longleftrightarrow> \<not> fails e b \<and> fate e = Committed \<and> is_ok body"
  by (auto simp: run_tx_def split: sum.splits commit_fate.splits)

text \<open>Whatever is reported, the database either keeps its state or takes the body's.\<close>

lemma run_tx_state:
  assumes "run_tx e b c s body = (res, s')"
  obtains "s' = s" | x where "body = Inr (x, s')"
  using assms by (auto simp: run_tx_def split: if_splits sum.splits commit_fate.splits)

section \<open>Writes\<close>

definition update_op :: "uuid \<Rightarrow> (op_row \<Rightarrow> op_row) \<Rightarrow> db \<Rightarrow> db" where
  "update_op i f s = s\<lparr>operations := update_by o_id i f (operations s)\<rparr>"

definition append_event :: "env \<Rightarrow> uuid \<Rightarrow> string \<Rightarrow> OperationState option \<Rightarrow> OperationState option
    \<Rightarrow> int \<Rightarrow> string \<Rightarrow> string \<Rightarrow> string \<Rightarrow> (string \<times> detail) list \<Rightarrow> db \<Rightarrow> db" where
  "append_event e i etype frm to version source actor reason details s =
     s\<lparr>events := events s @ [\<lparr>ev_ID = event_seq s + 1 + int (seq_gap e), ev_OperationID = i,
          ev_EventType = etype, ev_FromState = frm, ev_ToState = to, ev_OperationVersion = version,
          ev_Source = source, ev_Actor = actor, ev_ReasonCode = reason, ev_Details = details,
          ev_CreatedAt = now e\<rparr>],
       event_seq := event_seq s + 1 + int (seq_gap e)\<rparr>"

section \<open>Shared reads\<close>

abbreviation op_at :: "db \<Rightarrow> uuid \<Rightarrow> op_row option" where
  "op_at s i \<equiv> lookup_by o_id i (operations s)"

abbreviation receipt_at :: "db \<Rightarrow> uuid \<Rightarrow> receipt_row option" where
  "receipt_at s i \<equiv> lookup_by r_operation i (receipts s)"

definition events_of :: "uuid \<Rightarrow> db \<Rightarrow> Event list" where
  "events_of i s = filter (\<lambda>ev. ev_OperationID ev = i) (events s)"

definition scanOperation :: "workflow_row \<Rightarrow> op_row \<Rightarrow> Operation" where
  "scanOperation w r = \<lparr>op_DispatchAuthorized = o_authorized r, op_ID = o_id r,
     op_WorkflowID = w_external w, op_LogicalKey = o_logical_key r, op_TargetService = o_target r,
     op_Action = o_action r, op_RequestFingerprint = o_fingerprint r, op_ExpectedEffect = o_expected r,
     op_CapabilityProfile = o_profile r, op_State = o_state r, op_AttemptCount = o_attempts r,
     op_Version = o_version r, op_PreparedAt = o_prepared_at r, op_ConfirmedAt = o_confirmed_at r,
     op_ResolvedAt = o_resolved_at r, op_CreatedAt = o_created_at r, op_UpdatedAt = o_updated_at r,
     op_Receipt = None\<rparr>"

definition not_found :: error where
  "not_found = NewError ErrorNotFound ''operation_not_found'' ''operation was not found''"

text \<open>The row joined with its workflow, as both readers select it.\<close>

definition joined :: "db \<Rightarrow> uuid \<Rightarrow> Operation option" where
  "joined s i = (case op_at s i of
       None \<Rightarrow> None
     | Some r \<Rightarrow> map_option (\<lambda>w. scanOperation w r) (lookup_by w_id (o_workflow r) (workflows s)))"

definition getOperationTx :: "env \<Rightarrow> db \<Rightarrow> uuid \<Rightarrow> error + Operation" where
  "getOperationTx e s i = bindE (stmtU e ''read operation'') (\<lambda>_. of_opt not_found (joined s i))"

definition getOperationForUpdate :: "env \<Rightarrow> db \<Rightarrow> uuid \<Rightarrow> error + Operation" where
  "getOperationForUpdate e s i = bindE (stmtU e ''lock operation'') (\<lambda>_. of_opt not_found (joined s i))"

definition ErrNoRows :: error where
  "ErrNoRows = PlainError ''no rows in result set''"

definition scanReceipt :: "receipt_row \<Rightarrow> Receipt" where
  "scanReceipt r = \<lparr>rc_ID = r_id r, rc_ServiceReceiptID = r_service_id r,
     rc_ReceiptFingerprint = r_fingerprint r, rc_Payload = r_payload r, rc_ReceivedAt = r_received_at r\<rparr>"

definition getReceiptTx :: "env \<Rightarrow> db \<Rightarrow> uuid \<Rightarrow> error + Receipt" where
  "getReceiptTx e s i =
     bindE (stmtU e ''read receipt'') (\<lambda>_. of_opt ErrNoRows (map_option scanReceipt (receipt_at s i)))"

text \<open>A JSON document bound to a \<open>jsonb\<close> parameter; an empty one is the caller's default.\<close>

definition jsonb :: "string \<Rightarrow> json option" where
  "jsonb raw = decode_all raw"

section \<open>How reads look after a write\<close>

lemma op_at_update_op [store_simps]:
  assumes "\<And>r. o_id (f r) = o_id r"
  shows "op_at (update_op i f s) j = (if j = i then map_option f (op_at s i) else op_at s j)"
  using assms by (simp add: update_op_def lookup_by_update)

lemma update_op_other [store_simps]:
  "workflows (update_op i f s) = workflows s" "receipts (update_op i f s) = receipts s"
  "attempts (update_op i f s) = attempts s" "observations (update_op i f s) = observations s"
  "decisions (update_op i f s) = decisions s" "events (update_op i f s) = events s"
  "event_seq (update_op i f s) = event_seq s" "experiments (update_op i f s) = experiments s"
  by (simp_all add: update_op_def)

lemma append_event_other [store_simps]:
  "workflows (append_event e i t f g v a b c d s) = workflows s"
  "operations (append_event e i t f g v a b c d s) = operations s"
  "receipts (append_event e i t f g v a b c d s) = receipts s"
  "attempts (append_event e i t f g v a b c d s) = attempts s"
  "observations (append_event e i t f g v a b c d s) = observations s"
  "decisions (append_event e i t f g v a b c d s) = decisions s"
  "experiments (append_event e i t f g v a b c d s) = experiments s"
  by (simp_all add: append_event_def)

lemma event_seq_append_event [store_simps]:
  "event_seq (append_event e i t f g v a b c d s) = event_seq s + 1 + int (seq_gap e)"
  by (simp add: append_event_def)

lemma joined_eq_Some [store_simps]:
  "joined s i = Some op \<longleftrightarrow>
     (\<exists>r w. op_at s i = Some r \<and> lookup_by w_id (o_workflow r) (workflows s) = Some w
            \<and> op = scanOperation w r)"
  by (auto simp: joined_def split: option.splits)

lemma scanOperation_sel [simp]:
  "op_State (scanOperation w r) = o_state r" "op_Version (scanOperation w r) = o_version r"
  "op_DispatchAuthorized (scanOperation w r) = o_authorized r" "op_ID (scanOperation w r) = o_id r"
  "op_CapabilityProfile (scanOperation w r) = o_profile r"
  "op_AttemptCount (scanOperation w r) = o_attempts r" "op_Receipt (scanOperation w r) = None"
  "op_WorkflowID (scanOperation w r) = w_external w"
  "op_RequestFingerprint (scanOperation w r) = o_fingerprint r"
  "op_LogicalKey (scanOperation w r) = o_logical_key r"
  "op_ExpectedEffect (scanOperation w r) = o_expected r"
  "op_ResolvedAt (scanOperation w r) = o_resolved_at r"
  "op_ConfirmedAt (scanOperation w r) = o_confirmed_at r"
  by (simp_all add: scanOperation_def)

lemma stmt_ok [simp]:
  "stmtU e l = Inr u \<longleftrightarrow> \<not> fails e l" "stmtP e l = Inr u \<longleftrightarrow> \<not> fails e l"
  by (simp_all add: stmtU_def stmtP_def)

lemma newID_ok [simp]: "newID e p = Inr i \<longleftrightarrow> fresh_id e p = Some i"
  by (simp add: newID_def)

lemma getOperation_ok [store_simps]:
  "getOperationTx e s i = Inr op \<longleftrightarrow> \<not> fails e ''read operation'' \<and> joined s i = Some op"
  "getOperationForUpdate e s i = Inr op \<longleftrightarrow> \<not> fails e ''lock operation'' \<and> joined s i = Some op"
  by (auto simp: getOperationTx_def getOperationForUpdate_def bindE_Inr_iff)

end
