(* ===== verification/Store.thy ===== *)
theory Store
  imports Schema
begin

text \<open>
  \<open>internal/store/postgres.go\<close> and \<open>dispatch.go\<close>: preparing an intent, authorising its one
  dispatch, confirming a receipt, and the reads. Every operation is a function from the
  environment of the call and the database to the call's result and the next database.
\<close>

section \<open>Prepare\<close>

text \<open>
  The row's \<open>CHECK\<close> constraint on the strategy is tested before the conflict clause; key and
  foreign-key violations only concern a row that is inserted.
\<close>

definition ensureWorkflow :: "env \<Rightarrow> db \<Rightarrow> PrepareRequest \<Rightarrow> error + (uuid \<times> db)" where
  "ensureWorkflow e s req =
     bindE (newID e ''workflow'') (\<lambda>new.
     bindE (stmtU e ''insert workflow'') (\<lambda>_.
     bindE (guardE (\<not> ValidStrategy (pr_Strategy req)) (unavailable ''insert workflow'')) (\<lambda>_.
     bindE (case lookup_by w_external (pr_WorkflowID req) (workflows s) of
              Some w \<Rightarrow> Inr s
            | None \<Rightarrow>
                if lookup_by w_id new (workflows s) \<noteq> None
                   \<or> (case pr_ExperimentRunID req of Some run \<Rightarrow> run \<notin> set (experiments s) | None \<Rightarrow> False)
                then Inl (unavailable ''insert workflow'')
                else Inr (s\<lparr>workflows := workflows s @
                       [\<lparr>w_id = new, w_external = pr_WorkflowID req, w_strategy = pr_Strategy req,
                         w_experiment = pr_ExperimentRunID req\<rparr>]\<rparr>)) (\<lambda>s1.
     bindE (stmtU e ''read workflow'') (\<lambda>_.
     bindE (of_opt (unavailable ''read workflow'')
              (lookup_by w_external (pr_WorkflowID req) (workflows s1))) (\<lambda>w.
     bindE (guardE (w_strategy w \<noteq> pr_Strategy req \<or> w_experiment w \<noteq> pr_ExperimentRunID req)
              (conflict ''workflow_metadata_conflict''
                 ''workflow already exists with different strategy or experiment run'')) (\<lambda>_.
     Inr (w_id w, s1))))))))"

definition natural_key :: "uuid \<Rightarrow> string \<Rightarrow> db \<Rightarrow> op_row option" where
  "natural_key wid key s = find (\<lambda>r. o_workflow r = wid \<and> o_logical_key r = key) (operations s)"

definition new_op_row :: "env \<Rightarrow> uuid \<Rightarrow> uuid \<Rightarrow> PrepareRequest \<Rightarrow> json \<Rightarrow> json \<Rightarrow> op_row" where
  "new_op_row e i wid req effect trace = \<lparr>o_id = i, o_workflow = wid,
     o_logical_key = pr_LogicalKey req, o_target = pr_TargetService req, o_action = pr_Action req,
     o_fingerprint = pr_RequestFingerprint req, o_expected = effect,
     o_profile = pr_CapabilityProfile req, o_state = StatePrepared, o_attempts = 1, o_version = 1,
     o_prepared_at = now e, o_confirmed_at = None, o_resolved_at = None, o_next_reconcile = None,
     o_lease_owner = None, o_lease_hash = None, o_lease_expires = None, o_trace = trace,
     o_created_at = now e, o_updated_at = now e, o_authorized = False\<rparr>"

text \<open>
  \<open>INSERT ... ON CONFLICT (workflow_id, logical_key) DO NOTHING RETURNING id\<close>: the id of the
  inserted row, or no row when the natural key is taken. Invalid \<open>jsonb\<close> and the check that the
  expected effect is an object come first.
\<close>

definition insert_operation ::
    "env \<Rightarrow> uuid \<Rightarrow> uuid \<Rightarrow> PrepareRequest \<Rightarrow> db \<Rightarrow> error + (uuid option \<times> db)" where
  "insert_operation e i wid req s =
     bindE (stmtU e ''insert operation'') (\<lambda>_.
     bindE (of_opt (unavailable ''insert operation'') (jsonb (pr_ExpectedEffect req))) (\<lambda>effect.
     bindE (of_opt (unavailable ''insert operation'')
              (jsonb (if pr_TraceContext req = [] then ''{}'' else pr_TraceContext req))) (\<lambda>trace.
     bindE (guardE (\<not> is_object effect) (unavailable ''insert operation'')) (\<lambda>_.
       (case natural_key wid (pr_LogicalKey req) s of
          Some _ \<Rightarrow> Inr (None, s)
        | None \<Rightarrow>
            if op_at s i \<noteq> None then Inl (unavailable ''insert operation'')
            else Inr (Some i, s\<lparr>operations := operations s @ [new_op_row e i wid req effect trace]\<rparr>))))))"

definition fingerprint_conflict :: "uuid \<Rightarrow> error" where
  "fingerprint_conflict i = DomainError ErrorConflict ''operation_fingerprint_conflict''
     ''logical operation already exists with a different fingerprint'' [(''operation_id'', i)] None"

definition prepare_body :: "env \<Rightarrow> db \<Rightarrow> PrepareRequest \<Rightarrow> error + ((Operation \<times> bool) \<times> db)" where
  "prepare_body e s req =
     bindE (ensureWorkflow e s req) (\<lambda>(wid, s1).
     bindE (newID e ''operation'') (\<lambda>new.
     bindE (insert_operation e new wid req s1) (\<lambda>(inserted, s2).
       (case inserted of
          None \<Rightarrow>
            bindE (stmtU e ''read existing operation'') (\<lambda>_.
            bindE (of_opt (unavailable ''read existing operation'')
                     (natural_key wid (pr_LogicalKey req) s2)) (\<lambda>r.
            bindE (guardE (o_fingerprint r \<noteq> pr_RequestFingerprint req)
                     (fingerprint_conflict (o_id r))) (\<lambda>_.
            bindE (getOperationTx e s2 (o_id r)) (\<lambda>op. Inr ((op, False), s2)))))
        | Some i \<Rightarrow>
            bindE (stmtU e ''append intent event'') (\<lambda>_.
            let s3 = append_event e i ''intent_prepared'' None (Some StatePrepared) 1 ''api''
                       ''watchkeeper-api'' ''intent_persisted'' [] s2
            in bindE (getOperationTx e s3 i) (\<lambda>op. Inr ((op, True), s3)))))))"

definition Prepare :: "env \<Rightarrow> db \<Rightarrow> PrepareRequest \<Rightarrow> (error + (Operation \<times> bool)) \<times> db" where
  "Prepare e s req =
     run_tx e ''begin prepare transaction'' ''commit prepare'' s (prepare_body e s req)"

section \<open>AuthorizeDispatch\<close>

definition dispatch_not_authorized :: error where
  "dispatch_not_authorized = conflict ''dispatch_not_authorized''
     ''dispatch already issued, recovery claimed, or operation version/state changed''"

definition authorize_row :: "env \<Rightarrow> op_row \<Rightarrow> op_row" where
  "authorize_row e r = r\<lparr>o_authorized := True, o_version := o_version r + 1, o_updated_at := now e\<rparr>"

definition authorize_body :: "env \<Rightarrow> db \<Rightarrow> uuid \<Rightarrow> int \<Rightarrow> error + (Operation \<times> db)" where
  "authorize_body e s i version =
     bindE (getOperationForUpdate e s i) (\<lambda>op.
     bindE (stmtP e ''read dispatch lease'') (\<lambda>_.
     bindE (of_opt ErrNoRows (map_option (\<lambda>r. o_lease_hash r \<noteq> None) (op_at s i))) (\<lambda>claimed.
     bindE (guardE (op_State op \<noteq> StatePrepared \<or> op_Version op \<noteq> version
                    \<or> op_DispatchAuthorized op \<or> claimed) dispatch_not_authorized) (\<lambda>_.
     bindE (stmtP e ''authorize dispatch'') (\<lambda>_.
     bindE (stmtP e ''append dispatch event'') (\<lambda>_.
     let s1 = append_event e i ''dispatch_authorized'' (Some StatePrepared) (Some StatePrepared)
                (version + 1) ''worker'' ''workflow-worker'' ''single_send_authorized'' []
                (update_op i (authorize_row e) s)
     in bindE (getOperationTx e s1 i) (\<lambda>op'. Inr (op', s1))))))))"

definition AuthorizeDispatch :: "env \<Rightarrow> db \<Rightarrow> uuid \<Rightarrow> int \<Rightarrow> (error + Operation) \<times> db" where
  "AuthorizeDispatch e s i version =
     run_tx e ''begin dispatch'' ''commit dispatch'' s (authorize_body e s i version)"

section \<open>Confirm\<close>

definition confirm_row :: "env \<Rightarrow> op_row \<Rightarrow> op_row" where
  "confirm_row e r = r\<lparr>o_state := StateConfirmed, o_version := o_version r + 1,
     o_confirmed_at := Some (now e), o_resolved_at := Some (now e), o_lease_owner := None,
     o_lease_hash := None, o_lease_expires := None, o_updated_at := now e\<rparr>"

text \<open>The primary key and the one-receipt-per-operation key of \<open>receipts\<close>.\<close>

definition insert_receipt :: "receipt_row \<Rightarrow> db \<Rightarrow> error + db" where
  "insert_receipt r s =
     (if lookup_by r_id (r_id r) (receipts s) \<noteq> None \<or> receipt_at s (r_operation r) \<noteq> None
      then Inl (unavailable ''insert receipt'')
      else Inr (s\<lparr>receipts := receipts s @ [r]\<rparr>))"

text \<open>The row with its receipt, as both branches of \<open>Confirm\<close> and \<open>GetOperation\<close> return it.\<close>

definition with_receipt :: "env \<Rightarrow> db \<Rightarrow> uuid \<Rightarrow> error + Operation" where
  "with_receipt e s i =
     bindE (getOperationTx e s i) (\<lambda>op.
     bindE (getReceiptTx e s i) (\<lambda>rc. Inr (op\<lparr>op_Receipt := Some rc\<rparr>)))"

definition confirm_replay :: "env \<Rightarrow> db \<Rightarrow> uuid \<Rightarrow> ConfirmRequest \<Rightarrow> string \<Rightarrow> receipt_row
    \<Rightarrow> error + (Operation \<times> db)" where
  "confirm_replay e s i req fingerprint r =
     bindE (guardE (r_fingerprint r \<noteq> fingerprint \<or> r_service_id r \<noteq> cr_ServiceReceiptID req)
              (conflict ''receipt_conflict'' ''operation already has a different receipt'')) (\<lambda>_.
     bindE (with_receipt e s i) (\<lambda>op. Inr (op, s)))"

definition confirm_first :: "env \<Rightarrow> db \<Rightarrow> uuid \<Rightarrow> ConfirmRequest \<Rightarrow> string \<Rightarrow> Operation
    \<Rightarrow> error + (Operation \<times> db)" where
  "confirm_first e s i req fingerprint op =
     bindE (guardE (op_State op \<noteq> StatePrepared)
              (conflict ''operation_state_conflict'' ''only a prepared operation can be confirmed'')) (\<lambda>_.
     bindE (guardE (op_Version op \<noteq> cr_ExpectedVersion req)
              (conflict ''operation_version_conflict''
                 ''operation version does not match expected_version'')) (\<lambda>_.
     bindE (newID e ''receipt'') (\<lambda>rid.
     bindE (stmtU e ''insert receipt'') (\<lambda>_.
     bindE (of_opt (unavailable ''insert receipt'') (jsonb (cr_Receipt req))) (\<lambda>payload.
     bindE (insert_receipt \<lparr>r_id = rid, r_operation = i, r_service_id = cr_ServiceReceiptID req,
              r_fingerprint = fingerprint, r_payload = payload, r_received_at = cr_ReceivedAt req\<rparr> s) (\<lambda>s1.
     bindE (stmtU e ''confirm operation'') (\<lambda>_.
     bindE (stmtU e ''read confirmed version'') (\<lambda>_.
     let s2 = update_op i (confirm_row e) s1 in
     bindE (of_opt (unavailable ''read confirmed version'') (map_option o_version (op_at s2 i))) (\<lambda>newVersion.
     bindE (stmtU e ''append confirmation event'') (\<lambda>_.
     let s3 = append_event e i ''receipt_confirmed'' (Some StatePrepared) (Some StateConfirmed)
                newVersion ''api'' ''watchkeeper-api'' ''receipt_persisted''
                [(''receipt_id'', DetailText rid)] s2
     in bindE (with_receipt e s3 i) (\<lambda>op'. Inr (op', s3))))))))))))"

definition confirm_body :: "env \<Rightarrow> db \<Rightarrow> uuid \<Rightarrow> ConfirmRequest \<Rightarrow> string \<Rightarrow> error + (Operation \<times> db)" where
  "confirm_body e s i req fingerprint =
     bindE (getOperationForUpdate e s i) (\<lambda>op.
     bindE (stmtU e ''read receipt'') (\<lambda>_.
       (case receipt_at s i of
          Some r \<Rightarrow> confirm_replay e s i req fingerprint r
        | None \<Rightarrow> confirm_first e s i req fingerprint op)))"

definition Confirm :: "env \<Rightarrow> db \<Rightarrow> uuid \<Rightarrow> ConfirmRequest \<Rightarrow> (error + Operation) \<times> db" where
  "Confirm e s i req =
     (case ReceiptFingerprint (cr_Receipt req) of
        Inl err \<Rightarrow> (Inl (validation ''invalid_receipt'' (error_string err)), s)
      | Inr fingerprint \<Rightarrow>
          run_tx e ''begin confirmation transaction''
            (if receipt_at s i = None then ''commit confirmation'' else ''commit idempotent confirmation'')
            s (confirm_body e s i req fingerprint))"

section \<open>Reads\<close>

text \<open>
  \<open>GetOperation\<close> reads the operation and its receipt in two statements outside a transaction:
  the second may see a later database than the first.
\<close>

definition GetOperation :: "env \<Rightarrow> db \<Rightarrow> db \<Rightarrow> uuid \<Rightarrow> error + Operation" where
  "GetOperation e s1 s2 i =
     bindE (getOperationTx e s1 i) (\<lambda>op.
       (case getReceiptTx e s2 i of
          Inr rc \<Rightarrow> Inr (op\<lparr>op_Receipt := Some rc\<rparr>)
        | Inl err \<Rightarrow> if err = ErrNoRows then Inr (op\<lparr>op_Receipt := None\<rparr>) else Inl err))"

end
