(* ===== verification/Recovery_Store.thy ===== *)
theory Recovery_Store
  imports Store "HOL-Library.Option_ord"
begin

text \<open>
  \<open>internal/store/recovery.go\<close>: new attempts, reconciliation requests, the claim queue and its
  leases, recovery results with their decision table, and manual resolutions.
\<close>

section \<open>BeginRetry and RequestReconciliation\<close>

definition version_conflict :: error where
  "version_conflict = conflict ''operation_version_conflict''
     ''operation version does not match expected_version''"

definition retry_row :: "env \<Rightarrow> int \<Rightarrow> op_row \<Rightarrow> op_row" where
  "retry_row e newVersion r = r\<lparr>o_authorized := False, o_state := StatePrepared,
     o_attempts := o_attempts r + 1, o_version := newVersion, o_prepared_at := now e,
     o_resolved_at := None, o_next_reconcile := None, o_updated_at := now e\<rparr>"

definition retry_body :: "env \<Rightarrow> db \<Rightarrow> uuid \<Rightarrow> int \<Rightarrow> string \<Rightarrow> error + (Operation \<times> db)" where
  "retry_body e s i expectedVersion reason =
     bindE (getOperationForUpdate e s i) (\<lambda>op.
     bindE (guardE (op_State op \<noteq> StateRetryable)
              (conflict ''operation_state_conflict''
                 ''only a retryable operation can begin another attempt'')) (\<lambda>_.
     bindE (guardE (op_Version op \<noteq> expectedVersion) version_conflict) (\<lambda>_.
     let newVersion = op_Version op + 1 in
     bindE (stmtU e ''begin retry'') (\<lambda>_.
     bindE (stmtU e ''append retry event'') (\<lambda>_.
     let s1 = append_event e i ''retry_started'' (Some StateRetryable) (Some StatePrepared) newVersion
                ''worker'' ''workflow-worker'' reason [] (update_op i (retry_row e newVersion) s)
     in bindE (getOperationTx e s1 i) (\<lambda>op'. Inr (op', s1)))))))"

definition BeginRetry :: "env \<Rightarrow> db \<Rightarrow> uuid \<Rightarrow> int \<Rightarrow> string \<Rightarrow> (error + Operation) \<times> db" where
  "BeginRetry e s i expectedVersion reason =
     run_tx e ''begin retry transaction'' ''commit retry'' s (retry_body e s i expectedVersion reason)"

definition request_row :: "env \<Rightarrow> int \<Rightarrow> op_row \<Rightarrow> op_row" where
  "request_row e newVersion r =
     r\<lparr>o_version := newVersion, o_next_reconcile := Some (now e), o_updated_at := now e\<rparr>"

definition request_body :: "env \<Rightarrow> db \<Rightarrow> uuid \<Rightarrow> int \<Rightarrow> string \<Rightarrow> string \<Rightarrow> error + (Operation \<times> db)" where
  "request_body e s i expectedVersion actor reason =
     bindE (getOperationForUpdate e s i) (\<lambda>op.
     bindE (guardE (op_State op \<noteq> StatePrepared \<and> op_State op \<noteq> StateUncertain)
              (conflict ''operation_state_conflict''
                 ''only prepared or uncertain operations can be reconciled'')) (\<lambda>_.
     bindE (guardE (op_Version op \<noteq> expectedVersion) version_conflict) (\<lambda>_.
     let newVersion = op_Version op + 1 in
     bindE (stmtU e ''queue reconciliation'') (\<lambda>_.
     bindE (stmtU e ''append reconciliation request'') (\<lambda>_.
     let s1 = append_event e i ''reconciliation_requested'' (Some (op_State op)) (Some (op_State op))
                newVersion ''manual'' actor reason [] (update_op i (request_row e newVersion) s)
     in bindE (getOperationTx e s1 i) (\<lambda>op'. Inr (op', s1)))))))"

definition RequestReconciliation ::
    "env \<Rightarrow> db \<Rightarrow> uuid \<Rightarrow> int \<Rightarrow> string \<Rightarrow> string \<Rightarrow> (error + Operation) \<times> db" where
  "RequestReconciliation e s i expectedVersion actor reason =
     run_tx e ''begin reconciliation request'' ''commit reconciliation request'' s
       (request_body e s i expectedVersion actor reason)"

section \<open>Claim tokens\<close>

definition claimTokenHash :: "string \<Rightarrow> string" where
  "claimTokenHash token = sha256_hex token"

definition randomClaimToken :: "env \<Rightarrow> uuid \<Rightarrow> error + (string \<times> string)" where
  "randomClaimToken e i =
     bindE (of_opt (PlainError ''entropy'') (entropy e i)) (\<lambda>raw.
       let plain = b64_encode raw in Inr (plain, claimTokenHash plain))"

section \<open>The claim queue\<close>

text \<open>\<open>ORDER BY next_reconcile_at NULLS FIRST, prepared_at, id\<close> as an order on keys.\<close>

datatype claim_key = Claim_Key (ck_next: "time option") (ck_prepared: time) (ck_id: uuid)

instantiation claim_key :: linorder
begin

definition less_claim_key :: "claim_key \<Rightarrow> claim_key \<Rightarrow> bool" where
  "less_claim_key a b \<longleftrightarrow> ck_next a < ck_next b
     \<or> ck_next a = ck_next b \<and> (ck_prepared a < ck_prepared b
        \<or> ck_prepared a = ck_prepared b \<and> ck_id a < ck_id b)"

definition less_eq_claim_key :: "claim_key \<Rightarrow> claim_key \<Rightarrow> bool" where
  "less_eq_claim_key a b \<longleftrightarrow> a = b \<or> a < b"

instance
proof
  fix a b c :: claim_key
  show "a < b \<longleftrightarrow> a \<le> b \<and> \<not> b \<le> a"
    by (cases a; cases b) (auto simp: less_eq_claim_key_def less_claim_key_def)
  show "a \<le> a"
    by (simp add: less_eq_claim_key_def)
  show "a \<le> b \<Longrightarrow> b \<le> c \<Longrightarrow> a \<le> c"
    by (auto simp: less_eq_claim_key_def less_claim_key_def)
  show "a \<le> b \<Longrightarrow> b \<le> a \<Longrightarrow> a = b"
    by (auto simp: less_eq_claim_key_def less_claim_key_def)
  show "a \<le> b \<or> b \<le> a"
    by (cases a; cases b) (auto simp: less_eq_claim_key_def less_claim_key_def)
qed

end

definition claim_key :: "op_row \<Rightarrow> claim_key" where
  "claim_key r = Claim_Key (o_next_reconcile r) (o_prepared_at r) (o_id r)"

fun due :: "time \<Rightarrow> time option \<Rightarrow> bool" where
  "due t None = False"
| "due t (Some d) = (d \<le> t)"

definition claimable :: "time \<Rightarrow> duration \<Rightarrow> db \<Rightarrow> string \<Rightarrow> op_row \<Rightarrow> bool" where
  "claimable t preparedGrace s workflowID r \<longleftrightarrow>
     (\<exists>w \<in> set (workflows s). w_id w = o_workflow r \<and> w_strategy w = StrategyWatchkeeper
        \<and> (workflowID = [] \<or> w_external w = workflowID))
     \<and> (o_state r = StatePrepared
          \<and> (o_prepared_at r \<le> t - preparedGrace \<or> due t (o_next_reconcile r))
        \<or> o_state r = StateUncertain \<and> due t (o_next_reconcile r))
     \<and> (o_next_reconcile r = None \<or> due t (o_next_reconcile r))
     \<and> (o_lease_expires r = None \<or> due t (o_lease_expires r))"

text \<open>\<open>FOR UPDATE SKIP LOCKED LIMIT\<close>: rows locked elsewhere are passed over.\<close>

definition recovery_work :: "env \<Rightarrow> db \<Rightarrow> int \<Rightarrow> duration \<Rightarrow> string \<Rightarrow> uuid list" where
  "recovery_work e s limit preparedGrace workflowID =
     map o_id (take (nat limit)
       (filter (\<lambda>r. o_id r \<notin> set (locked e))
         (sort_key claim_key (filter (claimable (now e) preparedGrace s workflowID) (operations s)))))"

definition claim_row :: "env \<Rightarrow> string \<Rightarrow> string \<Rightarrow> duration \<Rightarrow> op_row \<Rightarrow> op_row" where
  "claim_row e workerID hashed leaseDuration r = r\<lparr>o_lease_owner := Some workerID,
     o_lease_hash := Some hashed, o_lease_expires := Some (now e + leaseDuration),
     o_version := o_version r + 1, o_updated_at := now e\<rparr>"

definition next_attempt_number :: "db \<Rightarrow> uuid \<Rightarrow> int" where
  "next_attempt_number s i =
     fold max (map a_number (filter (\<lambda>a. a_operation a = i) (attempts s))) 0 + 1"

definition insert_attempt :: "attempt_row \<Rightarrow> db \<Rightarrow> error + db" where
  "insert_attempt a s =
     (if lookup_by a_id (a_id a) (attempts s) \<noteq> None
         \<or> (\<exists>b \<in> set (attempts s). a_operation b = a_operation a \<and> a_number b = a_number a)
      then Inl (unavailable ''create reconciliation attempt'')
      else Inr (s\<lparr>attempts := attempts s @ [a]\<rparr>))"

definition claim_one :: "env \<Rightarrow> string \<Rightarrow> duration \<Rightarrow> uuid \<Rightarrow> db \<Rightarrow> error + (RecoveryClaim \<times> db)" where
  "claim_one e workerID leaseDuration i s =
     bindE (randomClaimToken e i) (\<lambda>(plain, hashed).
     bindE (newID e (''attempt '' @ i)) (\<lambda>attemptID.
     bindE (stmtU e (''allocate reconciliation attempt'')) (\<lambda>_.
     let attemptNumber = next_attempt_number s i in
     bindE (stmtU e (''claim recovery operation'')) (\<lambda>_.
     bindE (of_opt (unavailable ''claim recovery operation'') (op_at s i)) (\<lambda>r0.
     let s1 = update_op i (claim_row e workerID hashed leaseDuration) s;
         r = claim_row e workerID hashed leaseDuration r0 in
     bindE (stmtU e ''create reconciliation attempt'') (\<lambda>_.
     bindE (insert_attempt \<lparr>a_id = attemptID, a_operation = i, a_number = attemptNumber,
              a_owner = workerID, a_started = now e, a_finished = None, a_result = None\<rparr> s1) (\<lambda>s2.
     bindE (stmtU e ''append recovery claim'') (\<lambda>_.
     let s3 = append_event e i ''recovery_claimed'' (Some (o_state r)) (Some (o_state r)) (o_version r)
                ''coordinator'' workerID ''lease_acquired''
                [(''attempt_id'', DetailText attemptID),
                 (''lease_expires_at'', DetailTime (now e + leaseDuration))] s2 in
     bindE (getOperationTx e s3 i) (\<lambda>op.
       Inr (\<lparr>cl_Operation = op, cl_ClaimToken = plain, cl_AttemptID = attemptID,
             cl_LeaseExpiresAt = now e + leaseDuration, cl_Version = o_version r\<rparr>, s3))))))))))"

fun claim_all :: "env \<Rightarrow> string \<Rightarrow> duration \<Rightarrow> uuid list \<Rightarrow> db \<Rightarrow> error + (RecoveryClaim list \<times> db)" where
  "claim_all e workerID leaseDuration [] s = Inr ([], s)"
| "claim_all e workerID leaseDuration (i # is) s =
     bindE (claim_one e workerID leaseDuration i s) (\<lambda>(c, s1).
     bindE (claim_all e workerID leaseDuration is s1) (\<lambda>(cs, s2). Inr (c # cs, s2)))"

definition ClaimRecoveryForWorkflow :: "env \<Rightarrow> db \<Rightarrow> string \<Rightarrow> int \<Rightarrow> duration \<Rightarrow> duration \<Rightarrow> string
    \<Rightarrow> (error + RecoveryClaim list) \<times> db" where
  "ClaimRecoveryForWorkflow e s workerID limit leaseDuration preparedGrace workflowID =
     run_tx e ''begin claim transaction'' ''commit recovery claims'' s
       (bindE (stmtU e ''select recovery work'') (\<lambda>_.
          claim_all e workerID leaseDuration (recovery_work e s limit preparedGrace workflowID) s))"

definition ClaimRecovery :: "env \<Rightarrow> db \<Rightarrow> string \<Rightarrow> int \<Rightarrow> duration \<Rightarrow> duration
    \<Rightarrow> (error + RecoveryClaim list) \<times> db" where
  "ClaimRecovery e s workerID limit leaseDuration preparedGrace =
     ClaimRecoveryForWorkflow e s workerID limit leaseDuration preparedGrace []"

definition lease_lost :: error where
  "lease_lost = conflict ''lease_lost'' ''recovery lease is missing or expired''"

definition renew_row :: "env \<Rightarrow> duration \<Rightarrow> op_row \<Rightarrow> op_row" where
  "renew_row e d r = r\<lparr>o_lease_expires := Some (now e + d), o_updated_at := now e\<rparr>"

text \<open>One auto-committed \<open>UPDATE ... WHERE ... RETURNING\<close>; no row matched means the lease is lost.\<close>

definition RenewClaim :: "env \<Rightarrow> db \<Rightarrow> uuid \<Rightarrow> string \<Rightarrow> duration \<Rightarrow> (error + time) \<times> db" where
  "RenewClaim e s i token d =
     run_tx e ''renew recovery lease'' ''renew recovery lease'' s
       (case op_at s i of
          None \<Rightarrow> Inl lease_lost
        | Some r \<Rightarrow>
            if o_lease_hash r = Some (claimTokenHash token)
               \<and> (case o_lease_expires r of Some x \<Rightarrow> now e < x | None \<Rightarrow> False)
            then Inr (now e + d, update_op i (renew_row e d) s)
            else Inl lease_lost)"

section \<open>SubmitRecoveryResult\<close>

fun validObservation :: "Observation \<Rightarrow> error + unit" where
  "validObservation ob =
     (case ob_Mechanism ob of
        OtherMechanism _ \<Rightarrow> Inl (PlainError ''invalid verification mechanism'')
      | _ \<Rightarrow> (case ob_Outcome ob of
          OtherOutcome _ \<Rightarrow> Inl (PlainError ''invalid observation outcome'')
        | _ \<Rightarrow> Inr ()))"

record verdict =
  v_toState :: OperationState
  v_reason :: string
  v_decision :: string
  v_delay :: duration
  v_resolved :: bool

text \<open>\<open>250 * time.Millisecond * time.Duration(1<<(attemptNumber-1))\<close>, capped at ten seconds.\<close>

definition transient_delay :: "int \<Rightarrow> duration" where
  "transient_delay attemptNumber = min (250 * millisecond * 2 ^ nat (attemptNumber - 1)) (10 * second)"

definition decide :: "Operation \<Rightarrow> Observation \<Rightarrow> int \<Rightarrow> verdict" where
  "decide op ob attemptNumber =
     (if ob_Authoritative ob \<and> ob_Outcome ob = OutcomeCompleted then
        \<lparr>v_toState = StateReconciled, v_reason = ''effect_completed'', v_decision = ''reconcile'',
         v_delay = 0, v_resolved = True\<rparr>
      else if \<not> op_DispatchAuthorized op \<and> ob_Outcome ob \<noteq> OutcomeContradictory then
        \<lparr>v_toState = StateRetryable, v_reason = ''dispatch_not_authorized'', v_decision = ''retry'',
         v_delay = 0, v_resolved = False\<rparr>
      else if op_CapabilityProfile op = ''idempotency_only''
              \<and> ob_Mechanism ob = MechanismIdempotentRepeat \<and> ob_Authoritative ob
              \<and> ob_Outcome ob = OutcomeUnknown then
        \<lparr>v_toState = StateRetryable, v_reason = ''idempotent_replay_guaranteed'', v_decision = ''retry'',
         v_delay = 0, v_resolved = False\<rparr>
      else if ob_Outcome ob = OutcomeTransient \<and> attemptNumber < 5 then
        \<lparr>v_toState = op_State op, v_reason = ''verification_transient'', v_decision = [],
         v_delay = transient_delay attemptNumber, v_resolved = False\<rparr>
      else if ob_Outcome ob = OutcomeContradictory then
        \<lparr>v_toState = StateUncertain, v_reason = ''evidence_contradictory'',
         v_decision = ''mark_uncertain'', v_delay = 0, v_resolved = True\<rparr>
      else
        \<lparr>v_toState = StateUncertain, v_reason = ''evidence_insufficient'',
         v_decision = ''mark_uncertain'', v_delay = 0, v_resolved = True\<rparr>)"

definition result_row :: "env \<Rightarrow> verdict \<Rightarrow> int \<Rightarrow> op_row \<Rightarrow> op_row" where
  "result_row e v newVersion r = r\<lparr>o_state := v_toState v, o_version := newVersion,
     o_resolved_at := (if v_resolved v then Some (now e) else None),
     o_next_reconcile := (if v_delay v > 0 then Some (now e + v_delay v) else None),
     o_lease_owner := None, o_lease_hash := None, o_lease_expires := None, o_updated_at := now e\<rparr>"

definition finish_attempt :: "env \<Rightarrow> uuid \<Rightarrow> ObservationOutcome \<Rightarrow> db \<Rightarrow> db" where
  "finish_attempt e aid outcome s = s\<lparr>attempts := update_by a_id aid
     (\<lambda>a. a\<lparr>a_finished := Some (now e), a_result := Some outcome\<rparr>) (attempts s)\<rparr>"

definition insert_observation :: "observation_row \<Rightarrow> db \<Rightarrow> error + db" where
  "insert_observation b s =
     (if lookup_by b_id (b_id b) (observations s) \<noteq> None
      then Inl (unavailable ''store recovery observation'')
      else Inr (s\<lparr>observations := observations s @ [b]\<rparr>))"

text \<open>The primary key and the one-decision-per-version key of \<open>recovery_decisions\<close>.\<close>

definition insert_decision :: "string \<Rightarrow> decision_row \<Rightarrow> db \<Rightarrow> error + db" where
  "insert_decision label d s =
     (if lookup_by d_id (d_id d) (decisions s) \<noteq> None
         \<or> (\<exists>x \<in> set (decisions s). d_operation x = d_operation d \<and> d_version x = d_version d)
      then Inl (unavailable label)
      else Inr (s\<lparr>decisions := decisions s @ [d]\<rparr>))"

text \<open>\<open>WHERE id = attempt AND operation_id = operation\<close>.\<close>

definition attempt_of :: "db \<Rightarrow> uuid \<Rightarrow> uuid \<Rightarrow> attempt_row option" where
  "attempt_of s aid i = find (\<lambda>a. a_id a = aid \<and> a_operation a = i) (attempts s)"

definition lease_valid :: "env \<Rightarrow> op_row \<Rightarrow> string \<Rightarrow> bool" where
  "lease_valid e r token \<longleftrightarrow> o_lease_hash r = Some (claimTokenHash token)
     \<and> (case o_lease_expires r of Some x \<Rightarrow> now e < x | None \<Rightarrow> False)"

text \<open>The guards of a result, in the code's order; they give the operation and the attempt.\<close>

definition submit_guards :: "env \<Rightarrow> db \<Rightarrow> uuid \<Rightarrow> RecoveryResult \<Rightarrow> error + (Operation \<times> int)" where
  "submit_guards e s i res =
     bindE (getOperationForUpdate e s i) (\<lambda>op.
     bindE (stmtU e ''read recovery lease'') (\<lambda>_.
     bindE (of_opt (unavailable ''read recovery lease'') (op_at s i)) (\<lambda>r.
     bindE (guardE (\<not> lease_valid e r (rr_ClaimToken res)) lease_lost) (\<lambda>_.
     bindE (guardE (op_Version op \<noteq> rr_ExpectedVersion res) version_conflict) (\<lambda>_.
     bindE (stmtU e ''read reconciliation attempt'') (\<lambda>_.
     bindE (of_opt (conflict ''reconciliation_attempt_conflict''
              ''attempt does not belong to this operation'') (attempt_of s (rr_AttemptID res) i)) (\<lambda>a.
     bindE (guardE (a_finished a \<noteq> None)
              (conflict ''reconciliation_attempt_conflict'' ''attempt is already finished'')) (\<lambda>_.
     Inr (op, a_number a)))))))))"

definition store_decision :: "env \<Rightarrow> uuid \<Rightarrow> RecoveryResult \<Rightarrow> uuid \<Rightarrow> Operation \<Rightarrow> verdict \<Rightarrow> int
    \<Rightarrow> db \<Rightarrow> error + db" where
  "store_decision e i res observationID op v newVersion s =
     (if v_decision v = [] then Inr s
      else bindE (newID e ''decision'') (\<lambda>did.
           bindE (stmtU e ''store recovery decision'') (\<lambda>_.
           insert_decision ''store recovery decision'' \<lparr>d_id = did, d_operation = i,
             d_attempt = Some (rr_AttemptID res), d_decision = v_decision v, d_source = ''coordinator'',
             d_actor = ''recovery-coordinator'', d_reason = v_reason v,
             d_refs = JArr [JStr observationID], d_from = op_State op, d_to = v_toState v,
             d_version = newVersion\<rparr> s)))"

text \<open>
  A transient result on an operation that was resolved by hand while its lease was held would
  clear \<open>resolved_at\<close> of a reconciled row: the schema's check refuses that update.
\<close>

definition submit_body :: "env \<Rightarrow> db \<Rightarrow> uuid \<Rightarrow> RecoveryResult \<Rightarrow> error + (Operation \<times> db)" where
  "submit_body e s i res =
     (let ob = rr_Observation res in
     bindE (submit_guards e s i res) (\<lambda>(op, attemptNumber).
     bindE (newID e ''observation'') (\<lambda>observationID.
     bindE (stmtU e ''store recovery observation'') (\<lambda>_.
     bindE (of_opt (unavailable ''store recovery observation'')
              (jsonb (if ob_Evidence ob = [] then ''{}'' else ob_Evidence ob))) (\<lambda>evidence.
     bindE (insert_observation \<lparr>b_id = observationID, b_attempt = rr_AttemptID res,
              b_mechanism = ob_Mechanism ob, b_outcome = ob_Outcome ob,
              b_authoritative = ob_Authoritative ob, b_reference = ob_ExternalReference ob,
              b_evidence = evidence\<rparr> s) (\<lambda>s1.
     let v = decide op ob attemptNumber;
         newVersion = op_Version op + 1 in
     bindE (stmtU e ''apply recovery result'') (\<lambda>_.
     bindE (guardE (map_option (\<lambda>r. row_checks (result_row e v newVersion r)) (op_at s1 i) = Some False)
              (unavailable ''apply recovery result'')) (\<lambda>_.
     bindE (stmtU e ''finish reconciliation attempt'') (\<lambda>_.
     let s2 = finish_attempt e (rr_AttemptID res) (ob_Outcome ob)
                (update_op i (result_row e v newVersion) s1) in
     bindE (store_decision e i res observationID op v newVersion s2) (\<lambda>s3.
     bindE (stmtU e ''append recovery result'') (\<lambda>_.
     let s4 = append_event e i ''recovery_result'' (Some (op_State op)) (Some (v_toState v)) newVersion
                ''coordinator'' ''recovery-coordinator'' (v_reason v)
                [(''attempt_id'', DetailText (rr_AttemptID res)),
                 (''observation_id'', DetailText observationID)] s3
     in bindE (getOperationTx e s4 i) (\<lambda>op'. Inr (op', s4)))))))))))))"

definition SubmitRecoveryResult :: "env \<Rightarrow> db \<Rightarrow> uuid \<Rightarrow> RecoveryResult \<Rightarrow> (error + Operation) \<times> db" where
  "SubmitRecoveryResult e s i res =
     (case validObservation (rr_Observation res) of
        Inl err \<Rightarrow> (Inl (validation ''invalid_observation'' (error_string err)), s)
      | Inr _ \<Rightarrow> run_tx e ''begin recovery result'' ''commit recovery result'' s (submit_body e s i res))"

section \<open>ManualResolve\<close>

definition manual_target :: "string \<Rightarrow> OperationState \<Rightarrow> error + (OperationState \<times> string)" where
  "manual_target outcome st =
     (if outcome = ''completed'' then Inr (StateReconciled, ''reconcile'')
      else if outcome = ''absent'' then Inr (StateRetryable, ''retry'')
      else if outcome = ''compensation_recorded'' then Inr (st, ''compensate_recorded'')
      else Inl (validation ''invalid_manual_outcome''
                  ''manual outcome must be completed, absent, or compensation_recorded''))"

definition manual_row :: "env \<Rightarrow> OperationState \<Rightarrow> int \<Rightarrow> op_row \<Rightarrow> op_row" where
  "manual_row e toState newVersion r = r\<lparr>o_state := toState, o_version := newVersion,
     o_resolved_at := (if toState = StateReconciled then Some (now e) else None),
     o_next_reconcile := None, o_updated_at := now e\<rparr>"

definition manual_body :: "env \<Rightarrow> db \<Rightarrow> uuid \<Rightarrow> ManualResolution \<Rightarrow> error + (Operation \<times> db)" where
  "manual_body e s i m =
     bindE (getOperationForUpdate e s i) (\<lambda>op.
     bindE (guardE (op_State op \<noteq> StateUncertain)
              (conflict ''operation_state_conflict''
                 ''only uncertain operations can be resolved manually'')) (\<lambda>_.
     bindE (guardE (op_Version op \<noteq> mr_ExpectedVersion m) version_conflict) (\<lambda>_.
     bindE (manual_target (mr_Outcome m) (op_State op)) (\<lambda>(toState, decision).
     let newVersion = op_Version op + 1 in
     bindE (stmtU e ''apply manual resolution'') (\<lambda>_.
     bindE (newID e ''decision'') (\<lambda>did.
     bindE (stmtU e ''store manual decision'') (\<lambda>_.
     bindE (insert_decision ''store manual decision'' \<lparr>d_id = did, d_operation = i, d_attempt = None,
              d_decision = decision, d_source = ''manual'', d_actor = mr_Actor m,
              d_reason = mr_Reason m, d_refs = JArr [JStr (mr_EvidenceReference m)],
              d_from = op_State op, d_to = toState, d_version = newVersion\<rparr>
              (update_op i (manual_row e toState newVersion) s)) (\<lambda>s1.
     bindE (stmtU e ''append manual resolution'') (\<lambda>_.
     let s2 = append_event e i ''manual_resolution'' (Some (op_State op)) (Some toState) newVersion
                ''manual'' (mr_Actor m) (mr_Reason m)
                [(''evidence_reference'', DetailText (mr_EvidenceReference m))] s1
     in bindE (getOperationTx e s2 i) (\<lambda>op'. Inr (op', s2)))))))))))"

definition ManualResolve :: "env \<Rightarrow> db \<Rightarrow> uuid \<Rightarrow> ManualResolution \<Rightarrow> (error + Operation) \<times> db" where
  "ManualResolve e s i m =
     run_tx e ''begin manual resolution'' ''commit manual resolution'' s (manual_body e s i m)"

end
