(* ===== verification/Lifecycle.thy ===== *)
theory Lifecycle
  imports Domain
begin

text \<open>
  The contract of one operation, free of tables, clocks and identifiers: what its state, its
  dispatch flag, its attempt count, its version, the presence of a lease and of a receipt may
  do, and which audit event each step leaves. The store theories prove that every call is such
  a step; the properties of histories are proved once, here, by induction over runs.
\<close>

record life =
  l_state :: OperationState
  l_auth :: bool
  l_attempts :: int
  l_version :: int
  l_leased :: bool
  l_receipted :: bool

definition init_life :: life where
  "init_life = \<lparr>l_state = StatePrepared, l_auth = False, l_attempts = 1, l_version = 1,
     l_leased = False, l_receipted = False\<rparr>"

definition signs :: "Event \<Rightarrow> string \<Rightarrow> OperationState \<Rightarrow> OperationState \<Rightarrow> int \<Rightarrow> bool" where
  "signs ev t f g v \<longleftrightarrow> ev_EventType ev = t \<and> ev_FromState ev = Some f \<and> ev_ToState ev = Some g
     \<and> ev_OperationVersion ev = v"

definition signs_intent :: "Event \<Rightarrow> bool" where
  "signs_intent ev \<longleftrightarrow> ev_EventType ev = ''intent_prepared'' \<and> ev_FromState ev = None
     \<and> ev_ToState ev = Some StatePrepared \<and> ev_OperationVersion ev = 1"

inductive life_step :: "string \<Rightarrow> life \<Rightarrow> Event \<Rightarrow> life \<Rightarrow> bool" for profile where
  dispatch: "l_state l = StatePrepared \<Longrightarrow> \<not> l_auth l \<Longrightarrow> \<not> l_leased l \<Longrightarrow>
     signs ev ''dispatch_authorized'' StatePrepared StatePrepared (l_version l + 1) \<Longrightarrow>
     life_step profile l ev (l\<lparr>l_auth := True, l_version := l_version l + 1\<rparr>)"
| confirm: "l_state l = StatePrepared \<Longrightarrow> \<not> l_receipted l \<Longrightarrow>
     signs ev ''receipt_confirmed'' StatePrepared StateConfirmed (l_version l + 1) \<Longrightarrow>
     life_step profile l ev (l\<lparr>l_state := StateConfirmed, l_version := l_version l + 1,
       l_leased := False, l_receipted := True\<rparr>)"
| retry: "l_state l = StateRetryable \<Longrightarrow>
     signs ev ''retry_started'' StateRetryable StatePrepared (l_version l + 1) \<Longrightarrow>
     life_step profile l ev (l\<lparr>l_state := StatePrepared, l_auth := False,
       l_attempts := l_attempts l + 1, l_version := l_version l + 1\<rparr>)"
| request: "l_state l = StatePrepared \<or> l_state l = StateUncertain \<Longrightarrow>
     signs ev ''reconciliation_requested'' (l_state l) (l_state l) (l_version l + 1) \<Longrightarrow>
     life_step profile l ev (l\<lparr>l_version := l_version l + 1\<rparr>)"
| claim: "l_state l = StatePrepared \<or> l_state l = StateUncertain \<Longrightarrow>
     signs ev ''recovery_claimed'' (l_state l) (l_state l) (l_version l + 1) \<Longrightarrow>
     life_step profile l ev (l\<lparr>l_version := l_version l + 1, l_leased := True\<rparr>)"
| result_completed: "l_leased l \<Longrightarrow>
     signs ev ''recovery_result'' (l_state l) StateReconciled (l_version l + 1) \<Longrightarrow>
     ev_ReasonCode ev = ''effect_completed'' \<Longrightarrow>
     life_step profile l ev (l\<lparr>l_state := StateReconciled, l_version := l_version l + 1,
       l_leased := False\<rparr>)"
| result_unsent: "l_leased l \<Longrightarrow> \<not> l_auth l \<Longrightarrow>
     signs ev ''recovery_result'' (l_state l) StateRetryable (l_version l + 1) \<Longrightarrow>
     ev_ReasonCode ev = ''dispatch_not_authorized'' \<Longrightarrow>
     life_step profile l ev (l\<lparr>l_state := StateRetryable, l_version := l_version l + 1,
       l_leased := False\<rparr>)"
| result_replay: "l_leased l \<Longrightarrow> profile = ''idempotency_only'' \<Longrightarrow>
     signs ev ''recovery_result'' (l_state l) StateRetryable (l_version l + 1) \<Longrightarrow>
     ev_ReasonCode ev = ''idempotent_replay_guaranteed'' \<Longrightarrow>
     life_step profile l ev (l\<lparr>l_state := StateRetryable, l_version := l_version l + 1,
       l_leased := False\<rparr>)"
| result_transient: "l_leased l \<Longrightarrow>
     signs ev ''recovery_result'' (l_state l) (l_state l) (l_version l + 1) \<Longrightarrow>
     ev_ReasonCode ev = ''verification_transient'' \<Longrightarrow>
     life_step profile l ev (l\<lparr>l_version := l_version l + 1, l_leased := False\<rparr>)"
| result_uncertain: "l_leased l \<Longrightarrow>
     signs ev ''recovery_result'' (l_state l) StateUncertain (l_version l + 1) \<Longrightarrow>
     ev_ReasonCode ev \<in> {''evidence_contradictory'', ''evidence_insufficient''} \<Longrightarrow>
     life_step profile l ev (l\<lparr>l_state := StateUncertain, l_version := l_version l + 1,
       l_leased := False\<rparr>)"
| manual: "l_state l = StateUncertain \<Longrightarrow>
     st \<in> {StateReconciled, StateRetryable, StateUncertain} \<Longrightarrow>
     signs ev ''manual_resolution'' StateUncertain st (l_version l + 1) \<Longrightarrow>
     life_step profile l ev (l\<lparr>l_state := st, l_version := l_version l + 1\<rparr>)"

inductive life_run :: "string \<Rightarrow> Event list \<Rightarrow> life \<Rightarrow> bool" for profile where
  start: "signs_intent ev \<Longrightarrow> life_run profile [ev] init_life"
| step: "life_run profile evs l \<Longrightarrow> life_step profile l ev l' \<Longrightarrow> life_run profile (evs @ [ev]) l'"

lemmas life_intros = life_step.intros

section \<open>Runs\<close>

lemma life_step_version: "life_step p l ev l' \<Longrightarrow>
  l_version l' = l_version l + 1 \<and> ev_OperationVersion ev = l_version l'"
  by (induction rule: life_step.induct) (auto simp: signs_def)

lemma life_step_states: "life_step p l ev l' \<Longrightarrow>
  ev_FromState ev = Some (l_state l) \<and> ev_ToState ev = Some (l_state l')"
  by (induction rule: life_step.induct) (auto simp: signs_def)

lemma life_run_nonempty: "life_run p evs l \<Longrightarrow> evs \<noteq> []"
  by (induction rule: life_run.induct) auto

text \<open>One event per version, numbered from 1 without gaps.\<close>

lemma life_run_versions:
  "life_run p evs l \<Longrightarrow> map ev_OperationVersion evs = [1..l_version l] \<and> 1 \<le> l_version l"
proof (induction rule: life_run.induct)
  case (start ev)
  then show ?case by (simp add: signs_intent_def init_life_def)
next
  case (step evs l ev l')
  then have "l_version l' = l_version l + 1" "ev_OperationVersion ev = l_version l'"
    by (auto dest: life_step_version)
  with step.IH show ?case by (simp add: upto_rec2)
qed

text \<open>Every event starts in the state the one before it reached; the last one reached the current state.\<close>

fun chained :: "OperationState option \<Rightarrow> Event list \<Rightarrow> bool" where
  "chained st [] = True"
| "chained st (ev # evs) = (ev_FromState ev = st \<and> chained (ev_ToState ev) evs)"

lemma chained_append:
  "chained st (evs @ [ev]) \<longleftrightarrow> chained st evs
     \<and> ev_FromState ev = (if evs = [] then st else ev_ToState (last evs))"
  by (induction evs arbitrary: st) auto

lemma life_run_chained:
  "life_run p evs l \<Longrightarrow> chained None evs \<and> ev_ToState (last evs) = Some (l_state l)"
proof (induction rule: life_run.induct)
  case (start ev)
  then show ?case by (simp add: signs_intent_def init_life_def)
next
  case (step evs l ev l')
  then show ?case
    using life_step_states [OF step.hyps(2)] life_run_nonempty [OF step.hyps(1)]
    by (simp add: chained_append)
qed

section \<open>What a run keeps\<close>

lemma life_run_confirmed:
  "life_run p evs l \<Longrightarrow> (l_receipted l \<longleftrightarrow> l_state l = StateConfirmed)
     \<and> (l_state l = StateConfirmed \<longrightarrow> \<not> l_leased l)"
proof (induction rule: life_run.induct)
  case (start ev)
  then show ?case by (simp add: init_life_def)
next
  case (step evs l ev l')
  from step.hyps(2) step.IH show ?case by (cases rule: life_step.cases) auto
qed

lemma life_run_valid: "life_run p evs l \<Longrightarrow> ValidState (l_state l)"
proof (induction rule: life_run.induct)
  case (start ev)
  then show ?case by (simp add: init_life_def)
next
  case (step evs l ev l')
  from step.hyps(2) step.IH show ?case by (cases rule: life_step.cases) auto
qed

text \<open>The attempt count is one more than the retries in the log.\<close>

definition retries :: "Event list \<Rightarrow> nat" where
  "retries evs = length (filter (\<lambda>ev. ev_EventType ev = ''retry_started'') evs)"

lemma life_run_attempts: "life_run p evs l \<Longrightarrow> l_attempts l = 1 + int (retries evs)"
proof (induction rule: life_run.induct)
  case (start ev)
  then show ?case by (simp add: retries_def init_life_def signs_intent_def)
next
  case (step evs l ev l')
  from step.hyps(2) step.IH show ?case
    by (cases rule: life_step.cases) (simp_all add: retries_def signs_def)
qed

section \<open>Single send\<close>

definition is_dispatch :: "Event \<Rightarrow> bool" where
  "is_dispatch ev \<longleftrightarrow> ev_EventType ev = ''dispatch_authorized''"

definition replay_event :: "Event \<Rightarrow> bool" where
  "replay_event ev \<longleftrightarrow> ev_EventType ev = ''recovery_result''
     \<and> ev_ReasonCode ev = ''idempotent_replay_guaranteed''"

definition manual_absent_event :: "Event \<Rightarrow> bool" where
  "manual_absent_event ev \<longleftrightarrow> ev_EventType ev = ''manual_resolution'' \<and> ev_ToState ev = Some StateRetryable"

text \<open>What can justify a second dispatch of an operation whose first one was authorised.\<close>

definition licenses_resend :: "Event \<Rightarrow> bool" where
  "licenses_resend ev \<longleftrightarrow> replay_event ev \<or> manual_absent_event ev"

lemmas event_kinds = is_dispatch_def replay_event_def manual_absent_event_def licenses_resend_def

text \<open>\<open>pending evs\<close>: the last dispatch in the log has not been followed by a licence.\<close>

fun pending_from :: "bool \<Rightarrow> Event list \<Rightarrow> bool" where
  "pending_from b [] = b"
| "pending_from b (ev # evs) =
     pending_from (if is_dispatch ev then True else if licenses_resend ev then False else b) evs"

abbreviation pending :: "Event list \<Rightarrow> bool" where
  "pending \<equiv> pending_from False"

lemma pending_from_append: "pending_from b (xs @ ys) = pending_from (pending_from b xs) ys"
  by (induction xs arbitrary: b) auto

lemma pending_from_clear:
  "pending_from True evs = False \<Longrightarrow> \<exists>y \<in> set evs. licenses_resend y"
  by (induction evs) (auto split: if_splits)

lemma pending_cleared:
  assumes "\<not> pending (xs @ a # ys)" and "is_dispatch a"
  shows "\<exists>y \<in> set ys. licenses_resend y"
  using assms by (auto simp: pending_from_append intro: pending_from_clear)

text \<open>
  While a dispatch is pending the operation keeps its flag and is not retryable: the two ways to
  lose the flag or become retryable both need a licence in the log.
\<close>

lemma life_run_pending: "life_run p evs l \<Longrightarrow> pending evs \<Longrightarrow> l_auth l \<and> l_state l \<noteq> StateRetryable"
proof (induction rule: life_run.induct)
  case (start ev)
  then show ?case by (simp add: event_kinds signs_intent_def)
next
  case (step evs l ev l')
  from step.hyps(2) step.IH step.prems show ?case
    by (cases rule: life_step.cases)
      (auto simp: pending_from_append event_kinds signs_def split: if_splits)
qed

lemma life_run_prefix: "life_run p (evs @ zs) l \<Longrightarrow> evs \<noteq> [] \<Longrightarrow> \<exists>l0. life_run p evs l0"
proof (induction zs arbitrary: l rule: rev_induct)
  case Nil
  then show ?case by auto
next
  case (snoc z zs)
  from snoc.prems(1) obtain l0 where "life_run p (evs @ zs) l0"
    using snoc.prems(2) by (cases rule: life_run.cases) auto
  with snoc.IH snoc.prems(2) show ?case by blast
qed

lemma life_run_last:
  assumes "life_run p (evs @ [ev]) l" and "evs \<noteq> []"
  obtains l0 where "life_run p evs l0" and "life_step p l0 ev l"
  using assms by (cases rule: life_run.cases) auto

text \<open>Between two dispatches of one operation there is an event that licenses the second.\<close>

lemma life_run_resend:
  assumes run: "life_run p (xs @ a # ys @ b # zs) l" and a: "is_dispatch a" and b: "is_dispatch b"
  shows "\<exists>y \<in> set ys. licenses_resend y"
proof -
  have "life_run p ((xs @ a # ys @ [b]) @ zs) l" using run by simp
  then obtain l1 where "life_run p ((xs @ a # ys) @ [b]) l1"
    using life_run_prefix [of p "xs @ a # ys @ [b]"] by auto
  then obtain l0 where r0: "life_run p (xs @ a # ys) l0" and st: "life_step p l0 b l1"
    by (rule life_run_last) simp
  from st b have "\<not> l_auth l0"
    by (cases rule: life_step.cases) (auto simp: is_dispatch_def signs_def)
  then have "\<not> pending (xs @ a # ys)"
    using life_run_pending [OF r0] by blast
  then show ?thesis using a by (rule pending_cleared)
qed

text \<open>The keyed-replay licence belongs to the idempotency profile.\<close>

lemma life_run_replay:
  "life_run p evs l \<Longrightarrow> ev \<in> set evs \<Longrightarrow> replay_event ev \<Longrightarrow> p = ''idempotency_only''"
proof (induction rule: life_run.induct)
  case (start ev')
  then show ?case by (simp add: event_kinds signs_intent_def)
next
  case (step evs l ev' l')
  from step.hyps(2) step.IH step.prems show ?case
    by (cases rule: life_step.cases) (auto simp: event_kinds signs_def)
qed

text \<open>A run that never licenses a resend authorises at most one dispatch.\<close>

definition dispatches :: "Event list \<Rightarrow> nat" where
  "dispatches evs = length (filter is_dispatch evs)"

lemma filter_two:
  assumes "2 \<le> length (filter P xs)"
  shows "\<exists>us a vs b ws. xs = us @ a # vs @ b # ws \<and> P a \<and> P b"
proof -
  obtain a as where fp: "filter P xs = a # as"
    using assms by (cases "filter P xs") auto
  then have ne: "as \<noteq> []" using assms by auto
  from fp obtain us rest where "xs = us @ a # rest" "P a" "filter P rest = as"
    by (auto simp: filter_eq_Cons_iff)
  moreover from ne obtain b bs where "as = b # bs" by (cases as) auto
  ultimately obtain vs ws where "xs = us @ a # vs @ b # ws" "P a" "P b"
    by (auto simp: filter_eq_Cons_iff)
  then show ?thesis by blast
qed

lemma life_run_single:
  assumes run: "life_run p evs l" and quiet: "\<forall>ev \<in> set evs. \<not> licenses_resend ev"
  shows "dispatches evs \<le> 1"
proof (rule ccontr)
  assume "\<not> dispatches evs \<le> 1"
  then obtain us a vs b ws where "evs = us @ a # vs @ b # ws" "is_dispatch a" "is_dispatch b"
    using filter_two [of is_dispatch evs] by (auto simp: dispatches_def)
  with run life_run_resend [of p us a vs b ws l] quiet show False by auto
qed

text \<open>Dispatches are bounded by attempts, strictly while the current attempt is unsent.\<close>

lemma life_run_dispatches:
  "life_run p evs l \<Longrightarrow> int (dispatches evs) \<le> l_attempts l - (if l_auth l then 0 else 1)"
proof (induction rule: life_run.induct)
  case (start ev)
  then show ?case by (simp add: dispatches_def is_dispatch_def init_life_def signs_intent_def)
next
  case (step evs l ev l')
  from step.hyps(2) step.IH show ?case
    by (cases rule: life_step.cases)
      (simp_all add: dispatches_def is_dispatch_def signs_def split: if_splits)
qed

section \<open>Terminal states\<close>

inductive_cases life_step_from: "life_step p l ev l'"

lemma confirmed_final:
  assumes "life_run p evs l" and "l_state l = StateConfirmed"
  shows "\<not> life_step p l ev l'"
proof
  assume "life_step p l ev l'"
  then show False using life_run_confirmed [OF assms(1)] assms(2)
    by (cases rule: life_step.cases) auto
qed

text \<open>Steps from a state that holds no lease follow the transition table of the domain.\<close>

lemma unleased_step_allowed:
  assumes "life_step p l ev l'" and "\<not> l_leased l"
  shows "l_state l' = l_state l \<or> CanTransition (l_state l) (l_state l')"
  using assms by (cases rule: life_step.cases) (auto simp: CanTransition_def)

lemma open_step_allowed:
  assumes "life_step p l ev l'" and "l_state l \<in> {StatePrepared, StateUncertain}"
  shows "l_state l' = l_state l \<or> CanTransition (l_state l) (l_state l')"
  using assms by (cases rule: life_step.cases) (auto simp: CanTransition_def)

end
