(* ===== verification/Store_Invariant.thy ===== *)
theory Store_Invariant
  imports Recovery_Store Lifecycle
begin

text \<open>
  What a successful call did, one lemma per operation, and the invariant of the store: every
  stored operation is a run of its lifecycle whose log is the operation's audit events. The
  step lemma \<open>store_inv_advance\<close> is the only place where the invariant is opened; each
  operation supplies its lifecycle step.
\<close>

section \<open>What success means\<close>

lemma authorize_ok:
  assumes "authorize_body e s i v = Inr (op, s')"
  obtains r w where "op_at s i = Some r" "lookup_by w_id (o_workflow r) (workflows s) = Some w"
    "o_state r = StatePrepared" "o_version r = v" "\<not> o_authorized r" "o_lease_hash r = None"
    "op = scanOperation w (authorize_row e r)"
    "s' = append_event e i ''dispatch_authorized'' (Some StatePrepared) (Some StatePrepared) (v + 1)
       ''worker'' ''workflow-worker'' ''single_send_authorized'' [] (update_op i (authorize_row e) s)"
  using assms
  by (auto simp: authorize_body_def bindE_Inr_iff Let_def store_simps authorize_row_def)

lemma retry_ok:
  assumes "retry_body e s i v reason = Inr (op, s')"
  obtains r w where "op_at s i = Some r" "lookup_by w_id (o_workflow r) (workflows s) = Some w"
    "o_state r = StateRetryable" "o_version r = v" "op = scanOperation w (retry_row e (v + 1) r)"
    "s' = append_event e i ''retry_started'' (Some StateRetryable) (Some StatePrepared) (v + 1)
       ''worker'' ''workflow-worker'' reason [] (update_op i (retry_row e (v + 1)) s)"
  using assms by (auto simp: retry_body_def bindE_Inr_iff Let_def store_simps retry_row_def)

lemma request_ok:
  assumes "request_body e s i v actor reason = Inr (op, s')"
  obtains r w where "op_at s i = Some r" "lookup_by w_id (o_workflow r) (workflows s) = Some w"
    "o_state r = StatePrepared \<or> o_state r = StateUncertain" "o_version r = v"
    "op = scanOperation w (request_row e (v + 1) r)"
    "s' = append_event e i ''reconciliation_requested'' (Some (o_state r)) (Some (o_state r)) (v + 1)
       ''manual'' actor reason [] (update_op i (request_row e (v + 1)) s)"
  using assms by (auto simp: request_body_def bindE_Inr_iff Let_def store_simps request_row_def)

lemma insert_receipt_ok [simp]:
  "insert_receipt r s = Inr s' \<longleftrightarrow> lookup_by r_id (r_id r) (receipts s) = None
     \<and> receipt_at s (r_operation r) = None \<and> s' = s\<lparr>receipts := receipts s @ [r]\<rparr>"
  by (auto simp: insert_receipt_def)

lemma insert_attempt_ok [simp]:
  "insert_attempt a s = Inr s' \<longleftrightarrow> lookup_by a_id (a_id a) (attempts s) = None
     \<and> (\<forall>b \<in> set (attempts s). a_operation b = a_operation a \<longrightarrow> a_number b \<noteq> a_number a)
     \<and> s' = s\<lparr>attempts := attempts s @ [a]\<rparr>"
  by (auto simp: insert_attempt_def)

lemma insert_decision_ok [simp]:
  "insert_decision l d s = Inr s' \<longleftrightarrow> lookup_by d_id (d_id d) (decisions s) = None
     \<and> (\<forall>x \<in> set (decisions s). d_operation x = d_operation d \<longrightarrow> d_version x \<noteq> d_version d)
     \<and> s' = s\<lparr>decisions := decisions s @ [d]\<rparr>"
  by (auto simp: insert_decision_def)

lemma insert_observation_ok [simp]:
  "insert_observation b s = Inr s' \<longleftrightarrow> lookup_by b_id (b_id b) (observations s) = None
     \<and> s' = s\<lparr>observations := observations s @ [b]\<rparr>"
  by (auto simp: insert_observation_def)

lemma table_fields [store_simps]:
  "workflows (s\<lparr>receipts := x\<rparr>) = workflows s" "op_at (s\<lparr>receipts := x\<rparr>) i = op_at s i"
  "update_op i f (s\<lparr>receipts := x\<rparr>) = (update_op i f s)\<lparr>receipts := x\<rparr>"
  by (simp_all add: update_op_def)

lemma confirm_first_ok:
  assumes "confirm_first e s i req fp op0 = Inr (op, s')" and "joined s i = Some op0"
  obtains r w rid payload where "op_at s i = Some r"
    "lookup_by w_id (o_workflow r) (workflows s) = Some w"
    "o_state r = StatePrepared" "o_version r = cr_ExpectedVersion req" "receipt_at s i = None"
    "s' = append_event e i ''receipt_confirmed'' (Some StatePrepared) (Some StateConfirmed)
       (o_version r + 1) ''api'' ''watchkeeper-api'' ''receipt_persisted''
       [(''receipt_id'', DetailText rid)]
       (update_op i (confirm_row e) (s\<lparr>receipts := receipts s @ [\<lparr>r_id = rid, r_operation = i,
          r_service_id = cr_ServiceReceiptID req, r_fingerprint = fp, r_payload = payload,
          r_received_at = cr_ReceivedAt req\<rparr>]\<rparr>))"
    "op = (scanOperation w (confirm_row e r))\<lparr>op_Receipt := Some \<lparr>rc_ID = rid,
       rc_ServiceReceiptID = cr_ServiceReceiptID req, rc_ReceiptFingerprint = fp,
       rc_Payload = payload, rc_ReceivedAt = cr_ReceivedAt req\<rparr>\<rparr>"
proof -
  from assms obtain r w rid payload where r: "op_at s i = Some r"
    and w: "lookup_by w_id (o_workflow r) (workflows s) = Some w"
    and g: "o_state r = StatePrepared" "o_version r = cr_ExpectedVersion req" "receipt_at s i = None"
    and s': "s' = append_event e i ''receipt_confirmed'' (Some StatePrepared) (Some StateConfirmed)
       (o_version r + 1) ''api'' ''watchkeeper-api'' ''receipt_persisted''
       [(''receipt_id'', DetailText rid)]
       (update_op i (confirm_row e) (s\<lparr>receipts := receipts s @ [\<lparr>r_id = rid, r_operation = i,
          r_service_id = cr_ServiceReceiptID req, r_fingerprint = fp, r_payload = payload,
          r_received_at = cr_ReceivedAt req\<rparr>]\<rparr>))"
    and op: "with_receipt e s' i = Inr op"
    by (auto simp: confirm_first_def bindE_Inr_iff Let_def store_simps confirm_row_def)
  have "op_at s' i = Some (confirm_row e r)" "workflows s' = workflows s"
    "receipt_at s' i = Some \<lparr>r_id = rid, r_operation = i, r_service_id = cr_ServiceReceiptID req,
       r_fingerprint = fp, r_payload = payload, r_received_at = cr_ReceivedAt req\<rparr>"
    using r g by (simp_all add: s' store_simps confirm_row_def lookup_by_append)
  with w op that [OF r w g s'] show thesis
    by (simp add: with_receipt_def bindE_Inr_iff store_simps getReceiptTx_def scanReceipt_def
        confirm_row_def)
qed

lemma confirm_body_ok:
  assumes "confirm_body e s i req fp = Inr (op, s')"
  shows "(\<exists>r. receipt_at s i = Some r \<and> r_fingerprint r = fp
            \<and> r_service_id r = cr_ServiceReceiptID req \<and> s' = s \<and> with_receipt e s i = Inr op)
    \<or> (\<exists>op0. joined s i = Some op0 \<and> receipt_at s i = None
            \<and> confirm_first e s i req fp op0 = Inr (op, s'))"
  using assms
  by (auto simp: confirm_body_def bindE_Inr_iff store_simps confirm_replay_def split: option.splits)

lemma claim_one_ok:
  assumes "claim_one e worker d i s = Inr (c, s')"
  obtains r w raw aid s2 where "op_at s i = Some r" "entropy e i = Some raw"
    "lookup_by w_id (o_workflow r) (workflows s) = Some w"
    "fresh_id e (''attempt '' @ i) = Some aid" "lookup_by a_id aid (attempts s) = None"
    "s2 = (update_op i (claim_row e worker (claimTokenHash (b64_encode raw)) d) s)\<lparr>attempts :=
       attempts s @ [\<lparr>a_id = aid, a_operation = i, a_number = next_attempt_number s i,
          a_owner = worker, a_started = now e, a_finished = None, a_result = None\<rparr>]\<rparr>"
    "s' = append_event e i ''recovery_claimed'' (Some (o_state r)) (Some (o_state r)) (o_version r + 1)
       ''coordinator'' worker ''lease_acquired'' [(''attempt_id'', DetailText aid),
       (''lease_expires_at'', DetailTime (now e + d))] s2"
    "c = \<lparr>cl_Operation = scanOperation w (claim_row e worker (claimTokenHash (b64_encode raw)) d r),
       cl_ClaimToken = b64_encode raw, cl_AttemptID = aid, cl_LeaseExpiresAt = now e + d,
       cl_Version = o_version r + 1\<rparr>"
proof -
  let ?row = "\<lambda>raw. claim_row e worker (claimTokenHash (b64_encode raw)) d"
  from assms obtain r raw aid where r: "op_at s i = Some r" and raw: "entropy e i = Some raw"
    and aid: "fresh_id e (''attempt '' @ i) = Some aid" "lookup_by a_id aid (attempts s) = None"
    and s': "s' = append_event e i ''recovery_claimed'' (Some (o_state r)) (Some (o_state r))
       (o_version r + 1) ''coordinator'' worker ''lease_acquired'' [(''attempt_id'', DetailText aid),
       (''lease_expires_at'', DetailTime (now e + d))] ((update_op i (?row raw) s)\<lparr>attempts :=
       attempts s @ [\<lparr>a_id = aid, a_operation = i, a_number = next_attempt_number s i,
          a_owner = worker, a_started = now e, a_finished = None, a_result = None\<rparr>]\<rparr>)"
    and c: "\<exists>op. joined s' i = Some op \<and> c = \<lparr>cl_Operation = op, cl_ClaimToken = b64_encode raw,
       cl_AttemptID = aid, cl_LeaseExpiresAt = now e + d, cl_Version = o_version r + 1\<rparr>"
    by (auto simp: claim_one_def randomClaimToken_def bindE_Inr_iff Let_def store_simps
        claim_row_def)
  have at: "op_at s' i = Some (?row raw r)" "workflows s' = workflows s"
    using r by (simp_all add: s' store_simps claim_row_def)
  with c obtain w where w: "lookup_by w_id (o_workflow r) (workflows s) = Some w"
    and c': "c = \<lparr>cl_Operation = scanOperation w (?row raw r), cl_ClaimToken = b64_encode raw,
       cl_AttemptID = aid, cl_LeaseExpiresAt = now e + d, cl_Version = o_version r + 1\<rparr>"
    by (auto simp: store_simps claim_row_def)
  show thesis by (rule that [OF r raw w aid refl s' c'])
qed

lemma store_decision_ok:
  assumes "store_decision e i res oid op v n s = Inr s'"
  shows "operations s' = operations s" "workflows s' = workflows s" "receipts s' = receipts s"
    "events s' = events s" "event_seq s' = event_seq s" "attempts s' = attempts s"
    "observations s' = observations s" "experiments s' = experiments s"
    "v_decision v = [] \<Longrightarrow> s' = s"
    "v_decision v \<noteq> [] \<Longrightarrow> (\<exists>d. decisions s' = decisions s @ [d] \<and> d_operation d = i \<and> d_version d = n
        \<and> d_decision d = v_decision v \<and> d_from d = op_State op \<and> d_to d = v_toState v)"
  using assms by (auto simp: store_decision_def bindE_Inr_iff split: if_splits)

lemma submit_ok:
  assumes "submit_body e s i res = Inr (op, s')"
  obtains r w a v s3 where "op_at s i = Some r"
    "lookup_by w_id (o_workflow r) (workflows s) = Some w"
    "row_checks (result_row e v (o_version r + 1) r)"
    "lease_valid e r (rr_ClaimToken res)" "o_version r = rr_ExpectedVersion res"
    "attempt_of s (rr_AttemptID res) i = Some a" "a_finished a = None"
    "v = decide (scanOperation w r) (rr_Observation res) (a_number a)"
    "operations s3 = update_by o_id i (result_row e v (o_version r + 1)) (operations s)"
    "workflows s3 = workflows s" "receipts s3 = receipts s" "events s3 = events s"
    "event_seq s3 = event_seq s" "experiments s3 = experiments s"
    "attempts s3 = update_by a_id (rr_AttemptID res)
       (\<lambda>a. a\<lparr>a_finished := Some (now e), a_result := Some (ob_Outcome (rr_Observation res))\<rparr>) (attempts s)"
    "if v_decision v = [] then decisions s3 = decisions s
     else \<exists>d. decisions s3 = decisions s @ [d] \<and> d_operation d = i \<and> d_version d = o_version r + 1
        \<and> d_decision d = v_decision v \<and> d_from d = o_state r \<and> d_to d = v_toState v"
    "\<exists>oid. s' = append_event e i ''recovery_result'' (Some (o_state r)) (Some (v_toState v))
       (o_version r + 1) ''coordinator'' ''recovery-coordinator'' (v_reason v)
       [(''attempt_id'', DetailText (rr_AttemptID res)), (''observation_id'', DetailText oid)] s3"
    "op = scanOperation w (result_row e v (o_version r + 1) r)"
proof -
  from assms obtain r w a oid ev s3 where r: "op_at s i = Some r"
    and w: "lookup_by w_id (o_workflow r) (workflows s) = Some w"
    and chk: "row_checks (result_row e (decide (scanOperation w r) (rr_Observation res) (a_number a))
       (o_version r + 1) r)"
    and g: "lease_valid e r (rr_ClaimToken res)" "o_version r = rr_ExpectedVersion res"
      "attempt_of s (rr_AttemptID res) i = Some a" "a_finished a = None"
    and s3: "store_decision e i res oid (scanOperation w r)
       (decide (scanOperation w r) (rr_Observation res) (a_number a)) (o_version r + 1)
       (finish_attempt e (rr_AttemptID res) (ob_Outcome (rr_Observation res))
         (update_op i (result_row e (decide (scanOperation w r) (rr_Observation res) (a_number a))
            (o_version r + 1)) (s\<lparr>observations := observations s @ [ev]\<rparr>))) = Inr s3"
    and s': "s' = append_event e i ''recovery_result'' (Some (o_state r))
       (Some (v_toState (decide (scanOperation w r) (rr_Observation res) (a_number a))))
       (o_version r + 1) ''coordinator'' ''recovery-coordinator''
       (v_reason (decide (scanOperation w r) (rr_Observation res) (a_number a)))
       [(''attempt_id'', DetailText (rr_AttemptID res)), (''observation_id'', DetailText oid)] s3"
    and op: "joined s' i = Some op"
    by (auto simp: submit_body_def submit_guards_def bindE_Inr_iff Let_def store_simps)
  define v where "v = decide (scanOperation w r) (rr_Observation res) (a_number a)"
  note sd = store_decision_ok [OF s3, folded v_def]
  have at: "operations s3 = update_by o_id i (result_row e v (o_version r + 1)) (operations s)"
    "workflows s3 = workflows s" "receipts s3 = receipts s" "events s3 = events s"
    "event_seq s3 = event_seq s" "experiments s3 = experiments s"
    "attempts s3 = update_by a_id (rr_AttemptID res)
       (\<lambda>a. a\<lparr>a_finished := Some (now e), a_result := Some (ob_Outcome (rr_Observation res))\<rparr>) (attempts s)"
    by (simp_all add: sd(1-8) finish_attempt_def update_op_def v_def)
  have dec: "if v_decision v = [] then decisions s3 = decisions s
     else \<exists>d. decisions s3 = decisions s @ [d] \<and> d_operation d = i \<and> d_version d = o_version r + 1
        \<and> d_decision d = v_decision v \<and> d_from d = o_state r \<and> d_to d = v_toState v"
    using sd(9,10) by (auto simp: finish_attempt_def update_op_def)
  have "op = scanOperation w (result_row e v (o_version r + 1) r)"
    using op r w by (auto simp: s' store_simps at lookup_by_update result_row_def)
  moreover have "\<exists>oid. s' = append_event e i ''recovery_result'' (Some (o_state r)) (Some (v_toState v))
       (o_version r + 1) ''coordinator'' ''recovery-coordinator'' (v_reason v)
       [(''attempt_id'', DetailText (rr_AttemptID res)), (''observation_id'', DetailText oid)] s3"
    unfolding v_def using s' by blast
  ultimately show thesis by (intro that [OF r w chk [folded v_def] g v_def at dec])
qed

lemma manual_ok:
  assumes "manual_body e s i m = Inr (op, s')"
  obtains r w st dn d where "op_at s i = Some r"
    "lookup_by w_id (o_workflow r) (workflows s) = Some w"
    "o_state r = StateUncertain" "o_version r = mr_ExpectedVersion m"
    "manual_target (mr_Outcome m) StateUncertain = Inr (st, dn)"
    "d_operation d = i" "d_version d = o_version r + 1" "d_to d = st" "d_from d = StateUncertain"
    "s' = append_event e i ''manual_resolution'' (Some StateUncertain) (Some st) (o_version r + 1)
       ''manual'' (mr_Actor m) (mr_Reason m)
       [(''evidence_reference'', DetailText (mr_EvidenceReference m))]
       ((update_op i (manual_row e st (o_version r + 1)) s)\<lparr>decisions := decisions s @ [d]\<rparr>)"
    "op = scanOperation w (manual_row e st (o_version r + 1) r)"
proof -
  from assms obtain r w st dn did where r: "op_at s i = Some r"
    and w: "lookup_by w_id (o_workflow r) (workflows s) = Some w"
    and g: "o_state r = StateUncertain" "o_version r = mr_ExpectedVersion m"
      "manual_target (mr_Outcome m) StateUncertain = Inr (st, dn)"
    and s': "s' = append_event e i ''manual_resolution'' (Some StateUncertain) (Some st) (o_version r + 1)
       ''manual'' (mr_Actor m) (mr_Reason m)
       [(''evidence_reference'', DetailText (mr_EvidenceReference m))]
       ((update_op i (manual_row e st (o_version r + 1)) s)\<lparr>decisions := decisions s @ [
         \<lparr>d_id = did, d_operation = i, d_attempt = None, d_decision = dn, d_source = ''manual'',
          d_actor = mr_Actor m, d_reason = mr_Reason m, d_refs = JArr [JStr (mr_EvidenceReference m)],
          d_from = StateUncertain, d_to = st, d_version = o_version r + 1\<rparr>]\<rparr>)"
    and op: "joined s' i = Some op"
    by (auto simp: manual_body_def bindE_Inr_iff Let_def store_simps)
  have "op = scanOperation w (manual_row e st (o_version r + 1) r)"
    using op r w by (auto simp: s' store_simps manual_row_def)
  then show thesis using that [OF r w g _ _ _ _ s'] by simp
qed

section \<open>The invariant\<close>

definition life_of :: "db \<Rightarrow> op_row \<Rightarrow> life" where
  "life_of s r = \<lparr>l_state = o_state r, l_auth = o_authorized r, l_attempts = o_attempts r,
     l_version = o_version r, l_leased = (o_lease_hash r \<noteq> None),
     l_receipted = (receipt_at s (o_id r) \<noteq> None)\<rparr>"

definition row_inv :: "db \<Rightarrow> op_row \<Rightarrow> bool" where
  "row_inv s r \<longleftrightarrow> life_run (o_profile r) (events_of (o_id r) s) (life_of s r)
     \<and> lookup_by w_id (o_workflow r) (workflows s) \<noteq> None"

definition log_inv :: "db \<Rightarrow> bool" where
  "log_inv s \<longleftrightarrow> sorted_wrt (<) (map ev_ID (events s)) \<and> (\<forall>ev \<in> set (events s). ev_ID ev \<le> event_seq s)"

definition store_inv :: "db \<Rightarrow> bool" where
  "store_inv s \<longleftrightarrow> (\<forall>i r. op_at s i = Some r \<longrightarrow> row_inv s r)
     \<and> (\<forall>i. op_at s i = None \<longrightarrow> events_of i s = [] \<and> receipt_at s i = None)
     \<and> distinct (map o_id (operations s)) \<and> log_inv s"

lemma store_inv_empty: "store_inv (empty_db runs)"
  by (simp add: store_inv_def empty_db_def events_of_def log_inv_def)

lemma store_invD:
  assumes "store_inv s" and "op_at s i = Some r"
  shows "life_run (o_profile r) (events_of i s) (life_of s r)" "row_inv s r" "o_id r = i"
  using assms lookup_by_Some [of o_id i "operations s" r] by (auto simp: store_inv_def row_inv_def)

lemma events_of_append_event [store_simps]:
  "events_of j (append_event e i t f g v a b c d s) =
     (if j = i then events_of j s @ [\<lparr>ev_ID = event_seq s + 1 + int (seq_gap e), ev_OperationID = i,
          ev_EventType = t, ev_FromState = f, ev_ToState = g, ev_OperationVersion = v,
          ev_Source = a, ev_Actor = b, ev_ReasonCode = c, ev_Details = d, ev_CreatedAt = now e\<rparr>]
      else events_of j s)"
  by (simp add: events_of_def append_event_def)

lemma events_of_cong: "events s' = events s \<Longrightarrow> events_of i s' = events_of i s"
  by (simp add: events_of_def)

lemma log_inv_append_event:
  assumes "log_inv s" and "events s1 = events s" and "event_seq s1 = event_seq s"
  shows "log_inv (append_event e i t f g v a b c d s1)"
  using assms by (auto simp: log_inv_def append_event_def sorted_wrt_append)

text \<open>
  One call advances one operation: its row is replaced, its receipt may appear, and the log gains
  the event of a lifecycle step.
\<close>

lemma store_inv_advance:
  assumes inv: "store_inv s"
    and r: "op_at s i = Some r"
    and s': "s' = append_event e i t (Some f) (Some g) v a b c d s1"
    and ops: "\<And>j. op_at s1 j = (if j = i then Some r' else op_at s j)"
    and ids: "map o_id (operations s1) = map o_id (operations s)"
    and wf: "workflows s1 = workflows s" and ev: "events s1 = events s" "event_seq s1 = event_seq s"
    and rc: "\<And>j. j \<noteq> i \<Longrightarrow> receipt_at s1 j = receipt_at s j"
    and keep: "o_id r' = o_id r" "o_profile r' = o_profile r" "o_workflow r' = o_workflow r"
    and st: "\<And>ev. signs ev t f g v \<Longrightarrow> ev_ReasonCode ev = c \<Longrightarrow>
               life_step (o_profile r) (life_of s r) ev (life_of s1 r')"
  shows "store_inv s'"
proof -
  have id: "o_id r = i" using store_invD(3) [OF inv r] .
  have log: "log_inv s'" using inv log_inv_append_event [OF _ ev] by (simp add: store_inv_def s')
  have same: "life_of s' q = life_of s1 q" for q by (simp add: life_of_def s' store_simps)
  have "row_inv s' q" if q: "op_at s' j = Some q" for j q
  proof (cases "j = i")
    case True
    then have "q = r'" using q by (simp add: s' store_simps ops)
    have "life_run (o_profile r) (events_of i s') (life_of s' r')"
      unfolding s' events_of_append_event events_of_cong [OF ev(1)]
      by (simp, rule life_run.step [OF store_invD(1) [OF inv r]])
        (simp add: same [unfolded s'], rule st, simp_all add: signs_def)
    with \<open>q = r'\<close> show ?thesis
      using store_invD(2) [OF inv r] by (simp add: row_inv_def keep id wf s' store_simps)
  next
    case False
    then have jq: "op_at s j = Some q" using q by (simp add: s' store_simps ops)
    have "o_id q = j" using store_invD(3) [OF inv jq] .
    moreover have "life_of s' q = life_of s q"
      using False \<open>o_id q = j\<close> by (simp add: life_of_def s' store_simps rc)
    moreover have "events_of j s' = events_of j s"
      using False by (simp add: s' store_simps events_of_cong [OF ev(1)])
    ultimately show ?thesis using store_invD(2) [OF inv jq] by (simp add: row_inv_def wf s' store_simps)
  qed
  moreover have "events_of j s' = [] \<and> receipt_at s' j = None" if none: "op_at s' j = None" for j
  proof -
    have "j \<noteq> i" using none by (auto simp: s' store_simps ops)
    then show ?thesis
      using none inv by (simp add: s' store_simps ops rc events_of_cong [OF ev(1)] store_inv_def)
  qed
  moreover have "distinct (map o_id (operations s'))"
    using inv by (simp add: s' store_simps ids store_inv_def)
  ultimately show ?thesis using log by (simp add: store_inv_def)
qed

end
