(* ===== verification/Store_Steps.thy ===== *)
theory Store_Steps
  imports Store_Invariant
begin

text \<open>
  Every operation of the store keeps the invariant: one lemma per transaction body, each a
  lifecycle step, then the calls, the executions of the store and its reachable databases.
\<close>

section \<open>The bodies\<close>

lemma map_ids_update_op:
  assumes "\<And>r. o_id (f r) = o_id r"
  shows "map o_id (operations (update_op i f s)) = map o_id (operations s)"
  using assms by (simp add: update_op_def map_key_update_by)

text \<open>The same step lemma for a call that replaces the row by \<open>f\<close> and touches no receipt.\<close>

lemma store_inv_row:
  assumes inv: "store_inv s" and r: "op_at s i = Some r"
    and s': "s' = append_event e i t (Some g) (Some h) v a b c d s1"
    and ops: "operations s1 = update_by o_id i f (operations s)"
    and frame: "workflows s1 = workflows s" "events s1 = events s" "event_seq s1 = event_seq s"
      "receipts s1 = receipts s"
    and keep: "\<And>q. o_id (f q) = o_id q" "o_profile (f r) = o_profile r" "o_workflow (f r) = o_workflow r"
    and st: "\<And>ev. signs ev t g h v \<Longrightarrow> ev_ReasonCode ev = c \<Longrightarrow>
               life_step (o_profile r) (life_of s r) ev (life_of s (f r))"
  shows "store_inv s'"
proof (rule store_inv_advance [OF inv r s', where r' = "f r"])
  show "op_at s1 j = (if j = i then Some (f r) else op_at s j)" for j
    using r by (simp add: ops lookup_by_update keep(1))
  show "map o_id (operations s1) = map o_id (operations s)"
    by (simp add: ops map_key_update_by keep(1))
  show "life_step (o_profile r) (life_of s r) ev (life_of s1 (f r))"
    if "signs ev t g h v" "ev_ReasonCode ev = c" for ev
    using st [OF that] by (simp add: life_of_def frame)
qed (simp_all add: frame keep)

lemma authorize_inv:
  assumes inv: "store_inv s" and b: "authorize_body e s i v = Inr (op, s')"
  shows "store_inv s'"
  using b
proof (rule authorize_ok)
  fix r w
  assume r: "op_at s i = Some r" and st: "o_state r = StatePrepared" "o_version r = v"
    "\<not> o_authorized r" "o_lease_hash r = None"
    and s': "s' = append_event e i ''dispatch_authorized'' (Some StatePrepared) (Some StatePrepared) (v + 1)
       ''worker'' ''workflow-worker'' ''single_send_authorized'' [] (update_op i (authorize_row e) s)"
  show ?thesis
  proof (rule store_inv_row [OF inv r s', where f = "authorize_row e"])
    fix ev assume "signs ev ''dispatch_authorized'' StatePrepared StatePrepared (v + 1)"
    then show "life_step (o_profile r) (life_of s r) ev (life_of s (authorize_row e r))"
      using life_step.dispatch [of "life_of s r" ev] st
      by (simp add: life_of_def authorize_row_def)
  qed (simp_all add: update_op_def authorize_row_def)
qed

lemma retry_inv:
  assumes inv: "store_inv s" and b: "retry_body e s i v reason = Inr (op, s')"
  shows "store_inv s'"
  using b
proof (rule retry_ok)
  fix r w
  assume r: "op_at s i = Some r" and st: "o_state r = StateRetryable" "o_version r = v"
    and s': "s' = append_event e i ''retry_started'' (Some StateRetryable) (Some StatePrepared) (v + 1)
       ''worker'' ''workflow-worker'' reason [] (update_op i (retry_row e (v + 1)) s)"
  show ?thesis
  proof (rule store_inv_row [OF inv r s', where f = "retry_row e (v + 1)"])
    fix ev assume "signs ev ''retry_started'' StateRetryable StatePrepared (v + 1)"
    then show "life_step (o_profile r) (life_of s r) ev (life_of s (retry_row e (v + 1) r))"
      using life_step.retry [of "life_of s r" ev] st by (simp add: life_of_def retry_row_def)
  qed (simp_all add: update_op_def retry_row_def)
qed

lemma request_inv:
  assumes inv: "store_inv s" and b: "request_body e s i v actor reason = Inr (op, s')"
  shows "store_inv s'"
  using b
proof (rule request_ok)
  fix r w
  assume r: "op_at s i = Some r" and st: "o_state r = StatePrepared \<or> o_state r = StateUncertain"
    "o_version r = v"
    and s': "s' = append_event e i ''reconciliation_requested'' (Some (o_state r)) (Some (o_state r)) (v + 1)
       ''manual'' actor reason [] (update_op i (request_row e (v + 1)) s)"
  show ?thesis
  proof (rule store_inv_row [OF inv r s', where f = "request_row e (v + 1)"])
    fix ev assume "signs ev ''reconciliation_requested'' (o_state r) (o_state r) (v + 1)"
    then show "life_step (o_profile r) (life_of s r) ev (life_of s (request_row e (v + 1) r))"
      using life_step.request [of "life_of s r" ev] st by (simp add: life_of_def request_row_def)
  qed (simp_all add: update_op_def request_row_def)
qed

lemma confirm_inv:
  assumes inv: "store_inv s" and b: "confirm_body e s i req fp = Inr (op, s')"
  shows "store_inv s'"
proof -
  from confirm_body_ok [OF b] consider "s' = s"
    | op0 where "joined s i = Some op0" "confirm_first e s i req fp op0 = Inr (op, s')"
    by blast
  then show ?thesis
  proof cases
    case 2
    from confirm_first_ok [OF 2(2,1)] obtain r w rid payload where r: "op_at s i = Some r"
      and st: "o_state r = StatePrepared" "receipt_at s i = None"
      and s': "s' = append_event e i ''receipt_confirmed'' (Some StatePrepared) (Some StateConfirmed)
       (o_version r + 1) ''api'' ''watchkeeper-api'' ''receipt_persisted''
       [(''receipt_id'', DetailText rid)]
       (update_op i (confirm_row e) (s\<lparr>receipts := receipts s @ [\<lparr>r_id = rid, r_operation = i,
          r_service_id = cr_ServiceReceiptID req, r_fingerprint = fp, r_payload = payload,
          r_received_at = cr_ReceivedAt req\<rparr>]\<rparr>))" (is "_ = append_event _ _ _ _ _ _ _ _ _ _ ?s1")
      by metis
    have id: "o_id r = i" using store_invD(3) [OF inv r] .
    show ?thesis
    proof (rule store_inv_advance [OF inv r s', where r' = "confirm_row e r"])
      show "op_at ?s1 j = (if j = i then Some (confirm_row e r) else op_at s j)" for j
        using r by (simp add: store_simps confirm_row_def)
      show "map o_id (operations ?s1) = map o_id (operations s)"
        by (simp add: map_ids_update_op confirm_row_def)
      show "receipt_at ?s1 j = receipt_at s j" if "j \<noteq> i" for j
        using that by (simp add: store_simps lookup_by_append split: option.splits)
      show "life_step (o_profile r) (life_of s r) ev (life_of ?s1 (confirm_row e r))"
        if "signs ev ''receipt_confirmed'' StatePrepared StateConfirmed (o_version r + 1)" for ev
        using life_step.confirm [of "life_of s r" ev] that st id
        by (simp add: life_of_def confirm_row_def store_simps lookup_by_append)
    qed (simp_all add: store_simps confirm_row_def)
  qed (simp add: inv)
qed


lemma claim_one_inv:
  assumes inv: "store_inv s" and b: "claim_one e worker d i s = Inr (c, s')"
    and open_state: "\<exists>r. op_at s i = Some r \<and> (o_state r = StatePrepared \<or> o_state r = StateUncertain)"
  shows "store_inv s'"
proof -
  from claim_one_ok [OF b] obtain r raw aid s2 where r: "op_at s i = Some r"
    and s2: "s2 = (update_op i (claim_row e worker (claimTokenHash (b64_encode raw)) d) s)\<lparr>attempts :=
       attempts s @ [\<lparr>a_id = aid, a_operation = i, a_number = next_attempt_number s i,
          a_owner = worker, a_started = now e, a_finished = None, a_result = None\<rparr>]\<rparr>"
    and s': "s' = append_event e i ''recovery_claimed'' (Some (o_state r)) (Some (o_state r)) (o_version r + 1)
       ''coordinator'' worker ''lease_acquired'' [(''attempt_id'', DetailText aid),
       (''lease_expires_at'', DetailTime (now e + d))] s2"
    by metis
  have st: "o_state r = StatePrepared \<or> o_state r = StateUncertain" using open_state r by simp
  show ?thesis
  proof (rule store_inv_row [OF inv r s', where f = "claim_row e worker (claimTokenHash (b64_encode raw)) d"])
    fix ev assume "signs ev ''recovery_claimed'' (o_state r) (o_state r) (o_version r + 1)"
    then show "life_step (o_profile r) (life_of s r) ev
        (life_of s (claim_row e worker (claimTokenHash (b64_encode raw)) d r))"
      using life_step.claim [of "life_of s r" ev] st by (simp add: life_of_def claim_row_def)
  qed (simp_all add: s2 update_op_def claim_row_def)
qed

text \<open>Claiming changes no state, so the rows selected stay open while the list is claimed.\<close>

lemma claim_one_frame:
  assumes "claim_one e worker d i s = Inr (c, s')"
  obtains r raw where "op_at s i = Some r" "entropy e i = Some raw" "cl_ClaimToken c = b64_encode raw"
    "operations s' = update_by o_id i (claim_row e worker (claimTokenHash (b64_encode raw)) d) (operations s)"
    "op_ID (cl_Operation c) = o_id r" "cl_Version c = o_version r + 1" "cl_LeaseExpiresAt c = now e + d"
    "op_Version (cl_Operation c) = o_version r + 1"
    "workflows s' = workflows s" "receipts s' = receipts s" "decisions s' = decisions s"
  using assms
proof (rule claim_one_ok)
  fix r w raw aid s2
  assume r: "op_at s i = Some r" "entropy e i = Some raw"
    and s2: "s2 = (update_op i (claim_row e worker (claimTokenHash (b64_encode raw)) d) s)\<lparr>attempts :=
       attempts s @ [\<lparr>a_id = aid, a_operation = i, a_number = next_attempt_number s i,
          a_owner = worker, a_started = now e, a_finished = None, a_result = None\<rparr>]\<rparr>"
    and s': "s' = append_event e i ''recovery_claimed'' (Some (o_state r)) (Some (o_state r)) (o_version r + 1)
       ''coordinator'' worker ''lease_acquired'' [(''attempt_id'', DetailText aid),
       (''lease_expires_at'', DetailTime (now e + d))] s2"
    and c: "c = \<lparr>cl_Operation = scanOperation w (claim_row e worker (claimTokenHash (b64_encode raw)) d r),
       cl_ClaimToken = b64_encode raw, cl_AttemptID = aid, cl_LeaseExpiresAt = now e + d,
       cl_Version = o_version r + 1\<rparr>"
  show thesis
    by (rule that [OF r]) (simp_all add: c s' s2 store_simps update_op_def claim_row_def)
qed

lemma claim_one_state:
  assumes "claim_one e worker d i s = Inr (c, s')"
  shows "map_option o_state (op_at s' j) = map_option o_state (op_at s j)"
  using assms
  by (rule claim_one_frame) (simp add: lookup_by_update claim_row_def option.map_comp o_def)

lemma claim_all_inv:
  "claim_all e worker d is s = Inr (cs, s') \<Longrightarrow> store_inv s \<Longrightarrow>
   \<forall>i \<in> set is. \<exists>r. op_at s i = Some r \<and> (o_state r = StatePrepared \<or> o_state r = StateUncertain) \<Longrightarrow>
   store_inv s'"
proof (induction "is" arbitrary: s cs)
  case Nil
  then show ?case by simp
next
  case (Cons i js)
  from Cons.prems(1) obtain c s1 cs1 where c: "claim_one e worker d i s = Inr (c, s1)"
    and rest: "claim_all e worker d js s1 = Inr (cs1, s')"
    by (auto simp: bindE_Inr_iff)
  have "store_inv s1" using claim_one_inv [OF Cons.prems(2) c] Cons.prems(3) by simp
  moreover have "\<forall>j \<in> set js. \<exists>r. op_at s1 j = Some r \<and> (o_state r = StatePrepared \<or> o_state r = StateUncertain)"
  proof
    fix j assume "j \<in> set js"
    then obtain r where "op_at s j = Some r" "o_state r = StatePrepared \<or> o_state r = StateUncertain"
      using Cons.prems(3) by auto
    then show "\<exists>r. op_at s1 j = Some r \<and> (o_state r = StatePrepared \<or> o_state r = StateUncertain)"
      using claim_one_state [OF c, of j] by (cases "op_at s1 j") auto
  qed
  ultimately show ?case using Cons.IH [OF rest] by blast
qed

lemma recovery_work_rows:
  assumes "distinct (map o_id (operations s))" and "i \<in> set (recovery_work e s limit grace wname)"
  obtains r where "op_at s i = Some r" "claimable (now e) grace s wname r" "i \<notin> set (locked e)"
proof -
  from assms(2) obtain r where "r \<in> set (operations s)" "o_id r = i" "claimable (now e) grace s wname r"
    "i \<notin> set (locked e)"
    by (auto simp: recovery_work_def dest!: in_set_takeD)
  with lookup_by_distinct [OF assms(1)] that show thesis by blast
qed

lemma claimable_open: "claimable t g s wname r \<Longrightarrow> o_state r = StatePrepared \<or> o_state r = StateUncertain"
  by (auto simp: claimable_def)

lemma claim_inv:
  assumes inv: "store_inv s" and b: "claim_all e worker d (recovery_work e s limit grace wname) s = Inr (cs, s')"
  shows "store_inv s'"
proof (rule claim_all_inv [OF b inv], rule ballI)
  fix i assume "i \<in> set (recovery_work e s limit grace wname)"
  then obtain r where "op_at s i = Some r" "claimable (now e) grace s wname r"
    using inv by (auto simp: store_inv_def elim!: recovery_work_rows)
  then show "\<exists>r. op_at s i = Some r \<and> (o_state r = StatePrepared \<or> o_state r = StateUncertain)"
    using claimable_open by blast
qed

lemma decide_verdict:
  assumes "v = decide (scanOperation w r) ob n"
  shows "v_toState v = StateReconciled \<and> v_reason v = ''effect_completed''
    \<or> v_toState v = StateRetryable \<and> v_reason v = ''dispatch_not_authorized'' \<and> \<not> o_authorized r
    \<or> v_toState v = StateRetryable \<and> v_reason v = ''idempotent_replay_guaranteed''
        \<and> o_profile r = ''idempotency_only''
    \<or> v_toState v = o_state r \<and> v_reason v = ''verification_transient''
    \<or> v_toState v = StateUncertain
        \<and> v_reason v \<in> {''evidence_contradictory'', ''evidence_insufficient''}"
  unfolding assms decide_def scanOperation_sel by (simp only: if_distrib [of v_toState]) simp

text \<open>The verdicts of the decision table are steps of a leased operation.\<close>

lemma result_step:
  assumes leased: "o_lease_hash r \<noteq> None"
    and v: "v = decide (scanOperation w r) ob n"
    and ev: "signs ev ''recovery_result'' (o_state r) (v_toState v) (o_version r + 1)"
      "ev_ReasonCode ev = v_reason v"
  shows "life_step (o_profile r) (life_of s r) ev (life_of s (result_row e v (o_version r + 1) r))"
proof -
  let ?l = "life_of s r"
  have l: "l_leased ?l" "l_state ?l = o_state r" "l_version ?l = o_version r" "l_auth ?l = o_authorized r"
    using leased by (simp_all add: life_of_def)
  have l': "life_of s (result_row e v (o_version r + 1) r) =
      ?l\<lparr>l_state := v_toState v, l_version := l_version ?l + 1, l_leased := False\<rparr>"
    by (simp add: life_of_def result_row_def)
  from decide_verdict [of v w r ob n] v
  consider (completed) "v_toState v = StateReconciled" "v_reason v = ''effect_completed''"
    | (unsent) "v_toState v = StateRetryable" "v_reason v = ''dispatch_not_authorized''" "\<not> o_authorized r"
    | (replay) "v_toState v = StateRetryable" "v_reason v = ''idempotent_replay_guaranteed''"
        "o_profile r = ''idempotency_only''"
    | (transient) "v_toState v = o_state r" "v_reason v = ''verification_transient''"
    | (uncertain) "v_toState v = StateUncertain" "v_reason v \<in> {''evidence_contradictory'', ''evidence_insufficient''}"
    by blast
  then show ?thesis
  proof cases
    case completed then show ?thesis using life_step.result_completed [of ?l ev] l ev l' by simp
  next
    case unsent then show ?thesis using life_step.result_unsent [of ?l ev] l ev l' by simp
  next
    case replay then show ?thesis using life_step.result_replay [of ?l "o_profile r" ev] l ev l' by simp
  next
    case transient then show ?thesis using life_step.result_transient [of ?l ev] l ev l'
      by (simp add: life_of_def)
  next
    case uncertain then show ?thesis using life_step.result_uncertain [of ?l ev] l ev l' by simp
  qed
qed

lemma submit_inv:
  assumes inv: "store_inv s" and b: "submit_body e s i res = Inr (op, s')"
  shows "store_inv s'"
  using b
proof (rule submit_ok)
  fix r w a v s3
  assume r: "op_at s i = Some r" and lv: "lease_valid e r (rr_ClaimToken res)"
    and v: "v = decide (scanOperation w r) (rr_Observation res) (a_number a)"
    and ops: "operations s3 = update_by o_id i (result_row e v (o_version r + 1)) (operations s)"
    and fr: "workflows s3 = workflows s" "receipts s3 = receipts s" "events s3 = events s"
      "event_seq s3 = event_seq s"
    and s': "\<exists>oid. s' = append_event e i ''recovery_result'' (Some (o_state r)) (Some (v_toState v))
       (o_version r + 1) ''coordinator'' ''recovery-coordinator'' (v_reason v)
       [(''attempt_id'', DetailText (rr_AttemptID res)), (''observation_id'', DetailText oid)] s3"
  from s' obtain oid where s': "s' = append_event e i ''recovery_result'' (Some (o_state r))
       (Some (v_toState v)) (o_version r + 1) ''coordinator'' ''recovery-coordinator'' (v_reason v)
       [(''attempt_id'', DetailText (rr_AttemptID res)), (''observation_id'', DetailText oid)] s3" ..
  have "o_lease_hash r \<noteq> None" using lv by (simp add: lease_valid_def)
  from result_step [OF this v]
  show ?thesis by (intro store_inv_row [OF inv r s' ops]) (simp_all add: fr result_row_def)
qed

lemma manual_target_states:
  "manual_target outcome StateUncertain = Inr (st, dn) \<Longrightarrow> st \<in> {StateReconciled, StateRetryable, StateUncertain}"
  by (auto simp: manual_target_def split: if_splits)

lemma manual_inv:
  assumes inv: "store_inv s" and b: "manual_body e s i m = Inr (op, s')"
  shows "store_inv s'"
  using b
proof (rule manual_ok)
  fix r w st dn d
  assume r: "op_at s i = Some r" and g: "o_state r = StateUncertain"
    "manual_target (mr_Outcome m) StateUncertain = Inr (st, dn)"
    and s': "s' = append_event e i ''manual_resolution'' (Some StateUncertain) (Some st) (o_version r + 1)
       ''manual'' (mr_Actor m) (mr_Reason m)
       [(''evidence_reference'', DetailText (mr_EvidenceReference m))]
       ((update_op i (manual_row e st (o_version r + 1)) s)\<lparr>decisions := decisions s @ [d]\<rparr>)"
  show ?thesis
  proof (rule store_inv_row [OF inv r s', where f = "manual_row e st (o_version r + 1)"])
    fix ev assume "signs ev ''manual_resolution'' StateUncertain st (o_version r + 1)"
    then show "life_step (o_profile r) (life_of s r) ev (life_of s (manual_row e st (o_version r + 1) r))"
      using life_step.manual [of "life_of s r" st ev] g(1) manual_target_states [OF g(2)]
      by (simp add: life_of_def manual_row_def)
  qed (simp_all add: update_op_def manual_row_def)
qed

lemma renew_inv:
  assumes inv: "store_inv s" and r: "op_at s i = Some r"
  shows "store_inv (update_op i (renew_row e d) s)"
proof -
  let ?s = "update_op i (renew_row e d) s"
  have ev: "events_of j ?s = events_of j s" for j by (simp add: events_of_def store_simps)
  have at: "op_at ?s j = (if j = i then map_option (renew_row e d) (op_at s i) else op_at s j)" for j
    by (simp add: store_simps renew_row_def)
  have row: "row_inv ?s q" if "op_at ?s j = Some q" for j q
  proof -
    from that obtain q0 where "op_at s j = Some q0" "q = q0 \<or> q = renew_row e d q0"
      by (auto simp: at split: if_splits)
    with store_invD(2) [OF inv] have "row_inv s q0" "q = q0 \<or> q = renew_row e d q0" by blast+
    then show ?thesis by (auto simp: row_inv_def life_of_def ev store_simps renew_row_def)
  qed
  moreover have "events_of j ?s = [] \<and> receipt_at ?s j = None" if "op_at ?s j = None" for j
    using that inv by (auto simp: at ev store_simps store_inv_def split: if_splits)
  ultimately show ?thesis
    using inv by (simp add: store_inv_def log_inv_def store_simps map_ids_update_op renew_row_def)
qed

section \<open>Prepare\<close>

lemma ensureWorkflow_ok:
  assumes "ensureWorkflow e s req = Inr (wid, s1)"
  obtains new where "s1 = s\<lparr>workflows := workflows s @ new\<rparr>" "lookup_by w_id wid (workflows s1) \<noteq> None"
    "ValidStrategy (pr_Strategy req)"
proof -
  let ?row = "\<lambda>x. \<lparr>w_id = x, w_external = pr_WorkflowID req, w_strategy = pr_Strategy req,
                  w_experiment = pr_ExperimentRunID req\<rparr>"
  from assms have s1: "s1 = s \<or> s1 = s\<lparr>workflows := workflows s @ [?row (the (fresh_id e ''workflow''))]\<rparr>"
    and vs: "ValidStrategy (pr_Strategy req)"
    and "\<exists>w. lookup_by w_external (pr_WorkflowID req) (workflows s1) = Some w \<and> wid = w_id w"
    by (auto simp: ensureWorkflow_def bindE_Inr_iff split: option.splits if_splits)
  then have "wid \<in> w_id ` set (workflows s1)" using lookup_by_Some by fastforce
  then have "lookup_by w_id wid (workflows s1) \<noteq> None" by (simp add: lookup_by_None)
  with vs s1 show thesis using that [of "[]"] that by auto
qed

lemma insert_operation_ok:
  assumes "insert_operation e i wid req s = Inr (res, s')"
  shows "(natural_key wid (pr_LogicalKey req) s \<noteq> None \<and> res = None \<and> s' = s)
    \<or> (\<exists>effect trace. natural_key wid (pr_LogicalKey req) s = None \<and> res = Some i \<and> op_at s i = None
        \<and> is_object effect
        \<and> s' = s\<lparr>operations := operations s @ [new_op_row e i wid req effect trace]\<rparr>)"
  using assms by (auto simp: insert_operation_def bindE_Inr_iff split: option.splits if_splits)

lemma prepare_ok:
  assumes "prepare_body e s req = Inr ((op, created), s')"
  obtains (existing) new wid r where "s' = s\<lparr>workflows := workflows s @ new\<rparr>" "\<not> created"
      "natural_key wid (pr_LogicalKey req) s' = Some r"
      "o_fingerprint r = pr_RequestFingerprint req" "joined s' (o_id r) = Some op"
    | (inserted) new wid i effect trace s1 where "created" "s1 = s\<lparr>workflows := workflows s @ new\<rparr>"
      "lookup_by w_id wid (workflows s1) \<noteq> None" "op_at s i = None"
      "natural_key wid (pr_LogicalKey req) s = None" "is_object effect"
      "s' = append_event e i ''intent_prepared'' None (Some StatePrepared) 1 ''api''
         ''watchkeeper-api'' ''intent_persisted'' []
         (s1\<lparr>operations := operations s @ [new_op_row e i wid req effect trace]\<rparr>)"
      "joined s' i = Some op"
proof -
  from assms obtain wid s1 i res s2 where w: "ensureWorkflow e s req = Inr (wid, s1)"
    and ins: "insert_operation e i wid req s1 = Inr (res, s2)"
    and rest: "case res of
        None \<Rightarrow> \<exists>r. natural_key wid (pr_LogicalKey req) s2 = Some r \<and> s' = s2
          \<and> o_fingerprint r = pr_RequestFingerprint req \<and> joined s2 (o_id r) = Some op \<and> \<not> created
      | Some i \<Rightarrow> s' = append_event e i ''intent_prepared'' None (Some StatePrepared) 1 ''api''
         ''watchkeeper-api'' ''intent_persisted'' [] s2 \<and> joined s' i = Some op \<and> created"
    by (auto simp: prepare_body_def bindE_Inr_iff Let_def store_simps split: option.splits prod.splits)
  from w obtain new where s1: "s1 = s\<lparr>workflows := workflows s @ new\<rparr>"
    and wid: "lookup_by w_id wid (workflows s1) \<noteq> None"
    by (rule ensureWorkflow_ok)
  from insert_operation_ok [OF ins] show thesis
  proof (elim disjE exE conjE)
    assume "res = None" "s2 = s1"
    with rest s1 show thesis using existing by auto
  next
    fix effect trace
    assume "natural_key wid (pr_LogicalKey req) s1 = None" "res = Some i" "op_at s1 i = None"
      "is_object effect"
      "s2 = s1\<lparr>operations := operations s1 @ [new_op_row e i wid req effect trace]\<rparr>"
    then show thesis
      using rest s1
      by (intro inserted [OF _ s1 wid, of i effect trace]) (auto simp: natural_key_def)
  qed
qed

lemma store_inv_workflows:
  assumes inv: "store_inv s"
  shows "store_inv (s\<lparr>workflows := workflows s @ new\<rparr>)"
proof -
  have "row_inv (s\<lparr>workflows := workflows s @ new\<rparr>) q" if "row_inv s q" for q
    using that by (auto simp: row_inv_def life_of_def events_of_def lookup_by_append split: option.splits)
  with inv show ?thesis by (simp add: store_inv_def events_of_def log_inv_def)
qed

lemma store_inv_insert:
  assumes inv: "store_inv s" and none: "op_at s i = None"
    and row: "r = new_op_row e i wid req effect trace" and wid: "lookup_by w_id wid (workflows s) \<noteq> None"
  shows "store_inv (append_event e i ''intent_prepared'' None (Some StatePrepared) 1 ''api''
         ''watchkeeper-api'' ''intent_persisted'' [] (s\<lparr>operations := operations s @ [r]\<rparr>))"
    (is "store_inv (append_event _ _ _ _ _ _ _ _ _ _ ?s1)" is "store_inv ?s")
proof -
  have r: "o_id r = i" "o_workflow r = wid" by (simp_all add: row new_op_row_def)
  have at: "op_at ?s j = (if j = i then Some r else op_at s j)" for j
    using none r by (simp add: store_simps lookup_by_append split: option.splits)
  have ev1: "events_of j ?s1 = events_of j s" for j by (simp add: events_of_def)
  have fresh: "events_of i s = []" "receipt_at s i = None"
    using inv none by (simp_all add: store_inv_def)
  have "life_of ?s r = init_life"
    using fresh by (simp add: life_of_def row new_op_row_def init_life_def store_simps)
  then have "row_inv ?s r"
    using wid fresh by (simp add: row_inv_def r ev1 store_simps)
      (rule life_run.start, simp add: signs_intent_def)
  moreover have "row_inv ?s q" if "op_at s j = Some q" "j \<noteq> i" for j q
    using store_invD [OF inv that(1)] that(2)
    by (simp add: row_inv_def life_of_def store_simps ev1)
  moreover have "events_of j ?s = [] \<and> receipt_at ?s j = None" if "op_at ?s j = None" for j
  proof -
    have "j \<noteq> i" "op_at s j = None" using that [unfolded at] by (auto split: if_splits)
    with inv show ?thesis by (simp add: ev1 store_simps store_inv_def)
  qed
  moreover have "log_inv ?s"
    using inv by (intro log_inv_append_event [where s = s]) (simp_all add: store_inv_def)
  moreover have "distinct (map o_id (operations ?s))"
    using inv none r by (auto simp: store_inv_def store_simps lookup_by_None)
  ultimately show ?thesis unfolding store_inv_def by (auto simp: at)
qed

lemma prepare_inv:
  assumes inv: "store_inv s" and b: "prepare_body e s req = Inr (x, s')"
  shows "store_inv s'"
proof -
  obtain op created where x: "x = (op, created)" by (cases x)
  from b [unfolded x] show ?thesis
  proof (cases rule: prepare_ok)
    case (existing new wid r)
    then show ?thesis using store_inv_workflows [OF inv] by simp
  next
    case (inserted new wid i effect trace s1)
    have "store_inv s1" using store_inv_workflows [OF inv] inserted(2) by simp
    from store_inv_insert [OF this _ refl inserted(3)] inserted show ?thesis by simp
  qed
qed

end
