(* ===== verification/Store_System.thy ===== *)
theory Store_System
  imports Store_Steps
begin

text \<open>
  The store as a system: its state-changing calls as values, the database after a call, and the
  databases reachable by any interleaving of calls from any number of clients (the row locks of
  the transactions make calls atomic). Rows only change by the guarded writes of \<open>row_write\<close>.
\<close>

section \<open>Calls\<close>

datatype call =
    CallPrepare PrepareRequest
  | CallAuthorize uuid int
  | CallConfirm uuid ConfirmRequest
  | CallRetry uuid int string
  | CallRequest uuid int string string
  | CallClaim string int duration duration string
  | CallRenew uuid string duration
  | CallSubmit uuid RecoveryResult
  | CallManual uuid ManualResolution

fun store_exec :: "env \<Rightarrow> call \<Rightarrow> db \<Rightarrow> db" where
  "store_exec e (CallPrepare req) s = snd (Prepare e s req)"
| "store_exec e (CallAuthorize i v) s = snd (AuthorizeDispatch e s i v)"
| "store_exec e (CallConfirm i req) s = snd (Confirm e s i req)"
| "store_exec e (CallRetry i v reason) s = snd (BeginRetry e s i v reason)"
| "store_exec e (CallRequest i v actor reason) s = snd (RequestReconciliation e s i v actor reason)"
| "store_exec e (CallClaim worker limit d grace wname) s =
     snd (ClaimRecoveryForWorkflow e s worker limit d grace wname)"
| "store_exec e (CallRenew i token d) s = snd (RenewClaim e s i token d)"
| "store_exec e (CallSubmit i res) s = snd (SubmitRecoveryResult e s i res)"
| "store_exec e (CallManual i m) s = snd (ManualResolve e s i m)"

inductive reachable :: "db \<Rightarrow> bool" where
  initial: "reachable (empty_db runs)"
| step: "reachable s \<Longrightarrow> reachable (store_exec e c s)"

lemma run_tx_snd: "snd (run_tx e b c s body) = s \<or> (\<exists>x. body = Inr (x, snd (run_tx e b c s body)))"
  by (auto simp: run_tx_def split: sum.splits commit_fate.splits)

text \<open>What a call leaves: the database it found, or the one of its successful body.\<close>

lemma store_exec_cases:
  obtains (same) "store_exec e c s = s"
  | (prepare) req x where "c = CallPrepare req" "prepare_body e s req = Inr (x, store_exec e c s)"
  | (authorize) i v op where "c = CallAuthorize i v" "authorize_body e s i v = Inr (op, store_exec e c s)"
  | (confirm) i req fp op where "c = CallConfirm i req" "ReceiptFingerprint (cr_Receipt req) = Inr fp"
      "confirm_body e s i req fp = Inr (op, store_exec e c s)"
  | (retry) i v reason op where "c = CallRetry i v reason"
      "retry_body e s i v reason = Inr (op, store_exec e c s)"
  | (request) i v actor reason op where "c = CallRequest i v actor reason"
      "request_body e s i v actor reason = Inr (op, store_exec e c s)"
  | (claim) worker limit d grace wname cs where "c = CallClaim worker limit d grace wname"
      "claim_all e worker d (recovery_work e s limit grace wname) s = Inr (cs, store_exec e c s)"
  | (renew) i token d r where "c = CallRenew i token d" "op_at s i = Some r" "lease_valid e r token"
      "store_exec e c s = update_op i (renew_row e d) s"
  | (submit) i res op where "c = CallSubmit i res" "submit_body e s i res = Inr (op, store_exec e c s)"
  | (manual) i m op where "c = CallManual i m" "manual_body e s i m = Inr (op, store_exec e c s)"
proof (cases "store_exec e c s = s")
  case True
  then show thesis by (rule same)
next
  case False
  show thesis
  proof (cases c)
    case (CallPrepare req)
    then show thesis using False run_tx_snd prepare by (fastforce simp: Prepare_def)
  next
    case (CallAuthorize i v)
    then show thesis using False run_tx_snd authorize by (fastforce simp: AuthorizeDispatch_def)
  next
    case (CallConfirm i req)
    then obtain fp where "ReceiptFingerprint (cr_Receipt req) = Inr fp"
      using False by (cases "ReceiptFingerprint (cr_Receipt req)") (simp_all add: Confirm_def)
    with CallConfirm False run_tx_snd confirm show thesis by (fastforce simp: Confirm_def)
  next
    case (CallRetry i v reason)
    then show thesis using False run_tx_snd retry by (fastforce simp: BeginRetry_def)
  next
    case (CallRequest i v actor reason)
    then show thesis using False run_tx_snd request by (fastforce simp: RequestReconciliation_def)
  next
    case (CallClaim worker limit d grace wname)
    then show thesis using False run_tx_snd claim
      by (fastforce simp: ClaimRecoveryForWorkflow_def bindE_Inr_iff)
  next
    case (CallRenew i token d)
    then obtain x where "(case op_at s i of
          None \<Rightarrow> Inl lease_lost
        | Some r \<Rightarrow>
            if o_lease_hash r = Some (claimTokenHash token)
               \<and> (case o_lease_expires r of Some x \<Rightarrow> now e < x | None \<Rightarrow> False)
            then Inr (now e + d, update_op i (renew_row e d) s)
            else Inl lease_lost) = Inr (x, store_exec e c s)"
      using False run_tx_snd by (fastforce simp: RenewClaim_def)
    then show thesis using renew [OF CallRenew]
      by (auto simp: lease_valid_def split: option.splits if_splits)
  next
    case (CallSubmit i res)
    then obtain u where "validObservation (rr_Observation res) = Inr u"
      using False by (cases "validObservation (rr_Observation res)") (simp_all add: SubmitRecoveryResult_def)
    with CallSubmit False run_tx_snd submit show thesis by (fastforce simp: SubmitRecoveryResult_def)
  next
    case (CallManual i m)
    then show thesis using False run_tx_snd manual by (fastforce simp: ManualResolve_def)
  qed
qed

lemma store_exec_inv:
  assumes inv: "store_inv s"
  shows "store_inv (store_exec e c s)"
  by (cases rule: store_exec_cases [of e c s])
    (use inv in \<open>auto dest: prepare_inv authorize_inv confirm_inv retry_inv request_inv claim_inv
       renew_inv submit_inv manual_inv\<close>)

lemma reachable_inv: "reachable s \<Longrightarrow> store_inv s"
  by (induction rule: reachable.induct) (simp_all add: store_inv_empty store_exec_inv)

section \<open>The writes a row can undergo\<close>

inductive row_write :: "env \<Rightarrow> call \<Rightarrow> op_row \<Rightarrow> op_row \<Rightarrow> bool" for e where
  authorize: "o_state r = StatePrepared \<Longrightarrow> \<not> o_authorized r \<Longrightarrow> o_lease_hash r = None \<Longrightarrow>
    row_write e (CallAuthorize (o_id r) (o_version r)) r (authorize_row e r)"
| confirm: "o_state r = StatePrepared \<Longrightarrow> o_version r = cr_ExpectedVersion req \<Longrightarrow>
    row_write e (CallConfirm (o_id r) req) r (confirm_row e r)"
| retry: "o_state r = StateRetryable \<Longrightarrow>
    row_write e (CallRetry (o_id r) (o_version r) reason) r (retry_row e (o_version r + 1) r)"
| request: "o_state r = StatePrepared \<or> o_state r = StateUncertain \<Longrightarrow>
    row_write e (CallRequest (o_id r) (o_version r) actor reason) r (request_row e (o_version r + 1) r)"
| claim: "claimable (now e) grace s wname r \<Longrightarrow> o_id r \<notin> set (locked e) \<Longrightarrow>
    row_write e (CallClaim worker limit d grace wname) r (claim_row e worker h d r)"
| renew: "lease_valid e r token \<Longrightarrow> row_write e (CallRenew (o_id r) token d) r (renew_row e d r)"
| result: "lease_valid e r (rr_ClaimToken res) \<Longrightarrow> o_version r = rr_ExpectedVersion res \<Longrightarrow>
    v = decide (scanOperation w r) (rr_Observation res) n \<Longrightarrow>
    row_checks (result_row e v (o_version r + 1) r) \<Longrightarrow>
    row_write e (CallSubmit (o_id r) res) r (result_row e v (o_version r + 1) r)"
| manual: "o_state r = StateUncertain \<Longrightarrow> o_version r = mr_ExpectedVersion m \<Longrightarrow>
    manual_target (mr_Outcome m) StateUncertain = Inr (st, dn) \<Longrightarrow>
    row_write e (CallManual (o_id r) m) r (manual_row e st (o_version r + 1) r)"

lemmas row_writes = authorize_row_def confirm_row_def retry_row_def request_row_def claim_row_def
  renew_row_def result_row_def manual_row_def

text \<open>How one row fares in a call: it stays, or one guarded write replaces it.\<close>

definition row_frame :: "env \<Rightarrow> call \<Rightarrow> op_row option \<Rightarrow> op_row option \<Rightarrow> bool" where
  "row_frame e c before after \<longleftrightarrow> after = before
     \<or> (\<exists>r r'. before = Some r \<and> after = Some r' \<and> row_write e c r r')
     \<or> (before = None \<and> (\<exists>i wid req effect trace. c = CallPrepare req \<and> is_object effect
          \<and> after = Some (new_op_row e i wid req effect trace)))"

lemma row_frame_update:
  assumes "operations s' = update_by o_id i f (operations s)" and "op_at s i = Some r"
    and "row_write e c r (f r)" and "\<And>q. o_id (f q) = o_id q"
  shows "row_frame e c (op_at s j) (op_at s' j)"
  using assms by (auto simp: row_frame_def lookup_by_update)

lemma row_frame_refl [simp]: "row_frame e c x x"
  by (simp add: row_frame_def)

text \<open>Claiming a list of distinct rows writes each of them once.\<close>

lemma claim_all_other:
  "claim_all e worker d is s = Inr (cs, s') \<Longrightarrow> j \<notin> set is \<Longrightarrow> op_at s' j = op_at s j"
proof (induction "is" arbitrary: s cs)
  case (Cons i js)
  from Cons.prems(1) obtain c s1 cs1 where c: "claim_one e worker d i s = Inr (c, s1)"
    and rest: "claim_all e worker d js s1 = Inr (cs1, s')"
    by (auto simp: bindE_Inr_iff)
  have "op_at s1 j = op_at s j"
    by (rule claim_one_frame [OF c]) (use Cons.prems(2) in \<open>simp add: lookup_by_update claim_row_def\<close>)
  with Cons.IH [OF rest] Cons.prems(2) show ?case by simp
qed simp

lemma claim_all_member:
  "claim_all e worker d is s = Inr (cs, s') \<Longrightarrow> distinct is \<Longrightarrow> j \<in> set is \<Longrightarrow>
   \<exists>r raw. op_at s j = Some r \<and> op_at s' j = Some (claim_row e worker (claimTokenHash (b64_encode raw)) d r)
     \<and> (\<exists>c \<in> set cs. op_ID (cl_Operation c) = j \<and> cl_ClaimToken c = b64_encode raw
          \<and> cl_Version c = o_version r + 1 \<and> op_Version (cl_Operation c) = o_version r + 1
          \<and> cl_LeaseExpiresAt c = now e + d)"
proof (induction "is" arbitrary: s cs)
  case (Cons i js)
  from Cons.prems(1) obtain c s1 cs1 where c: "claim_one e worker d i s = Inr (c, s1)"
    and rest: "claim_all e worker d js s1 = Inr (cs1, s')" and cs: "cs = c # cs1"
    by (auto simp: bindE_Inr_iff)
  from c show ?case
  proof (rule claim_one_frame)
    fix r raw
    assume r: "op_at s i = Some r" and ct: "cl_ClaimToken c = b64_encode raw" "op_ID (cl_Operation c) = o_id r"
        "cl_Version c = o_version r + 1" "cl_LeaseExpiresAt c = now e + d"
        "op_Version (cl_Operation c) = o_version r + 1"
      and ops: "operations s1 = update_by o_id i (claim_row e worker (claimTokenHash (b64_encode raw)) d) (operations s)"
    have at: "op_at s1 k = (if k = i then Some (claim_row e worker (claimTokenHash (b64_encode raw)) d r)
                else op_at s k)" for k
      using r by (simp add: ops lookup_by_update claim_row_def)
    show ?thesis
    proof (cases "j = i")
      case True
      have "op_at s' j = op_at s1 j" using claim_all_other [OF rest] True Cons.prems(2) by simp
      moreover have "o_id r = i" using r lookup_by_Some by metis
      ultimately show ?thesis using True r ct at cs by auto
    next
      case False
      then show ?thesis using Cons.IH [OF rest] Cons.prems(2,3) at cs by auto
    qed
  qed
qed simp

lemma recovery_work_distinct:
  assumes "distinct (map o_id (operations s))"
  shows "distinct (recovery_work e s limit grace wname)"
proof -
  let ?l = "filter (\<lambda>r. o_id r \<notin> set (locked e))
         (sort_key claim_key (filter (claimable (now e) grace s wname) (operations s)))"
  have "distinct (filter (claimable (now e) grace s wname) (operations s))"
    and inj: "inj_on o_id (set (operations s))"
    using assms by (simp_all add: distinct_map)
  then have "distinct ?l" by (simp add: distinct_filter)
  moreover have "set ?l \<subseteq> set (operations s)" by auto
  ultimately have "distinct (map o_id ?l)" using inj by (simp add: distinct_map inj_on_subset)
  then show ?thesis unfolding recovery_work_def by (metis distinct_take take_map)
qed

lemma claim_frame:
  assumes inv: "store_inv s" and b: "claim_all e worker d (recovery_work e s limit grace wname) s = Inr (cs, s')"
  shows "row_frame e (CallClaim worker limit d grace wname) (op_at s j) (op_at s' j)"
proof (cases "j \<in> set (recovery_work e s limit grace wname)")
  case True
  have ids: "distinct (map o_id (operations s))" using inv by (simp add: store_inv_def)
  from recovery_work_rows [OF ids True] obtain r where r: "op_at s j = Some r"
    and "claimable (now e) grace s wname r" "j \<notin> set (locked e)" by metis
  moreover have "o_id r = j" using r lookup_by_Some by metis
  ultimately have "row_write e (CallClaim worker limit d grace wname) r (claim_row e worker h d r)" for h
    by (auto intro: row_write.claim)
  with r claim_all_member [OF b recovery_work_distinct [OF ids] True] show ?thesis
    by (auto simp: row_frame_def)
qed (use claim_all_other [OF b] in simp)

lemma op_at_id: "op_at s i = Some r \<Longrightarrow> o_id r = i"
  using lookup_by_Some by metis

lemma store_exec_frame:
  assumes inv: "store_inv s"
  shows "row_frame e c (op_at s j) (op_at (store_exec e c s) j)"
proof (cases rule: store_exec_cases [of e c s])
  case (prepare req x)
  obtain op created where "x = (op, created)" by (cases x)
  from prepare(2) [unfolded this] show ?thesis
    by (cases rule: prepare_ok)
      (auto simp: row_frame_def store_simps lookup_by_append new_op_row_def prepare(1) split: option.splits)
next
  case (authorize i v op)
  from authorize(2) show ?thesis
  proof (rule authorize_ok)
    fix r
    assume r: "op_at s i = Some r" "o_state r = StatePrepared" "o_version r = v" "\<not> o_authorized r"
        "o_lease_hash r = None"
      and s': "store_exec e c s = append_event e i ''dispatch_authorized'' (Some StatePrepared)
        (Some StatePrepared) (v + 1) ''worker'' ''workflow-worker'' ''single_send_authorized'' []
        (update_op i (authorize_row e) s)"
    have "row_write e c r (authorize_row e r)"
      using row_write.authorize [OF r(2,4,5), of e] r(3) op_at_id [OF r(1)] authorize(1) by simp
    from row_frame_update [where f = "authorize_row e" and j = j and s' = "store_exec e c s", OF _ r(1) this] show ?thesis
      by (simp add: s' store_simps update_op_def authorize_row_def)
  qed
next
  case (confirm i req fp op)
  from confirm_body_ok [OF confirm(3)] show ?thesis
  proof (elim disjE exE conjE)
    fix op0
    assume "joined s i = Some op0" "confirm_first e s i req fp op0 = Inr (op, store_exec e c s)"
    from this(2,1) obtain r where r: "op_at s i = Some r"
        "o_state r = StatePrepared" "o_version r = cr_ExpectedVersion req"
      and s': "operations (store_exec e c s) = update_by o_id i (confirm_row e) (operations s)"
      by (rule confirm_first_ok) (simp add: append_event_def update_op_def)
    have "row_write e c r (confirm_row e r)"
      using row_write.confirm [OF r(2,3)] op_at_id [OF r(1)] confirm(1) by simp
    from row_frame_update [where f = "confirm_row e", OF s' r(1) this] show ?thesis by (simp add: confirm_row_def)
  qed simp
next
  case (retry i v reason op)
  from retry(2) show ?thesis
  proof (rule retry_ok)
    fix r
    assume r: "op_at s i = Some r" "o_state r = StateRetryable" "o_version r = v"
      and s': "store_exec e c s = append_event e i ''retry_started'' (Some StateRetryable)
        (Some StatePrepared) (v + 1) ''worker'' ''workflow-worker'' reason []
        (update_op i (retry_row e (v + 1)) s)"
    have "row_write e c r (retry_row e (v + 1) r)"
      using row_write.retry [OF r(2)] r(3) op_at_id [OF r(1)] retry(1) by simp
    from row_frame_update [where f = "retry_row e (v + 1)" and j = j and s' = "store_exec e c s", OF _ r(1) this] show ?thesis
      by (simp add: s' store_simps update_op_def retry_row_def)
  qed
next
  case (request i v actor reason op)
  from request(2) show ?thesis
  proof (rule request_ok)
    fix r
    assume r: "op_at s i = Some r" "o_state r = StatePrepared \<or> o_state r = StateUncertain" "o_version r = v"
      and s': "store_exec e c s = append_event e i ''reconciliation_requested'' (Some (o_state r))
        (Some (o_state r)) (v + 1) ''manual'' actor reason [] (update_op i (request_row e (v + 1)) s)"
    have "row_write e c r (request_row e (v + 1) r)"
      using row_write.request [OF r(2)] r(3) op_at_id [OF r(1)] request(1) by simp
    from row_frame_update [where f = "request_row e (v + 1)" and j = j and s' = "store_exec e c s", OF _ r(1) this] show ?thesis
      by (simp add: s' store_simps update_op_def request_row_def)
  qed
next
  case (claim worker limit d grace wname cs)
  then show ?thesis using claim_frame [OF inv] by blast
next
  case (renew i token d r)
  have "row_write e c r (renew_row e d r)"
    using row_write.renew [OF renew(3)] op_at_id [OF renew(2)] renew(1) by simp
  from row_frame_update [where f = "renew_row e d" and j = j and s' = "store_exec e c s", OF _ renew(2) this] show ?thesis
    by (simp add: renew(4) update_op_def renew_row_def)
next
  case (submit i res op)
  from submit(2) show ?thesis
  proof (rule submit_ok)
    fix r w a v s3
    assume r: "op_at s i = Some r" and chk: "row_checks (result_row e v (o_version r + 1) r)"
        "lease_valid e r (rr_ClaimToken res)" "o_version r = rr_ExpectedVersion res"
        "v = decide (scanOperation w r) (rr_Observation res) (a_number a)"
      and ops: "operations s3 = update_by o_id i (result_row e v (o_version r + 1)) (operations s)"
      and s': "\<exists>oid. store_exec e c s = append_event e i ''recovery_result'' (Some (o_state r)) (Some (v_toState v))
       (o_version r + 1) ''coordinator'' ''recovery-coordinator'' (v_reason v)
       [(''attempt_id'', DetailText (rr_AttemptID res)), (''observation_id'', DetailText oid)] s3"
    have "row_write e c r (result_row e v (o_version r + 1) r)"
      using row_write.result [OF chk(2-4) chk(1)] op_at_id [OF r] submit(1) by simp
    from row_frame_update [where f = "result_row e v (o_version r + 1)" and j = j and s' = "store_exec e c s", OF _ r this] show ?thesis
      using s' ops by (auto simp: store_simps result_row_def)
  qed
next
  case (manual i m op)
  from manual(2) show ?thesis
  proof (rule manual_ok)
    fix r w st dn d
    assume r: "op_at s i = Some r" "o_state r = StateUncertain" "o_version r = mr_ExpectedVersion m"
      and t: "manual_target (mr_Outcome m) StateUncertain = Inr (st, dn)"
      and s': "store_exec e c s = append_event e i ''manual_resolution'' (Some StateUncertain) (Some st) (o_version r + 1)
       ''manual'' (mr_Actor m) (mr_Reason m)
       [(''evidence_reference'', DetailText (mr_EvidenceReference m))]
       ((update_op i (manual_row e st (o_version r + 1)) s)\<lparr>decisions := decisions s @ [d]\<rparr>)"
    have "row_write e c r (manual_row e st (o_version r + 1) r)"
      using row_write.manual [OF r(2,3) t] op_at_id [OF r(1)] manual(1) by simp
    from row_frame_update [where f = "manual_row e st (o_version r + 1)" and j = j and s' = "store_exec e c s", OF _ r(1) this] show ?thesis
      by (simp add: s' store_simps update_op_def manual_row_def)
  qed
qed simp_all

section \<open>What the writes keep\<close>

lemma row_write_version: "row_write e c r r' \<Longrightarrow> o_version r \<le> o_version r'"
  by (induction rule: row_write.induct) (simp_all add: row_writes)

lemma row_write_keeps: "row_write e c r r' \<Longrightarrow>
  o_id r' = o_id r \<and> o_workflow r' = o_workflow r \<and> o_logical_key r' = o_logical_key r
  \<and> o_fingerprint r' = o_fingerprint r \<and> o_profile r' = o_profile r \<and> o_expected r' = o_expected r
  \<and> o_target r' = o_target r \<and> o_action r' = o_action r \<and> o_created_at r' = o_created_at r"
  by (induction rule: row_write.induct) (simp_all add: row_writes)

text \<open>A row out of the queue's reach and without a lease is never written again.\<close>

lemma row_write_confirmed: "row_write e c r r' \<Longrightarrow> o_lease_hash r = None \<Longrightarrow> o_state r \<noteq> StateConfirmed"
  by (induction rule: row_write.induct) (auto simp: lease_valid_def claimable_def)

text \<open>The checks of the schema hold after every write, so no update trips over one.\<close>

lemma row_write_checks: "row_write e c r r' \<Longrightarrow> row_checks r \<Longrightarrow> row_checks r'"
proof (induction rule: row_write.induct)
  case (renew r token d)
  then show ?case by (auto simp: row_checks_def renew_row_def lease_valid_def split: option.splits)
next
  case (manual r m st dn)
  then show ?case using manual_target_states [OF manual(3)] by (auto simp: row_checks_def manual_row_def)
qed (auto simp: row_checks_def authorize_row_def confirm_row_def retry_row_def request_row_def
       claim_row_def claimable_def)

lemma new_row_checks: "is_object effect \<Longrightarrow> row_checks (new_op_row e i wid req effect trace)"
  by (simp add: row_checks_def new_op_row_def)

lemma store_exec_row:
  assumes "store_inv s" and "op_at s j = Some r"
  obtains "op_at (store_exec e c s) j = Some r"
  | r' where "op_at (store_exec e c s) j = Some r'" "row_write e c r r'"
  using store_exec_frame [OF assms(1), where e = e and j = j and c = c] assms(2) by (auto simp: row_frame_def)

lemma reachable_checks: "reachable s \<Longrightarrow> op_at s i = Some r \<Longrightarrow> row_checks r"
proof (induction arbitrary: i r rule: reachable.induct)
  case (initial runs)
  then show ?case by (simp add: empty_db_def)
next
  case (step s e c)
  have "row_frame e c (op_at s i) (Some r)"
    using store_exec_frame [OF reachable_inv [OF step.hyps], where e = e and j = i and c = c] step.prems by simp
  then show ?case
    unfolding row_frame_def using step.IH row_write_checks new_row_checks by auto
qed

section \<open>Runs of calls\<close>

fun run_calls :: "(env \<times> call) list \<Rightarrow> db \<Rightarrow> db" where
  "run_calls [] s = s"
| "run_calls ((e, c) # cs) s = run_calls cs (store_exec e c s)"

lemma run_calls_reachable: "reachable s \<Longrightarrow> reachable (run_calls cs s)"
  by (induction cs s rule: run_calls.induct) (simp_all add: reachable.step)

lemma run_calls_inv: "store_inv s \<Longrightarrow> store_inv (run_calls cs s)"
  by (induction cs s rule: run_calls.induct) (simp_all add: store_exec_inv)

text \<open>A property of rows kept by every write is kept along a run.\<close>

lemma run_calls_row:
  assumes inv: "store_inv s" and r: "op_at s i = Some r" and P: "P r"
    and keep: "\<And>e c q q'. c \<in> snd ` set cs \<Longrightarrow> P q \<Longrightarrow> row_write e c q q' \<Longrightarrow> P q'"
  shows "\<exists>r'. op_at (run_calls cs s) i = Some r' \<and> P r'"
  using inv r P keep
proof (induction cs s arbitrary: r rule: run_calls.induct)
  case (2 e c cs s)
  have keep: "\<And>e c q q'. c \<in> snd ` set cs \<Longrightarrow> P q \<Longrightarrow> row_write e c q q' \<Longrightarrow> P q'"
    by (rule "2.prems"(4)) auto
  have now: "\<And>q q'. P q \<Longrightarrow> row_write e c q q' \<Longrightarrow> P q'"
    by (rule "2.prems"(4)) auto
  from "2.prems"(1,2) obtain r' where "op_at (store_exec e c s) i = Some r'" "P r'"
    by (cases rule: store_exec_row [where e = e and c = c]) (use now "2.prems"(3) in auto)
  from "2.IH" [OF store_exec_inv [OF "2.prems"(1)] this keep] show ?case by simp
qed auto

lemma run_calls_version:
  assumes "store_inv s" and "op_at s i = Some r"
  shows "\<exists>r'. op_at (run_calls cs s) i = Some r' \<and> o_version r \<le> o_version r'"
proof (rule run_calls_row [OF assms])
  show "o_version r \<le> o_version q'" if "o_version r \<le> o_version q" "row_write e c q q'" for e c q q'
    using that(1) row_write_version [OF that(2)] by simp
qed simp

section \<open>Tables that only grow\<close>

lemma claim_all_receipts: "claim_all e worker d is s = Inr (cs, s') \<Longrightarrow> receipts s' = receipts s"
proof (induction "is" arbitrary: s cs)
  case (Cons i js)
  from Cons.prems obtain c s1 cs1 where c: "claim_one e worker d i s = Inr (c, s1)"
    and rest: "claim_all e worker d js s1 = Inr (cs1, s')"
    by (auto simp: bindE_Inr_iff)
  from c have "receipts s1 = receipts s" by (rule claim_one_frame)
  with Cons.IH [OF rest] show ?case by simp
qed simp

lemma store_exec_receipts: "\<exists>rs. receipts (store_exec e c s) = receipts s @ rs"
proof (cases rule: store_exec_cases [of e c s])
  case (prepare req x)
  then show ?thesis by (cases x) (auto elim!: prepare_ok simp: store_simps)
next
  case (authorize i v op)
  from authorize(2) show ?thesis by (rule authorize_ok) (simp add: store_simps)
next
  case (confirm i req fp op)
  from confirm_body_ok [OF confirm(3)] show ?thesis
    by (auto elim!: confirm_first_ok simp: store_simps)
next
  case (retry i v reason op)
  from retry(2) show ?thesis by (rule retry_ok) (simp add: store_simps)
next
  case (request i v actor reason op)
  from request(2) show ?thesis by (rule request_ok) (simp add: store_simps)
next
  case (claim worker limit d grace wname cs)
  then show ?thesis using claim_all_receipts by fastforce
next
  case (submit i res op)
  from submit(2) show ?thesis by (rule submit_ok) (auto simp: store_simps)
next
  case (manual i m op)
  from manual(2) show ?thesis by (rule manual_ok) (simp add: store_simps)
qed (simp_all add: store_simps)

lemma run_calls_receipts: "\<exists>rs. receipts (run_calls cs s) = receipts s @ rs"
proof (induction cs s rule: run_calls.induct)
  case (2 e c cs s)
  then show ?case using store_exec_receipts [of e c s] by (metis append.assoc run_calls.simps(2))
qed simp

lemma receipt_stays:
  assumes "receipt_at s i = Some rc"
  shows "receipt_at (run_calls cs s) i = Some rc"
  using run_calls_receipts [of cs s] assms by (auto simp: lookup_by_append)

text \<open>Natural keys: an update keeps them, an insertion adds one that was free.\<close>

definition row_key :: "op_row \<Rightarrow> uuid \<times> string" where
  "row_key r = (o_workflow r, o_logical_key r)"

definition keys :: "db \<Rightarrow> (uuid \<times> string) list" where
  "keys s = map row_key (operations s)"

lemma keys_update:
  "operations s' = update_by o_id i f (operations s) \<Longrightarrow> (\<And>r. row_key (f r) = row_key r) \<Longrightarrow> keys s' = keys s"
  by (simp add: keys_def update_by_def)

lemma claim_all_keys: "claim_all e worker d is s = Inr (cs, s') \<Longrightarrow> keys s' = keys s"
proof (induction "is" arbitrary: s cs)
  case (Cons i js)
  from Cons.prems obtain c s1 cs1 where c: "claim_one e worker d i s = Inr (c, s1)"
    and rest: "claim_all e worker d js s1 = Inr (cs1, s')"
    by (auto simp: bindE_Inr_iff)
  from c have "keys s1 = keys s"
    by (rule claim_one_frame) (rule keys_update, assumption, simp add: row_key_def claim_row_def)
  with Cons.IH [OF rest] show ?case by simp
qed simp

lemma store_exec_keys:
  "keys (store_exec e c s) = keys s
   \<or> (\<exists>k. k \<notin> set (keys s) \<and> keys (store_exec e c s) = keys s @ [k])"
proof (cases rule: store_exec_cases [of e c s])
  case (prepare req x)
  obtain op created where "x = (op, created)" by (cases x)
  from prepare(2) [unfolded this] show ?thesis
  proof (cases rule: prepare_ok)
    case (inserted new wid i effect trace s1)
    then have "(wid, pr_LogicalKey req) \<notin> set (keys s)"
      by (auto simp: natural_key_def find_None_iff keys_def row_key_def)
    then show ?thesis using inserted by (simp add: keys_def row_key_def store_simps new_op_row_def)
  qed (simp add: keys_def)
next
  case (authorize i v op)
  from authorize(2) have "keys (store_exec e c s) = keys s"
    by (rule authorize_ok)
      (rule keys_update [where f = "authorize_row e"],
       simp_all add: append_event_def update_op_def row_key_def authorize_row_def)
  then show ?thesis ..
next
  case (confirm i req fp op)
  from confirm_body_ok [OF confirm(3)] have "keys (store_exec e c s) = keys s"
  proof (elim disjE exE conjE)
    fix op0
    assume "joined s i = Some op0" "confirm_first e s i req fp op0 = Inr (op, store_exec e c s)"
    from this(2,1) have "operations (store_exec e c s) = update_by o_id i (confirm_row e) (operations s)"
      by (rule confirm_first_ok) (simp add: append_event_def update_op_def)
    then show "keys (store_exec e c s) = keys s"
      by (rule keys_update) (simp add: row_key_def confirm_row_def)
  qed simp
  then show ?thesis ..
next
  case (retry i v reason op)
  from retry(2) have "keys (store_exec e c s) = keys s"
    by (rule retry_ok)
      (rule keys_update [where f = "retry_row e (v + 1)"],
       simp_all add: append_event_def update_op_def row_key_def retry_row_def)
  then show ?thesis ..
next
  case (request i v actor reason op)
  from request(2) have "keys (store_exec e c s) = keys s"
    by (rule request_ok)
      (rule keys_update [where f = "request_row e (v + 1)"],
       simp_all add: append_event_def update_op_def row_key_def request_row_def)
  then show ?thesis ..
next
  case (claim worker limit d grace wname cs)
  then show ?thesis using claim_all_keys by blast
next
  case (renew i token d r)
  have "keys (store_exec e c s) = keys s"
    by (rule keys_update [where f = "renew_row e d"])
      (simp_all add: renew(4) update_op_def row_key_def renew_row_def)
  then show ?thesis ..
next
  case (submit i res op)
  from submit(2) have "keys (store_exec e c s) = keys s"
  proof (rule submit_ok)
    fix r v s3
    assume ops: "operations s3 = update_by o_id i (result_row e v (o_version r + 1)) (operations s)"
      and s': "\<exists>oid. store_exec e c s = append_event e i ''recovery_result'' (Some (o_state r)) (Some (v_toState v))
       (o_version r + 1) ''coordinator'' ''recovery-coordinator'' (v_reason v)
       [(''attempt_id'', DetailText (rr_AttemptID res)), (''observation_id'', DetailText oid)] s3"
    show "keys (store_exec e c s) = keys s"
      by (rule keys_update [where f = "result_row e v (o_version r + 1)"])
        (use s' ops in \<open>auto simp: append_event_def row_key_def result_row_def\<close>)
  qed
  then show ?thesis ..
next
  case (manual i m op)
  from manual(2) have "keys (store_exec e c s) = keys s"
  proof (rule manual_ok)
    fix r st d
    assume s': "store_exec e c s = append_event e i ''manual_resolution'' (Some StateUncertain) (Some st) (o_version r + 1)
       ''manual'' (mr_Actor m) (mr_Reason m)
       [(''evidence_reference'', DetailText (mr_EvidenceReference m))]
       ((update_op i (manual_row e st (o_version r + 1)) s)\<lparr>decisions := decisions s @ [d]\<rparr>)"
    show "keys (store_exec e c s) = keys s"
      by (rule keys_update [where f = "manual_row e st (o_version r + 1)"])
        (simp_all add: s' append_event_def update_op_def row_key_def manual_row_def)
  qed
  then show ?thesis ..
qed simp

lemma reachable_keys: "reachable s \<Longrightarrow> distinct (keys s)"
proof (induction rule: reachable.induct)
  case (step s e c)
  then show ?case using store_exec_keys [of e c s] by auto
qed (simp add: keys_def empty_db_def)

lemma natural_key_eq:
  assumes "reachable s" and "op_at s i = Some r"
  shows "natural_key (o_workflow r) (o_logical_key r) s = Some r"
proof -
  let ?P = "\<lambda>q. o_workflow q = o_workflow r \<and> o_logical_key q = o_logical_key r"
  have mem: "r \<in> set (operations s)" using assms(2) lookup_by_Some by metis
  then obtain q where q: "natural_key (o_workflow r) (o_logical_key r) s = Some q"
    by (cases "find ?P (operations s)") (auto simp: natural_key_def find_None_iff)
  then have "q \<in> set (operations s)" "row_key q = row_key r"
    by (auto simp: natural_key_def find_Some_iff row_key_def)
  with mem reachable_keys [OF assms(1)] have "q = r"
    by (auto simp: keys_def distinct_map dest: inj_onD)
  with q show ?thesis by simp
qed

text \<open>The log only grows.\<close>

lemma claim_all_events: "claim_all e worker d is s = Inr (cs, s') \<Longrightarrow> \<exists>evs. events s' = events s @ evs"
proof (induction "is" arbitrary: s cs)
  case (Cons i js)
  from Cons.prems obtain c s1 cs1 where c: "claim_one e worker d i s = Inr (c, s1)"
    and rest: "claim_all e worker d js s1 = Inr (cs1, s')"
    by (auto simp: bindE_Inr_iff)
  from c have "\<exists>evs. events s1 = events s @ evs"
    by (rule claim_one_ok) (simp add: append_event_def update_op_def)
  with Cons.IH [OF rest] show ?case by (metis append.assoc)
qed simp

lemma store_exec_events: "\<exists>evs. events (store_exec e c s) = events s @ evs"
proof (cases rule: store_exec_cases [of e c s])
  case (prepare req x)
  then show ?thesis by (cases x) (auto elim!: prepare_ok simp: append_event_def)
next
  case (authorize i v op)
  from authorize(2) show ?thesis by (rule authorize_ok) (simp add: append_event_def update_op_def)
next
  case (confirm i req fp op)
  from confirm_body_ok [OF confirm(3)] show ?thesis
    by (auto elim!: confirm_first_ok simp: append_event_def update_op_def)
next
  case (retry i v reason op)
  from retry(2) show ?thesis by (rule retry_ok) (simp add: append_event_def update_op_def)
next
  case (request i v actor reason op)
  from request(2) show ?thesis by (rule request_ok) (simp add: append_event_def update_op_def)
next
  case (claim worker limit d grace wname cs)
  then show ?thesis using claim_all_events by blast
next
  case (submit i res op)
  from submit(2) show ?thesis by (rule submit_ok) (auto simp: append_event_def update_op_def)
next
  case (manual i m op)
  from manual(2) show ?thesis by (rule manual_ok) (simp add: append_event_def update_op_def)
qed (simp_all add: update_op_def)

lemma run_calls_events: "\<exists>evs. events (run_calls cs s) = events s @ evs"
proof (induction cs s rule: run_calls.induct)
  case (2 e c cs s)
  then show ?case using store_exec_events [of e c s] by (metis append.assoc run_calls.simps(2))
qed simp

end
