(* ===== verification/Store_Contract.thy ===== *)
theory Store_Contract
  imports Store_System
begin

text \<open>
  The contract the versioned writes of the store share: a write succeeds only at the version its
  caller names, and moves the row to the next one. The clients' reasoning (a version is spent by
  the first success, whoever repeats it later fails) is done once in the locale and
  instantiated for the five operations whose every success spends the version they name.
  \<open>Confirm\<close> names an expected version too, but its replay succeeds without reading it; it is
  added in \<open>Store_Behaviour\<close>.
\<close>

locale versioned_write =
  fixes update :: "'a \<Rightarrow> env \<Rightarrow> db \<Rightarrow> uuid \<Rightarrow> (error + Operation) \<times> db"
    and version :: "'a \<Rightarrow> int"
    and as_call :: "'a \<Rightarrow> uuid \<Rightarrow> call"
  assumes spends: "update x e s i = (Inr op, s') \<Longrightarrow>
      \<exists>r r'. op_at s i = Some r \<and> o_version r = version x \<and> op_at s' i = Some r'
        \<and> o_version r' = version x + 1 \<and> op_Version op = version x + 1"
    and executes: "snd (update x e s i) = store_exec e (as_call x i) s"
    and refused: "fst (update x e s i) = Inl err \<Longrightarrow> fate e \<noteq> CommitReplyLost \<Longrightarrow> snd (update x e s i) = s"
begin

lemma needs_version:
  assumes "op_at s i = Some r" and "o_version r \<noteq> version x"
  shows "\<not> is_ok (fst (update x e s i))"
proof
  assume "is_ok (fst (update x e s i))"
  then obtain op where "update x e s i = (Inr op, snd (update x e s i))"
    by (metis is_ok_iff prod.collapse)
  from spends [OF this] assms show False by auto
qed

lemma success:
  assumes "is_ok (fst (update x e s i))"
  shows "\<exists>r r'. op_at s i = Some r \<and> o_version r = version x
    \<and> op_at (store_exec e (as_call x i) s) i = Some r' \<and> o_version r' = version x + 1"
proof -
  obtain op where "update x e s i = (Inr op, store_exec e (as_call x i) s)"
    using assms executes [of x e s i] by (metis is_ok_iff prod.collapse)
  from spends [OF this] show ?thesis by blast
qed

text \<open>A success spends the version for every later database.\<close>

lemma spent:
  assumes inv: "store_inv s" and ok: "update x e s i = (Inr op, s')"
  shows "\<exists>r. op_at (run_calls cs s') i = Some r \<and> version x < o_version r"
proof -
  have "s' = store_exec e (as_call x i) s" using executes [of x e s i] ok by simp
  then have "store_inv s'" using store_exec_inv [OF inv] by simp
  moreover from spends [OF ok] obtain r' where "op_at s' i = Some r'" "o_version r' = version x + 1"
    by blast
  ultimately show ?thesis using run_calls_version [of s' i r' cs] by force
qed

lemma stale:
  assumes "store_inv s" and "update x e s i = (Inr op, s')" and "version y = version x"
  shows "\<not> is_ok (fst (update y e' (run_calls cs s') i))"
  using spent [OF assms(1,2), of cs] needs_version [of i "run_calls cs s'" _ y e'] assms(3) by force

lemma unchanged_on_error:
  assumes "fst (update x e s i) = Inl err" and "fate e \<noteq> CommitReplyLost"
  shows "store_exec e (as_call x i) s = s"
  using refused [OF assms] executes by simp

end

text \<open>Every transaction that reports an error, commit replies aside, leaves the database alone.\<close>

lemma run_tx_refused:
  "fst (run_tx e b c s body) = Inl err \<Longrightarrow> fate e \<noteq> CommitReplyLost \<Longrightarrow> snd (run_tx e b c s body) = s"
  by (auto simp: run_tx_def split: if_splits sum.splits commit_fate.splits)

interpretation authorize: versioned_write "\<lambda>v e s i. AuthorizeDispatch e s i v" id "\<lambda>v i. CallAuthorize i v"
proof
  fix v e s i op s'
  assume "AuthorizeDispatch e s i v = (Inr op, s')"
  then have "authorize_body e s i v = Inr (op, s')" by (simp add: AuthorizeDispatch_def run_tx_Inr)
  then show "\<exists>r r'. op_at s i = Some r \<and> o_version r = id v \<and> op_at s' i = Some r'
      \<and> o_version r' = id v + 1 \<and> op_Version op = id v + 1"
    by (rule authorize_ok) (simp add: store_simps row_writes)
qed (simp_all add: AuthorizeDispatch_def run_tx_refused)

interpretation retry: versioned_write "\<lambda>(v, reason) e s i. BeginRetry e s i v reason" fst
  "\<lambda>(v, reason) i. CallRetry i v reason"
proof
  fix x :: "int \<times> string" and e s i op s'
  obtain v reason where x: "x = (v, reason)" by (cases x)
  assume "(case x of (v, reason) \<Rightarrow> \<lambda>e s i. BeginRetry e s i v reason) e s i = (Inr op, s')"
  then have "retry_body e s i v reason = Inr (op, s')" by (simp add: x BeginRetry_def run_tx_Inr)
  then show "\<exists>r r'. op_at s i = Some r \<and> o_version r = fst x \<and> op_at s' i = Some r'
      \<and> o_version r' = fst x + 1 \<and> op_Version op = fst x + 1"
    by (rule retry_ok) (simp add: store_simps row_writes x)
qed (auto simp: BeginRetry_def run_tx_refused split: prod.splits)

interpretation request: versioned_write "\<lambda>(v, actor, reason) e s i. RequestReconciliation e s i v actor reason"
  fst "\<lambda>(v, actor, reason) i. CallRequest i v actor reason"
proof
  fix x :: "int \<times> string \<times> string" and e s i op s'
  obtain v actor reason where x: "x = (v, actor, reason)" by (cases x)
  assume "(case x of (v, actor, reason) \<Rightarrow> \<lambda>e s i. RequestReconciliation e s i v actor reason) e s i
    = (Inr op, s')"
  then have "request_body e s i v actor reason = Inr (op, s')"
    by (simp add: x RequestReconciliation_def run_tx_Inr)
  then show "\<exists>r r'. op_at s i = Some r \<and> o_version r = fst x \<and> op_at s' i = Some r'
      \<and> o_version r' = fst x + 1 \<and> op_Version op = fst x + 1"
    by (rule request_ok) (simp add: store_simps row_writes x)
qed (auto simp: RequestReconciliation_def run_tx_refused split: prod.splits)

interpretation submit: versioned_write "\<lambda>res e s i. SubmitRecoveryResult e s i res" rr_ExpectedVersion
  "\<lambda>res i. CallSubmit i res"
proof
  fix res e s i op s'
  assume "SubmitRecoveryResult e s i res = (Inr op, s')"
  then have "submit_body e s i res = Inr (op, s')"
    by (simp add: SubmitRecoveryResult_def run_tx_Inr split: sum.splits)
  then show "\<exists>r r'. op_at s i = Some r \<and> o_version r = rr_ExpectedVersion res \<and> op_at s' i = Some r'
      \<and> o_version r' = rr_ExpectedVersion res + 1 \<and> op_Version op = rr_ExpectedVersion res + 1"
  proof (rule submit_ok)
    fix r w v s3
    assume r: "op_at s i = Some r" "o_version r = rr_ExpectedVersion res"
      and ops: "operations s3 = update_by o_id i (result_row e v (o_version r + 1)) (operations s)"
      and s': "\<exists>oid. s' = append_event e i ''recovery_result'' (Some (o_state r)) (Some (v_toState v))
       (o_version r + 1) ''coordinator'' ''recovery-coordinator'' (v_reason v)
       [(''attempt_id'', DetailText (rr_AttemptID res)), (''observation_id'', DetailText oid)] s3"
      and op: "op = scanOperation w (result_row e v (o_version r + 1) r)"
    from s' have "operations s' = operations s3" by (auto simp: store_simps)
    with r op show ?thesis by (simp add: ops lookup_by_update result_row_def)
  qed
qed (auto simp: SubmitRecoveryResult_def run_tx_refused split: sum.splits)

interpretation manual: versioned_write "\<lambda>m e s i. ManualResolve e s i m" mr_ExpectedVersion
  "\<lambda>m i. CallManual i m"
proof
  fix m e s i op s'
  assume "ManualResolve e s i m = (Inr op, s')"
  then have "manual_body e s i m = Inr (op, s')" by (simp add: ManualResolve_def run_tx_Inr)
  then show "\<exists>r r'. op_at s i = Some r \<and> o_version r = mr_ExpectedVersion m \<and> op_at s' i = Some r'
      \<and> o_version r' = mr_ExpectedVersion m + 1 \<and> op_Version op = mr_ExpectedVersion m + 1"
    by (rule manual_ok) (simp add: store_simps update_op_def lookup_by_update row_writes)
qed (simp_all add: ManualResolve_def run_tx_refused)

end
