(* ===== verification/Scenario.thy ===== *)
theory Scenario
  imports Store_Contract
begin

text \<open>
  One concrete history of the store, used to show that the properties' hypotheses can hold: an
  operation is prepared and dispatched, its worker disappears, a coordinator finds no evidence,
  an operator declares the effect absent, and a second attempt is dispatched. The bundle
  \<open>exec_simps\<close> runs the store by rewriting; claim-token hashes stay symbolic.
\<close>

definition env_at :: "string \<Rightarrow> time \<Rightarrow> env" where
  "env_at tag t = \<lparr>now = t, fails = (\<lambda>_. False), fresh_id = (\<lambda>p. Some (tag @ p)),
     entropy = (\<lambda>_. Some ''0''), fate = Committed, locked = [], seq_gap = 0\<rparr>"

definition sample_request :: PrepareRequest where
  "sample_request = \<lparr>pr_WorkflowID = ''w'', pr_Strategy = StrategyWatchkeeper, pr_ExperimentRunID = None,
     pr_LogicalKey = ''k'', pr_TargetService = ''email'', pr_Action = ''send'', pr_Request = ''{}'',
     pr_RequestFingerprint = ''f'', pr_ExpectedEffect = ''{}'', pr_CapabilityProfile = ''opaque'',
     pr_TraceContext = []\<rparr>"

definition no_evidence :: Observation where
  "no_evidence = \<lparr>ob_Mechanism = MechanismNone, ob_Outcome = OutcomeUnknown, ob_Authoritative = False,
     ob_ExternalReference = [], ob_Evidence = []\<rparr>"

definition sample_result :: RecoveryResult where
  "sample_result = \<lparr>rr_ClaimToken = b64_encode ''0'', rr_ExpectedVersion = 3,
     rr_AttemptID = ''cattempt aoperation'', rr_Observation = no_evidence\<rparr>"

definition sample_resolution :: ManualResolution where
  "sample_resolution = \<lparr>mr_ExpectedVersion = 4, mr_Actor = ''op'', mr_Outcome = ''absent'',
     mr_Reason = ''checked'', mr_EvidenceReference = ''ref''\<rparr>"

definition sample_calls :: "(env \<times> call) list" where
  "sample_calls = [
     (env_at ''a'' 0, CallPrepare sample_request),
     (env_at ''b'' 1, CallAuthorize ''aoperation'' 1),
     (env_at ''c'' 100, CallClaim ''w'' 5 50 10 []),
     (env_at ''d'' 110, CallSubmit ''aoperation'' sample_result),
     (env_at ''e'' 200, CallManual ''aoperation'' sample_resolution),
     (env_at ''f'' 210, CallRetry ''aoperation'' 5 ''manual''),
     (env_at ''g'' 220, CallAuthorize ''aoperation'' 6)]"

definition sample_db :: "nat \<Rightarrow> db" where
  "sample_db n = run_calls (take n sample_calls) (empty_db [])"

lemma reachable_sample: "reachable (sample_db n)"
  unfolding sample_db_def by (intro run_calls_reachable reachable.initial)

lemma jsonb_empty: "jsonb ''{}'' = Some (JObj [])"
  by code_simp

lemmas env_simps = env_at_def stmtU_def stmtP_def newID_def guardE_def of_opt_def run_tx_def

lemmas exec_simps = env_simps
  Prepare_def prepare_body_def ensureWorkflow_def insert_operation_def natural_key_def new_op_row_def
  AuthorizeDispatch_def authorize_body_def getOperationForUpdate_def getOperationTx_def joined_def
  append_event_def update_op_def authorize_row_def scanOperation_def ClaimRecoveryForWorkflow_def
  recovery_work_def claimable_def claim_one_def claim_row_def randomClaimToken_def insert_attempt_def
  next_attempt_number_def claim_key_def SubmitRecoveryResult_def submit_body_def submit_guards_def
  decide_def lease_valid_def attempt_of_def store_decision_def insert_decision_def
  insert_observation_def finish_attempt_def result_row_def row_checks_def ManualResolve_def
  manual_body_def manual_target_def manual_row_def BeginRetry_def retry_body_def retry_row_def
  RequestReconciliation_def request_body_def request_row_def Confirm_def confirm_body_def
  confirm_first_def confirm_replay_def with_receipt_def getReceiptTx_def scanReceipt_def
  confirm_row_def insert_receipt_def RenewClaim_def renew_row_def Let_def empty_db_def jsonb_empty

lemmas sample_simps = sample_request_def no_evidence_def sample_result_def sample_resolution_def
  sample_calls_def sample_db_def

lemma sample_prepared: "op_at (sample_db 1) ''aoperation'' = Some (new_op_row (env_at ''a'' 0)
    ''aoperation'' ''aworkflow'' sample_request (JObj []) (JObj []))"
  by (simp add: sample_simps exec_simps)

lemma sample_final:
  "op_at (sample_db 7) ''aoperation'' = Some (authorize_row (env_at ''g'' 220)
     (retry_row (env_at ''f'' 210) 6 (new_op_row (env_at ''a'' 0) ''aoperation'' ''aworkflow''
        sample_request (JObj []) (JObj []))))"
  by (simp add: sample_simps exec_simps)

lemma sample_events: "map ev_EventType (events_of ''aoperation'' (sample_db 7)) =
   [''intent_prepared'', ''dispatch_authorized'', ''recovery_claimed'', ''recovery_result'',
    ''manual_resolution'', ''retry_started'', ''dispatch_authorized'']"
  by (simp add: sample_simps exec_simps events_of_def)

end
