(* ===== verification/Store_Tables.thy ===== *)
theory Store_Tables
  imports Store_System
begin

text \<open>
  The constraints of \<open>migrations/watchkeeper\<close> over the whole database: the checks on every row,
  the primary and unique keys of every table, and the foreign keys between them. Only some of them
  are tested where the model writes a row; the lemmas here show that every call keeps all of them,
  so no statement of the store relies on one of the others being enforced.
\<close>

section \<open>The constraints, table by table\<close>

definition op_ids :: "db \<Rightarrow> uuid set" where
  "op_ids s = o_id ` set (operations s)"

text \<open>A nullable reference.\<close>

definition refers :: "uuid option \<Rightarrow> uuid set \<Rightarrow> bool" where
  "refers x ids \<longleftrightarrow> (case x of None \<Rightarrow> True | Some i \<Rightarrow> i \<in> ids)"

lemma refers_mono: "refers x ids \<Longrightarrow> ids \<subseteq> ids' \<Longrightarrow> refers x ids'"
  by (auto simp: refers_def split: option.splits)

definition workflows_ok :: "db \<Rightarrow> bool" where
  "workflows_ok s \<longleftrightarrow> distinct (map w_id (workflows s)) \<and> distinct (map w_external (workflows s))
     \<and> (\<forall>w \<in> set (workflows s). ValidStrategy (w_strategy w) \<and> refers (w_experiment w) (set (experiments s)))"

definition operations_ok :: "db \<Rightarrow> bool" where
  "operations_ok s \<longleftrightarrow> distinct (map o_id (operations s)) \<and> distinct (keys s)
     \<and> (\<forall>r \<in> set (operations s). row_checks r \<and> o_workflow r \<in> w_id ` set (workflows s))"

definition receipts_ok :: "db \<Rightarrow> bool" where
  "receipts_ok s \<longleftrightarrow> distinct (map r_id (receipts s)) \<and> distinct (map r_operation (receipts s))
     \<and> r_operation ` set (receipts s) \<subseteq> op_ids s"

definition known_outcome :: "ObservationOutcome \<Rightarrow> bool" where
  "known_outcome oc \<longleftrightarrow> oc \<in> {OutcomeCompleted, OutcomeAbsent, OutcomeUnknown, OutcomeTransient, OutcomeContradictory}"

definition known_mechanism :: "VerificationMechanism \<Rightarrow> bool" where
  "known_mechanism m \<longleftrightarrow>
     m \<in> {MechanismReceipt, MechanismStatus, MechanismIndirect, MechanismIdempotentRepeat, MechanismNone}"

definition attempt_key :: "attempt_row \<Rightarrow> uuid \<times> int" where
  "attempt_key a = (a_operation a, a_number a)"

definition attempts_ok :: "db \<Rightarrow> bool" where
  "attempts_ok s \<longleftrightarrow> distinct (map a_id (attempts s)) \<and> distinct (map attempt_key (attempts s))
     \<and> (\<forall>a \<in> set (attempts s). 0 < a_number a \<and> a_operation a \<in> op_ids s
          \<and> (a_result a = None \<or> known_outcome (the (a_result a))))"

definition observations_ok :: "db \<Rightarrow> bool" where
  "observations_ok s \<longleftrightarrow> distinct (map b_id (observations s))
     \<and> (\<forall>b \<in> set (observations s). b_attempt b \<in> a_id ` set (attempts s)
          \<and> known_mechanism (b_mechanism b) \<and> known_outcome (b_outcome b))"

definition events_ok :: "db \<Rightarrow> bool" where
  "events_ok s \<longleftrightarrow> distinct (map ev_ID (events s))
     \<and> (\<forall>ev \<in> set (events s). ev_OperationID ev \<in> op_ids s
          \<and> ev_Source ev \<in> {''api'', ''coordinator'', ''worker'', ''manual''})"

definition decision_key :: "decision_row \<Rightarrow> uuid \<times> int" where
  "decision_key d = (d_operation d, d_version d)"

fun is_array :: "json \<Rightarrow> bool" where
  "is_array (JArr _) = True"
| "is_array _ = False"

definition decision_checks :: "decision_row \<Rightarrow> bool" where
  "decision_checks d \<longleftrightarrow>
     d_decision d \<in> {''reconcile'', ''retry'', ''mark_uncertain'', ''compensate_recorded''}
     \<and> d_source d \<in> {''coordinator'', ''manual''} \<and> is_array (d_refs d)"

definition decisions_ok :: "db \<Rightarrow> bool" where
  "decisions_ok s \<longleftrightarrow> distinct (map d_id (decisions s)) \<and> distinct (map decision_key (decisions s))
     \<and> (\<forall>d \<in> set (decisions s). decision_checks d \<and> d_operation d \<in> op_ids s
          \<and> refers (d_attempt d) (a_id ` set (attempts s)))"

definition schema_ok :: "db \<Rightarrow> bool" where
  "schema_ok s \<longleftrightarrow> workflows_ok s \<and> operations_ok s \<and> receipts_ok s \<and> attempts_ok s
     \<and> observations_ok s \<and> events_ok s \<and> decisions_ok s"

section \<open>Referenced rows stay\<close>

lemma op_ids_at: "i \<in> op_ids s \<longleftrightarrow> op_at s i \<noteq> None"
  by (auto simp: op_ids_def lookup_by_None)

lemma op_ids_grow: "store_inv s \<Longrightarrow> op_ids s \<subseteq> op_ids (store_exec e c s)"
proof
  fix i assume inv: "store_inv s" and "i \<in> op_ids s"
  then obtain r where "op_at s i = Some r" by (auto simp: op_ids_at)
  then show "i \<in> op_ids (store_exec e c s)"
    by (cases rule: store_exec_row [OF inv, of i r e c]) (simp_all add: op_ids_at)
qed

lemma op_ids_update:
  assumes "\<And>r. o_id (f r) = o_id r"
  shows "op_ids (update_op i f s) = op_ids s"
  unfolding op_ids_def by (simp add: update_op_def map_key_update_by [where key = o_id, OF assms] flip: set_map)

section \<open>Workflows\<close>

lemma ensureWorkflow_row:
  assumes "ensureWorkflow e s req = Inr (wid, s1)"
  shows "s1 = s \<or> (\<exists>w. s1 = s\<lparr>workflows := workflows s @ [w]\<rparr> \<and> lookup_by w_id (w_id w) (workflows s) = None
     \<and> lookup_by w_external (w_external w) (workflows s) = None \<and> ValidStrategy (w_strategy w)
     \<and> refers (w_experiment w) (set (experiments s)))"
  using assms by (auto simp: ensureWorkflow_def bindE_Inr_iff refers_def split: option.splits if_splits)

lemma claim_all_tables:
  "claim_all e worker d is s = Inr (cs, s') \<Longrightarrow>
     workflows s' = workflows s \<and> experiments s' = experiments s \<and> observations s' = observations s
     \<and> decisions s' = decisions s"
proof (induction "is" arbitrary: s cs)
  case (Cons i js)
  from Cons.prems obtain c s1 cs1 where c: "claim_one e worker d i s = Inr (c, s1)"
    and rest: "claim_all e worker d js s1 = Inr (cs1, s')"
    by (auto simp: bindE_Inr_iff)
  from c have "workflows s1 = workflows s \<and> experiments s1 = experiments s \<and> observations s1 = observations s
      \<and> decisions s1 = decisions s"
    by (rule claim_one_ok) (simp add: store_simps)
  with Cons.IH [OF rest] show ?case by simp
qed simp

lemma prepare_workflows:
  "prepare_body e s req = Inr (x, s') \<Longrightarrow>
     \<exists>wid s1. ensureWorkflow e s req = Inr (wid, s1) \<and> workflows s' = workflows s1 \<and> experiments s' = experiments s1"
  by (auto simp: prepare_body_def bindE_Inr_iff Let_def store_simps insert_operation_def
      split: option.splits prod.splits if_splits)

text \<open>Everything but a preparation leaves the workflows alone.\<close>

lemma store_exec_workflow_row:
  "workflows (store_exec e c s) = workflows s \<and> experiments (store_exec e c s) = experiments s
   \<or> (\<exists>w. workflows (store_exec e c s) = workflows s @ [w] \<and> experiments (store_exec e c s) = experiments s
        \<and> lookup_by w_id (w_id w) (workflows s) = None \<and> lookup_by w_external (w_external w) (workflows s) = None
        \<and> ValidStrategy (w_strategy w) \<and> refers (w_experiment w) (set (experiments s)))"
proof (cases rule: store_exec_cases [of e c s])
  case (prepare req x)
  from prepare_workflows [OF prepare(2)] obtain wid s1 where w: "ensureWorkflow e s req = Inr (wid, s1)"
    and "workflows (store_exec e c s) = workflows s1" "experiments (store_exec e c s) = experiments s1"
    by blast
  with ensureWorkflow_row [OF w] show ?thesis by auto
next
  case (authorize i v op)
  from authorize(2) show ?thesis by (rule authorize_ok) (simp add: store_simps)
next
  case (confirm i req fp op)
  from confirm_body_ok [OF confirm(3)] show ?thesis
    by (auto elim!: confirm_first_ok simp: store_simps)
next
  case (retry i v reason op)
  from retry(2) show ?thesis by (rule retry_ok) (simp add: store_simps)
next
  case (request i v actor reason op)
  from request(2) show ?thesis by (rule request_ok) (simp add: store_simps)
next
  case (claim worker limit d grace wname cs)
  then show ?thesis using claim_all_tables by metis
next
  case (submit i res op)
  from submit(2) show ?thesis by (rule submit_ok) (auto simp: store_simps)
next
  case (manual i m op)
  from manual(2) show ?thesis by (rule manual_ok) (simp add: store_simps)
qed (simp_all add: store_simps)

lemma workflows_step: "workflows_ok s \<Longrightarrow> workflows_ok (store_exec e c s)"
  using store_exec_workflow_row [of e c s] by (auto simp: workflows_ok_def lookup_by_None)

section \<open>Receipts\<close>

lemma confirm_receipt:
  "confirm_first e s i req fp op0 = Inr (op, s') \<Longrightarrow> receipt_at s i = None \<Longrightarrow>
     \<exists>x. receipts s' = receipts s @ [x] \<and> r_operation x = i \<and> lookup_by r_id (r_id x) (receipts s) = None"
  by (auto simp: confirm_first_def bindE_Inr_iff Let_def store_simps)

lemma store_exec_receipt_row:
  "receipts (store_exec e c s) = receipts s
   \<or> (\<exists>x. receipts (store_exec e c s) = receipts s @ [x] \<and> lookup_by r_id (r_id x) (receipts s) = None
        \<and> receipt_at s (r_operation x) = None \<and> r_operation x \<in> op_ids s)"
proof (cases rule: store_exec_cases [of e c s])
  case (prepare req x)
  then show ?thesis by (cases x) (auto elim!: prepare_ok simp: store_simps)
next
  case (authorize i v op)
  from authorize(2) show ?thesis by (rule authorize_ok) (simp add: store_simps)
next
  case (confirm i req fp op)
  from confirm_body_ok [OF confirm(3)] show ?thesis
  proof (elim disjE exE conjE)
    fix op0
    assume "joined s i = Some op0" "receipt_at s i = None"
      and "confirm_first e s i req fp op0 = Inr (op, store_exec e c s)"
    then show ?thesis using confirm_receipt [of e s i req fp op0] by (fastforce simp: store_simps op_ids_at)
  qed simp
next
  case (retry i v reason op)
  from retry(2) show ?thesis by (rule retry_ok) (simp add: store_simps)
next
  case (request i v actor reason op)
  from request(2) show ?thesis by (rule request_ok) (simp add: store_simps)
next
  case (claim worker limit d grace wname cs)
  then show ?thesis using claim_all_receipts by fastforce
next
  case (submit i res op)
  from submit(2) show ?thesis by (rule submit_ok) (auto simp: store_simps)
next
  case (manual i m op)
  from manual(2) show ?thesis by (rule manual_ok) (simp add: store_simps)
qed (simp_all add: store_simps)

lemma receipts_step:
  assumes "store_inv s" and "receipts_ok s"
  shows "receipts_ok (store_exec e c s)"
  using store_exec_receipt_row [of e c s] assms(2) op_ids_grow [OF assms(1), of e c]
  by (auto simp: receipts_ok_def lookup_by_None image_subset_iff subset_iff)

section \<open>Attempts\<close>

lemma next_attempt_bounds:
  "0 < next_attempt_number s i"
  "a \<in> set (attempts s) \<Longrightarrow> a_operation a = i \<Longrightarrow> a_number a < next_attempt_number s i"
proof -
  have ge: "x \<in> set xs \<or> x = y \<Longrightarrow> x \<le> fold max xs (y :: int)" for x xs y
    by (auto simp flip: Max.set_eq_fold)
  show "0 < next_attempt_number s i" using ge [of 0 _ 0] by (simp add: next_attempt_number_def)
  show "a \<in> set (attempts s) \<Longrightarrow> a_operation a = i \<Longrightarrow> a_number a < next_attempt_number s i"
    using ge [of "a_number a" "map a_number (filter (\<lambda>a. a_operation a = i) (attempts s))" 0]
    by (force simp: next_attempt_number_def)
qed

lemma claim_one_attempts:
  assumes "claim_one e worker d i s = Inr (c, s')" and "attempts_ok s"
  shows "attempts_ok s' \<and> a_id ` set (attempts s) \<subseteq> a_id ` set (attempts s')"
  using assms(1)
proof (rule claim_one_ok)
  fix r w raw aid s2
  assume r: "op_at s i = Some r" and aid: "lookup_by a_id aid (attempts s) = None"
    and s2: "s2 = (update_op i (claim_row e worker (claimTokenHash (b64_encode raw)) d) s)\<lparr>attempts :=
       attempts s @ [\<lparr>a_id = aid, a_operation = i, a_number = next_attempt_number s i,
          a_owner = worker, a_started = now e, a_finished = None, a_result = None\<rparr>]\<rparr>"
    and s': "s' = append_event e i ''recovery_claimed'' (Some (o_state r)) (Some (o_state r)) (o_version r + 1)
       ''coordinator'' worker ''lease_acquired'' [(''attempt_id'', DetailText aid),
       (''lease_expires_at'', DetailTime (now e + d))] s2"
  have rows: "attempts s' = attempts s @ [\<lparr>a_id = aid, a_operation = i, a_number = next_attempt_number s i,
          a_owner = worker, a_started = now e, a_finished = None, a_result = None\<rparr>]"
    by (simp add: s' s2 store_simps)
  have "op_ids s' = op_ids (update_op i (claim_row e worker (claimTokenHash (b64_encode raw)) d) s)"
    by (simp add: op_ids_def s' s2 store_simps)
  then have ids: "op_ids s' = op_ids s" by (simp add: op_ids_update claim_row_def)
  have "i \<in> op_ids s" using r by (simp add: op_ids_at)
  moreover have "(i, next_attempt_number s i) \<notin> attempt_key ` set (attempts s)"
    using next_attempt_bounds(2) by (force simp: attempt_key_def)
  ultimately show ?thesis
    using assms(2) aid next_attempt_bounds(1) [of s i]
    by (auto simp: attempts_ok_def rows ids lookup_by_None attempt_key_def)
qed

lemma claim_all_attempts:
  "claim_all e worker d is s = Inr (cs, s') \<Longrightarrow> attempts_ok s \<Longrightarrow>
     attempts_ok s' \<and> a_id ` set (attempts s) \<subseteq> a_id ` set (attempts s')"
proof (induction "is" arbitrary: s cs)
  case (Cons i js)
  from Cons.prems(1) obtain c s1 cs1 where c: "claim_one e worker d i s = Inr (c, s1)"
    and rest: "claim_all e worker d js s1 = Inr (cs1, s')"
    by (auto simp: bindE_Inr_iff)
  from claim_one_attempts [OF c Cons.prems(2)] Cons.IH [OF rest] show ?case by auto
qed simp

lemma attempts_same:
  "attempts s' = attempts s \<Longrightarrow> op_ids s \<subseteq> op_ids s' \<Longrightarrow> attempts_ok s \<Longrightarrow> attempts_ok s'"
  by (auto simp: attempts_ok_def)

lemma valid_observation:
  "validObservation ob = Inr u \<Longrightarrow> known_outcome (ob_Outcome ob) \<and> known_mechanism (ob_Mechanism ob)"
  by (cases "ob_Mechanism ob"; cases "ob_Outcome ob") (simp_all add: known_outcome_def known_mechanism_def)

lemma invalid_unchanged: "validObservation (rr_Observation res) = Inl err \<Longrightarrow> store_exec e (CallSubmit i res) s = s"
  by (simp add: SubmitRecoveryResult_def del: validObservation.simps)

lemma attempt_member: "attempt_of s aid i = Some a \<Longrightarrow> aid \<in> a_id ` set (attempts s)"
  by (force simp: attempt_of_def find_Some_iff)

lemma submit_attempts:
  assumes "submit_body e s i res = Inr (op, s')"
  shows "attempts s' = update_by a_id (rr_AttemptID res)
     (\<lambda>a. a\<lparr>a_finished := Some (now e), a_result := Some (ob_Outcome (rr_Observation res))\<rparr>) (attempts s)"
    and "rr_AttemptID res \<in> a_id ` set (attempts s)"
  using assms by (rule submit_ok, auto simp: store_simps attempt_member)+

text \<open>Only claims and recovery results write the tables of verification.\<close>

definition verifies :: "call \<Rightarrow> bool" where
  "verifies c \<longleftrightarrow> (case c of CallClaim _ _ _ _ _ \<Rightarrow> True | CallSubmit _ _ \<Rightarrow> True | _ \<Rightarrow> False)"

lemma store_exec_verification:
  assumes "\<not> verifies c"
  shows "attempts (store_exec e c s) = attempts s \<and> observations (store_exec e c s) = observations s
    \<and> (decisions (store_exec e c s) = decisions s \<or> (\<exists>i m. c = CallManual i m))"
proof (cases rule: store_exec_cases [of e c s])
  case (prepare req x)
  then show ?thesis by (cases x) (auto elim!: prepare_ok simp: store_simps)
next
  case (authorize i v op)
  from authorize(2) show ?thesis by (rule authorize_ok) (simp add: store_simps)
next
  case (confirm i req fp op)
  from confirm_body_ok [OF confirm(3)] show ?thesis
    by (auto elim!: confirm_first_ok simp: store_simps update_op_def)
next
  case (retry i v reason op)
  from retry(2) show ?thesis by (rule retry_ok) (simp add: store_simps)
next
  case (request i v actor reason op)
  from request(2) show ?thesis by (rule request_ok) (simp add: store_simps)
next
  case (manual i m op)
  from manual(2) manual(1) show ?thesis by (elim manual_ok) (simp add: store_simps)
qed (use assms in \<open>simp_all add: verifies_def store_simps\<close>)

lemma finished_attempts:
  assumes "attempts s' = update_by a_id i (\<lambda>a. a\<lparr>a_finished := f, a_result := Some oc\<rparr>) (attempts s)"
    and "known_outcome oc" and "op_ids s \<subseteq> op_ids s'" and "attempts_ok s"
  shows "attempts_ok s' \<and> a_id ` set (attempts s') = a_id ` set (attempts s)"
proof -
  have ids: "map a_id (attempts s') = map a_id (attempts s)" and keys: "map attempt_key (attempts s') = map attempt_key (attempts s)"
    by (simp_all add: assms(1) update_by_def attempt_key_def)
  have "\<forall>a \<in> set (attempts s'). 0 < a_number a \<and> a_operation a \<in> op_ids s'
      \<and> (a_result a = None \<or> known_outcome (the (a_result a)))"
    using assms(2-4) by (auto simp: assms(1) update_by_def attempts_ok_def)
  with ids keys assms(4) show ?thesis unfolding attempts_ok_def set_map [symmetric] by simp
qed

lemma attempts_step:
  assumes inv: "store_inv s" and ok: "attempts_ok s"
  shows "attempts_ok (store_exec e c s) \<and> a_id ` set (attempts s) \<subseteq> a_id ` set (attempts (store_exec e c s))"
proof (cases "verifies c")
  case False
  then have "attempts (store_exec e c s) = attempts s" using store_exec_verification by blast
  with attempts_same [OF this op_ids_grow [OF inv] ok] show ?thesis by simp
next
  case True
  then show ?thesis
  proof (cases rule: store_exec_cases [of e c s])
    case (claim worker limit d grace wname cs)
    then show ?thesis using claim_all_attempts ok by blast
  next
    case (submit i res op)
    show ?thesis
    proof (cases "validObservation (rr_Observation res)")
      case (Inl err)
      then show ?thesis using invalid_unchanged submit(1) ok by simp
    next
      case (Inr u)
      with finished_attempts [OF submit_attempts(1) [OF submit(2)] _ op_ids_grow [OF inv] ok] valid_observation
      show ?thesis by blast
    qed
  qed (use ok in \<open>simp_all add: verifies_def\<close>)
qed

section \<open>Observations\<close>

lemma submit_observation:
  "submit_body e s i res = Inr (op, s') \<Longrightarrow> \<exists>b. observations s' = observations s @ [b]
     \<and> lookup_by b_id (b_id b) (observations s) = None \<and> b_attempt b = rr_AttemptID res
     \<and> b_mechanism b = ob_Mechanism (rr_Observation res) \<and> b_outcome b = ob_Outcome (rr_Observation res)"
  by (auto simp: submit_body_def bindE_Inr_iff Let_def store_simps finish_attempt_def dest!: store_decision_ok(7))

lemma observations_step:
  assumes inv: "store_inv s" and at: "attempts_ok s" and ok: "observations_ok s"
  shows "observations_ok (store_exec e c s)"
proof -
  have keep: "a_id ` set (attempts s) \<subseteq> a_id ` set (attempts (store_exec e c s))"
    using attempts_step [OF inv at] by blast
  have same: "observations_ok (store_exec e c s)" if "observations (store_exec e c s) = observations s"
    using ok keep that by (auto simp: observations_ok_def)
  show ?thesis
  proof (cases "verifies c")
    case False
    then show ?thesis using same store_exec_verification by blast
  next
    case True
    then show ?thesis
    proof (cases rule: store_exec_cases [of e c s])
      case (claim worker limit d grace wname cs)
      then show ?thesis using same claim_all_tables by metis
    next
      case (submit i res op)
      show ?thesis
      proof (cases "validObservation (rr_Observation res)")
        case (Inl err)
        then show ?thesis using invalid_unchanged submit(1) ok by simp
      next
        case (Inr u)
        from submit_observation [OF submit(2)] obtain b where b: "observations (store_exec e c s) = observations s @ [b]"
          "b_id b \<notin> b_id ` set (observations s)" "b_attempt b = rr_AttemptID res"
          "known_mechanism (b_mechanism b)" "known_outcome (b_outcome b)"
          using valid_observation [OF Inr] by (auto simp: lookup_by_None)
        moreover have "b_attempt b \<in> a_id ` set (attempts (store_exec e c s))"
          using keep submit_attempts(2) [OF submit(2)] b(3) by auto
        ultimately show ?thesis using ok keep by (auto simp: observations_ok_def)
      qed
    qed (use ok in \<open>simp_all add: verifies_def\<close>)
  qed
qed

section \<open>Decisions\<close>

definition new_decision :: "uuid \<Rightarrow> uuid option \<Rightarrow> db \<Rightarrow> decision_row \<Rightarrow> bool" where
  "new_decision i a s d \<longleftrightarrow> d_id d \<notin> d_id ` set (decisions s) \<and> decision_key d \<notin> decision_key ` set (decisions s)
     \<and> decision_checks d \<and> d_operation d = i \<and> d_attempt d = a"

lemma decide_decisions: "v_decision (decide op ob n) \<in> {[], ''reconcile'', ''retry'', ''mark_uncertain''}"
  by (simp add: decide_def)

lemma store_decision_row:
  assumes "store_decision e i res oid op (decide op ob n) k s = Inr s'"
  shows "decisions s' = decisions s
    \<or> (\<exists>d. decisions s' = decisions s @ [d] \<and> new_decision i (Some (rr_AttemptID res)) s d)"
  using assms decide_decisions [of op ob n]
  by (auto simp: store_decision_def bindE_Inr_iff new_decision_def decision_checks_def decision_key_def lookup_by_None
      split: if_splits)

lemma submit_decision:
  assumes "submit_body e s i res = Inr (op, s')"
  shows "decisions s' = decisions s
    \<or> (\<exists>d. decisions s' = decisions s @ [d] \<and> new_decision i (Some (rr_AttemptID res)) s d)"
proof -
  from assms obtain op0 ob n oid k s1 s3 where
    "store_decision e i res oid op0 (decide op0 ob n) k s1 = Inr s3" "decisions s1 = decisions s" "decisions s' = decisions s3"
    by (auto simp: submit_body_def bindE_Inr_iff Let_def store_simps finish_attempt_def)
  with store_decision_row [OF this(1)] show ?thesis by (simp add: new_decision_def)
qed

lemma manual_decision:
  assumes "manual_body e s i m = Inr (op, s')"
  shows "\<exists>d. decisions s' = decisions s @ [d] \<and> new_decision i None s d"
  using assms
  by (auto simp: manual_body_def bindE_Inr_iff Let_def store_simps new_decision_def decision_checks_def decision_key_def
      lookup_by_None manual_target_def split: if_splits) blast+

lemma decisions_step:
  assumes inv: "store_inv s" and at: "attempts_ok s" and ok: "decisions_ok s"
  shows "decisions_ok (store_exec e c s)"
proof -
  have keep: "a_id ` set (attempts s) \<subseteq> a_id ` set (attempts (store_exec e c s))"
    and ids: "op_ids s \<subseteq> op_ids (store_exec e c s)"
    using attempts_step [OF inv at] op_ids_grow [OF inv] by blast+
  have old: "\<forall>d \<in> set (decisions s). decision_checks d \<and> d_operation d \<in> op_ids (store_exec e c s)
      \<and> refers (d_attempt d) (a_id ` set (attempts (store_exec e c s)))"
    using ok ids keep refers_mono unfolding decisions_ok_def by blast
  have same: "decisions_ok (store_exec e c s)" if "decisions (store_exec e c s) = decisions s"
    using ok old that by (simp add: decisions_ok_def)
  have one: "decisions_ok (store_exec e c s)"
    if "decisions (store_exec e c s) = decisions s @ [d]" and "new_decision i a s d" and "i \<in> op_ids s"
      and "refers a (a_id ` set (attempts s))" for d i a
    using that(2,3) ids refers_mono [OF that(4) keep] ok old
    by (auto simp: decisions_ok_def that(1) new_decision_def)
  show ?thesis
  proof (cases rule: store_exec_cases [of e c s])
    case (claim worker limit d grace wname cs)
    then show ?thesis using same claim_all_tables by metis
  next
    case (submit i res op)
    then have "i \<in> op_ids s" "refers (Some (rr_AttemptID res)) (a_id ` set (attempts s))"
      using submit_attempts(2) [OF submit(2)] by (auto simp: op_ids_at refers_def elim: submit_ok)
    with submit_decision [OF submit(2)] same one show ?thesis by blast
  next
    case (manual i m op)
    then have "i \<in> op_ids s" by (auto simp: op_ids_at elim: manual_ok)
    with manual_decision [OF manual(2)] one [where a = None] show ?thesis by (auto simp: refers_def)
  qed (use same store_exec_verification [of c e s] in \<open>auto simp: verifies_def\<close>)
qed

section \<open>Events\<close>

definition writers :: "string set" where
  "writers = {''api'', ''coordinator'', ''worker'', ''manual''}"

lemma claim_all_sources: "claim_all e worker d is s = Inr (cs, s') \<Longrightarrow>
  \<exists>evs. events s' = events s @ evs \<and> ev_Source ` set evs \<subseteq> writers"
proof (induction "is" arbitrary: s cs)
  case (Cons i js)
  from Cons.prems obtain c s1 cs1 where c: "claim_one e worker d i s = Inr (c, s1)"
    and rest: "claim_all e worker d js s1 = Inr (cs1, s')"
    by (auto simp: bindE_Inr_iff)
  from c have "\<exists>ev. events s1 = events s @ [ev] \<and> ev_Source ev \<in> writers"
    by (rule claim_one_ok) (simp add: append_event_def update_op_def writers_def)
  with Cons.IH [OF rest] show ?case by fastforce
qed simp

lemma store_exec_sources:
  "\<exists>evs. events (store_exec e c s) = events s @ evs \<and> ev_Source ` set evs \<subseteq> writers"
proof (cases rule: store_exec_cases [of e c s])
  case (prepare req x)
  then show ?thesis by (cases x) (auto elim!: prepare_ok simp: append_event_def writers_def)
next
  case (authorize i v op)
  from authorize(2) show ?thesis by (rule authorize_ok) (simp add: append_event_def update_op_def writers_def)
next
  case (confirm i req fp op)
  from confirm_body_ok [OF confirm(3)] show ?thesis
    by (auto elim!: confirm_first_ok simp: append_event_def update_op_def writers_def)
next
  case (retry i v reason op)
  from retry(2) show ?thesis by (rule retry_ok) (simp add: append_event_def update_op_def writers_def)
next
  case (request i v actor reason op)
  from request(2) show ?thesis by (rule request_ok) (simp add: append_event_def update_op_def writers_def)
next
  case (claim worker limit d grace wname cs)
  then show ?thesis using claim_all_sources by blast
next
  case (submit i res op)
  from submit(2) show ?thesis by (rule submit_ok) (auto simp: append_event_def update_op_def writers_def)
next
  case (manual i m op)
  from manual(2) show ?thesis by (rule manual_ok) (simp add: append_event_def update_op_def writers_def)
qed (simp_all add: update_op_def)

lemma sources_known: "reachable s \<Longrightarrow> ev_Source ` set (events s) \<subseteq> writers"
proof (induction rule: reachable.induct)
  case (step s e c)
  then show ?case using store_exec_sources [of e c s] by (auto simp: image_subset_iff)
qed (simp add: empty_db_def)

lemma events_hold:
  assumes "reachable s"
  shows "events_ok s"
proof -
  note inv = reachable_inv [OF assms]
  have "sorted_wrt (<) (map ev_ID (events s))" using inv by (simp add: store_inv_def log_inv_def)
  then have "distinct (map ev_ID (events s))" by (simp add: strict_sorted_iff)
  moreover have "ev_OperationID ev \<in> op_ids s" if "ev \<in> set (events s)" for ev
  proof (rule ccontr)
    assume "ev_OperationID ev \<notin> op_ids s"
    then have "events_of (ev_OperationID ev) s = []" using inv by (simp add: op_ids_at store_inv_def)
    with that show False by (auto simp: events_of_def filter_empty_conv)
  qed
  ultimately show ?thesis using sources_known [OF assms] by (auto simp: events_ok_def writers_def)
qed

section \<open>The whole schema\<close>

lemma operations_hold:
  assumes "reachable s"
  shows "operations_ok s"
proof -
  note inv = reachable_inv [OF assms]
  have ids: "distinct (map o_id (operations s))" using inv by (simp add: store_inv_def)
  have "row_checks r \<and> o_workflow r \<in> w_id ` set (workflows s)" if "r \<in> set (operations s)" for r
  proof -
    note at = lookup_by_distinct [OF ids that]
    show ?thesis using reachable_checks [OF assms at] store_invD(2) [OF inv at]
      by (simp add: row_inv_def lookup_by_None)
  qed
  then show ?thesis using ids reachable_keys [OF assms] by (simp add: operations_ok_def)
qed

lemma reachable_schema: "reachable s \<Longrightarrow> schema_ok s"
proof (induction rule: reachable.induct)
  case (initial runs)
  show ?case
    by (simp add: schema_ok_def workflows_ok_def operations_ok_def receipts_ok_def attempts_ok_def observations_ok_def
        events_ok_def decisions_ok_def keys_def empty_db_def)
next
  case (step s e c)
  note later = reachable.step [OF step.hyps, of e c] and inv = reachable_inv [OF step.hyps]
  from step.IH show ?case
    unfolding schema_ok_def
    using workflows_step operations_hold [OF later] receipts_step [OF inv] attempts_step [OF inv]
      observations_step [OF inv] events_hold [OF later] decisions_step [OF inv]
    by blast
qed

end
