(* ===== verification/Store_Safety.thy ===== *)
theory Store_Safety
  imports Scenario Store_Tables
begin

text \<open>
  Safety of the store over every reachable database: single send, the audit log, final states,
  the schema's checks, and where a resolution can come from.
\<close>

lemma reachable_run:
  assumes "reachable s" and "op_at s i = Some r"
  shows "life_run (o_profile r) (events_of i s) (life_of s r)"
  using store_invD(1) [OF reachable_inv [OF assms(1)] assms(2)] .

text \<open>C1. Single send: between two dispatch authorisations of one operation the log holds an
  event that licenses the second: an operator's finding that the effect is absent, or, for the
  idempotency profile only, a coordinator's finding that a keyed replay is safe.\<close>

theorem resend_needs_licence:
  assumes "reachable s" and "op_at s i = Some r"
    and "events_of i s = xs @ a # ys @ b # zs" and "is_dispatch a" and "is_dispatch b"
  shows "\<exists>y \<in> set ys. manual_absent_event y \<or> replay_event y \<and> o_profile r = ''idempotency_only''"
proof -
  have run: "life_run (o_profile r) (xs @ a # ys @ b # zs) (life_of s r)"
    using reachable_run [OF assms(1,2)] assms(3) by simp
  from life_run_resend [OF run assms(4,5)] obtain y where y: "y \<in> set ys" "licenses_resend y" by blast
  then have "replay_event y \<Longrightarrow> o_profile r = ''idempotency_only''"
    using life_run_replay [OF run, of y] by simp
  with y show ?thesis by (auto simp: licenses_resend_def)
qed

theorem resend_needs_licence_witness:
  "\<exists>ys. (\<exists>xs a b zs. events_of ''aoperation'' (sample_db 7) = xs @ a # ys @ b # zs
      \<and> is_dispatch a \<and> is_dispatch b) \<and> (\<exists>y \<in> set ys. manual_absent_event y)"
proof -
  obtain e0 a e2 e3 e4 e5 b where evs: "events_of ''aoperation'' (sample_db 7) = [e0, a, e2, e3, e4, e5, b]"
    and d: "is_dispatch a" "is_dispatch b"
    using sample_events by (auto simp: map_eq_Cons_conv is_dispatch_def)
  have split: "events_of ''aoperation'' (sample_db 7) = [e0] @ a # [e2, e3, e4, e5] @ b # []"
    using evs by simp
  from resend_needs_licence [OF reachable_sample sample_final split d]
  have "\<exists>y \<in> set [e2, e3, e4, e5]. manual_absent_event y"
    by (simp add: authorize_row_def retry_row_def new_op_row_def sample_request_def)
  with split d show ?thesis by blast
qed

text \<open>C2. Dispatches are paid for by attempts: an operation has at most one authorised dispatch per
  attempt (none while the attempt is unsent), and its attempt count is one more than the retries
  in its log.\<close>

theorem dispatches_within_attempts:
  assumes "reachable s" and "op_at s i = Some r"
  shows "int (dispatches (events_of i s)) + (if o_authorized r then 0 else 1) \<le> o_attempts r
    \<and> o_attempts r = 1 + int (retries (events_of i s))"
proof -
  note run = reachable_run [OF assms]
  show ?thesis using life_run_dispatches [OF run] life_run_attempts [OF run] by (simp add: life_of_def)
qed

theorem dispatches_within_attempts_witness:
  "op_at (sample_db 1) ''aoperation'' \<noteq> None
   \<and> int (dispatches (events_of ''aoperation'' (sample_db 1))) + 1 \<le> 1"
  using dispatches_within_attempts [OF reachable_sample sample_prepared]
  by (simp add: sample_prepared [unfolded One_nat_def] new_op_row_def)

text \<open>C3. One sender: after a successful \<open>AuthorizeDispatch\<close>, no later one succeeds for the same
  operation, whatever version it names and whatever calls run in between, until a new attempt
  is begun.\<close>

fun begins_retry :: "uuid \<Rightarrow> call \<Rightarrow> bool" where
  "begins_retry i (CallRetry j v reason) = (j = i)"
| "begins_retry i _ = False"

lemma authorized_stays:
  assumes "store_inv s" and "op_at s i = Some r" and "o_authorized r"
    and "\<forall>c \<in> snd ` set cs. \<not> begins_retry i c"
  shows "\<exists>r'. op_at (run_calls cs s) i = Some r' \<and> o_id r' = i \<and> o_authorized r'"
proof (rule run_calls_row [OF assms(1,2)])
  show "o_id r = i \<and> o_authorized r" using op_at_id [OF assms(2)] assms(3) by simp
  fix e c q q'
  assume "c \<in> snd ` set cs" and q: "o_id q = i \<and> o_authorized q" and w: "row_write e c q q'"
  then have "\<not> begins_retry i c" using assms(4) by blast
  with w q show "o_id q' = i \<and> o_authorized q'" by (cases rule: row_write.cases) (auto simp: row_writes)
qed

theorem one_sender:
  assumes "reachable s" and "AuthorizeDispatch e s i v = (Inr op, s')"
    and "\<forall>c \<in> snd ` set cs. \<not> begins_retry i c"
  shows "\<not> is_ok (fst (AuthorizeDispatch e' (run_calls cs s') i v'))"
proof
  assume "is_ok (fst (AuthorizeDispatch e' (run_calls cs s') i v'))"
  then have "is_ok (authorize_body e' (run_calls cs s') i v')"
    by (simp add: AuthorizeDispatch_def run_tx_ok)
  then obtain op2 s2 where again: "authorize_body e' (run_calls cs s') i v' = Inr (op2, s2)"
    by (auto simp: is_ok_iff)
  have "authorize_body e s i v = Inr (op, s')" using assms(2) by (simp add: AuthorizeDispatch_def run_tx_Inr)
  then obtain r where r: "op_at s' i = Some r" "o_authorized r"
    by (rule authorize_ok) (simp add: store_simps authorize_row_def)
  have "store_inv s'"
    using store_exec_inv [OF reachable_inv [OF assms(1)], of e "CallAuthorize i v"] assms(2) by simp
  with authorized_stays [OF _ r assms(3)] again show False by (auto elim: authorize_ok)
qed

theorem one_sender_witness:
  "\<not> is_ok (fst (AuthorizeDispatch (env_at ''h'' 2) (run_calls [] (sample_db 2)) ''aoperation'' 2))"
proof -
  have "\<exists>op. AuthorizeDispatch (env_at ''b'' 1) (sample_db 1) ''aoperation'' 1 = (Inr op, sample_db 2)"
    by (simp add: sample_simps exec_simps)
  then obtain op where "AuthorizeDispatch (env_at ''b'' 1) (sample_db 1) ''aoperation'' 1 = (Inr op, sample_db 2)" ..
  from one_sender [OF reachable_sample this, of "[]"] show ?thesis by simp
qed

text \<open>C4. The audit log is complete: an operation's events carry the versions 1, 2, ..., up to its
  current version, each starts in the state its predecessor reached, and the last one reached
  the state the row holds.\<close>

theorem audit_log_complete:
  assumes "reachable s" and "op_at s i = Some r"
  shows "map ev_OperationVersion (events_of i s) = [1..o_version r]
    \<and> chained None (events_of i s) \<and> ev_ToState (last (events_of i s)) = Some (o_state r)"
  using life_run_versions [OF reachable_run [OF assms]] life_run_chained [OF reachable_run [OF assms]]
  by (simp add: life_of_def)

theorem audit_log_complete_witness:
  "map ev_OperationVersion (events_of ''aoperation'' (sample_db 7)) = [1..7]"
  using audit_log_complete [OF reachable_sample sample_final]
  by (simp add: authorize_row_def retry_row_def)

text \<open>C5. \<open>confirmed\<close> is final: once confirmed, no call of any client changes the row or its
  receipt again.\<close>

theorem confirmed_is_final:
  assumes "reachable s" and "op_at s i = Some r" and "o_state r = StateConfirmed"
  shows "op_at (run_calls cs s) i = Some r \<and> receipt_at (run_calls cs s) i = receipt_at s i
    \<and> receipt_at s i \<noteq> None"
proof -
  from life_run_confirmed [OF reachable_run [OF assms(1,2)]] assms(3) op_at_id [OF assms(2)]
  have l: "o_lease_hash r = None" and rc: "receipt_at s i \<noteq> None" by (simp_all add: life_of_def)
  from run_calls_row [OF reachable_inv [OF assms(1)] assms(2), of "\<lambda>q. q = r" cs]
  have "op_at (run_calls cs s) i = Some r" using row_write_confirmed l assms(3) by auto
  with rc receipt_stays [of i s _ cs] show ?thesis by auto
qed

definition confirmed_calls :: "(env \<times> call) list" where
  "confirmed_calls = take 2 sample_calls @ [(env_at ''c'' 5, CallConfirm ''aoperation''
     \<lparr>cr_ExpectedVersion = 2, cr_ServiceReceiptID = ''rcpt'', cr_Receipt = ''{}'', cr_ReceivedAt = 4\<rparr>)]"

lemma receipt_fingerprint_empty: "ReceiptFingerprint ''{}'' = Inr (sha256_hex ''{}'')"
proof -
  have "CanonicalJSON ''{}'' = Inr ''{}''" by code_simp
  then show ?thesis by (simp add: ReceiptFingerprint_def)
qed

lemma confirmed_db: "op_at (run_calls confirmed_calls (empty_db [])) ''aoperation'' =
    Some (confirm_row (env_at ''c'' 5) (authorize_row (env_at ''b'' 1)
      (new_op_row (env_at ''a'' 0) ''aoperation'' ''aworkflow'' sample_request (JObj []) (JObj []))))"
  by (simp add: confirmed_calls_def sample_simps exec_simps receipt_fingerprint_empty)

lemma reachable_confirmed: "reachable (run_calls confirmed_calls (empty_db []))"
  by (intro run_calls_reachable reachable.initial)

theorem confirmed_is_final_witness:
  "receipt_at (run_calls sample_calls (run_calls confirmed_calls (empty_db []))) ''aoperation'' \<noteq> None"
  using confirmed_is_final [OF reachable_confirmed confirmed_db, of sample_calls]
  by (simp add: confirm_row_def)

text \<open>C6. An operation has a receipt exactly when it is confirmed: no other path (recovery, manual
  resolution, retry) produces or loses one.\<close>

theorem receipt_iff_confirmed:
  assumes "reachable s" and "op_at s i = Some r"
  shows "receipt_at s i \<noteq> None \<longleftrightarrow> o_state r = StateConfirmed"
  using life_run_confirmed [OF reachable_run [OF assms]] op_at_id [OF assms(2)] by (simp add: life_of_def)

theorem receipt_iff_confirmed_witness: "receipt_at (sample_db 7) ''aoperation'' = None"
  using receipt_iff_confirmed [OF reachable_sample sample_final]
  by (simp add: authorize_row_def retry_row_def)

text \<open>C7. Every reachable database satisfies the schema, table by table: the \<open>CHECK\<close> constraints on the
  rows of operations, workflows, attempts, observations, events and decisions, the primary and unique
  keys of all seven tables, and the references between them. The conditional updates never rely on the
  database to reject them (the one update that can violate a check, \<open>SubmitRecoveryResult\<close>, tests it
  in the model).\<close>

theorem schema_holds:
  assumes "reachable s"
  shows "workflows_ok s \<and> operations_ok s \<and> receipts_ok s \<and> attempts_ok s \<and> observations_ok s
    \<and> events_ok s \<and> decisions_ok s"
  using reachable_schema [OF assms] by (simp add: schema_ok_def)

lemma sample_tables:
  "length (attempts (sample_db 7)) = 1" "length (observations (sample_db 7)) = 1" "length (decisions (sample_db 7)) = 2"
  by (simp_all add: sample_simps exec_simps)

theorem schema_holds_witness:
  "length (attempts (sample_db 7)) = 1 \<and> attempts_ok (sample_db 7) \<and> length (observations (sample_db 7)) = 1
   \<and> observations_ok (sample_db 7) \<and> length (decisions (sample_db 7)) = 2 \<and> decisions_ok (sample_db 7)"
  using schema_holds [OF reachable_sample [of 7]] sample_tables by blast

text \<open>C8. State changes follow the transition table of \<open>domain/state.go\<close>, for a row without a lease
  and for a prepared or uncertain row with one.\<close>

theorem changes_follow_table:
  assumes "reachable s" and "op_at s i = Some r" and "op_at (store_exec e c s) i = Some r'"
    and "o_state r' \<noteq> o_state r" and "o_lease_hash r = None \<or> o_state r \<in> {StatePrepared, StateUncertain}"
  shows "ValidateTransition (o_state r) (o_state r') = Inr ()"
proof -
  have "row_write e c r r'"
    using store_exec_row [OF reachable_inv [OF assms(1)] assms(2)] assms(3,4) by (metis option.inject)
  then have "CanTransition (o_state r) (o_state r')"
  proof (cases rule: row_write.cases)
    case (result res v w n)
    from result decide_verdict [OF result(5)] assms(4,5) show ?thesis
      by (auto simp: result_row_def lease_valid_def CanTransition_def)
  next
    case (manual m st dn)
    then show ?thesis using manual_target_states [OF manual(5)] assms(4)
      by (auto simp: manual_row_def CanTransition_def)
  qed (use assms(4) in \<open>auto simp: authorize_row_def confirm_row_def retry_row_def request_row_def
         claim_row_def renew_row_def CanTransition_def\<close>)
  moreover have "ValidState (o_state r)" "ValidState (o_state r')"
    using reachable_checks [OF assms(1,2)] reachable_checks [OF reachable.step [OF assms(1)] assms(3)]
    by (simp_all add: row_checks_def)
  ultimately show ?thesis by (simp add: ValidateTransition_def)
qed

theorem changes_follow_table_witness:
  "map_option o_state (op_at (sample_db 3) ''aoperation'') = Some StatePrepared
   \<and> map_option o_state (op_at (store_exec (env_at ''d'' 110) (CallSubmit ''aoperation'' sample_result) (sample_db 3))
        ''aoperation'') = Some StateUncertain
   \<and> ValidateTransition StatePrepared StateUncertain = Inr ()"
proof -
  have r: "op_at (sample_db 3) ''aoperation'' = Some (claim_row (env_at ''c'' 100) ''w''
       (claimTokenHash (b64_encode ''0'')) 50 (authorize_row (env_at ''b'' 1) (new_op_row (env_at ''a'' 0)
        ''aoperation'' ''aworkflow'' sample_request (JObj []) (JObj []))))"
    by (simp add: sample_simps exec_simps)
  have "\<exists>q. op_at (store_exec (env_at ''d'' 110) (CallSubmit ''aoperation'' sample_result) (sample_db 3))
      ''aoperation'' = Some q \<and> o_state q = StateUncertain"
    by (simp add: sample_simps exec_simps)
  then obtain q where q: "op_at (store_exec (env_at ''d'' 110) (CallSubmit ''aoperation'' sample_result)
      (sample_db 3)) ''aoperation'' = Some q" "o_state q = StateUncertain" by blast
  from changes_follow_table [OF reachable_sample r q(1)] q r show ?thesis
    by (simp add: claim_row_def authorize_row_def new_op_row_def)
qed

definition completed_evidence :: "Observation \<Rightarrow> bool" where
  "completed_evidence ob \<longleftrightarrow> ob_Authoritative ob \<and> ob_Outcome ob = OutcomeCompleted"

definition safe_repeat :: "op_row \<Rightarrow> Observation \<Rightarrow> bool" where
  "safe_repeat r ob \<longleftrightarrow> \<not> o_authorized r \<and> ob_Outcome ob \<noteq> OutcomeContradictory
     \<or> o_profile r = ''idempotency_only'' \<and> ob_Mechanism ob = MechanismIdempotentRepeat \<and> ob_Authoritative ob
       \<and> ob_Outcome ob = OutcomeUnknown"

lemma verdict_reconciled:
  "v_toState (decide (scanOperation w r) ob n) = StateReconciled \<Longrightarrow> o_state r \<noteq> StateReconciled \<Longrightarrow>
   completed_evidence ob"
  by (auto simp: decide_def completed_evidence_def split: if_splits)

lemma verdict_retryable:
  "v_toState (decide (scanOperation w r) ob n) = StateRetryable \<Longrightarrow> o_state r \<noteq> StateRetryable \<Longrightarrow>
   safe_repeat r ob"
  by (auto simp: decide_def safe_repeat_def split: if_splits)

lemma write_resolution:
  assumes "row_write e c r r'" and "o_state r' \<noteq> o_state r" and "o_state r' \<in> {StateReconciled, StateRetryable}"
  obtains (result) res where "c = CallSubmit (o_id r) res" "lease_valid e r (rr_ClaimToken res)"
      "o_state r' = StateReconciled \<longrightarrow> completed_evidence (rr_Observation res)"
      "o_state r' = StateRetryable \<longrightarrow> safe_repeat r (rr_Observation res)"
    | (manual) m where "c = CallManual (o_id r) m" "o_state r = StateUncertain"
      "mr_Outcome m = (if o_state r' = StateReconciled then ''completed'' else ''absent'')"
  using assms(1)
proof (cases rule: row_write.cases)
  case (result res v w n)
  then show thesis
    using assms(2) verdict_reconciled [of w r _ n] verdict_retryable [of w r _ n]
    by (intro that(1) [of res]) (auto simp: result_row_def)
next
  case (manual m st dn)
  then show thesis using assms(2,3) that(2) [of m]
    by (auto simp: manual_row_def manual_target_def split: if_splits)
qed (use assms(2,3) in \<open>auto simp: authorize_row_def confirm_row_def retry_row_def request_row_def
       claim_row_def renew_row_def\<close>)

text \<open>C9. Where a resolution comes from. An operation becomes reconciled only by a recovery result with
  authoritative completed evidence or by an operator's \<open>completed\<close>. It becomes retryable only by an
  operator's \<open>absent\<close> or by a recovery result that makes a second send harmless: one for an operation
  whose dispatch was never authorised, with evidence that does not contradict that (authoritative or
  not), or the authoritative guarantee of a keyed replay under the idempotency profile. A recovery
  result counts only under a valid lease, an operator's word only on an uncertain operation.\<close>

theorem resolution_provenance:
  assumes "reachable s" and "op_at s i = Some r" and "op_at (store_exec e c s) i = Some r'"
    and "o_state r' \<noteq> o_state r" and "o_state r' \<in> {StateReconciled, StateRetryable}"
  shows "(\<exists>res. c = CallSubmit i res \<and> lease_valid e r (rr_ClaimToken res)
         \<and> (if o_state r' = StateReconciled then completed_evidence (rr_Observation res)
            else safe_repeat r (rr_Observation res)))
      \<or> (\<exists>m. c = CallManual i m \<and> o_state r = StateUncertain
         \<and> mr_Outcome m = (if o_state r' = StateReconciled then ''completed'' else ''absent''))"
proof -
  have w: "row_write e c r r'"
    using store_exec_row [OF reachable_inv [OF assms(1)] assms(2)] assms(3,4) by (metis option.inject)
  show ?thesis
    using write_resolution [OF w assms(4,5)] assms(5) op_at_id [OF assms(2)] by (cases) auto
qed

theorem resolution_provenance_witness:
  "\<exists>r r'. op_at (sample_db 4) ''aoperation'' = Some r \<and> o_state r = StateUncertain
     \<and> op_at (sample_db 5) ''aoperation'' = Some r' \<and> o_state r' = StateRetryable
     \<and> (\<forall>res. snd (sample_calls ! 4) \<noteq> CallSubmit ''aoperation'' res)
     \<and> (\<exists>m. snd (sample_calls ! 4) = CallManual ''aoperation'' m \<and> mr_Outcome m = ''absent'')"
proof -
  have c: "snd (sample_calls ! 4) = CallManual ''aoperation'' sample_resolution" by (simp add: sample_calls_def)
  have "\<exists>r. op_at (sample_db 4) ''aoperation'' = Some r \<and> o_state r = StateUncertain"
    and "\<exists>q. op_at (sample_db 5) ''aoperation'' = Some q \<and> o_state q = StateRetryable"
    by (simp_all add: sample_simps exec_simps)
  then obtain r q where r: "op_at (sample_db 4) ''aoperation'' = Some r" "o_state r = StateUncertain"
    and q: "op_at (sample_db 5) ''aoperation'' = Some q" "o_state q = StateRetryable" by blast
  have step: "sample_db 5 = store_exec (env_at ''e'' 200) (snd (sample_calls ! 4)) (sample_db 4)"
    unfolding c by (simp add: sample_db_def sample_calls_def)
  from resolution_provenance [OF reachable_sample r(1) q(1) [unfolded step]] r q c show ?thesis by auto
qed

end
