(* ===== verification/Store_Behaviour.thy ===== *)
theory Store_Behaviour
  imports Store_Safety
begin

text \<open>
  What each call answers, branch by branch: dispatch authorisation, the shared version discipline,
  confirmation and preparation replays, claims and leases, recovery verdicts.
\<close>

section \<open>Tables along runs\<close>

lemma store_exec_workflows: "\<exists>ws. workflows (store_exec e c s) = workflows s @ ws"
  using store_exec_workflow_row [of e c s] by auto

lemma run_calls_workflows: "\<exists>ws. workflows (run_calls cs s) = workflows s @ ws"
proof (induction cs s rule: run_calls.induct)
  case (2 e c cs s)
  then show ?case using store_exec_workflows [of e c s] by (metis append.assoc run_calls.simps(2))
qed simp

lemma workflow_stays:
  assumes "lookup_by key k (workflows s) = Some w"
  shows "lookup_by key k (workflows (run_calls cs s)) = Some w"
  using run_calls_workflows [of cs s] assms by (auto simp: lookup_by_append)

text \<open>A call whose statements all work and whose commit is acknowledged.\<close>

definition healthy :: "env \<Rightarrow> bool" where
  "healthy e \<longleftrightarrow> fails e = (\<lambda>_. False) \<and> fate e = Committed"

lemma healthy_env_at: "healthy (env_at tag t)"
  by (simp add: healthy_def env_at_def)

lemma healthy_stmt [simp]: "healthy e \<Longrightarrow> stmtU e l = Inr ()" "healthy e \<Longrightarrow> stmtP e l = Inr ()"
  by (simp_all add: healthy_def stmtU_def stmtP_def)

lemma healthy_tx: "healthy e \<Longrightarrow>
  run_tx e b c s body = (case body of Inl err \<Rightarrow> (Inl err, s) | Inr (x, s') \<Rightarrow> (Inr x, s'))"
  by (simp add: healthy_def run_tx_def split: sum.splits)

lemma reachable_workflow:
  assumes "reachable s" and "op_at s i = Some r"
  obtains w where "lookup_by w_id (o_workflow r) (workflows s) = Some w" "joined s i = Some (scanOperation w r)"
  using store_invD(2) [OF reachable_inv [OF assms(1)] assms(2)] assms(2)
  by (auto simp: row_inv_def joined_def)

lemma reads_healthy:
  assumes "healthy e"
  shows "getOperationTx e s i = of_opt not_found (joined s i)"
    "getOperationForUpdate e s i = of_opt not_found (joined s i)"
    "getReceiptTx e s i = of_opt ErrNoRows (map_option scanReceipt (receipt_at s i))"
  using assms by (simp_all add: getOperationTx_def getOperationForUpdate_def getReceiptTx_def)

section \<open>Dispatch\<close>

text \<open>C10. \<open>AuthorizeDispatch\<close> answers as specified on every branch: an unknown operation is not
  found, a prepared, never dispatched, unleased operation at the named version is granted and
  returned with its flag set and the next version, anything else is \<open>dispatch_not_authorized\<close>
  and leaves the database alone.\<close>

definition dispatchable :: "op_row \<Rightarrow> int \<Rightarrow> bool" where
  "dispatchable r v \<longleftrightarrow> o_state r = StatePrepared \<and> o_version r = v \<and> \<not> o_authorized r \<and> o_lease_hash r = None"

theorem authorize_dispatch_spec:
  assumes "reachable s" and "healthy e"
  shows "case op_at s i of
      None \<Rightarrow> AuthorizeDispatch e s i v = (Inl not_found, s)
    | Some r \<Rightarrow> if dispatchable r v
        then (\<exists>op s'. AuthorizeDispatch e s i v = (Inr op, s') \<and> op_at s' i = Some (authorize_row e r)
               \<and> op_ID op = i \<and> op_DispatchAuthorized op \<and> op_Version op = v + 1 \<and> op_State op = StatePrepared)
        else AuthorizeDispatch e s i v = (Inl dispatch_not_authorized, s)"
proof (cases "op_at s i")
  case None
  then show ?thesis
    by (simp add: AuthorizeDispatch_def authorize_body_def reads_healthy [OF assms(2)] healthy_tx [OF assms(2)]
        joined_def of_opt_def)
next
  case (Some r)
  from reachable_workflow [OF assms(1) Some] obtain w
    where w: "lookup_by w_id (o_workflow r) (workflows s) = Some w" and j: "joined s i = Some (scanOperation w r)" .
  note unfold = AuthorizeDispatch_def authorize_body_def reads_healthy [OF assms(2)] healthy_tx [OF assms(2)]
    j Some
  show ?thesis
  proof (cases "dispatchable r v")
    case True
    let ?s = "append_event e i ''dispatch_authorized'' (Some StatePrepared) (Some StatePrepared)
                (v + 1) ''worker'' ''workflow-worker'' ''single_send_authorized'' []
                (update_op i (authorize_row e) s)"
    have at: "op_at ?s i = Some (authorize_row e r)"
      using Some by (simp add: append_event_other(2) op_at_update_op authorize_row_def)
    moreover have "joined ?s i = Some (scanOperation w (authorize_row e r))"
      using w by (simp only: joined_def at) (simp add: store_simps authorize_row_def)
    ultimately show ?thesis
      using True assms(2) op_at_id [OF Some] by (simp add: unfold Let_def dispatchable_def authorize_row_def)
  next
    case False
    then show ?thesis using assms(2) by (auto simp: unfold dispatchable_def)
  qed
qed

theorem authorize_dispatch_spec_witness:
  "\<exists>op s'. AuthorizeDispatch (env_at ''b'' 1) (sample_db 1) ''aoperation'' 1 = (Inr op, s') \<and> op_Version op = 2"
proof -
  have "dispatchable (new_op_row (env_at ''a'' 0) ''aoperation'' ''aworkflow'' sample_request (JObj []) (JObj [])) 1"
    by (simp add: dispatchable_def new_op_row_def)
  then show ?thesis
    using authorize_dispatch_spec [OF reachable_sample [of 1] healthy_env_at [of "''b''" 1],
        where i = "''aoperation''" and v = 1]
    by (auto simp: sample_prepared [unfolded One_nat_def])
qed

section \<open>Versions\<close>

fun expected_version :: "call \<Rightarrow> (uuid \<times> int) option" where
  "expected_version (CallAuthorize i v) = Some (i, v)"
| "expected_version (CallConfirm i req) = Some (i, cr_ExpectedVersion req)"
| "expected_version (CallRetry i v reason) = Some (i, v)"
| "expected_version (CallRequest i v actor reason) = Some (i, v)"
| "expected_version (CallSubmit i res) = Some (i, rr_ExpectedVersion res)"
| "expected_version (CallManual i m) = Some (i, mr_ExpectedVersion m)"
| "expected_version _ = None"

fun succeeds :: "env \<Rightarrow> call \<Rightarrow> db \<Rightarrow> bool" where
  "succeeds e (CallPrepare req) s = is_ok (fst (Prepare e s req))"
| "succeeds e (CallAuthorize i v) s = is_ok (fst (AuthorizeDispatch e s i v))"
| "succeeds e (CallConfirm i req) s = is_ok (fst (Confirm e s i req))"
| "succeeds e (CallRetry i v reason) s = is_ok (fst (BeginRetry e s i v reason))"
| "succeeds e (CallRequest i v actor reason) s = is_ok (fst (RequestReconciliation e s i v actor reason))"
| "succeeds e (CallClaim worker limit d grace wname) s =
     is_ok (fst (ClaimRecoveryForWorkflow e s worker limit d grace wname))"
| "succeeds e (CallRenew i token d) s = is_ok (fst (RenewClaim e s i token d))"
| "succeeds e (CallSubmit i res) s = is_ok (fst (SubmitRecoveryResult e s i res))"
| "succeeds e (CallManual i m) s = is_ok (fst (ManualResolve e s i m))"

lemma ok_pair: "is_ok (fst p) \<Longrightarrow> \<exists>x. p = (Inr x, snd p)"
  by (cases p) (auto simp: is_ok_iff)

text \<open>A call that took effect, or a success other than a repeated confirmation, spends its version.\<close>

fun is_confirm :: "call \<Rightarrow> bool" where
  "is_confirm (CallConfirm i req) = True"
| "is_confirm _ = False"

definition took_effect :: "env \<Rightarrow> call \<Rightarrow> db \<Rightarrow> bool" where
  "took_effect e c s \<longleftrightarrow> store_exec e c s \<noteq> s \<or> succeeds e c s \<and> \<not> is_confirm c"

definition spends :: "uuid \<Rightarrow> int \<Rightarrow> db \<Rightarrow> db \<Rightarrow> bool" where
  "spends i v s s' \<longleftrightarrow> (\<exists>r r'. op_at s i = Some r \<and> o_version r = v \<and> op_at s' i = Some r' \<and> o_version r' = v + 1)"

text \<open>What a versioned call leaves: the database it found, or the named version spent.\<close>

lemma versioned_exec:
  assumes "expected_version c = Some (i, v)"
  shows "store_exec e c s = s \<or> spends i v s (store_exec e c s)"
proof (cases rule: store_exec_cases [of e c s])
  case (authorize j u op)
  then show ?thesis using assms by (auto elim!: authorize_ok simp: spends_def store_simps row_writes simp del: store_exec.simps)
next
  case (confirm j req fp op)
  with assms have "j = i" "cr_ExpectedVersion req = v" by simp_all
  with confirm_body_ok [OF confirm(3)] show ?thesis
    by (auto elim!: confirm_first_ok simp: spends_def store_simps row_writes simp del: store_exec.simps)
next
  case (retry j u reason op)
  then show ?thesis using assms by (auto elim!: retry_ok simp: spends_def store_simps row_writes simp del: store_exec.simps)
next
  case (request j u actor reason op)
  then show ?thesis using assms by (auto elim!: request_ok simp: spends_def store_simps row_writes simp del: store_exec.simps)
next
  case (submit j res op)
  from submit(1) assms have "j = i" "rr_ExpectedVersion res = v" by simp_all
  with submit(2) show ?thesis
    by (auto elim!: submit_ok simp: spends_def store_simps lookup_by_update row_writes simp del: store_exec.simps)
next
  case (manual j m op)
  then show ?thesis using assms
    by (auto elim!: manual_ok simp: spends_def store_simps update_op_def lookup_by_update row_writes simp del: store_exec.simps)
qed (use assms in simp_all)

lemma success_spends:
  assumes "expected_version c = Some (i, v)" and "succeeds e c s" and "\<not> is_confirm c"
  shows "spends i v s (store_exec e c s)"
proof (cases c)
  case (CallAuthorize j u)
  with assms authorize.success [where x = v and e = e and s = s and i = i] show ?thesis by (simp add: spends_def)
next
  case (CallRetry j u reason)
  with assms retry.success [where x = "(v, reason)" and e = e and s = s and i = i] show ?thesis by (simp add: spends_def)
next
  case (CallRequest j u actor reason)
  with assms request.success [where x = "(v, actor, reason)" and e = e and s = s and i = i] show ?thesis by (simp add: spends_def)
next
  case (CallSubmit j res)
  with assms submit.success [where x = res and e = e and s = s and i = i] show ?thesis by (simp add: spends_def)
next
  case (CallManual j m)
  with assms manual.success [where x = m and e = e and s = s and i = i] show ?thesis by (simp add: spends_def)
qed (use assms in auto)

lemma took_effect_spends:
  "expected_version c = Some (i, v) \<Longrightarrow> took_effect e c s \<Longrightarrow> spends i v s (store_exec e c s)"
  using versioned_exec success_spends unfolding took_effect_def by blast

text \<open>C11. Optimistic concurrency across operations: of all the calls that name the same expected version
  of one operation (dispatch, confirmation, retry, reconciliation request, recovery result, manual
  resolution, in any order, by any clients, with any calls in between) at most one ever takes effect,
  even when its reply is lost. Every later one leaves the database as it is, and fails, unless it is a
  confirmation, which may report the stored receipt again.\<close>

theorem version_spent_once:
  assumes "reachable s" and "took_effect e c s"
    and "expected_version c = Some (i, v)" and "expected_version c' = Some (i, v)"
  shows "\<not> took_effect e' c' (run_calls cs (store_exec e c s))
    \<and> store_exec e' c' (run_calls cs (store_exec e c s)) = run_calls cs (store_exec e c s)
    \<and> (succeeds e' c' (run_calls cs (store_exec e c s)) \<longrightarrow> is_confirm c')"
proof -
  let ?s = "run_calls cs (store_exec e c s)"
  obtain r where r: "op_at (store_exec e c s) i = Some r" "o_version r = v + 1"
    using took_effect_spends [OF assms(3,2)] by (auto simp: spends_def)
  obtain r' where "op_at ?s i = Some r'" "v < o_version r'"
    using run_calls_version [OF store_exec_inv [OF reachable_inv [OF assms(1)]] r(1), of cs] r(2) by force
  then have "\<not> spends i v ?s s'" for s' by (auto simp: spends_def)
  then have "\<not> took_effect e' c' ?s" using took_effect_spends [OF assms(4)] by blast
  then show ?thesis by (auto simp: took_effect_def)
qed

theorem version_spent_once_witness:
  "took_effect (env_at ''b'' 1) (CallAuthorize ''aoperation'' 1) (sample_db 1)
   \<and> \<not> succeeds (env_at ''h'' 3) (CallRequest ''aoperation'' 1 ''op'' ''why'') (run_calls [] (sample_db 2))"
proof -
  have s: "store_exec (env_at ''b'' 1) (CallAuthorize ''aoperation'' 1) (sample_db 1) = sample_db 2"
    and ok: "succeeds (env_at ''b'' 1) (CallAuthorize ''aoperation'' 1) (sample_db 1)"
    by (simp_all add: sample_simps exec_simps)
  have t: "took_effect (env_at ''b'' 1) (CallAuthorize ''aoperation'' 1) (sample_db 1)"
    using ok by (simp add: took_effect_def)
  have "expected_version (CallAuthorize ''aoperation'' 1) = Some (''aoperation'', 1)"
    "expected_version (CallRequest ''aoperation'' 1 ''op'' ''why'') = Some (''aoperation'', 1)" by simp_all
  from version_spent_once [OF reachable_sample t this, of "env_at ''h'' 3" "[]"] t
  show ?thesis unfolding s by simp
qed

end
