(* ===== verification/Store_Replay.thy ===== *)
theory Store_Replay
  imports Store_Behaviour
begin

text \<open>
  Replays: repeating a confirmation or a preparation, immediately or after any other calls,
  returns what the first one stored, and a different one under the same identity is refused.
\<close>

section \<open>Confirm\<close>

text \<open>What a committed confirmation leaves, first or replayed.\<close>

lemma confirm_leaves:
  assumes "confirm_body e s i req fp = Inr (op, s')"
  obtains rc where "receipt_at s' i = Some rc" "r_fingerprint rc = fp"
    "r_service_id rc = cr_ServiceReceiptID req" "with_receipt e s' i = Inr op"
proof -
  from confirm_body_ok [OF assms] consider
    (replay) r where "receipt_at s i = Some r" "r_fingerprint r = fp"
      "r_service_id r = cr_ServiceReceiptID req" "s' = s" "with_receipt e s i = Inr op"
  | (first) op0 where "joined s i = Some op0" "confirm_first e s i req fp op0 = Inr (op, s')"
    by blast
  then show thesis
  proof cases
    case first
    from first(2) have "with_receipt e s' i = Inr op"
      by (auto simp: confirm_first_def bindE_Inr_iff Let_def)
    moreover from first(2,1) obtain rc where "receipt_at s' i = Some rc" "r_fingerprint rc = fp"
      "r_service_id rc = cr_ServiceReceiptID req"
      by (rule confirm_first_ok) (simp add: store_simps lookup_by_append)
    ultimately show thesis using that by blast
  qed (use that in blast)
qed

lemma with_receipt_stable:
  assumes "with_receipt e s i = Inr op" and "healthy e'"
    and "joined s' i = joined s i" and "receipt_at s' i = receipt_at s i"
  shows "with_receipt e' s' i = Inr op"
  using assms by (auto simp: with_receipt_def reads_healthy [OF assms(2)] getOperationTx_def
      getReceiptTx_def bindE_Inr_iff)

text \<open>C12. Confirmation is idempotent: after \<open>Confirm\<close> succeeded, repeating it at any later time, with
  any expected version, returns the same confirmed operation and changes nothing when the
  receipt is the same document under the same service id, and is a \<open>receipt_conflict\<close> otherwise.\<close>

definition receipt_conflict :: error where
  "receipt_conflict = conflict ''receipt_conflict'' ''operation already has a different receipt''"

theorem confirm_replay_spec:
  assumes "reachable s" and "Confirm e s i req = (Inr op, s')" and "healthy e'"
    and fp: "ReceiptFingerprint (cr_Receipt req) = Inr fp" "ReceiptFingerprint (cr_Receipt req') = Inr fp'"
  shows "Confirm e' (run_calls cs s') i req' =
    (if fp' = fp \<and> cr_ServiceReceiptID req' = cr_ServiceReceiptID req then Inr op else Inl receipt_conflict,
     run_calls cs s')"
proof -
  let ?t = "run_calls cs s'"
  have b: "confirm_body e s i req fp = Inr (op, s')"
    using assms(2) fp by (simp add: Confirm_def run_tx_Inr)
  from b obtain rc where rc: "receipt_at s' i = Some rc" "r_fingerprint rc = fp"
      "r_service_id rc = cr_ServiceReceiptID req" and ret: "with_receipt e s' i = Inr op"
    by (rule confirm_leaves)
  have reach: "reachable s'"
    using reachable.step [OF assms(1), of e "CallConfirm i req"] assms(2) by simp
  from ret obtain r w where r: "op_at s' i = Some r" and w: "lookup_by w_id (o_workflow r) (workflows s') = Some w"
    by (auto simp: with_receipt_def bindE_Inr_iff store_simps)
  have st: "o_state r = StateConfirmed"
    using life_run_confirmed [OF reachable_run [OF reach r]] rc(1) op_at_id [OF r] by (simp add: life_of_def)
  have l: "o_lease_hash r = None"
    using life_run_confirmed [OF reachable_run [OF reach r]] st by (simp add: life_of_def)
  from run_calls_row [OF reachable_inv [OF reach] r, of "\<lambda>q. q = r" cs]
  have r': "op_at ?t i = Some r" using row_write_confirmed l st by auto
  have j: "joined ?t i = joined s' i"
    using r r' w workflow_stays [OF w, of cs] by (simp add: joined_def)
  have rc': "receipt_at ?t i = Some rc" using receipt_stays [OF rc(1)] .
  have "with_receipt e' ?t i = Inr op"
    using with_receipt_stable [OF ret assms(3) j] rc' rc(1) by simp
  moreover have "\<exists>op0. getOperationForUpdate e' ?t i = Inr op0"
    using j r w by (simp add: reads_healthy [OF assms(3)] joined_def)
  ultimately show ?thesis
    using rc rc' assms(3)
    by (auto simp: Confirm_def fp(2) healthy_tx confirm_body_def confirm_replay_def guardE_def
        receipt_conflict_def)
qed

definition sample_receipt :: ConfirmRequest where
  "sample_receipt = \<lparr>cr_ExpectedVersion = 2, cr_ServiceReceiptID = ''rcpt'', cr_Receipt = ''{}'', cr_ReceivedAt = 4\<rparr>"

theorem confirm_replay_spec_witness:
  "\<exists>op s'. Confirm (env_at ''c'' 5) (sample_db 2) ''aoperation'' sample_receipt = (Inr op, s')
    \<and> Confirm (env_at ''h'' 9) (run_calls [] s') ''aoperation'' (sample_receipt\<lparr>cr_ServiceReceiptID := ''other''\<rparr>)
        = (Inl receipt_conflict, s')"
proof -
  have "is_ok (fst (Confirm (env_at ''c'' 5) (sample_db 2) ''aoperation'' sample_receipt))"
    by (simp add: sample_simps exec_simps sample_receipt_def receipt_fingerprint_empty)
  then obtain op s' where ok: "Confirm (env_at ''c'' 5) (sample_db 2) ''aoperation'' sample_receipt = (Inr op, s')"
    using ok_pair by blast
  have "ReceiptFingerprint (cr_Receipt sample_receipt) = Inr (sha256_hex ''{}'')"
    "ReceiptFingerprint (cr_Receipt (sample_receipt\<lparr>cr_ServiceReceiptID := ''other''\<rparr>)) = Inr (sha256_hex ''{}'')"
    by (simp_all add: sample_receipt_def receipt_fingerprint_empty)
  from confirm_replay_spec [OF reachable_sample ok healthy_env_at [of "''h''" 9] this, of "[]"] ok
  show ?thesis by (simp add: sample_receipt_def)
qed

section \<open>Prepare\<close>

text \<open>What a committed preparation leaves.\<close>

lemma ensureWorkflow_leaves:
  assumes "ensureWorkflow e s req = Inr (wid, s1)"
  obtains w where "lookup_by w_external (pr_WorkflowID req) (workflows s1) = Some w" "w_id w = wid"
    "w_strategy w = pr_Strategy req" "w_experiment w = pr_ExperimentRunID req"
    "operations s1 = operations s"
  using assms by (auto simp: ensureWorkflow_def bindE_Inr_iff split: option.splits if_splits)

lemma prepare_leaves:
  assumes "prepare_body e s req = Inr ((op, created), s')" and ids: "distinct (map o_id (operations s'))"
  obtains w r where "lookup_by w_external (pr_WorkflowID req) (workflows s') = Some w"
    "w_strategy w = pr_Strategy req" "w_experiment w = pr_ExperimentRunID req" "ValidStrategy (pr_Strategy req)"
    "op_at s' (op_ID op) = Some r" "o_workflow r = w_id w" "o_logical_key r = pr_LogicalKey req"
    "o_fingerprint r = pr_RequestFingerprint req"
proof -
  from assms obtain wid s1 i res s2 where wf: "ensureWorkflow e s req = Inr (wid, s1)"
    and ins: "insert_operation e i wid req s1 = Inr (res, s2)"
    and rest: "case res of
        None \<Rightarrow> \<exists>r. natural_key wid (pr_LogicalKey req) s2 = Some r \<and> s' = s2
          \<and> o_fingerprint r = pr_RequestFingerprint req \<and> joined s2 (o_id r) = Some op
      | Some i \<Rightarrow> s' = append_event e i ''intent_prepared'' None (Some StatePrepared) 1 ''api''
         ''watchkeeper-api'' ''intent_persisted'' [] s2 \<and> joined s' i = Some op"
    by (auto simp: prepare_body_def bindE_Inr_iff Let_def store_simps split: option.splits prod.splits)
  from wf obtain w where w: "lookup_by w_external (pr_WorkflowID req) (workflows s1) = Some w" "w_id w = wid"
    "w_strategy w = pr_Strategy req" "w_experiment w = pr_ExperimentRunID req"
    by (rule ensureWorkflow_leaves)
  have vs: "ValidStrategy (pr_Strategy req)" using wf by (rule ensureWorkflow_ok)
  from insert_operation_ok [OF ins] show thesis
  proof (elim disjE exE conjE)
    assume "res = None" "s2 = s1"
    with rest obtain r where r: "natural_key wid (pr_LogicalKey req) s' = Some r" "s' = s1"
      "o_fingerprint r = pr_RequestFingerprint req" "joined s' (o_id r) = Some op" by auto
    from r(1) have mem: "r \<in> set (operations s')" "o_workflow r = wid" "o_logical_key r = pr_LogicalKey req"
      by (auto simp: natural_key_def find_Some_iff)
    have at: "op_at s' (o_id r) = Some r" using lookup_by_distinct [OF ids mem(1)] .
    with r(4) have "op_ID op = o_id r" by (auto simp: store_simps)
    then show thesis using that [of w r] w vs at mem r by simp
  next
    fix effect trace
    assume res: "res = Some i" "op_at s1 i = None"
      and s2: "s2 = s1\<lparr>operations := operations s1 @ [new_op_row e i wid req effect trace]\<rparr>"
    with rest have s': "s' = append_event e i ''intent_prepared'' None (Some StatePrepared) 1 ''api''
         ''watchkeeper-api'' ''intent_persisted'' [] s2" and j: "joined s' i = Some op" by auto
    have at: "op_at s' i = Some (new_op_row e i wid req effect trace)"
      using res by (simp add: s' s2 store_simps lookup_by_append new_op_row_def)
    with j have "op_ID op = i" by (auto simp: store_simps new_op_row_def)
    then show thesis
      using that [of w] w vs at by (simp add: s' s2 store_simps new_op_row_def)
  qed
qed

text \<open>C13. Preparation is idempotent and survives a lost reply: once a \<open>Prepare\<close> committed, whether or
  not its caller saw the reply, a later one for the same workflow and logical key changes nothing
  and returns the same operation, not created, when the fingerprint is the same, and a
  fingerprint conflict naming that operation when it is not.\<close>

definition same_identity :: "PrepareRequest \<Rightarrow> PrepareRequest \<Rightarrow> bool" where
  "same_identity a b \<longleftrightarrow> pr_WorkflowID a = pr_WorkflowID b \<and> pr_Strategy a = pr_Strategy b
     \<and> pr_ExperimentRunID a = pr_ExperimentRunID b \<and> pr_LogicalKey a = pr_LogicalKey b"

definition storable :: "PrepareRequest \<Rightarrow> bool" where
  "storable req \<longleftrightarrow> (\<exists>effect. jsonb (pr_ExpectedEffect req) = Some effect \<and> is_object effect)
     \<and> jsonb (if pr_TraceContext req = [] then ''{}'' else pr_TraceContext req) \<noteq> None"

theorem prepare_replay_spec:
  assumes "reachable s" and "prepare_body e s req = Inr ((op, created), s')" and "snd (Prepare e s req) = s'"
    and "healthy e'" and "fresh_id e' ''workflow'' \<noteq> None" and "fresh_id e' ''operation'' \<noteq> None"
    and "same_identity req req'" and "storable req'"
  shows "if pr_RequestFingerprint req' = pr_RequestFingerprint req
    then \<exists>op'. Prepare e' (run_calls cs s') req' = (Inr (op', False), run_calls cs s') \<and> op_ID op' = op_ID op
    else Prepare e' (run_calls cs s') req' = (Inl (fingerprint_conflict (op_ID op)), run_calls cs s')"
proof -
  let ?t = "run_calls cs s'"
  have reach: "reachable s'"
    using reachable.step [OF assms(1), of e "CallPrepare req"] assms(3) by simp
  have reach': "reachable ?t" by (rule run_calls_reachable [OF reach])
  have ids: "distinct (map o_id (operations s'))" using reachable_inv [OF reach] by (simp add: store_inv_def)
  from prepare_leaves [OF assms(2) ids] obtain w r
    where w: "lookup_by w_external (pr_WorkflowID req) (workflows s') = Some w" "w_strategy w = pr_Strategy req"
        "w_experiment w = pr_ExperimentRunID req" "ValidStrategy (pr_Strategy req)"
      and r: "op_at s' (op_ID op) = Some r" "o_workflow r = w_id w" "o_logical_key r = pr_LogicalKey req"
        "o_fingerprint r = pr_RequestFingerprint req" .
  let ?K = "\<lambda>q. o_id q = op_ID op \<and> o_workflow q = w_id w \<and> o_logical_key q = pr_LogicalKey req
               \<and> o_fingerprint q = pr_RequestFingerprint req"
  have "\<exists>q. op_at ?t (op_ID op) = Some q \<and> ?K q"
  proof (rule run_calls_row [OF reachable_inv [OF reach] r(1)])
    show "?K r" using r op_at_id [OF r(1)] by simp
    show "?K q'" if "?K q" "row_write e c q q'" for e c q q' using row_write_keeps [OF that(2)] that(1) by simp
  qed
  then obtain q where q: "op_at ?t (op_ID op) = Some q" "?K q" by blast
  have nk: "natural_key (w_id w) (pr_LogicalKey req) ?t = Some q"
    using natural_key_eq [OF reach' q(1)] q(2) by simp
  have wf: "ensureWorkflow e' ?t req' = Inr (w_id w, ?t)"
    using assms(4,5,7) w workflow_stays [OF w(1), of cs]
    by (auto simp: ensureWorkflow_def newID_def same_identity_def of_opt_def)
  from assms(6) obtain new where new: "fresh_id e' ''operation'' = Some new" by blast
  from assms(8) obtain effect trace where eff: "jsonb (pr_ExpectedEffect req') = Some effect" "is_object effect"
      "jsonb (if pr_TraceContext req' = [] then ''{}'' else pr_TraceContext req') = Some trace"
    by (auto simp: storable_def)
  have key: "pr_LogicalKey req' = pr_LogicalKey req" using assms(7) by (simp add: same_identity_def)
  have ins: "insert_operation e' new (w_id w) req' ?t = Inr (None, ?t)"
    using assms(4) eff nk key by (simp add: insert_operation_def of_opt_def)
  from reachable_workflow [OF reach' q(1)] obtain w' where j: "joined ?t (op_ID op) = Some (scanOperation w' q)" .
  show ?thesis
    using assms(4) q(2) j
    by (simp add: Prepare_def healthy_tx prepare_body_def wf newID_def new ins nk key of_opt_def
        reads_healthy [OF assms(4)] guardE_def)
qed

theorem prepare_replay_spec_witness:
  "Prepare (env_at ''h'' 9) (run_calls [] (sample_db 1)) (sample_request\<lparr>pr_RequestFingerprint := ''g''\<rparr>)
     = (Inl (fingerprint_conflict ''aoperation''), sample_db 1)"
proof -
  have "\<exists>op. prepare_body (env_at ''a'' 0) (empty_db []) sample_request = Inr ((op, True), sample_db 1)
      \<and> snd (Prepare (env_at ''a'' 0) (empty_db []) sample_request) = sample_db 1
      \<and> op_ID op = ''aoperation''"
    by (simp add: sample_simps exec_simps)
  then obtain op where p: "prepare_body (env_at ''a'' 0) (empty_db []) sample_request = Inr ((op, True), sample_db 1)"
    "snd (Prepare (env_at ''a'' 0) (empty_db []) sample_request) = sample_db 1" "op_ID op = ''aoperation''" by blast
  have "fresh_id (env_at ''h'' 9) ''workflow'' \<noteq> None" "fresh_id (env_at ''h'' 9) ''operation'' \<noteq> None"
    "same_identity sample_request (sample_request\<lparr>pr_RequestFingerprint := ''g''\<rparr>)"
    "storable (sample_request\<lparr>pr_RequestFingerprint := ''g''\<rparr>)"
    by (simp_all add: env_at_def same_identity_def storable_def sample_request_def jsonb_empty)
  from prepare_replay_spec [OF reachable.initial p(1,2) healthy_env_at this, of "[]"] p(3) show ?thesis
    by (simp add: sample_request_def)
qed

end
