(* ===== verification/Store_Leases.thy ===== *)
theory Store_Leases
  imports Store_Replay
begin

text \<open>
  The claim queue and its leases, and what recovery results and manual resolutions do to an
  operation: who may act, for how long, and with which verdict.
\<close>

section \<open>Claims\<close>

lemma claim_all_ids: "claim_all e worker d is s = Inr (cs, s') \<Longrightarrow> map (\<lambda>c. op_ID (cl_Operation c)) cs = is"
proof (induction "is" arbitrary: s cs)
  case (Cons i js)
  from Cons.prems obtain c s1 cs1 where c: "claim_one e worker d i s = Inr (c, s1)"
    and rest: "claim_all e worker d js s1 = Inr (cs1, s')" and cs: "cs = c # cs1"
    by (auto simp: bindE_Inr_iff)
  from c have "op_ID (cl_Operation c) = i" by (rule claim_one_frame) (use op_at_id in auto)
  with Cons.IH [OF rest] cs show ?case by simp
qed simp

lemma claim_body:
  assumes "ClaimRecoveryForWorkflow e s worker limit d grace wname = (Inr cs, s')"
  shows "claim_all e worker d (recovery_work e s limit grace wname) s = Inr (cs, s')"
  using assms by (auto simp: ClaimRecoveryForWorkflow_def run_tx_Inr bindE_Inr_iff)

lemma recovery_work_sorted:
  assumes "distinct (map o_id (operations s))"
  shows "sorted (map (\<lambda>i. claim_key (the (op_at s i))) (recovery_work e s limit grace wname))"
proof -
  let ?l = "take (nat limit) (filter (\<lambda>r. o_id r \<notin> set (locked e))
         (sort_key claim_key (filter (claimable (now e) grace s wname) (operations s))))"
  have "sorted (map claim_key ?l)" by (simp add: sorted_filter sorted_wrt_take flip: take_map)
  moreover have "map claim_key ?l = map (\<lambda>i. claim_key (the (op_at s i))) (map o_id ?l)"
    using lookup_by_distinct [OF assms] by (auto dest!: in_set_takeD)
  ultimately show ?thesis by (simp only: recovery_work_def)
qed

text \<open>C14. A claim takes at most the requested number of operations, each once, each claimable now and
  not locked by another transaction, in the queue's order; each claimed row holds the lease of the
  returned token until the returned time, at the returned version.\<close>

definition claim_valid :: "env \<Rightarrow> db \<Rightarrow> db \<Rightarrow> duration \<Rightarrow> duration \<Rightarrow> string \<Rightarrow> RecoveryClaim \<Rightarrow> bool" where
  "claim_valid e s s' d grace wname c \<longleftrightarrow> (\<exists>r r'. op_at s (op_ID (cl_Operation c)) = Some r
     \<and> claimable (now e) grace s wname r \<and> o_id r \<notin> set (locked e)
     \<and> op_at s' (op_ID (cl_Operation c)) = Some r' \<and> o_state r' = o_state r
     \<and> o_version r' = cl_Version c \<and> op_Version (cl_Operation c) = cl_Version c
     \<and> o_lease_hash r' = Some (claimTokenHash (cl_ClaimToken c))
     \<and> o_lease_expires r' = Some (cl_LeaseExpiresAt c) \<and> cl_LeaseExpiresAt c = now e + d)"

theorem claims_spec:
  assumes "reachable s" and "ClaimRecoveryForWorkflow e s worker limit d grace wname = (Inr cs, s')"
  shows "length cs \<le> nat limit \<and> distinct (map (\<lambda>c. op_ID (cl_Operation c)) cs)
    \<and> sorted (map (\<lambda>c. claim_key (the (op_at s (op_ID (cl_Operation c))))) cs)
    \<and> list_all (claim_valid e s s' d grace wname) cs"
proof -
  note b = claim_body [OF assms(2)]
  have ids: "distinct (map o_id (operations s))"
    using reachable_inv [OF assms(1)] by (simp add: store_inv_def)
  note eq = claim_all_ids [OF b]
  have len: "length (recovery_work e s limit grace wname) \<le> nat limit" by (simp add: recovery_work_def)
  have srt: "sorted (map (\<lambda>i. claim_key (the (op_at s i))) (map (\<lambda>c. op_ID (cl_Operation c)) cs))"
    unfolding eq by (rule recovery_work_sorted [OF ids])
  have "claim_valid e s s' d grace wname c" if c: "c \<in> set cs" for c
  proof -
    let ?i = "op_ID (cl_Operation c)"
    have "?i \<in> set (map (\<lambda>c. op_ID (cl_Operation c)) cs)" using c by simp
    then have mem: "?i \<in> set (recovery_work e s limit grace wname)" by (simp only: eq)
    from recovery_work_rows [OF ids mem] obtain r where r: "op_at s ?i = Some r"
      "claimable (now e) grace s wname r" "?i \<notin> set (locked e)" .
    from claim_all_member [OF b recovery_work_distinct [OF ids] mem] obtain raw c'
      where s': "op_at s' ?i = Some (claim_row e worker (claimTokenHash (b64_encode raw)) d r)"
        and c': "c' \<in> set cs" "op_ID (cl_Operation c') = ?i" "cl_ClaimToken c' = b64_encode raw"
          "cl_Version c' = o_version r + 1" "op_Version (cl_Operation c') = o_version r + 1"
          "cl_LeaseExpiresAt c' = now e + d"
      using r(1) by auto
    have "distinct (map (\<lambda>c. op_ID (cl_Operation c)) cs)" unfolding eq by (rule recovery_work_distinct [OF ids])
    then have "c' = c" using c' c by (auto simp: distinct_map dest: inj_onD)
    then show ?thesis
      using r s' c' op_at_id [OF r(1)] by (simp add: claim_valid_def claim_row_def)
  qed
  then have "list_all (claim_valid e s s' d grace wname) cs" by (simp add: list_all_iff)
  moreover have "length cs \<le> nat limit" using len arg_cong [OF eq, of length] by simp
  moreover have "distinct (map (\<lambda>c. op_ID (cl_Operation c)) cs)"
    unfolding eq by (rule recovery_work_distinct [OF ids])
  moreover have "sorted (map (\<lambda>c. claim_key (the (op_at s (op_ID (cl_Operation c))))) cs)"
    using srt by (simp add: o_def)
  ultimately show ?thesis by blast
qed

lemma sample_claim: "\<exists>cs. ClaimRecoveryForWorkflow (env_at ''c'' 100) (sample_db 2) ''w'' 5 50 10 [] = (Inr cs, sample_db 3)
    \<and> map (\<lambda>c. op_ID (cl_Operation c)) cs = [''aoperation'']"
  by (simp add: sample_simps exec_simps)

theorem claims_spec_witness:
  "\<exists>cs. length cs = 1 \<and> list_all (claim_valid (env_at ''c'' 100) (sample_db 2) (sample_db 3) 50 10 []) cs"
proof -
  obtain cs where
    c: "ClaimRecoveryForWorkflow (env_at ''c'' 100) (sample_db 2) ''w'' 5 50 10 [] = (Inr cs, sample_db 3)"
    and m: "map (\<lambda>c. op_ID (cl_Operation c)) cs = [''aoperation'']"
    using sample_claim by (elim exE conjE)
  have "length cs = 1" using arg_cong [OF m, of length] by simp
  then show ?thesis using claims_spec [OF reachable_sample c] by blast
qed

section \<open>Leases\<close>

definition leased_until :: "op_row \<Rightarrow> string \<Rightarrow> time \<Rightarrow> bool" where
  "leased_until r h x \<longleftrightarrow> o_lease_hash r = Some h \<and> o_lease_expires r = Some x"

fun presents :: "call \<Rightarrow> uuid \<Rightarrow> string option" where
  "presents (CallRenew i token d) j = (if i = j then Some token else None)"
| "presents (CallSubmit i res) j = (if i = j then Some (rr_ClaimToken res) else None)"
| "presents _ j = None"

lemma presents_valid:
  assumes "presents c i = Some token" and "succeeds e c s"
  shows "\<exists>r. op_at s i = Some r \<and> lease_valid e r token"
proof (cases c)
  case (CallRenew j tk d)
  then have "j = i" "tk = token" using assms(1) by (auto split: if_splits)
  with CallRenew have "is_ok (case op_at s i of None \<Rightarrow> Inl lease_lost
      | Some r \<Rightarrow> if o_lease_hash r = Some (claimTokenHash token)
               \<and> (case o_lease_expires r of Some x \<Rightarrow> now e < x | None \<Rightarrow> False)
            then Inr (now e + d, update_op i (renew_row e d) s) else Inl lease_lost)"
    using assms(2) by (simp add: RenewClaim_def run_tx_ok)
  then show ?thesis by (auto simp: lease_valid_def split: option.splits if_splits)
next
  case (CallSubmit j res)
  then have "is_ok (submit_body e s i res)" "rr_ClaimToken res = token"
    using assms by (auto simp: SubmitRecoveryResult_def run_tx_ok split: if_splits sum.splits)
  then obtain op s' where "submit_body e s i res = Inr (op, s')" "rr_ClaimToken res = token"
    by (auto simp: is_ok_iff)
  then show ?thesis by (auto elim: submit_ok)
qed (use assms(1) in auto)

text \<open>C15. Lease exclusion: while a lease is live, a claim by anyone passes the operation over, a
  renewal or a recovery result succeeds only with the token whose hash the lease stores, and no
  dispatch is authorised; once it has expired, its token is worth nothing.\<close>

theorem lease_excludes:
  assumes "reachable s" and "op_at s i = Some r" and "leased_until r h x"
  shows "(now e < x \<longrightarrow>
       (\<forall>worker limit d grace wname cs s'. ClaimRecoveryForWorkflow e s worker limit d grace wname = (Inr cs, s')
          \<longrightarrow> i \<notin> set (map (\<lambda>c. op_ID (cl_Operation c)) cs))
     \<and> (\<forall>c token. presents c i = Some token \<longrightarrow> succeeds e c s \<longrightarrow> claimTokenHash token = h))
   \<and> (x \<le> now e \<longrightarrow> (\<forall>c. presents c i \<noteq> None \<longrightarrow> \<not> succeeds e c s))
   \<and> (\<forall>v. \<not> succeeds e (CallAuthorize i v) s)"
proof -
  have ids: "distinct (map o_id (operations s))"
    using reachable_inv [OF assms(1)] by (simp add: store_inv_def)
  have no_claim: "i \<notin> set (map (\<lambda>c. op_ID (cl_Operation c)) cs)"
    if "now e < x" "ClaimRecoveryForWorkflow e s worker limit d grace wname = (Inr cs, s')"
    for worker limit d grace wname cs s'
  proof
    assume "i \<in> set (map (\<lambda>c. op_ID (cl_Operation c)) cs)"
    then have "i \<in> set (recovery_work e s limit grace wname)"
      using claim_all_ids [OF claim_body [OF that(2)]] by simp
    from recovery_work_rows [OF ids this] have "claimable (now e) grace s wname r" using assms(2) by force
    then show False using assms(3) that(1) by (auto simp: claimable_def leased_until_def)
  qed
  have valid: "lease_valid e r token" if "presents c i = Some token" "succeeds e c s" for c token
    using presents_valid [OF that] assms(2) by simp
  have "\<not> succeeds e (CallAuthorize i v) s" for v
  proof
    assume "succeeds e (CallAuthorize i v) s"
    then have "is_ok (authorize_body e s i v)" by (simp add: AuthorizeDispatch_def run_tx_ok)
    then obtain op s' where "authorize_body e s i v = Inr (op, s')" by (auto simp: is_ok_iff)
    then show False using assms(2,3) by (auto elim!: authorize_ok simp: leased_until_def)
  qed
  with no_claim valid assms(3) show ?thesis
    by (auto simp: lease_valid_def leased_until_def)
qed

theorem lease_excludes_witness: "\<not> succeeds (env_at ''h'' 120) (CallAuthorize ''aoperation'' 3) (sample_db 3)"
proof -
  have "\<exists>r. op_at (sample_db 3) ''aoperation'' = Some r \<and> leased_until r (claimTokenHash (b64_encode ''0'')) 150"
    by (simp add: sample_simps exec_simps leased_until_def)
  then obtain r where "op_at (sample_db 3) ''aoperation'' = Some r"
    "leased_until r (claimTokenHash (b64_encode ''0'')) 150" by (elim exE conjE)
  from lease_excludes [OF reachable_sample this] show ?thesis by blast
qed

end
