(* ===== verification/Store_Recovery.thy ===== *)
theory Store_Recovery
  imports Store_Leases
begin

text \<open>
  Recovery verdicts: the decision table, the answer of \<open>SubmitRecoveryResult\<close> on every branch,
  the liveness of the claim queue, and the one way a resolved operation can be reopened.
\<close>

section \<open>Decisions never collide\<close>

definition decisions_inv :: "db \<Rightarrow> bool" where
  "decisions_inv s \<longleftrightarrow> (\<forall>d \<in> set (decisions s). \<exists>r. op_at s (d_operation d) = Some r \<and> d_version d \<le> o_version r)"

lemma store_exec_decisions:
  "decisions (store_exec e c s) = decisions s
   \<or> (\<exists>d r. decisions (store_exec e c s) = decisions s @ [d]
        \<and> op_at (store_exec e c s) (d_operation d) = Some r \<and> d_version d = o_version r)"
proof (cases rule: store_exec_cases [of e c s])
  case (prepare req x)
  then show ?thesis by (cases x) (auto elim!: prepare_ok simp: store_simps)
next
  case (authorize i v op)
  from authorize(2) show ?thesis by (rule authorize_ok) (simp add: store_simps)
next
  case (confirm i req fp op)
  from confirm_body_ok [OF confirm(3)] show ?thesis
    by (auto elim!: confirm_first_ok simp: store_simps update_op_def)
next
  case (retry i v reason op)
  from retry(2) show ?thesis by (rule retry_ok) (simp add: store_simps)
next
  case (request i v actor reason op)
  from request(2) show ?thesis by (rule request_ok) (simp add: store_simps)
next
  case (claim worker limit d grace wname cs)
  then show ?thesis using claim_all_tables by fastforce
next
  case (submit i res op)
  from submit(2) show ?thesis
  proof (rule submit_ok)
    fix r a v s3
    assume r: "op_at s i = Some r"
      and ops: "operations s3 = update_by o_id i (result_row e v (o_version r + 1)) (operations s)"
      and dec: "if v_decision v = [] then decisions s3 = decisions s
         else \<exists>d. decisions s3 = decisions s @ [d] \<and> d_operation d = i \<and> d_version d = o_version r + 1
            \<and> d_decision d = v_decision v \<and> d_from d = o_state r \<and> d_to d = v_toState v"
      and s': "\<exists>oid. store_exec e c s = append_event e i ''recovery_result'' (Some (o_state r)) (Some (v_toState v))
       (o_version r + 1) ''coordinator'' ''recovery-coordinator'' (v_reason v)
       [(''attempt_id'', DetailText (rr_AttemptID res)), (''observation_id'', DetailText oid)] s3"
    from s' have eq: "decisions (store_exec e c s) = decisions s3" "operations (store_exec e c s) = operations s3"
      by (auto simp: store_simps)
    show ?thesis
      using dec r by (auto simp: eq ops lookup_by_update result_row_def split: if_splits)
  qed
next
  case (manual i m op)
  from manual(2) show ?thesis
    by (rule manual_ok) (simp add: store_simps update_op_def lookup_by_update manual_row_def)
qed (simp_all add: store_simps)

lemma reachable_decisions: "reachable s \<Longrightarrow> decisions_inv s"
proof (induction rule: reachable.induct)
  case (step s e c)
  have "\<exists>r. op_at (store_exec e c s) (d_operation d) = Some r \<and> d_version d \<le> o_version r"
    if d: "d \<in> set (decisions s)" for d
  proof -
    from step.IH d obtain r where "op_at s (d_operation d) = Some r" "d_version d \<le> o_version r"
      by (auto simp: decisions_inv_def)
    with run_calls_version [OF reachable_inv [OF step.hyps], of "d_operation d" r "[(e, c)]"]
    show ?thesis by force
  qed
  with store_exec_decisions [of e c s] show ?case by (auto simp: decisions_inv_def)
qed (simp add: decisions_inv_def empty_db_def)

section \<open>The decision table\<close>

text \<open>C16. The verdict on a prepared or uncertain operation: reconciled exactly on authoritative
  completed evidence; retryable, otherwise, exactly when no dispatch was authorised and the
  evidence is not contradictory, or when the idempotency profile's keyed repeat is authoritatively
  guaranteed; no verdict but a rescheduled verification exactly for a transient failure before the
  fifth attempt, with a delay of 250 ms doubled per attempt, never above two seconds; uncertain in
  every other case.\<close>

definition repeat_guaranteed :: "Operation \<Rightarrow> Observation \<Rightarrow> bool" where
  "repeat_guaranteed op ob \<longleftrightarrow> op_CapabilityProfile op = ''idempotency_only''
     \<and> ob_Mechanism ob = MechanismIdempotentRepeat \<and> ob_Authoritative ob \<and> ob_Outcome ob = OutcomeUnknown"

definition unsent_safe :: "Operation \<Rightarrow> Observation \<Rightarrow> bool" where
  "unsent_safe op ob \<longleftrightarrow> \<not> op_DispatchAuthorized op \<and> ob_Outcome ob \<noteq> OutcomeContradictory"

lemma transient_delay_bounds:
  assumes "1 \<le> n" and "n < 5"
  shows "transient_delay n = 250 * millisecond * 2 ^ nat (n - 1)"
    and "250 * millisecond \<le> transient_delay n" and "transient_delay n \<le> 2 * second"
proof -
  from assms have "n = 1 \<or> n = 2 \<or> n = 3 \<or> n = 4" by arith
  then show "transient_delay n = 250 * millisecond * 2 ^ nat (n - 1)"
    and "250 * millisecond \<le> transient_delay n" and "transient_delay n \<le> 2 * second"
    by (auto simp: transient_delay_def millisecond_def second_def)
qed

theorem verdict_table:
  assumes "op_State op \<in> {StatePrepared, StateUncertain}" and "1 \<le> n" and "v = decide op ob n"
  shows "(v_toState v = StateReconciled \<longleftrightarrow> completed_evidence ob)
    \<and> (v_toState v = StateRetryable \<longleftrightarrow> \<not> completed_evidence ob \<and> (unsent_safe op ob \<or> repeat_guaranteed op ob))
    \<and> (v_decision v = [] \<longleftrightarrow> ob_Outcome ob = OutcomeTransient \<and> n < 5 \<and> op_DispatchAuthorized op)
    \<and> (if v_decision v = []
       then v_toState v = op_State op \<and> v_delay v = 250 * millisecond * 2 ^ nat (n - 1) \<and> v_delay v \<le> 2 * second
       else v_delay v = 0 \<and> v_toState v \<in> {StateReconciled, StateRetryable, StateUncertain})"
  using assms transient_delay_bounds [OF assms(2)]
  by (auto simp: decide_def completed_evidence_def unsent_safe_def repeat_guaranteed_def)

definition sample_operation :: Operation where
  "sample_operation = scanOperation
     \<lparr>w_id = ''aworkflow'', w_external = ''w'', w_strategy = StrategyWatchkeeper, w_experiment = None\<rparr>
     (authorize_row (env_at ''b'' 1)
       (new_op_row (env_at ''a'' 0) ''aoperation'' ''aworkflow'' sample_request (JObj []) (JObj [])))"

theorem verdict_table_witness:
  "v_delay (decide sample_operation (no_evidence\<lparr>ob_Outcome := OutcomeTransient\<rparr>) 2) = 500000000"
proof -
  have "op_State sample_operation \<in> {StatePrepared, StateUncertain}" "op_DispatchAuthorized sample_operation"
    by (simp_all add: sample_operation_def authorize_row_def new_op_row_def)
  with verdict_table [OF this(1) _ refl, of 2 "no_evidence\<lparr>ob_Outcome := OutcomeTransient\<rparr>"]
  show ?thesis by (auto simp: no_evidence_def millisecond_def split: if_splits)
qed

section \<open>SubmitRecoveryResult, branch by branch\<close>

text \<open>The statements of the transaction all work and the identifiers it draws are new.\<close>

definition fresh_result :: "env \<Rightarrow> db \<Rightarrow> bool" where
  "fresh_result e s \<longleftrightarrow>
     (\<exists>oid did. fresh_id e ''observation'' = Some oid \<and> lookup_by b_id oid (observations s) = None
        \<and> fresh_id e ''decision'' = Some did \<and> lookup_by d_id did (decisions s) = None)"

definition attempt_conflict :: "string \<Rightarrow> error" where
  "attempt_conflict message = conflict ''reconciliation_attempt_conflict'' message"

lemma result_row_checks:
  assumes "row_checks r" and "o_state r \<in> {StatePrepared, StateUncertain}"
    and "v = decide (scanOperation w r) ob n"
  shows "row_checks (result_row e v (o_version r + 1) r)"
proof -
  have "v_toState v \<in> {StatePrepared, StateUncertain, StateRetryable, StateReconciled}
    \<and> (v_toState v = StateReconciled \<longrightarrow> v_resolved v)"
    using assms(2) unfolding assms(3) decide_def by auto
  then show ?thesis using assms(1) by (auto simp: row_checks_def result_row_def)
qed

text \<open>The evidence as the database stores it; an empty one is an empty object.\<close>

definition evidence_of :: "RecoveryResult \<Rightarrow> json option" where
  "evidence_of res =
     jsonb (if ob_Evidence (rr_Observation res) = [] then ''{}'' else ob_Evidence (rr_Observation res))"

text \<open>What an accepted result leaves in every table it concerns.\<close>

definition result_stored :: "env \<Rightarrow> uuid \<Rightarrow> RecoveryResult \<Rightarrow> op_row \<Rightarrow> verdict \<Rightarrow> db \<Rightarrow> db \<Rightarrow> bool" where
  "result_stored e i res r v s s' \<longleftrightarrow>
     op_at s' i = Some (result_row e v (o_version r + 1) r)
     \<and> (\<exists>a. attempt_of s' (rr_AttemptID res) i = Some a \<and> a_finished a = Some (now e)
          \<and> a_result a = Some (ob_Outcome (rr_Observation res)))
     \<and> (\<exists>b. observations s' = observations s @ [b] \<and> b_attempt b = rr_AttemptID res
          \<and> b_mechanism b = ob_Mechanism (rr_Observation res) \<and> b_outcome b = ob_Outcome (rr_Observation res))
     \<and> (if v_decision v = [] then decisions s' = decisions s
        else \<exists>d. decisions s' = decisions s @ [d] \<and> d_operation d = i \<and> d_version d = o_version r + 1
          \<and> d_decision d = v_decision v \<and> d_from d = o_state r \<and> d_to d = v_toState v)
     \<and> (\<exists>ev. events_of i s' = events_of i s @ [ev] \<and> ev_EventType ev = ''recovery_result''
          \<and> ev_FromState ev = Some (o_state r) \<and> ev_ToState ev = Some (v_toState v)
          \<and> ev_OperationVersion ev = o_version r + 1 \<and> ev_ReasonCode ev = v_reason v)"

lemma attempt_of_update:
  assumes "\<And>a. a_id (f a) = a_id a \<and> a_operation (f a) = a_operation a"
  shows "find (\<lambda>a. a_id a = x \<and> a_operation a = i) (update_by a_id x f t) =
     map_option f (find (\<lambda>a. a_id a = x \<and> a_operation a = i) t)"
  using assms by (induction t) auto

lemma submit_stored:
  assumes "submit_body e s i res = Inr (op, s')" and "op_at s i = Some r"
    and "lookup_by w_id (o_workflow r) (workflows s) = Some w" and "attempt_of s (rr_AttemptID res) i = Some a"
  shows "result_stored e i res r (decide (scanOperation w r) (rr_Observation res) (a_number a)) s s'"
    and "op_Version op = o_version r + 1"
proof -
  let ?v = "decide (scanOperation w r) (rr_Observation res) (a_number a)"
  from submit_observation [OF assms(1)] obtain b where b: "observations s' = observations s @ [b]"
    "b_attempt b = rr_AttemptID res" "b_mechanism b = ob_Mechanism (rr_Observation res)"
    "b_outcome b = ob_Outcome (rr_Observation res)" by blast
  from assms(1) have "result_stored e i res r ?v s s' \<and> op_Version op = o_version r + 1"
  proof (rule submit_ok)
    fix r' w' a' v s3
    assume r': "op_at s i = Some r'" "lookup_by w_id (o_workflow r') (workflows s) = Some w'"
        "attempt_of s (rr_AttemptID res) i = Some a'"
      and v: "v = decide (scanOperation w' r') (rr_Observation res) (a_number a')"
      and ops: "operations s3 = update_by o_id i (result_row e v (o_version r' + 1)) (operations s)"
      and evs: "events s3 = events s"
      and ats: "attempts s3 = update_by a_id (rr_AttemptID res)
         (\<lambda>a. a\<lparr>a_finished := Some (now e), a_result := Some (ob_Outcome (rr_Observation res))\<rparr>) (attempts s)"
      and dec: "if v_decision v = [] then decisions s3 = decisions s
         else \<exists>d. decisions s3 = decisions s @ [d] \<and> d_operation d = i \<and> d_version d = o_version r' + 1
            \<and> d_decision d = v_decision v \<and> d_from d = o_state r' \<and> d_to d = v_toState v"
      and s': "\<exists>oid. s' = append_event e i ''recovery_result'' (Some (o_state r')) (Some (v_toState v))
        (o_version r' + 1) ''coordinator'' ''recovery-coordinator'' (v_reason v)
        [(''attempt_id'', DetailText (rr_AttemptID res)), (''observation_id'', DetailText oid)] s3"
      and op: "op = scanOperation w' (result_row e v (o_version r' + 1) r')"
    have eq: "r' = r" "v = ?v" using r' assms(2-4) v by auto
    from s' obtain oid where s': "s' = append_event e i ''recovery_result'' (Some (o_state r)) (Some (v_toState ?v))
        (o_version r + 1) ''coordinator'' ''recovery-coordinator'' (v_reason ?v)
        [(''attempt_id'', DetailText (rr_AttemptID res)), (''observation_id'', DetailText oid)] s3"
      unfolding eq by blast
    have "op_at s' i = Some (result_row e ?v (o_version r + 1) r)"
      using assms(2) by (simp add: s' store_simps ops eq lookup_by_update result_row_def)
    moreover have "attempt_of s' (rr_AttemptID res) i =
        Some (a\<lparr>a_finished := Some (now e), a_result := Some (ob_Outcome (rr_Observation res))\<rparr>)"
      using assms(4) by (simp add: s' attempt_of_def store_simps ats attempt_of_update)
    moreover have "decisions s' = decisions s3" by (simp add: s' store_simps)
    moreover have "\<exists>ev. events_of i s' = events_of i s @ [ev] \<and> ev_EventType ev = ''recovery_result''
          \<and> ev_FromState ev = Some (o_state r) \<and> ev_ToState ev = Some (v_toState ?v)
          \<and> ev_OperationVersion ev = o_version r + 1 \<and> ev_ReasonCode ev = v_reason ?v"
      by (simp add: s' store_simps events_of_cong [OF evs])
    moreover have "op_Version op = o_version r + 1" by (simp add: op eq result_row_def)
    ultimately show ?thesis using b dec [unfolded eq] unfolding result_stored_def by simp
  qed
  then show "result_stored e i res r ?v s s'" and "op_Version op = o_version r + 1" by blast+
qed

text \<open>A result under a valid lease, at the current version, for an open attempt: accepted.\<close>

lemma submit_succeeds:
  assumes "reachable s" and "healthy e" and "op_at s i = Some r" and "evidence_of res = Some ev"
    and "fresh_result e s" and "lease_valid e r (rr_ClaimToken res)" and "o_version r = rr_ExpectedVersion res"
    and "attempt_of s (rr_AttemptID res) i = Some a" and "a_finished a = None"
    and "lookup_by w_id (o_workflow r) (workflows s) = Some w"
    and "row_checks (result_row e (decide (scanOperation w r) (rr_Observation res) (a_number a)) (o_version r + 1) r)"
  shows "\<exists>op s'. submit_body e s i res = Inr (op, s')"
proof -
  have j: "joined s i = Some (scanOperation w r)"
    using assms(3,10) reachable_workflow [OF assms(1,3)] by auto
  from assms(5) obtain oid did where id: "fresh_id e ''observation'' = Some oid"
    "lookup_by b_id oid (observations s) = None" "fresh_id e ''decision'' = Some did"
    "lookup_by d_id did (decisions s) = None" by (auto simp: fresh_result_def)
  have uniq: "\<forall>x \<in> set (decisions s). d_operation x = i \<longrightarrow> d_version x \<noteq> o_version r + 1"
    using reachable_decisions [OF assms(1)] assms(3) by (force simp: decisions_inv_def)
  show ?thesis
    using assms id uniq j
    by (simp add: submit_body_def submit_guards_def evidence_of_def reads_healthy [OF assms(2)] Let_def bindE_Inr_iff
        store_decision_def finish_attempt_def store_simps update_op_def lookup_by_update result_row_def)
qed

lemma submit_accepted:
  assumes "reachable s" and "healthy e" and "op_at s i = Some r" and "o_state r \<in> {StatePrepared, StateUncertain}"
    and "evidence_of res \<noteq> None"
    and "fresh_result e s" and "lease_valid e r (rr_ClaimToken res)" and "o_version r = rr_ExpectedVersion res"
    and "attempt_of s (rr_AttemptID res) i = Some a" and "a_finished a = None"
    and "lookup_by w_id (o_workflow r) (workflows s) = Some w"
  shows "\<exists>op s'. submit_body e s i res = Inr (op, s')
    \<and> op_at s' i = Some (result_row e (decide (scanOperation w r) (rr_Observation res) (a_number a)) (o_version r + 1) r)
    \<and> op_Version op = o_version r + 1"
proof -
  obtain ev where ev: "evidence_of res = Some ev" using assms(5) by blast
  from submit_succeeds [OF assms(1-3) ev assms(6-11) result_row_checks [OF reachable_checks [OF assms(1,3)] assms(4) refl]]
  obtain op s' where ok: "submit_body e s i res = Inr (op, s')" by blast
  from submit_stored [OF ok assms(3,11,9)] ok show ?thesis by (auto simp: result_stored_def)
qed

text \<open>
  The one update the schema refuses: a transient failure would reschedule a row that an operator
  reconciled while its lease was held, and clear \<open>resolved_at\<close>.
\<close>

definition reschedules_reconciled :: "op_row \<Rightarrow> Observation \<Rightarrow> int \<Rightarrow> bool" where
  "reschedules_reconciled r ob n \<longleftrightarrow>
     o_state r = StateReconciled \<and> o_authorized r \<and> ob_Outcome ob = OutcomeTransient \<and> n < 5"

lemma leased_not_confirmed:
  assumes "reachable s" and "op_at s i = Some r" and "lease_valid e r token"
  shows "o_state r \<noteq> StateConfirmed"
  using life_run_confirmed [OF reachable_run [OF assms(1,2)]] assms(3) by (auto simp: life_of_def lease_valid_def)

lemma result_row_checks_iff:
  assumes "row_checks r" and "o_state r \<noteq> StateConfirmed"
  shows "row_checks (result_row e (decide (scanOperation w r) ob n) (o_version r + 1) r)
    \<longleftrightarrow> \<not> reschedules_reconciled r ob n"
  using assms by (auto simp: decide_def row_checks_def result_row_def reschedules_reconciled_def)

text \<open>C17. \<open>SubmitRecoveryResult\<close> answers as specified on every branch, for any operation in any state:
  an unknown mechanism or outcome is \<open>invalid_observation\<close>, an unknown operation is not found, a
  missing, foreign or expired lease is \<open>lease_lost\<close>, a stale version a version conflict, an unknown or
  finished attempt an attempt conflict, and evidence that is not JSON, or a transient failure reported
  for an operation reconciled meanwhile, an unavailable database (the statement fails); each
  without effect. Every other result is accepted: the verdict of the decision table is stored in the
  row, the lease is released and the version advances, the attempt is finished, the observation, the
  decision (if the verdict is one) and the audit event are appended.\<close>

theorem submit_result_spec:
  assumes "reachable s" and "healthy e" and "fresh_result e s"
  shows "case validObservation (rr_Observation res) of
      Inl err \<Rightarrow> SubmitRecoveryResult e s i res = (Inl (validation ''invalid_observation'' (error_string err)), s)
    | Inr _ \<Rightarrow> (case op_at s i of
        None \<Rightarrow> SubmitRecoveryResult e s i res = (Inl not_found, s)
      | Some r \<Rightarrow>
          if \<not> lease_valid e r (rr_ClaimToken res) then SubmitRecoveryResult e s i res = (Inl lease_lost, s)
          else if o_version r \<noteq> rr_ExpectedVersion res then SubmitRecoveryResult e s i res = (Inl version_conflict, s)
          else (case attempt_of s (rr_AttemptID res) i of
              None \<Rightarrow> SubmitRecoveryResult e s i res =
                (Inl (attempt_conflict ''attempt does not belong to this operation''), s)
            | Some a \<Rightarrow>
                if a_finished a \<noteq> None then SubmitRecoveryResult e s i res =
                  (Inl (attempt_conflict ''attempt is already finished''), s)
                else if evidence_of res = None then SubmitRecoveryResult e s i res =
                  (Inl (unavailable ''store recovery observation''), s)
                else if reschedules_reconciled r (rr_Observation res) (a_number a) then
                  SubmitRecoveryResult e s i res = (Inl (unavailable ''apply recovery result''), s)
                else \<exists>op s' w. SubmitRecoveryResult e s i res = (Inr op, s') \<and> op_Version op = o_version r + 1
                  \<and> lookup_by w_id (o_workflow r) (workflows s) = Some w
                  \<and> result_stored e i res r (decide (scanOperation w r) (rr_Observation res) (a_number a)) s s'))"
proof (cases "validObservation (rr_Observation res)")
  case (Inl err)
  then show ?thesis by (simp add: SubmitRecoveryResult_def del: validObservation.simps)
next
  case (Inr u)
  have sub: "SubmitRecoveryResult e s i res =
      run_tx e ''begin recovery result'' ''commit recovery result'' s (submit_body e s i res)"
    unfolding SubmitRecoveryResult_def Inr by simp
  show ?thesis
  proof (cases "op_at s i")
    case None
    then show ?thesis unfolding Inr
      by (simp add: sub healthy_tx [OF assms(2)] submit_body_def submit_guards_def reads_healthy [OF assms(2)] joined_def)
  next
    case (Some r)
    note r = Some
    from reachable_workflow [OF assms(1) r] obtain w
      where w: "lookup_by w_id (o_workflow r) (workflows s) = Some w" and j: "joined s i = Some (scanOperation w r)" .
    note answer = sub healthy_tx [OF assms(2)] submit_body_def submit_guards_def reads_healthy [OF assms(2)] j r
    show ?thesis
    proof (cases "lease_valid e r (rr_ClaimToken res) \<and> o_version r = rr_ExpectedVersion res
        \<and> (\<exists>a. attempt_of s (rr_AttemptID res) i = Some a \<and> a_finished a = None)")
      case False
      then show ?thesis using assms(2) unfolding Inr
        by (auto simp: answer attempt_conflict_def guardE_def split: option.split)
    next
      case True
      then obtain a where ok: "lease_valid e r (rr_ClaimToken res)" "o_version r = rr_ExpectedVersion res"
        "attempt_of s (rr_AttemptID res) i = Some a" "a_finished a = None" by blast
      let ?v = "decide (scanOperation w r) (rr_Observation res) (a_number a)"
      from assms(3) obtain oid where oid: "fresh_id e ''observation'' = Some oid" "lookup_by b_id oid (observations s) = None"
        by (auto simp: fresh_result_def)
      have chk: "row_checks (result_row e ?v (o_version r + 1) r) \<longleftrightarrow> \<not> reschedules_reconciled r (rr_Observation res) (a_number a)"
        using result_row_checks_iff reachable_checks [OF assms(1) r] leased_not_confirmed [OF assms(1) r ok(1)] by blast
      show ?thesis
      proof (cases "evidence_of res")
        case None
        then show ?thesis using ok assms(2) oid unfolding Inr evidence_of_def by (simp add: answer Let_def newID_def)
      next
        case (Some ev)
        show ?thesis
        proof (cases "reschedules_reconciled r (rr_Observation res) (a_number a)")
          case True
          then show ?thesis using ok assms(2) oid Some chk unfolding Inr evidence_of_def
            by (simp add: answer Let_def newID_def insert_observation_def)
        next
          case False
          from submit_succeeds [OF assms(1,2) r Some assms(3) ok w] chk False obtain op s'
            where body: "submit_body e s i res = Inr (op, s')" by blast
          note stored = submit_stored [OF body r w ok(3)]
          show ?thesis using ok Some False body stored w unfolding Inr
            by (auto simp: r sub healthy_tx [OF assms(2)])
        qed
      qed
    qed
  qed
qed

theorem submit_result_spec_witness:
  "\<exists>op s'. SubmitRecoveryResult (env_at ''d'' 110) (sample_db 3) ''aoperation'' sample_result = (Inr op, s')
    \<and> op_Version op = 4 \<and> length (decisions s') = 1"
proof -
  let ?r = "claim_row (env_at ''c'' 100) ''w'' (claimTokenHash (b64_encode ''0'')) 50
     (authorize_row (env_at ''b'' 1) (new_op_row (env_at ''a'' 0) ''aoperation'' ''aworkflow'' sample_request (JObj []) (JObj [])))"
  have r: "op_at (sample_db 3) ''aoperation'' = Some ?r" and d: "decisions (sample_db 3) = []"
    and a: "attempt_of (sample_db 3) (rr_AttemptID sample_result) ''aoperation'' =
      Some \<lparr>a_id = ''cattempt aoperation'', a_operation = ''aoperation'', a_number = 1, a_owner = ''w'',
            a_started = 100, a_finished = None, a_result = None\<rparr>"
    and f: "fresh_result (env_at ''d'' 110) (sample_db 3)"
    by (simp_all add: sample_simps exec_simps fresh_result_def)
  have g: "validObservation (rr_Observation sample_result) = Inr ()" "evidence_of sample_result \<noteq> None"
    "lease_valid (env_at ''d'' 110) ?r (rr_ClaimToken sample_result)" "o_version ?r = 3" "rr_ExpectedVersion sample_result = 3"
    "\<not> reschedules_reconciled ?r (rr_Observation sample_result) 1"
    by (simp_all add: sample_result_def no_evidence_def jsonb_empty claim_row_def authorize_row_def evidence_of_def
        new_op_row_def lease_valid_def env_at_def reschedules_reconciled_def)
  have v: "v_decision (decide (scanOperation w ?r) (rr_Observation sample_result) 1) \<noteq> []" for w
    by (simp add: decide_def sample_result_def no_evidence_def claim_row_def authorize_row_def)
  from submit_result_spec [OF reachable_sample healthy_env_at f, where i = "''aoperation''" and res = sample_result] g
  obtain op s' w where "SubmitRecoveryResult (env_at ''d'' 110) (sample_db 3) ''aoperation'' sample_result = (Inr op, s')"
    "op_Version op = 4" "result_stored (env_at ''d'' 110) ''aoperation'' sample_result ?r
       (decide (scanOperation w ?r) (rr_Observation sample_result) 1) (sample_db 3) s'"
    by (auto simp: r a)
  with v [of w] d show ?thesis by (auto simp: result_stored_def)
qed

section \<open>Progress of the queue\<close>

text \<open>The identifiers a claiming transaction draws are new and distinct.\<close>

definition fresh_claims :: "env \<Rightarrow> db \<Rightarrow> (uuid \<Rightarrow> uuid) \<Rightarrow> bool" where
  "fresh_claims e s ids \<longleftrightarrow> inj ids \<and> (\<forall>i. entropy e i \<noteq> None \<and> fresh_id e (''attempt '' @ i) = Some (ids i)
     \<and> lookup_by a_id (ids i) (attempts s) = None)"

lemma claim_one_succeeds:
  assumes "healthy e" and "entropy e i = Some raw" and "fresh_id e (''attempt '' @ i) = Some aid"
    and "lookup_by a_id aid (attempts s) = None" and "op_at s i = Some r"
    and "lookup_by w_id (o_workflow r) (workflows s) \<noteq> None"
  shows "\<exists>c s'. claim_one e worker d i s = Inr (c, s')"
proof -
  have uniq: "\<forall>b \<in> set (attempts s). a_operation b = i \<longrightarrow> a_number b \<noteq> next_attempt_number s i"
    using next_attempt_bounds(2) by force
  show ?thesis
    using assms uniq
    by (auto simp: claim_one_def randomClaimToken_def Let_def bindE_Inr_iff store_simps
        reads_healthy update_op_def lookup_by_update claim_row_def)
qed

lemma claim_all_succeeds:
  "healthy e \<Longrightarrow> distinct is \<Longrightarrow>
   \<forall>i \<in> set is. entropy e i \<noteq> None \<and> fresh_id e (''attempt '' @ i) = Some (ids i)
      \<and> lookup_by a_id (ids i) (attempts s) = None
      \<and> (\<exists>r. op_at s i = Some r \<and> lookup_by w_id (o_workflow r) (workflows s) \<noteq> None) \<Longrightarrow>
   inj ids \<Longrightarrow> \<exists>cs s'. claim_all e worker d is s = Inr (cs, s')"
proof (induction "is" arbitrary: s)
  case (Cons i js)
  from Cons.prems(3) obtain raw r where i: "entropy e i = Some raw" "fresh_id e (''attempt '' @ i) = Some (ids i)"
    "lookup_by a_id (ids i) (attempts s) = None" "op_at s i = Some r"
    "lookup_by w_id (o_workflow r) (workflows s) \<noteq> None" by auto
  from claim_one_succeeds [OF Cons.prems(1) i] obtain c s1 where c: "claim_one e worker d i s = Inr (c, s1)" by blast
  have s1: "workflows s1 = workflows s" "j \<noteq> i \<Longrightarrow> op_at s1 j = op_at s j"
    "\<exists>a. attempts s1 = attempts s @ [a] \<and> a_id a = ids i" for j
    using c i(2) by (auto elim!: claim_one_ok simp: store_simps claim_row_def)
  have "\<exists>cs s'. claim_all e worker d js s1 = Inr (cs, s')"
  proof (rule Cons.IH)
    show "\<forall>j \<in> set js. entropy e j \<noteq> None \<and> fresh_id e (''attempt '' @ j) = Some (ids j)
      \<and> lookup_by a_id (ids j) (attempts s1) = None
      \<and> (\<exists>r. op_at s1 j = Some r \<and> lookup_by w_id (o_workflow r) (workflows s1) \<noteq> None)"
    proof
      fix j assume j: "j \<in> set js"
      then have "j \<noteq> i" using Cons.prems(2) by auto
      then have "ids j \<noteq> ids i" using Cons.prems(4) by (auto dest: injD)
      with j Cons.prems(3) s1(1,3) s1(2) [OF \<open>j \<noteq> i\<close>]
      show "entropy e j \<noteq> None \<and> fresh_id e (''attempt '' @ j) = Some (ids j)
      \<and> lookup_by a_id (ids j) (attempts s1) = None
      \<and> (\<exists>r. op_at s1 j = Some r \<and> lookup_by w_id (o_workflow r) (workflows s1) \<noteq> None)"
        by (auto simp: lookup_by_append)
    qed
  qed (use Cons.prems in auto)
  with c show ?case by auto
qed simp

text \<open>A healthy claim with fresh identifiers claims the whole batch; an abandoned operation is in it.\<close>

definition abandoned :: "time \<Rightarrow> duration \<Rightarrow> db \<Rightarrow> op_row \<Rightarrow> bool" where
  "abandoned t grace s r \<longleftrightarrow> o_state r = StatePrepared \<and> o_prepared_at r + grace \<le> t
     \<and> (o_next_reconcile r = None \<or> due t (o_next_reconcile r))
     \<and> (o_lease_expires r = None \<or> due t (o_lease_expires r))
     \<and> (\<exists>w. lookup_by w_id (o_workflow r) (workflows s) = Some w \<and> w_strategy w = StrategyWatchkeeper)"

lemma claim_succeeds:
  assumes "reachable s" and "healthy e" and "fresh_claims e s ids"
  obtains cs s' where "ClaimRecovery e s worker limit d grace = (Inr cs, s')"
    and "claim_all e worker d (recovery_work e s limit grace []) s = Inr (cs, s')"
proof -
  let ?work = "recovery_work e s limit grace []"
  have ids: "distinct (map o_id (operations s))"
    using reachable_inv [OF assms(1)] by (simp add: store_inv_def)
  have rows: "\<exists>r. op_at s j = Some r \<and> lookup_by w_id (o_workflow r) (workflows s) \<noteq> None"
    if "j \<in> set ?work" for j
    using recovery_work_rows [OF ids that] reachable_workflow [OF assms(1)] by (metis option.distinct(1))
  have "\<exists>cs s'. claim_all e worker d ?work s = Inr (cs, s')"
    using assms(3) rows
    by (intro claim_all_succeeds [OF assms(2) recovery_work_distinct [OF ids]])
      (auto simp: fresh_claims_def)
  then obtain cs s' where "claim_all e worker d ?work s = Inr (cs, s')" by blast
  with that show thesis using assms(2)
    by (simp add: ClaimRecovery_def ClaimRecoveryForWorkflow_def healthy_tx)
qed

lemma abandoned_work:
  assumes "locked e = []" and "op_at s i = Some r" and "abandoned (now e) grace s r"
    and "length (operations s) \<le> nat limit"
  shows "i \<in> set (recovery_work e s limit grace [])"
proof -
  have mem: "r \<in> set (operations s)" and id: "o_id r = i"
    using assms(2) lookup_by_Some [of o_id i "operations s" r] by auto
  have "\<exists>w \<in> set (workflows s). w_id w = o_workflow r \<and> w_strategy w = StrategyWatchkeeper"
    using assms(3) lookup_by_Some unfolding abandoned_def by metis
  then have "claimable (now e) grace s [] r"
    using assms(3) by (auto simp: claimable_def abandoned_def)
  moreover have "length (filter (claimable (now e) grace s []) (operations s)) \<le> nat limit"
    using assms(4) length_filter_le le_trans by metis
  ultimately show ?thesis using mem id by (auto simp: recovery_work_def assms(1))
qed

text \<open>C18. Abandoned operations are recovered: in any reachable database a prepared operation of a
  watchkeeper workflow whose grace period has passed, whose last lease (if any) has expired and
  which waits for no later reconciliation time is returned by a claim whose limit covers the
  queue and which meets no locked rows.\<close>

theorem abandoned_is_claimed:
  assumes "reachable s" and "healthy e" and "fresh_claims e s ids" and "locked e = []"
    and "op_at s i = Some r" and "abandoned (now e) grace s r" and "length (operations s) \<le> nat limit"
  shows "\<exists>cs s'. ClaimRecovery e s worker limit d grace = (Inr cs, s')
    \<and> i \<in> set (map (\<lambda>c. op_ID (cl_Operation c)) cs)"
proof -
  obtain cs s' where claim: "ClaimRecovery e s worker limit d grace = (Inr cs, s')"
    and all: "claim_all e worker d (recovery_work e s limit grace []) s = Inr (cs, s')"
    using claim_succeeds [OF assms(1-3)] .
  have "i \<in> set (map (\<lambda>c. op_ID (cl_Operation c)) cs)"
    unfolding claim_all_ids [OF all] by (rule abandoned_work [OF assms(4-7)])
  with claim show ?thesis by blast
qed

theorem abandoned_is_claimed_witness:
  "\<exists>cs s'. ClaimRecovery (env_at ''c'' 100) (sample_db 2) ''w'' 5 50 10 = (Inr cs, s')
    \<and> ''aoperation'' \<in> set (map (\<lambda>c. op_ID (cl_Operation c)) cs)"
proof -
  let ?r = "authorize_row (env_at ''b'' 1) (new_op_row (env_at ''a'' 0) ''aoperation'' ''aworkflow'' sample_request (JObj []) (JObj []))"
  have r: "op_at (sample_db 2) ''aoperation'' = Some ?r" and a: "abandoned (now (env_at ''c'' 100)) 10 (sample_db 2) ?r"
    and n: "length (operations (sample_db 2)) \<le> nat 5" and t: "attempts (sample_db 2) = []"
    by (simp_all add: sample_simps exec_simps abandoned_def)
  have f: "fresh_claims (env_at ''c'' 100) (sample_db 2) (\<lambda>i. ''cattempt '' @ i)"
    by (simp add: fresh_claims_def env_at_def inj_def t)
  have l: "locked (env_at ''c'' 100) = []" by (simp add: env_at_def)
  show ?thesis by (rule abandoned_is_claimed [OF reachable_sample healthy_env_at f l r a n])
qed

section \<open>Reopening a resolved operation\<close>

text \<open>C19. The transition table is not enforced on recovery results. A manual resolution leaves the
  lease of the uncertain operation in place, so its holder can submit a result at the new version:
  this history takes an operation from \<open>reconciled\<close> back to \<open>uncertain\<close>, a transition
  \<open>ValidateTransition\<close> rejects.\<close>

definition reopen_calls :: "(env \<times> call) list" where
  "reopen_calls = take 4 sample_calls @
    [(env_at ''e'' 200, CallRequest ''aoperation'' 4 ''op'' ''look again''),
     (env_at ''f'' 210, CallClaim ''w'' 5 50 10 []),
     (env_at ''g'' 220, CallManual ''aoperation'' (sample_resolution\<lparr>mr_ExpectedVersion := 6, mr_Outcome := ''completed''\<rparr>))]"

definition late_result :: RecoveryResult where
  "late_result = sample_result\<lparr>rr_ExpectedVersion := 7, rr_AttemptID := ''fattempt aoperation''\<rparr>"

theorem resolved_can_reopen:
  "reachable (run_calls reopen_calls (empty_db []))
   \<and> map_option o_state (op_at (run_calls reopen_calls (empty_db [])) ''aoperation'') = Some StateReconciled
   \<and> succeeds (env_at ''h'' 230) (CallSubmit ''aoperation'' late_result) (run_calls reopen_calls (empty_db []))
   \<and> map_option o_state (op_at (store_exec (env_at ''h'' 230) (CallSubmit ''aoperation'' late_result)
        (run_calls reopen_calls (empty_db []))) ''aoperation'') = Some StateUncertain
   \<and> \<not> is_ok (ValidateTransition StateReconciled StateUncertain)"
proof -
  let ?s = "run_calls reopen_calls (empty_db [])"
  have "map_option o_state (op_at ?s ''aoperation'') = Some StateReconciled"
    by (simp add: reopen_calls_def sample_simps exec_simps)
  moreover have "succeeds (env_at ''h'' 230) (CallSubmit ''aoperation'' late_result) ?s"
    by (simp add: reopen_calls_def late_result_def sample_simps exec_simps)
  moreover have "map_option o_state (op_at (store_exec (env_at ''h'' 230) (CallSubmit ''aoperation'' late_result) ?s)
      ''aoperation'') = Some StateUncertain"
    by (simp add: reopen_calls_def late_result_def sample_simps exec_simps)
  moreover have "\<not> is_ok (ValidateTransition StateReconciled StateUncertain)"
    by (simp add: ValidateTransition_def CanTransition_def)
  ultimately show ?thesis by (intro conjI run_calls_reachable reachable.initial)
qed

end
