(* ===== verification/Time.thy ===== *)
theory Time
  imports Domain
begin

text \<open>
  The calendar part of Go's \<open>time\<close> package the program uses: RFC 3339 formatting with up to
  nine fractional digits (\<open>time.RFC3339Nano\<close>, also \<open>Time.MarshalJSON\<close>) in UTC, and parsing.
  A time is the number of nanoseconds since 1970-01-01T00:00:00Z.
\<close>

section \<open>Civil dates\<close>

text \<open>Days since 1970-01-01 of a proleptic Gregorian date, and back; the year starts in March.\<close>

definition days_from_civil :: "int \<Rightarrow> int \<Rightarrow> int \<Rightarrow> int" where
  "days_from_civil y m d =
     (let y' = (if m \<le> 2 then y - 1 else y);
          era = y' div 400;
          yoe = y' mod 400;
          mp = (if m > 2 then m - 3 else m + 9);
          doy = (153 * mp + 2) div 5 + d - 1;
          doe = yoe * 365 + yoe div 4 - yoe div 100 + doy
      in era * 146097 + doe - 719468)"

definition civil_from_days :: "int \<Rightarrow> int \<times> int \<times> int" where
  "civil_from_days z =
     (let z' = z + 719468;
          era = z' div 146097;
          doe = z' mod 146097;
          yoe = (doe - doe div 1460 + doe div 36524 - doe div 146096) div 365;
          doy = doe - (365 * yoe + yoe div 4 - yoe div 100);
          mp = (5 * doy + 2) div 153;
          d = doy - (153 * mp + 2) div 5 + 1;
          m = (if mp < 10 then mp + 3 else mp - 9)
      in (yoe + era * 400 + (if m \<le> 2 then 1 else 0), m, d))"

definition is_leap :: "int \<Rightarrow> bool" where
  "is_leap y \<longleftrightarrow> y mod 4 = 0 \<and> (y mod 100 \<noteq> 0 \<or> y mod 400 = 0)"

definition days_in :: "int \<Rightarrow> int \<Rightarrow> int" where
  "days_in y m = (if m = 2 then (if is_leap y then 29 else 28)
     else if m \<in> {4, 6, 9, 11} then 30 else 31)"

section \<open>Formatting\<close>

text \<open>A number in decimal with leading zeros up to a width.\<close>

fun pad :: "nat \<Rightarrow> int \<Rightarrow> string" where
  "pad 0 n = []"
| "pad (Suc w) n = pad w (n div 10) @ [char_of (48 + nat (n mod 10))]"

definition strip_zeros :: "string \<Rightarrow> string" where
  "strip_zeros s = rev (dropWhile (\<lambda>c. c = CHR ''0'') (rev s))"

definition day_ns :: int where
  "day_ns = 86400 * second"

definition format_time :: "time \<Rightarrow> string" where
  "format_time t =
     (let (y, m, d) = civil_from_days (t div day_ns);
          r = t mod day_ns;
          ns = r mod second;
          s = r div second;
          fraction = strip_zeros (pad 9 ns)
      in pad 4 y @ ''-'' @ pad 2 m @ ''-'' @ pad 2 d @ ''T''
         @ pad 2 (s div 3600) @ '':'' @ pad 2 (s div 60 mod 60) @ '':'' @ pad 2 (s mod 60)
         @ (if fraction = [] then [] else ''.'' @ fraction) @ ''Z'')"

section \<open>Parsing\<close>

definition read_int :: "string \<Rightarrow> int option" where
  "read_int ds = (if ds \<noteq> [] \<and> list_all is_digit ds then Some (int (nat_of_digits ds)) else None)"

text \<open>The fraction, its digits beyond nanoseconds dropped, and what follows.\<close>

definition read_fraction :: "string \<Rightarrow> (int \<times> string) option" where
  "read_fraction s =
     (case s of
        c # r \<Rightarrow>
          if c = CHR ''.'' then
            (let ds = takeWhile is_digit r; ns = take 9 ds
             in if ds = [] then None
                else Some (int (nat_of_digits ns) * 10 ^ (9 - length ns), dropWhile is_digit r))
          else Some (0, s)
      | [] \<Rightarrow> None)"

definition read_zone :: "string \<Rightarrow> int option" where
  "read_zone s =
     (if s = ''Z'' then Some 0
      else (case s of
         [sg, a, b, c, x, y] \<Rightarrow>
           if (sg = CHR ''+'' \<or> sg = CHR ''-'') \<and> c = CHR '':'' then
             (case (read_int [a, b], read_int [x, y]) of
                (Some h, Some mi) \<Rightarrow>
                  if h \<le> 23 \<and> mi \<le> 59
                  then Some ((if sg = CHR ''-'' then -1 else 1) * (h * 3600 + mi * 60)) else None
              | _ \<Rightarrow> None)
           else None
       | _ \<Rightarrow> None))"

definition parse_time :: "string \<Rightarrow> time option" where
  "parse_time s =
     (case (read_int (take 4 s), read_int (take 2 (drop 5 s)), read_int (take 2 (drop 8 s)),
            read_int (take 2 (drop 11 s)), read_int (take 2 (drop 14 s)), read_int (take 2 (drop 17 s)),
            read_fraction (drop 19 s)) of
        (Some y, Some m, Some d, Some h, Some mi, Some sec, Some (ns, z)) \<Rightarrow>
          if length s \<ge> 20 \<and> s ! 4 = CHR ''-'' \<and> s ! 7 = CHR ''-'' \<and> s ! 10 = CHR ''T''
             \<and> s ! 13 = CHR '':'' \<and> s ! 16 = CHR '':'' \<and> 1 \<le> m \<and> m \<le> 12 \<and> 1 \<le> d \<and> d \<le> days_in y m
             \<and> h \<le> 23 \<and> mi \<le> 59 \<and> sec \<le> 59
          then map_option (\<lambda>off. (days_from_civil y m d * 86400 + h * 3600 + mi * 60 + sec - off) * second + ns)
                 (read_zone z)
          else None
      | _ \<Rightarrow> None)"

text \<open>The zero \<open>time.Time\<close>, 0001-01-01T00:00:00Z.\<close>

definition zero_time :: time where
  "zero_time = - 62135596800 * second"

text \<open>A \<open>time.Time\<close> member of a JSON document.\<close>

fun as_time :: "json \<Rightarrow> time option" where
  "as_time (JStr s) = parse_time s"
| "as_time _ = None"

end
