(* ===== verification/Http.thy ===== *)
theory Http
  imports Time
begin

text \<open>
  What both HTTP servers share: requests and responses, bearer authentication, and the decoding
  of one JSON body into a struct (\<open>DisallowUnknownFields\<close>, one megabyte, exactly one value). A
  response carries the JSON tree the handler encodes. Routing and headers other than those the
  handlers read belong to net/http and chi.
\<close>

section \<open>Requests and responses\<close>

record request =
  rq_param :: string                        \<comment> \<open>the \<open>operationID\<close> of the route\<close>
  rq_query :: "(string \<times> string) list"
  rq_headers :: "(string \<times> string) list"
  rq_body :: string

record 'a response =
  rs_status :: int
  rs_body :: 'a

definition header :: "request \<Rightarrow> string \<Rightarrow> string" where
  "header rq name = (case map_of (rq_headers rq) name of Some v \<Rightarrow> v | None \<Rightarrow> [])"

definition query :: "request \<Rightarrow> string \<Rightarrow> string" where
  "query rq name = (case map_of (rq_query rq) name of Some v \<Rightarrow> v | None \<Rightarrow> [])"

definition trim_prefix :: "string \<Rightarrow> string \<Rightarrow> string" where
  "trim_prefix s prefix = (if take (length prefix) s = prefix then drop (length prefix) s else s)"

text \<open>\<open>subtle.ConstantTimeCompare\<close> of equal lengths compares contents.\<close>

definition bearer_ok :: "string \<Rightarrow> request \<Rightarrow> bool" where
  "bearer_ok expected rq =
     (let provided = trim_prefix (header rq ''Authorization'') ''Bearer ''
      in provided \<noteq> [] \<and> length provided = length expected \<and> provided = expected)"

section \<open>Raw members\<close>

text \<open>A value at the front of the input with the text it was written as.\<close>

definition raw_value :: "string \<Rightarrow> (string \<times> json \<times> string) option" where
  "raw_value s =
     (case decode_one s of
        None \<Rightarrow> None
      | Some (v, rest) \<Rightarrow>
          let t = skip_ws s in Some (take (length t - length rest) t, v, rest))"

type_synonym member = "string \<times> string \<times> json"

fun raw_members :: "nat \<Rightarrow> string \<Rightarrow> (member list \<times> string) option" where
  "raw_members 0 s = None"
| "raw_members (Suc n) s =
     (case skip_ws s of
        q # r \<Rightarrow>
          if q \<noteq> CHR 0x22 then None
          else (case scan_string r of
             None \<Rightarrow> None
           | Some (key, t) \<Rightarrow>
               (case skip_ws t of
                  c # u \<Rightarrow>
                    if c \<noteq> CHR '':'' then None
                    else (case raw_value u of
                       None \<Rightarrow> None
                     | Some (raw, v, w) \<Rightarrow>
                         (case skip_ws w of
                            x # y \<Rightarrow>
                              if x = CHR '','' then
                                map_option (\<lambda>(ms, z). ((unquote key, raw, v) # ms, z)) (raw_members n y)
                              else if x = CHR ''}'' then Some ([(unquote key, raw, v)], y) else None
                          | [] \<Rightarrow> None))
                | [] \<Rightarrow> None))
      | [] \<Rightarrow> None)"

definition object_members :: "string \<Rightarrow> member list option" where
  "object_members s =
     (case skip_ws s of
        c # r \<Rightarrow>
          if c \<noteq> CHR ''{'' then None
          else if (case skip_ws r of x # _ \<Rightarrow> x = CHR ''}'' | [] \<Rightarrow> False) then Some []
          else map_option fst (raw_members (length r) r)
      | [] \<Rightarrow> None)"

section \<open>Structs\<close>

definition known :: "string list \<Rightarrow> member list \<Rightarrow> bool" where
  "known names ms \<longleftrightarrow> list_all (\<lambda>(k, _). list_ex (equal_fold k) names) ms"

definition max_body :: nat where
  "max_body = 1048576"

text \<open>
  \<open>decodeJSON\<close> up to the fields: \<open>None\<close> is the 400 answer (too large, malformed, not an object,
  unknown member, more than one value); a \<open>null\<close> document leaves every field at its zero value.
\<close>

definition decode_struct :: "string list \<Rightarrow> string \<Rightarrow> member list option" where
  "decode_struct names body =
     (if max_body < length body then None
      else case decode_one body of
        None \<Rightarrow> None
      | Some (v, rest) \<Rightarrow>
          if skip_ws rest \<noteq> [] then None
          else (case v of
             JNull \<Rightarrow> Some []
           | JObj _ \<Rightarrow>
               (case object_members body of
                  None \<Rightarrow> None
                | Some ms \<Rightarrow> if known names ms then Some ms else None)
           | _ \<Rightarrow> None))"

lemma decode_struct_object:
  assumes "length body \<le> max_body" and "decode_one body = Some (JObj x, [])" and "object_members body = Some ms"
  shows "decode_struct names body = (if known names ms then Some ms else None)"
  using assms by (simp add: decode_struct_def skip_ws_def)

definition plain_members :: "member list \<Rightarrow> (string \<times> json) list" where
  "plain_members ms = map (\<lambda>(k, raw, v). (k, v)) ms"

text \<open>A \<open>json.RawMessage\<close> field: the text of the last matching member, \<open>null\<close> included.\<close>

definition raw_field :: "string \<Rightarrow> member list \<Rightarrow> string" where
  "raw_field name ms =
     foldl (\<lambda>acc (k, raw, v). if equal_fold k name then raw else acc) [] ms"

text \<open>A \<open>*string\<close> field: \<open>null\<close> resets it.\<close>

fun ptr_field :: "string \<Rightarrow> string option \<Rightarrow> member list \<Rightarrow> string option option" where
  "ptr_field name acc [] = Some acc"
| "ptr_field name acc ((k, raw, v) # ms) =
     (if \<not> equal_fold k name then ptr_field name acc ms
      else (case v of
         JNull \<Rightarrow> ptr_field name None ms
       | JStr x \<Rightarrow> ptr_field name (Some x) ms
       | _ \<Rightarrow> None))"

definition string_field :: "string \<Rightarrow> member list \<Rightarrow> string option" where
  "string_field name ms = field as_string name [] (plain_members ms)"

definition int_field :: "string \<Rightarrow> member list \<Rightarrow> int option" where
  "int_field name ms = field as_int64 name 0 (plain_members ms)"

definition bool_field :: "string \<Rightarrow> member list \<Rightarrow> bool option" where
  "bool_field name ms = field as_bool name False (plain_members ms)"

text \<open>A number as \<open>encoding/json\<close> prints an integer.\<close>

function decimal :: "nat \<Rightarrow> string" where
  "decimal n = (if n < 10 then [char_of (48 + n)] else decimal (n div 10) @ [char_of (48 + n mod 10)])"
  by pat_completeness auto
termination
  by (relation "measure id") auto

declare decimal.simps [simp del]

definition int_json :: "int \<Rightarrow> json" where
  "int_json n = JNum (if n < 0 then ''-'' @ decimal (nat (- n)) else decimal (nat n))"

text \<open>Printing an integer and reading it back.\<close>

lemma digit_char:
  assumes "n < 10"
  shows "is_digit (char_of (48 + n))" "byte (char_of (48 + n)) = 48 + n"
  using assms by (simp_all add: is_digit_def)

lemma decimal_digits: "list_all is_digit (decimal n) \<and> decimal n \<noteq> []"
  by (induction n rule: decimal.induct) (subst (1 2) decimal.simps, simp add: digit_char)

lemma nat_of_digits_snoc: "nat_of_digits (ds @ [c]) = 10 * nat_of_digits ds + (byte c - 48)"
  by (simp add: nat_of_digits_def)

lemma nat_of_decimal: "nat_of_digits (decimal n) = n"
proof (induction n rule: decimal.induct)
  case (1 n)
  show ?case
  proof (cases "n < 10")
    case True
    then show ?thesis by (subst decimal.simps) (simp add: nat_of_digits_def digit_char)
  next
    case False
    then show ?thesis using 1 [OF False]
      by (subst decimal.simps) (simp add: nat_of_digits_snoc digit_char)
  qed
qed

lemma digit_not_minus: "is_digit c \<Longrightarrow> c \<noteq> CHR ''-''"
  by (auto simp: is_digit_def)

lemma int64_round_trip:
  assumes "- (2 ^ 63) \<le> n" and "n < 2 ^ 63"
  shows "as_int64 (int_json n) = Some n"
proof (cases "n < 0")
  case True
  then show ?thesis
    using assms decimal_digits [of "nat (- n)"] by (simp add: int_json_def int64_of_literal_def nat_of_decimal)
next
  case False
  obtain c r where d: "decimal (nat n) = c # r" using decimal_digits [of "nat n"] by (cases "decimal (nat n)") auto
  then have "c \<noteq> CHR ''-''" using decimal_digits [of "nat n"] digit_not_minus by auto
  with False d show ?thesis
    using assms decimal_digits [of "nat n"] nat_of_decimal [of "nat n"]
    by (simp add: int_json_def int64_of_literal_def)
qed

end
