(* ===== verification/Coordinator.thy ===== *)
theory Coordinator
  imports Http Schema
begin

text \<open>
  \<open>internal/recovery/coordinator.go\<close>: the email verifier, which classifies what the external
  service answers into an observation, and one round of the coordinator. HTTP itself is a
  parameter: \<open>get url token\<close> is either a transport error or a status with the body's first JSON
  value (absent when the body is not JSON).
\<close>

datatype http_result = TransportError string | Response int "json option"

type_synonym http_get = "string \<Rightarrow> string \<Rightarrow> http_result"

section \<open>Building URLs\<close>

definition trim_right_slash :: "string \<Rightarrow> string" where
  "trim_right_slash s = rev (dropWhile (\<lambda>c. c = CHR ''/'') (rev s))"

definition upper_nibble :: "nat \<Rightarrow> char" where
  "upper_nibble n = (if n < 10 then char_of (48 + n) else char_of (55 + n))"

text \<open>\<open>url.QueryEscape\<close> on bytes.\<close>

definition unreserved :: "char \<Rightarrow> bool" where
  "unreserved c \<longleftrightarrow> (let n = byte c in 48 \<le> n \<and> n \<le> 57 \<or> 65 \<le> n \<and> n \<le> 90 \<or> 97 \<le> n \<and> n \<le> 122)
     \<or> c \<in> {CHR ''-'', CHR ''_'', CHR ''.'', CHR ''~''}"

definition query_escape :: "string \<Rightarrow> string" where
  "query_escape s = concat (map (\<lambda>c.
     if unreserved c then [c]
     else if c = CHR '' '' then ''+''
     else [CHR ''%'', upper_nibble (byte c div 16), upper_nibble (byte c mod 16)]) s)"

text \<open>\<open>url.Values.Encode\<close> sorts by name: logical_message_key, recipient, template.\<close>

definition inspect_query :: "string \<Rightarrow> string \<Rightarrow> string \<Rightarrow> string" where
  "inspect_query recipient template key =
     ''logical_message_key='' @ query_escape key @ ''&recipient='' @ query_escape recipient
     @ ''&template='' @ query_escape template"

section \<open>Decoding the answers\<close>

fun members_of :: "json \<Rightarrow> (string \<times> json) list option" where
  "members_of JNull = Some []"
| "members_of (JObj ms) = Some ms"
| "members_of _ = None"

record Latest =
  lt_ReceiptID :: string
  lt_OperationID :: string
  lt_Recipient :: string
  lt_Template :: string
  lt_LogicalMessageKey :: string

definition empty_latest :: Latest where
  "empty_latest = \<lparr>lt_ReceiptID = [], lt_OperationID = [], lt_Recipient = [], lt_Template = [],
     lt_LogicalMessageKey = []\<rparr>"

text \<open>Members decode into the struct the pointer already holds.\<close>

definition decode_latest :: "Latest \<Rightarrow> (string \<times> json) list \<Rightarrow> Latest option" where
  "decode_latest l ms =
     (case (field as_string ''receipt_id'' (lt_ReceiptID l) ms,
            field as_string ''operation_id'' (lt_OperationID l) ms,
            field as_string ''recipient'' (lt_Recipient l) ms,
            field as_string ''template'' (lt_Template l) ms,
            field as_string ''logical_message_key'' (lt_LogicalMessageKey l) ms) of
        (Some a, Some b, Some c, Some d, Some e) \<Rightarrow>
          Some \<lparr>lt_ReceiptID = a, lt_OperationID = b, lt_Recipient = c, lt_Template = d,
                lt_LogicalMessageKey = e\<rparr>
      | _ \<Rightarrow> None)"

fun latest_field :: "Latest option \<Rightarrow> (string \<times> json) list \<Rightarrow> Latest option option" where
  "latest_field acc [] = Some acc"
| "latest_field acc ((k, v) # ms) =
     (if \<not> equal_fold k ''latest'' then latest_field acc ms
      else (case v of
         JNull \<Rightarrow> latest_field None ms
       | JObj ls \<Rightarrow>
           (case decode_latest (case acc of None \<Rightarrow> empty_latest | Some l \<Rightarrow> l) ls of
              None \<Rightarrow> None
            | Some l \<Rightarrow> latest_field (Some l) ms)
       | _ \<Rightarrow> None))"

record status_doc =
  sd_OperationID :: string
  sd_CommittedCount :: int
  sd_Authoritative :: bool
  sd_Latest :: "Latest option"

definition decode_status :: "json \<Rightarrow> status_doc option" where
  "decode_status v =
     (case members_of v of
        None \<Rightarrow> None
      | Some ms \<Rightarrow>
          (case (field as_string ''operation_id'' [] ms, field as_int64 ''committed_count'' 0 ms,
                 field as_bool ''authoritative'' False ms, latest_field None ms) of
             (Some i, Some n, Some a, Some l) \<Rightarrow>
               Some \<lparr>sd_OperationID = i, sd_CommittedCount = n, sd_Authoritative = a, sd_Latest = l\<rparr>
           | _ \<Rightarrow> None))"

definition latest_doc :: "Latest option \<Rightarrow> json" where
  "latest_doc l = (case l of None \<Rightarrow> JNull | Some x \<Rightarrow> JObj [
     (''receipt_id'', JStr (lt_ReceiptID x)), (''operation_id'', JStr (lt_OperationID x)),
     (''recipient'', JStr (lt_Recipient x)), (''template'', JStr (lt_Template x)),
     (''logical_message_key'', JStr (lt_LogicalMessageKey x))])"

definition status_evidence :: "status_doc \<Rightarrow> string" where
  "status_evidence d = marshal (JObj [(''operation_id'', JStr (sd_OperationID d)),
     (''committed_count'', int_json (sd_CommittedCount d)), (''authoritative'', JBool (sd_Authoritative d)),
     (''latest'', latest_doc (sd_Latest d))])"

text \<open>The capability answer; its \<open>profile\<close> and \<open>durable_key_payload_binding\<close>.\<close>

definition decode_capability :: "json \<Rightarrow> (string \<times> bool) option" where
  "decode_capability v =
     (case members_of v of
        None \<Rightarrow> None
      | Some ms \<Rightarrow>
          (case (field as_string ''profile'' [] ms, field as_bool ''durable_key_payload_binding'' False ms) of
             (Some p, Some g) \<Rightarrow> Some (p, g)
           | _ \<Rightarrow> None))"

text \<open>\<open>map[string]string\<close>: every member a string, \<open>null\<close> the empty one; the last one counts.\<close>

fun string_map :: "(string \<times> json) list \<Rightarrow> (string \<times> string) list option" where
  "string_map [] = Some []"
| "string_map ((k, v) # ms) =
     (case (v, string_map ms) of
        (JStr s, Some m) \<Rightarrow> Some ((k, s) # m)
      | (JNull, Some m) \<Rightarrow> Some ((k, []) # m)
      | _ \<Rightarrow> None)"

definition map_value :: "(string \<times> string) list \<Rightarrow> string \<Rightarrow> string" where
  "map_value m k = (case map_of (rev m) k of None \<Rightarrow> [] | Some v \<Rightarrow> v)"

text \<open>The three fields of the expected effect; \<open>None\<close> when it does not decode.\<close>

definition expected_fields :: "json \<Rightarrow> (string \<times> string \<times> string) option" where
  "expected_fields v =
     (case members_of v of
        None \<Rightarrow> None
      | Some ms \<Rightarrow>
          (case (field as_string ''recipient'' [] ms, field as_string ''template'' [] ms,
                 field as_string ''logical_message_key'' [] ms) of
             (Some r, Some t, Some k) \<Rightarrow> Some (r, t, k)
           | _ \<Rightarrow> None))"

section \<open>Verify\<close>

definition observe :: "VerificationMechanism \<Rightarrow> ObservationOutcome \<Rightarrow> bool \<Rightarrow> string \<Rightarrow> string \<Rightarrow> Observation" where
  "observe mechanism outcome authoritative reference evidence =
     \<lparr>ob_Mechanism = mechanism, ob_Outcome = outcome, ob_Authoritative = authoritative,
      ob_ExternalReference = reference, ob_Evidence = evidence\<rparr>"

definition lookup_failed :: Observation where
  "lookup_failed = observe MechanismStatus OutcomeTransient False [] ''{}''"

definition repeat_failed :: Observation where
  "repeat_failed = observe MechanismIdempotentRepeat OutcomeTransient False [] ''{}''"

definition contract_evidence :: string where
  "contract_evidence = marshal (JObj [(''contract'', JStr ''durable_key_payload_binding'')])"

definition verify_repeat :: "http_get \<Rightarrow> string \<Rightarrow> string \<Rightarrow> Observation" where
  "verify_repeat get baseURL token =
     (case get (trim_right_slash baseURL @ ''/email/capabilities'') token of
        TransportError _ \<Rightarrow> repeat_failed
      | Response code body \<Rightarrow>
          (case (if code \<noteq> 200 then None else Option.bind body decode_capability) of
             None \<Rightarrow> repeat_failed
           | Some (profile, guaranteed) \<Rightarrow>
               observe MechanismIdempotentRepeat OutcomeUnknown (profile = ''idempotency_only'' \<and> guaranteed)
                 [] contract_evidence))"

text \<open>The single reported effect is the expected one.\<close>

definition effect_matches :: "Operation \<Rightarrow> status_doc \<Rightarrow> bool" where
  "effect_matches op d =
     (case (expected_fields (op_ExpectedEffect op), sd_Latest d) of
        (Some (r, t, k), Some l) \<Rightarrow>
          r \<noteq> [] \<and> t \<noteq> [] \<and> k \<noteq> [] \<and> lt_ReceiptID l \<noteq> [] \<and> lt_Recipient l = r \<and> lt_Template l = t
          \<and> lt_LogicalMessageKey l = k
          \<and> (op_CapabilityProfile op \<noteq> ''indirect_unique''
               \<longrightarrow> sd_OperationID d = op_ID op \<and> lt_OperationID l = op_ID op)
      | _ \<Rightarrow> False)"

definition classify :: "Operation \<Rightarrow> status_doc \<Rightarrow> Observation" where
  "classify op d =
     (let mechanism = (if op_CapabilityProfile op = ''indirect_unique'' then MechanismIndirect else MechanismStatus);
          evidence = status_evidence d in
      if sd_CommittedCount d > 1 then observe mechanism OutcomeContradictory False [] evidence
      else if sd_CommittedCount d = 1 then
        (if \<not> effect_matches op d then observe mechanism OutcomeContradictory False [] evidence
         else observe mechanism OutcomeCompleted (sd_Authoritative d)
                (case sd_Latest d of Some l \<Rightarrow> lt_ReceiptID l | None \<Rightarrow> []) evidence)
      else observe mechanism OutcomeUnknown False [] evidence)"

definition verify_endpoint :: "string \<Rightarrow> Operation \<Rightarrow> error + string" where
  "verify_endpoint baseURL op =
     (if op_CapabilityProfile op = ''indirect_unique'' then
        (case Option.bind (members_of (op_ExpectedEffect op)) string_map of
           None \<Rightarrow> Inl (PlainError ''decode expected effect'')
         | Some m \<Rightarrow> Inr (trim_right_slash baseURL @ ''/email/inspect?''
             @ inspect_query (map_value m ''recipient'') (map_value m ''template'') (map_value m ''logical_message_key'')))
      else Inr (trim_right_slash baseURL @ ''/email/operations/'' @ op_ID op))"

definition Verify :: "http_get \<Rightarrow> string \<Rightarrow> string \<Rightarrow> Operation \<Rightarrow> error + Observation" where
  "Verify get baseURL token op =
     (if op_CapabilityProfile op = ''none'' then Inr (observe MechanismNone OutcomeUnknown False [] ''{}'')
      else if op_CapabilityProfile op = ''idempotency_only'' then Inr (verify_repeat get baseURL token)
      else bindE (verify_endpoint baseURL op) (\<lambda>endpoint.
        (case get endpoint token of
           TransportError _ \<Rightarrow> Inr lookup_failed
         | Response code body \<Rightarrow>
             if code \<ge> 500 then Inr lookup_failed
             else if code \<noteq> 200 then Inl (PlainError (''status lookup returned '' @ decimal (nat code)))
             else bindE (of_opt (PlainError ''decode status'') (Option.bind body decode_status)) (\<lambda>d.
                    Inr (classify op d)))))"

section \<open>RunOnce\<close>

text \<open>
  The coordinator's surroundings: the client calls and the hook, each a function on the state of
  the world (the stores and whatever else the other parties do meanwhile).
\<close>

record 'w coordinator =
  co_Hook :: "string \<Rightarrow> Operation \<Rightarrow> 'w \<Rightarrow> error option \<times> 'w"
  co_Claim :: "string \<Rightarrow> int \<Rightarrow> duration \<Rightarrow> 'w \<Rightarrow> (error + RecoveryClaim list) \<times> 'w"
  co_Verify :: "Operation \<Rightarrow> 'w \<Rightarrow> (error + Observation) \<times> 'w"
  co_Submit :: "uuid \<Rightarrow> RecoveryResult \<Rightarrow> 'w \<Rightarrow> (error + Operation) \<times> 'w"
  co_WorkerID :: string
  co_BatchSize :: int
  co_LeaseDuration :: duration

definition claim_result :: "RecoveryClaim \<Rightarrow> Observation \<Rightarrow> RecoveryResult" where
  "claim_result c ob = \<lparr>rr_ClaimToken = cl_ClaimToken c, rr_ExpectedVersion = cl_Version c,
     rr_AttemptID = cl_AttemptID c, rr_Observation = ob\<rparr>"

text \<open>A verifier error is reported as a transient failure.\<close>

definition settled_observation :: "error + Observation \<Rightarrow> Observation" where
  "settled_observation r = (case r of Inl _ \<Rightarrow> lookup_failed | Inr ob \<Rightarrow> ob)"

fun process_claims :: "'w coordinator \<Rightarrow> RecoveryClaim list \<Rightarrow> int \<Rightarrow> 'w \<Rightarrow> (int \<times> error option) \<times> 'w" where
  "process_claims co [] processed w = ((processed, None), w)"
| "process_claims co (c # cs) processed w =
     (case co_Hook co ''recovery_claimed'' (cl_Operation c) w of
        (Some err, w1) \<Rightarrow> ((processed, Some err), w1)
      | (None, w1) \<Rightarrow>
          (case co_Verify co (cl_Operation c) w1 of
             (verified, w2) \<Rightarrow>
               (case co_Hook co ''coordinator_before_result'' (cl_Operation c) w2 of
                  (Some err, w3) \<Rightarrow> ((processed, Some err), w3)
                | (None, w3) \<Rightarrow>
                    (case co_Submit co (op_ID (cl_Operation c)) (claim_result c (settled_observation verified)) w3 of
                       (Inl err, w4) \<Rightarrow> process_claims co cs processed w4
                     | (Inr op, w4) \<Rightarrow>
                         (case co_Hook co ''coordinator_after_result'' op w4 of
                            (Some err, w5) \<Rightarrow> ((processed, Some err), w5)
                          | (None, w5) \<Rightarrow> process_claims co cs (processed + 1) w5)))))"

definition RunOnce :: "'w coordinator \<Rightarrow> 'w \<Rightarrow> (int \<times> error option) \<times> 'w" where
  "RunOnce co w =
     (case co_Claim co (co_WorkerID co) (co_BatchSize co) (co_LeaseDuration co) w of
        (Inl err, w1) \<Rightarrow> ((0, Some err), w1)
      | (Inr claims, w1) \<Rightarrow> process_claims co claims 0 w1)"

end
