(* ===== verification/Simulator.thy ===== *)
theory Simulator
  imports Http Schema
begin

text \<open>
  \<open>internal/simulator/email.go\<close>: the external service. Its tables (effects, idempotency keys, the
  dispatch ledger), \<open>Commit\<close>, \<open>Status\<close>, \<open>Inspect\<close>, \<open>DispatchCount\<close>, and the HTTP handlers. The
  text forms of identifiers PostgreSQL and google/uuid accept are a parameter: \<open>parse\<close> maps a text
  to its canonical form.
\<close>

record EmailRequest =
  er_IdempotencyKey :: string
  er_Recipient :: string
  er_Template :: string
  er_LogicalMessageKey :: string
  er_ExperimentRunID :: "string option"

record EmailEffect =
  ee_ReceiptID :: uuid
  ee_OperationID :: uuid
  ee_Recipient :: string
  ee_Template :: string
  ee_LogicalMessageKey :: string
  ee_CommittedAt :: time

record EmailStatus =
  es_OperationID :: string
  es_CommittedCount :: int
  es_Latest :: "EmailEffect option"
  es_Authoritative :: bool

record key_row =
  k_key :: string
  k_operation :: uuid
  k_fingerprint :: string
  k_receipt :: uuid

record dispatch_row =
  x_operation :: uuid
  x_run :: "uuid option"
  x_message_key :: string
  x_idempotency :: string

record email_db =
  effects :: "EmailEffect list"
  email_keys :: "key_row list"
  dispatch_log :: "dispatch_row list"

definition empty_email :: email_db where
  "empty_email = \<lparr>effects = [], email_keys = [], dispatch_log = []\<rparr>"

section \<open>The store\<close>

definition ErrKeyConflict :: error where
  "ErrKeyConflict = PlainError ''idempotency key reused with different request''"

text \<open>\<open>json.Marshal\<close> of the request: the key is not a member, an absent run is omitted.\<close>

definition request_json :: "EmailRequest \<Rightarrow> json" where
  "request_json rq = JObj ([(''recipient'', JStr (er_Recipient rq)), (''template'', JStr (er_Template rq)),
     (''logical_message_key'', JStr (er_LogicalMessageKey rq))]
     @ (case er_ExperimentRunID rq of None \<Rightarrow> [] | Some run \<Rightarrow> [(''experiment_run_id'', JStr run)]))"

definition request_fingerprint :: "EmailRequest \<Rightarrow> string" where
  "request_fingerprint rq = sha256_hex (marshal (request_json rq))"

definition new_effect :: "env \<Rightarrow> uuid \<Rightarrow> uuid \<Rightarrow> EmailRequest \<Rightarrow> EmailEffect" where
  "new_effect e rid i rq = \<lparr>ee_ReceiptID = rid, ee_OperationID = i, ee_Recipient = er_Recipient rq,
     ee_Template = er_Template rq, ee_LogicalMessageKey = er_LogicalMessageKey rq, ee_CommittedAt = now e\<rparr>"

definition insert_effect :: "env \<Rightarrow> uuid \<Rightarrow> uuid \<Rightarrow> EmailRequest \<Rightarrow> email_db \<Rightarrow> error + (EmailEffect \<times> email_db)" where
  "insert_effect e rid i rq s =
     bindE (stmtP e ''insert effect'') (\<lambda>_.
     bindE (guardE (lookup_by ee_ReceiptID rid (effects s) \<noteq> None) (PlainError ''duplicate effect'')) (\<lambda>_.
     let f = new_effect e rid i rq; s1 = s\<lparr>effects := effects s @ [f]\<rparr> in
     if er_IdempotencyKey rq = [] then Inr (f, s1)
     else bindE (stmtP e ''insert key'') (\<lambda>_.
       Inr (f, s1\<lparr>email_keys := email_keys s1 @ [\<lparr>k_key = er_IdempotencyKey rq, k_operation = i,
              k_fingerprint = request_fingerprint rq, k_receipt = rid\<rparr>]\<rparr>))))"

text \<open>
  The body of \<open>Commit\<close> under the advisory lock of the key: a known key with the same request
  and operation returns its effect, a known key with another one is a conflict.
\<close>

definition commit_body :: "uuid_parser \<Rightarrow> env \<Rightarrow> email_db \<Rightarrow> string \<Rightarrow> EmailRequest
    \<Rightarrow> error + (EmailEffect \<times> email_db)" where
  "commit_body parse e s operationID rq =
     bindE (newID e ''effect'') (\<lambda>rid.
     bindE (stmtP e ''insert dispatch'') (\<lambda>_.
     bindE (of_opt (PlainError ''invalid uuid'') (parse operationID)) (\<lambda>i.
     bindE (case er_ExperimentRunID rq of
              None \<Rightarrow> Inr None
            | Some run \<Rightarrow> of_opt (PlainError ''invalid uuid'') (map_option Some (parse run))) (\<lambda>run.
     let s1 = s\<lparr>dispatch_log := dispatch_log s @ [\<lparr>x_operation = i, x_run = run,
                x_message_key = er_LogicalMessageKey rq, x_idempotency = er_IdempotencyKey rq\<rparr>]\<rparr> in
     if er_IdempotencyKey rq = [] then insert_effect e rid i rq s1
     else
       bindE (stmtP e ''lock key'') (\<lambda>_.
       bindE (stmtP e ''read key'') (\<lambda>_.
         (case lookup_by k_key (er_IdempotencyKey rq) (email_keys s1) of
            None \<Rightarrow> insert_effect e rid i rq s1
          | Some k \<Rightarrow>
              bindE (guardE (k_fingerprint k \<noteq> request_fingerprint rq \<or> k_operation k \<noteq> operationID)
                       ErrKeyConflict) (\<lambda>_.
              bindE (stmtP e ''read effect'') (\<lambda>_.
              bindE (of_opt ErrNoRows (lookup_by ee_ReceiptID (k_receipt k) (effects s1))) (\<lambda>f.
              Inr (f, s1)))))))))))"

definition email_tx :: "env \<Rightarrow> email_db \<Rightarrow> error + ('a \<times> email_db) \<Rightarrow> (error + 'a) \<times> email_db" where
  "email_tx e s body =
     (if fails e ''begin'' then (Inl (PlainError ''begin''), s)
      else case body of
        Inl err \<Rightarrow> (Inl err, s)
      | Inr (x, s') \<Rightarrow>
          (case fate e of
             Committed \<Rightarrow> (Inr x, s')
           | CommitRefused \<Rightarrow> (Inl (PlainError ''commit''), s)
           | CommitReplyLost \<Rightarrow> (Inl (PlainError ''commit''), s')))"

definition Commit :: "uuid_parser \<Rightarrow> env \<Rightarrow> email_db \<Rightarrow> string \<Rightarrow> EmailRequest \<Rightarrow> (error + EmailEffect) \<times> email_db" where
  "Commit parse e s operationID rq = email_tx e s (commit_body parse e s operationID rq)"

text \<open>\<open>ORDER BY committed_at,id\<close>; the last row scanned is the latest.\<close>

definition effect_order :: "EmailEffect \<Rightarrow> int \<times> string" where
  "effect_order f = (ee_CommittedAt f, ee_ReceiptID f)"

fun effect_before :: "int \<times> string \<Rightarrow> int \<times> string \<Rightarrow> bool" where
  "effect_before (t, i) (u, j) = (t < u \<or> t = u \<and> i \<le> j)"

definition latest :: "EmailEffect list \<Rightarrow> EmailEffect option" where
  "latest fs = (case fs of [] \<Rightarrow> None
     | f # r \<Rightarrow> Some (fold (\<lambda>g best. if effect_before (effect_order best) (effect_order g) then g else best) r f))"

definition Status :: "uuid_parser \<Rightarrow> env \<Rightarrow> email_db \<Rightarrow> string \<Rightarrow> error + EmailStatus" where
  "Status parse e s operationID =
     bindE (stmtP e ''query effects'') (\<lambda>_.
     bindE (of_opt (PlainError ''invalid uuid'') (parse operationID)) (\<lambda>i.
     let fs = filter (\<lambda>f. ee_OperationID f = i) (effects s) in
     Inr \<lparr>es_OperationID = operationID, es_CommittedCount = int (length fs), es_Latest = latest fs,
          es_Authoritative = True\<rparr>))"

definition matching :: "string \<Rightarrow> string \<Rightarrow> string \<Rightarrow> EmailEffect \<Rightarrow> bool" where
  "matching recipient template key f \<longleftrightarrow> ee_Recipient f = recipient \<and> ee_Template f = template
     \<and> ee_LogicalMessageKey f = key"

text \<open>The inspection query does not select the operation: the effects it returns carry none.\<close>

definition Inspect :: "env \<Rightarrow> email_db \<Rightarrow> string \<Rightarrow> string \<Rightarrow> string \<Rightarrow> error + EmailStatus" where
  "Inspect e s recipient template key =
     bindE (stmtP e ''query effects'') (\<lambda>_.
     let fs = filter (matching recipient template key) (effects s) in
     Inr \<lparr>es_OperationID = [], es_CommittedCount = int (length fs),
          es_Latest = map_option (\<lambda>f. f\<lparr>ee_OperationID := []\<rparr>) (latest fs), es_Authoritative = True\<rparr>)"

definition DispatchCount :: "uuid_parser \<Rightarrow> env \<Rightarrow> email_db \<Rightarrow> string \<Rightarrow> error + int" where
  "DispatchCount parse e s operationID =
     bindE (stmtP e ''count dispatches'') (\<lambda>_.
     bindE (of_opt (PlainError ''invalid uuid'') (parse operationID)) (\<lambda>i.
     Inr (int (length (filter (\<lambda>d. x_operation d = i) (dispatch_log s))))))"

section \<open>The server\<close>

record sim_server =
  sv_Profile :: string
  sv_token :: string
  sv_adminToken :: string
  sv_Hook :: "string \<Rightarrow> string \<Rightarrow> EmailRequest \<Rightarrow> string option"  \<comment> \<open>the error of a fault hook\<close>

definition NewServer :: "string \<Rightarrow> string \<Rightarrow> sim_server" where
  "NewServer token adminToken = \<lparr>sv_Profile = ''receipt_status'', sv_token = token,
     sv_adminToken = adminToken, sv_Hook = (\<lambda>_ _ _. None)\<rparr>"

definition fail_json :: "int \<Rightarrow> string \<Rightarrow> json response" where
  "fail_json status message = \<lparr>rs_status = status, rs_body = JObj [(''error'', JStr message)]\<rparr>"

definition effect_json :: "EmailEffect \<Rightarrow> json" where
  "effect_json f = JObj [(''receipt_id'', JStr (ee_ReceiptID f)), (''operation_id'', JStr (ee_OperationID f)),
     (''recipient'', JStr (ee_Recipient f)), (''template'', JStr (ee_Template f)),
     (''logical_message_key'', JStr (ee_LogicalMessageKey f)), (''committed_at'', JStr (format_time (ee_CommittedAt f)))]"

definition latest_json :: "EmailEffect option \<Rightarrow> json" where
  "latest_json f = (case f of None \<Rightarrow> JNull | Some g \<Rightarrow> effect_json g)"

definition status_json :: "EmailStatus \<Rightarrow> json" where
  "status_json st = JObj ([(''operation_id'', JStr (es_OperationID st)),
     (''committed_count'', int_json (es_CommittedCount st))]
     @ (case es_Latest st of None \<Rightarrow> [] | Some f \<Rightarrow> [(''latest'', effect_json f)])
     @ [(''authoritative'', JBool (es_Authoritative st))])"

definition decode_email :: "string \<Rightarrow> EmailRequest option" where
  "decode_email body =
     (case decode_struct [''recipient'', ''template'', ''logical_message_key'', ''experiment_run_id''] body of
        None \<Rightarrow> None
      | Some ms \<Rightarrow>
          (case (string_field ''recipient'' ms, string_field ''template'' ms,
                 string_field ''logical_message_key'' ms, ptr_field ''experiment_run_id'' None ms) of
             (Some r, Some t, Some k, Some run) \<Rightarrow>
               Some \<lparr>er_IdempotencyKey = [], er_Recipient = r, er_Template = t,
                     er_LogicalMessageKey = k, er_ExperimentRunID = run\<rparr>
           | _ \<Rightarrow> None))"

definition send :: "uuid_parser \<Rightarrow> sim_server \<Rightarrow> env \<Rightarrow> email_db \<Rightarrow> request \<Rightarrow> json response \<times> email_db" where
  "send parse sv e s rq =
     (let operationID = header rq ''X-Watchkeeper-Operation-ID'' in
      if parse operationID = None
      then (fail_json 422 ''valid X-Watchkeeper-Operation-ID is required'', s)
      else case decode_email (rq_body rq) of
        None \<Rightarrow> (fail_json 400 ''invalid JSON'', s)
      | Some er0 \<Rightarrow>
          if er_Recipient er0 = [] \<or> er_Template er0 = [] \<or> er_LogicalMessageKey er0 = []
          then (fail_json 422 ''recipient, template, and logical_message_key are required'', s)
          else
            (let er = (if sv_Profile sv = ''idempotency_only''
                       then er0\<lparr>er_IdempotencyKey := header rq ''Idempotency-Key''\<rparr> else er0) in
             case sv_Hook sv ''accepted_before_commit'' operationID er of
               Some err \<Rightarrow> (fail_json 503 err, s)
             | None \<Rightarrow>
                 (case Commit parse e s operationID er of
                    (Inl err, s') \<Rightarrow> (fail_json 503 ''simulator database unavailable'', s')
                  | (Inr f, s') \<Rightarrow>
                      (case sv_Hook sv ''after_commit'' operationID er of
                         Some err \<Rightarrow> (fail_json 503 err, s')
                       | None \<Rightarrow>
                           (\<lparr>rs_status = 201, rs_body = JObj [(''committed_at'', JStr (format_time (ee_CommittedAt f))),
                              (''operation_id'', JStr operationID), (''receipt_id'', JStr (ee_ReceiptID f)),
                              (''status'', JStr ''committed'')]\<rparr>, s')))))"

definition status :: "uuid_parser \<Rightarrow> bool \<Rightarrow> env \<Rightarrow> email_db \<Rightarrow> request \<Rightarrow> json response" where
  "status parse admin e s rq =
     (let operationID = rq_param rq in
      if parse operationID = None then fail_json 422 ''operation ID must be a UUID''
      else case Status parse e s operationID of
        Inl err \<Rightarrow> fail_json 503 ''simulator database unavailable''
      | Inr st \<Rightarrow>
          if admin then
            (case DispatchCount parse e s operationID of
               Inl err \<Rightarrow> fail_json 503 ''dispatch ledger unavailable''
             | Inr count \<Rightarrow> \<lparr>rs_status = 200, rs_body = JObj [(''authoritative'', JBool (es_Authoritative st)),
                 (''committed_count'', int_json (es_CommittedCount st)), (''dispatch_count'', int_json count),
                 (''latest'', latest_json (es_Latest st)), (''operation_id'', JStr operationID)]\<rparr>)
          else \<lparr>rs_status = 200, rs_body = status_json st\<rparr>)"

definition inspect :: "env \<Rightarrow> email_db \<Rightarrow> request \<Rightarrow> json response" where
  "inspect e s rq =
     (let recipient = query rq ''recipient''; template = query rq ''template'';
          key = query rq ''logical_message_key'' in
      if recipient = [] \<or> template = [] \<or> key = [] then fail_json 422 ''all match fields required''
      else case Inspect e s recipient template key of
        Inl err \<Rightarrow> fail_json 503 ''inspection unavailable''
      | Inr st \<Rightarrow> \<lparr>rs_status = 200, rs_body = status_json st\<rparr>)"

definition capabilities :: "sim_server \<Rightarrow> json response" where
  "capabilities sv = \<lparr>rs_status = 200, rs_body = JObj [
     (''durable_key_payload_binding'', JBool (sv_Profile sv = ''idempotency_only'')),
     (''profile'', JStr (sv_Profile sv))]\<rparr>"

text \<open>The routes of \<open>Handler\<close>, with the ones a profile does not mount answered 404.\<close>

datatype sim_route = SendRoute | StatusRoute | InspectRoute | CapabilitiesRoute | AdminStatusRoute

definition not_mounted :: "json response" where
  "not_mounted = \<lparr>rs_status = 404, rs_body = JNull\<rparr>"

definition unauthorized :: "json response" where
  "unauthorized = fail_json 401 ''unauthorized''"

fun Handler :: "uuid_parser \<Rightarrow> sim_server \<Rightarrow> env \<Rightarrow> email_db \<Rightarrow> sim_route \<Rightarrow> request \<Rightarrow> json response \<times> email_db" where
  "Handler parse sv e s SendRoute rq =
     (if bearer_ok (sv_token sv) rq then send parse sv e s rq else (unauthorized, s))"
| "Handler parse sv e s StatusRoute rq =
     (if sv_Profile sv \<noteq> ''receipt_status'' then (not_mounted, s)
      else if bearer_ok (sv_token sv) rq then (status parse False e s rq, s) else (unauthorized, s))"
| "Handler parse sv e s InspectRoute rq =
     (if sv_Profile sv \<noteq> ''indirect_unique'' then (not_mounted, s)
      else if bearer_ok (sv_token sv) rq then (inspect e s rq, s) else (unauthorized, s))"
| "Handler parse sv e s CapabilitiesRoute rq =
     (if bearer_ok (sv_token sv) rq then (capabilities sv, s) else (unauthorized, s))"
| "Handler parse sv e s AdminStatusRoute rq =
     (if bearer_ok (sv_adminToken sv) rq then (status parse True e s rq, s) else (unauthorized, s))"

end
