(* ===== verification/Simulator_Contract.thy ===== *)
theory Simulator_Contract
  imports Simulator
begin

text \<open>
  The contract of an external service as the recovery protocol uses it, stated as locales: a
  request performs at most one effect, and with an idempotency key the first success binds the
  key to its effect for ever. The email simulator's \<open>Commit\<close> is the instance.
\<close>

locale effect_service =
  fixes perform :: "'q \<Rightarrow> env \<Rightarrow> 's \<Rightarrow> (error + 'r) \<times> 's"
    and target :: "'q \<Rightarrow> 'k"
    and count :: "'s \<Rightarrow> 'k \<Rightarrow> nat"
  assumes grows: "count s k \<le> count (snd (perform q e s)) k"
    and at_most_one: "count (snd (perform q e s)) k \<le> count s k + (if target q = k then 1 else 0)"
begin

text \<open>A sequence of requests performs at most as many effects on a target as it names it.\<close>

lemma performs_bound:
  "count (fold (\<lambda>(q, e) s. snd (perform q e s)) qs s) k \<le> count s k + length (filter (\<lambda>(q, e). target q = k) qs)"
proof (induction qs arbitrary: s)
  case (Cons x qs)
  obtain q e where x: "x = (q, e)" by (cases x)
  show ?case using Cons.IH [of "snd (perform q e s)"] at_most_one [of q e s k] by (auto simp: x)
qed simp

lemma performs_grow: "count s k \<le> count (fold (\<lambda>(q, e) s. snd (perform q e s)) qs s) k"
proof (induction qs arbitrary: s)
  case (Cons x qs)
  obtain q e where x: "x = (q, e)" by (cases x)
  show ?case using order_trans [OF grows Cons.IH] by (simp add: x)
qed simp

end

locale keyed_service = effect_service perform target count
  for perform :: "'q \<Rightarrow> env \<Rightarrow> 's \<Rightarrow> (error + 'r) \<times> 's" and target :: "'q \<Rightarrow> 'k" and count :: "'s \<Rightarrow> 'k \<Rightarrow> nat" +
  fixes keyed :: "'q \<Rightarrow> bool"
    and bound :: "'s \<Rightarrow> 'q \<Rightarrow> 'r \<Rightarrow> bool"
  assumes binds: "keyed q \<Longrightarrow> perform q e s = (Inr r, s') \<Longrightarrow> bound s' q r"
    and stays: "bound s q r \<Longrightarrow> bound (snd (perform q' e s)) q r"
    and replays: "keyed q \<Longrightarrow> bound s q r \<Longrightarrow> perform q e s = (Inr r', s') \<Longrightarrow> r' = r"
    and replays_free: "keyed q \<Longrightarrow> bound s q r \<Longrightarrow> count (snd (perform q e s)) k = count s k"
begin

lemma bound_performs: "bound s q r \<Longrightarrow> bound (fold (\<lambda>(q, e) s. snd (perform q e s)) qs s) q r"
proof (induction qs arbitrary: s)
  case (Cons x qs)
  obtain p e where x: "x = (p, e)" by (cases x)
  show ?case using Cons.IH [OF stays [OF Cons.prems]] by (simp add: x)
qed simp

text \<open>After a keyed success the same request, whenever it is repeated, returns the first effect and
  performs none.\<close>

lemma repeat_is_free:
  assumes "keyed q" and "perform q e s = (Inr r, s')"
  shows "count (snd (perform q e' (fold (\<lambda>(q, e) s. snd (perform q e s)) qs s'))) k
      = count (fold (\<lambda>(q, e) s. snd (perform q e s)) qs s') k"
    and "fst (perform q e' (fold (\<lambda>(q, e) s. snd (perform q e s)) qs s')) = Inr r' \<Longrightarrow> r' = r"
proof -
  have b: "bound (fold (\<lambda>(q, e) s. snd (perform q e s)) qs s') q r"
    using bound_performs [OF binds [OF assms]] .
  show "count (snd (perform q e' (fold (\<lambda>(q, e) s. snd (perform q e s)) qs s'))) k
      = count (fold (\<lambda>(q, e) s. snd (perform q e s)) qs s') k"
    by (rule replays_free [OF assms(1) b])
  show "fst (perform q e' (fold (\<lambda>(q, e) s. snd (perform q e s)) qs s')) = Inr r' \<Longrightarrow> r' = r"
    using replays [OF assms(1) b] by (metis prod.collapse)
qed

end

section \<open>The email service\<close>

text \<open>How a committed request changes the tables.\<close>

lemma insert_effect_ok:
  assumes "insert_effect e rid i rq s = Inr (f, s')"
  shows "f = new_effect e rid i rq \<and> effects s' = effects s @ [f] \<and> lookup_by ee_ReceiptID rid (effects s) = None
    \<and> email_keys s' = email_keys s @ (if er_IdempotencyKey rq = [] then []
        else [\<lparr>k_key = er_IdempotencyKey rq, k_operation = i, k_fingerprint = request_fingerprint rq, k_receipt = rid\<rparr>])
    \<and> dispatch_log s' = dispatch_log s"
  using assms by (auto simp: insert_effect_def bindE_Inr_iff Let_def split: if_splits)

lemma commit_body_ok:
  assumes "commit_body parse e s operationID rq = Inr (f, s')"
  obtains (first) rid i where "parse operationID = Some i" "f = new_effect e rid i rq"
      "lookup_by ee_ReceiptID rid (effects s) = None" "effects s' = effects s @ [f]"
      "er_IdempotencyKey rq \<noteq> [] \<longrightarrow> lookup_by k_key (er_IdempotencyKey rq) (email_keys s) = None"
      "email_keys s' = email_keys s @ (if er_IdempotencyKey rq = [] then []
        else [\<lparr>k_key = er_IdempotencyKey rq, k_operation = i, k_fingerprint = request_fingerprint rq, k_receipt = rid\<rparr>])"
    | (replay) k where "er_IdempotencyKey rq \<noteq> []"
      "lookup_by k_key (er_IdempotencyKey rq) (email_keys s) = Some k" "k_operation k = operationID"
      "k_fingerprint k = request_fingerprint rq" "lookup_by ee_ReceiptID (k_receipt k) (effects s) = Some f"
      "effects s' = effects s" "email_keys s' = email_keys s"
  using assms
  by (auto simp: commit_body_def bindE_Inr_iff Let_def split: if_splits option.splits
      dest!: insert_effect_ok)

lemma email_tx_snd: "snd (email_tx e s body) = s \<or> (\<exists>x. body = Inr (x, snd (email_tx e s body)))"
  by (auto simp: email_tx_def split: sum.splits commit_fate.splits)

lemma email_tx_cases:
  obtains "snd (email_tx e s body) = s" | x where "body = Inr (x, snd (email_tx e s body))"
  using email_tx_snd by blast

lemma email_tx_Inr: "email_tx e s body = (Inr x, s') \<Longrightarrow> body = Inr (x, s')"
  by (auto simp: email_tx_def split: if_splits sum.splits commit_fate.splits)

definition effects_for :: "email_db \<Rightarrow> uuid option \<Rightarrow> nat" where
  "effects_for s k = length (filter (\<lambda>f. Some (ee_OperationID f) = k) (effects s))"

lemma commit_effects:
  "effects (snd (Commit parse e s operationID rq)) = effects s
   \<or> (\<exists>f. effects (snd (Commit parse e s operationID rq)) = effects s @ [f] \<and> parse operationID = Some (ee_OperationID f))"
proof (cases rule: email_tx_cases [of e s "commit_body parse e s operationID rq"])
  case (2 f)
  then show ?thesis
    by (cases rule: commit_body_ok) (auto simp: Commit_def new_effect_def)
qed (simp add: Commit_def)

interpretation email: effect_service "\<lambda>(operationID, rq) e s. Commit parse e s operationID rq"
  "\<lambda>(operationID, rq). parse operationID" effects_for
  for parse :: uuid_parser
proof
  fix s :: email_db and k :: "uuid option" and q :: "string \<times> EmailRequest" and e
  obtain i rq where q: "q = (i, rq)" by (cases q)
  show "effects_for s k \<le> effects_for (snd ((case q of (operationID, rq) \<Rightarrow> \<lambda>e s. Commit parse e s operationID rq) e s)) k"
    using commit_effects [of parse e s i rq] by (auto simp: q effects_for_def)
  show "effects_for (snd ((case q of (operationID, rq) \<Rightarrow> \<lambda>e s. Commit parse e s operationID rq) e s)) k
      \<le> effects_for s k + (if (case q of (operationID, rq) \<Rightarrow> parse operationID) = k then 1 else 0)"
    using commit_effects [of parse e s i rq] by (auto simp: q effects_for_def)
qed

text \<open>A key is bound to an effect by its row, which records the request it came with and its operation,
  and the row's receipt.\<close>

definition key_bound :: "uuid_parser \<Rightarrow> email_db \<Rightarrow> string \<times> EmailRequest \<Rightarrow> EmailEffect \<Rightarrow> bool" where
  "key_bound parse s q f \<longleftrightarrow> (\<exists>k. lookup_by k_key (er_IdempotencyKey (snd q)) (email_keys s) = Some k
     \<and> lookup_by ee_ReceiptID (k_receipt k) (effects s) = Some f
     \<and> k_fingerprint k = request_fingerprint (snd q)
     \<and> (parse (fst q) = Some (k_operation k) \<or> k_operation k = fst q))"

lemma key_bound_stays:
  assumes "key_bound parse s q f"
  shows "key_bound parse (snd (Commit parse e s i rq)) q f"
proof (cases rule: email_tx_cases [of e s "commit_body parse e s i rq"])
  case (2 g)
  then show ?thesis
    using assms by (cases rule: commit_body_ok) (auto simp: key_bound_def Commit_def lookup_by_append)
qed (use assms in \<open>simp add: Commit_def\<close>)

interpretation email_keyed: keyed_service "\<lambda>(operationID, rq) e s. Commit parse e s operationID rq"
  "\<lambda>(operationID, rq). parse operationID" effects_for "\<lambda>q. er_IdempotencyKey (snd q) \<noteq> []" "key_bound parse"
  for parse :: uuid_parser
proof
  fix q :: "string \<times> EmailRequest" and e s r s'
  obtain i rq where q: "q = (i, rq)" by (cases q)
  assume keyed: "er_IdempotencyKey (snd q) \<noteq> []"
  { assume "(case q of (operationID, rq) \<Rightarrow> \<lambda>e s. Commit parse e s operationID rq) e s = (Inr r, s')"
    then have "commit_body parse e s i rq = Inr (r, s')" by (simp add: q Commit_def email_tx_Inr)
    then show "key_bound parse s' q r"
      using keyed by (cases rule: commit_body_ok) (auto simp: key_bound_def q lookup_by_append new_effect_def) }
next
  fix s q r q' e
  assume "key_bound parse s q r"
  then show "key_bound parse (snd ((case q' of (operationID, rq) \<Rightarrow> \<lambda>e s. Commit parse e s operationID rq) e s)) q r"
    by (cases q') (simp add: key_bound_stays)
next
  fix q :: "string \<times> EmailRequest" and s r e r' s'
  obtain i rq where q: "q = (i, rq)" by (cases q)
  assume keyed: "er_IdempotencyKey (snd q) \<noteq> []" and b: "key_bound parse s q r"
    and "(case q of (operationID, rq) \<Rightarrow> \<lambda>e s. Commit parse e s operationID rq) e s = (Inr r', s')"
  then have "commit_body parse e s i rq = Inr (r', s')" by (simp add: q Commit_def email_tx_Inr)
  then show "r' = r" using keyed b by (cases rule: commit_body_ok) (auto simp: key_bound_def q)
next
  fix q :: "string \<times> EmailRequest" and s r e k
  obtain i rq where q: "q = (i, rq)" by (cases q)
  assume keyed: "er_IdempotencyKey (snd q) \<noteq> []" and b: "key_bound parse s q r"
  show "effects_for (snd ((case q of (operationID, rq) \<Rightarrow> \<lambda>e s. Commit parse e s operationID rq) e s)) k = effects_for s k"
  proof (cases rule: email_tx_cases [of e s "commit_body parse e s i rq"])
    case (2 f)
    then show ?thesis
      using keyed b by (cases rule: commit_body_ok) (auto simp: key_bound_def q Commit_def effects_for_def)
  qed (simp add: q Commit_def)
qed

end
