(* ===== verification/Simulator_Safety.thy ===== *)
theory Simulator_Safety
  imports Simulator_Contract Store_Behaviour
begin

text \<open>
  The email simulator's guarantees: a bound idempotency key, and the invariant of its tables over
  every database its handlers can reach.
\<close>

section \<open>Keyed requests\<close>

definition later :: "uuid_parser \<Rightarrow> ((string \<times> EmailRequest) \<times> env) list \<Rightarrow> email_db \<Rightarrow> email_db" where
  "later parse qs s = fold (\<lambda>(q, e) s. snd ((case q of (i, rq) \<Rightarrow> \<lambda>e s. Commit parse e s i rq) e s)) qs s"

definition run_ok :: "uuid_parser \<Rightarrow> EmailRequest \<Rightarrow> bool" where
  "run_ok parse rq \<longleftrightarrow> (case er_ExperimentRunID rq of None \<Rightarrow> True | Some run \<Rightarrow> parse run \<noteq> None)"

lemma healthy_email_tx: "healthy e \<Longrightarrow>
  email_tx e s body = (case body of Inl err \<Rightarrow> (Inl err, s) | Inr (x, s') \<Rightarrow> (Inr x, s'))"
  by (simp add: healthy_def email_tx_def split: sum.splits)

lemma commit_body_bound:
  assumes "healthy e" and "fresh_id e ''effect'' = Some rid" and "parse j = Some j'" and "run_ok parse rq"
    and "er_IdempotencyKey rq \<noteq> []" and "lookup_by k_key (er_IdempotencyKey rq) (email_keys s) = Some k"
    and "lookup_by ee_ReceiptID (k_receipt k) (effects s) = Some f"
  shows "if k_fingerprint k = request_fingerprint rq \<and> k_operation k = j
    then \<exists>x. commit_body parse e s j rq = Inr (f, s\<lparr>dispatch_log := dispatch_log s @ [x]\<rparr>) \<and> x_operation x = j'
    else commit_body parse e s j rq = Inl ErrKeyConflict"
  using assms
  by (cases "er_ExperimentRunID rq") (auto simp: commit_body_def newID_def guardE_def Let_def run_ok_def)

text \<open>C20. An idempotency key is spent once: after a committed request under a key, any later request
  under that key, whatever other requests came in between, performs no effect; it returns the first
  request's effect when it is the same request for the same operation (and its dispatch is logged),
  and is refused as a key conflict otherwise.\<close>

theorem keyed_commit_spec:
  assumes "Commit parse e s i rq = (Inr f, s')" and "er_IdempotencyKey rq \<noteq> []" and "parse i = Some i"
    and "healthy e'" and "fresh_id e' ''effect'' \<noteq> None" and "parse j \<noteq> None" and "run_ok parse rq'"
    and "er_IdempotencyKey rq' = er_IdempotencyKey rq"
  shows "let t = later parse qs s'; (answer, t') = Commit parse e' t j rq' in
    answer = (if j = i \<and> request_fingerprint rq' = request_fingerprint rq then Inr f else Inl ErrKeyConflict)
    \<and> effects t' = effects t \<and> email_keys t' = email_keys t
    \<and> length (dispatch_log t') = length (dispatch_log t) + (if is_ok answer then 1 else 0)"
proof -
  let ?t = "later parse qs s'"
  have "key_bound parse s' (i, rq) f"
    using email_keyed.binds [of "(i, rq)" parse e s f s'] assms(1,2) by simp
  then have "key_bound parse ?t (i, rq) f"
    unfolding later_def by (rule email_keyed.bound_performs)
  then obtain k where k: "lookup_by k_key (er_IdempotencyKey rq) (email_keys ?t) = Some k"
      "lookup_by ee_ReceiptID (k_receipt k) (effects ?t) = Some f"
      "k_fingerprint k = request_fingerprint rq" "k_operation k = i"
    using assms(3) by (auto simp: key_bound_def)
  obtain rid j' where ids: "fresh_id e' ''effect'' = Some rid" "parse j = Some j'" using assms(5,6) by auto
  from commit_body_bound [OF assms(4) ids assms(7), of ?t k f] k assms(2,8)
  show ?thesis
    by (auto simp: Commit_def healthy_email_tx [OF assms(4)] Let_def split: if_splits)
qed

definition keyed_request :: EmailRequest where
  "keyed_request = \<lparr>er_IdempotencyKey = ''a'', er_Recipient = ''r'', er_Template = ''t'',
     er_LogicalMessageKey = ''m'', er_ExperimentRunID = None\<rparr>"

definition keyed_effect :: EmailEffect where
  "keyed_effect = new_effect (env_at ''n'' 7) ''neffect'' ''a'' keyed_request"

lemma keyed_commit_sample: "\<exists>s'. Commit Some (env_at ''n'' 7) empty_email ''a'' keyed_request = (Inr keyed_effect, s')"
  by (simp add: Commit_def email_tx_def commit_body_def insert_effect_def keyed_request_def keyed_effect_def
      empty_email_def env_at_def newID_def stmtP_def guardE_def of_opt_def Let_def)

theorem keyed_commit_spec_witness:
  "\<exists>t t'. Commit Some (env_at ''o'' 9) t ''a'' keyed_request = (Inr keyed_effect, t') \<and> effects t' = effects t"
proof -
  from keyed_commit_sample obtain s'
    where s': "Commit Some (env_at ''n'' 7) empty_email ''a'' keyed_request = (Inr keyed_effect, s')" by (elim exE)
  have "er_IdempotencyKey keyed_request \<noteq> []" "run_ok Some keyed_request" "fresh_id (env_at ''o'' 9) ''effect'' \<noteq> None"
    by (simp_all add: keyed_request_def run_ok_def env_at_def)
  from keyed_commit_spec [OF s' this(1) _ healthy_env_at this(3) _ this(2) refl, where j = "''a''" and qs = "[]"]
  show ?thesis by (auto simp: Let_def)
qed

section \<open>The tables\<close>

definition email_inv :: "email_db \<Rightarrow> bool" where
  "email_inv s \<longleftrightarrow> distinct (map ee_ReceiptID (effects s)) \<and> distinct (map k_key (email_keys s))
     \<and> (\<forall>i. length (filter (\<lambda>f. ee_OperationID f = i) (effects s))
          \<le> length (filter (\<lambda>x. x_operation x = i) (dispatch_log s)))
     \<and> (\<forall>k \<in> set (email_keys s). \<exists>f. lookup_by ee_ReceiptID (k_receipt k) (effects s) = Some f
          \<and> ee_OperationID f = k_operation k)"

lemma lookup_fresh: "lookup_by key k t = None \<longleftrightarrow> (\<forall>r \<in> set t. key r \<noteq> k)"
  by (auto simp: lookup_by_None)

lemma commit_body_log:
  assumes "commit_body parse e s i rq = Inr (f, s')"
  shows "\<exists>x. dispatch_log s' = dispatch_log s @ [x] \<and> parse i = Some (x_operation x)"
  using assms
  by (auto simp: commit_body_def bindE_Inr_iff Let_def split: if_splits option.splits dest!: insert_effect_ok)

lemma commit_body_inv:
  assumes "commit_body parse e s i rq = Inr (f, s')" and "email_inv s"
  shows "email_inv s'"
proof -
  from assms(1) obtain x where log: "dispatch_log s' = dispatch_log s @ [x]" "parse i = Some (x_operation x)"
    using commit_body_log by blast
  from assms(1) show ?thesis
  proof (cases rule: commit_body_ok)
    case (first rid i')
    have "lookup_by ee_ReceiptID (k_receipt k) (effects s') = lookup_by ee_ReceiptID (k_receipt k) (effects s)"
      if "k \<in> set (email_keys s)" for k
      using that assms(2) first by (fastforce simp: email_inv_def lookup_by_append)
    moreover have "lookup_by ee_ReceiptID rid (effects s') = Some f"
      using first by (simp add: lookup_by_append new_effect_def)
    moreover have "distinct (map k_key (email_keys s'))"
      using first assms(2) by (auto simp: email_inv_def lookup_fresh)
    moreover have "distinct (map ee_ReceiptID (effects s'))"
      using first assms(2) by (auto simp: email_inv_def lookup_fresh new_effect_def)
    ultimately show ?thesis
      using first log assms(2) by (auto simp: email_inv_def new_effect_def)
  next
    case (replay k)
    then show ?thesis using log assms(2) by (auto simp: email_inv_def intro: le_SucI)
  qed
qed

lemma commit_inv: "email_inv s \<Longrightarrow> email_inv (snd (Commit parse e s i rq))"
  by (cases rule: email_tx_cases [of e s "commit_body parse e s i rq"])
    (auto simp: Commit_def dest: commit_body_inv)

text \<open>Only \<open>Commit\<close> changes the tables.\<close>

lemma send_commits: "snd (send parse sv e s rq) = s
  \<or> (\<exists>er. snd (send parse sv e s rq) = snd (Commit parse e s (header rq ''X-Watchkeeper-Operation-ID'') er)
       \<and> er_IdempotencyKey er = (if sv_Profile sv = ''idempotency_only'' then header rq ''Idempotency-Key'' else []))"
proof (cases "decode_email (rq_body rq)")
  case (Some er0)
  let ?i = "header rq ''X-Watchkeeper-Operation-ID''"
  let ?er = "if sv_Profile sv = ''idempotency_only'' then er0\<lparr>er_IdempotencyKey := header rq ''Idempotency-Key''\<rparr> else er0"
  have "er_IdempotencyKey er0 = []"
    using Some by (auto simp: decode_email_def split: option.splits)
  moreover have "snd (send parse sv e s rq) = s \<or> snd (send parse sv e s rq) = snd (Commit parse e s ?i ?er)"
  proof (cases "parse ?i = None \<or> er_Recipient er0 = [] \<or> er_Template er0 = [] \<or> er_LogicalMessageKey er0 = []
      \<or> sv_Hook sv ''accepted_before_commit'' ?i ?er \<noteq> None")
    case True
    then show ?thesis using Some by (auto simp: send_def Let_def)
  next
    case False
    obtain c t' where "Commit parse e s ?i ?er = (c, t')" by fastforce
    with False Some show ?thesis
      by (cases c; cases "sv_Hook sv ''after_commit'' ?i ?er") (simp_all add: send_def Let_def)
  qed
  ultimately show ?thesis by (auto split: if_splits)
qed (simp add: send_def Let_def)

inductive sim_reachable :: "uuid_parser \<Rightarrow> email_db \<Rightarrow> bool" for parse where
  initial: "sim_reachable parse empty_email"
| handle: "sim_reachable parse s \<Longrightarrow> sim_reachable parse (snd (Handler parse sv e s route rq))"

lemma handler_cases:
  "snd (Handler parse sv e s route rq) = s
   \<or> route = SendRoute \<and> snd (Handler parse sv e s route rq) = snd (send parse sv e s rq)"
  by (cases route) auto

lemma handler_inv: "email_inv s \<Longrightarrow> email_inv (snd (Handler parse sv e s route rq))"
  using handler_cases [of parse sv e s route rq] send_commits [of parse sv e s rq] commit_inv by metis

lemma sim_reachable_inv: "sim_reachable parse s \<Longrightarrow> email_inv s"
  by (induction rule: sim_reachable.induct) (simp_all add: handler_inv, simp add: email_inv_def empty_email_def)

lemma fold_pick: "fold (\<lambda>g best. if p best g then g else best) gs b \<in> insert b (set gs)"
proof (induction gs arbitrary: b)
  case (Cons g gs)
  show ?case using Cons.IH [of g] Cons.IH [of b] by auto
qed simp

lemma latest_member: "latest fs = Some f \<Longrightarrow> f \<in> set fs"
  using fold_pick [of "\<lambda>b g. effect_before (effect_order b) (effect_order g)"]
  by (cases fs) (auto simp: latest_def)

text \<open>C21. The dispatch ledger accounts for every effect: in every database the handlers can reach,
  whatever the requests, faults and hooks, the number of effects \<open>Status\<close> reports for an operation is at
  most the number of dispatches \<open>DispatchCount\<close> reports, the reported latest effect belongs to it, and
  every idempotency key leads to an effect of its operation.\<close>

theorem ledger_covers_effects:
  assumes "sim_reachable parse s" and "Status parse e s i = Inr st" and "DispatchCount parse e' s i = Inr n"
  shows "0 \<le> es_CommittedCount st \<and> es_CommittedCount st \<le> n
    \<and> (es_CommittedCount st = 0 \<longleftrightarrow> es_Latest st = None)
    \<and> (\<forall>f. es_Latest st = Some f \<longrightarrow> parse i = Some (ee_OperationID f) \<and> f \<in> set (effects s))
    \<and> (\<forall>k \<in> set (email_keys s). \<exists>f \<in> set (effects s). ee_ReceiptID f = k_receipt k \<and> ee_OperationID f = k_operation k)"
proof -
  note inv = sim_reachable_inv [OF assms(1)]
  from assms(2) obtain i' where i': "parse i = Some i'"
    and st: "es_CommittedCount st = int (length (filter (\<lambda>f. ee_OperationID f = i') (effects s)))"
      "es_Latest st = latest (filter (\<lambda>f. ee_OperationID f = i') (effects s))"
    by (auto simp: Status_def bindE_Inr_iff Let_def)
  from assms(3) i' have n: "n = int (length (filter (\<lambda>x. x_operation x = i') (dispatch_log s)))"
    by (auto simp: DispatchCount_def bindE_Inr_iff)
  have empty: "latest fs = None \<longleftrightarrow> fs = []" for fs by (cases fs) (simp_all add: latest_def)
  have "\<forall>k \<in> set (email_keys s). \<exists>f \<in> set (effects s). ee_ReceiptID f = k_receipt k \<and> ee_OperationID f = k_operation k"
    using inv by (fastforce simp: email_inv_def dest: lookup_by_Some)
  moreover have "es_CommittedCount st \<le> n" using inv st n by (simp add: email_inv_def)
  moreover have "\<forall>f. es_Latest st = Some f \<longrightarrow> parse i = Some (ee_OperationID f) \<and> f \<in> set (effects s)"
  proof (intro allI impI)
    fix f assume "es_Latest st = Some f"
    then have "f \<in> set (filter (\<lambda>f. ee_OperationID f = i') (effects s))" using st(2) latest_member by metis
    then show "parse i = Some (ee_OperationID f) \<and> f \<in> set (effects s)" using i' by simp
  qed
  moreover have "0 \<le> es_CommittedCount st" by (simp add: st(1))
  moreover have "es_CommittedCount st = 0 \<longleftrightarrow> es_Latest st = None" unfolding st empty by simp
  ultimately show ?thesis by blast
qed

definition sample_send :: request where
  "sample_send = \<lparr>rq_param = [], rq_query = [],
     rq_headers = [(''Authorization'', ''Bearer t''), (''X-Watchkeeper-Operation-ID'', ''a''), (''Idempotency-Key'', ''a'')],
     rq_body = ''{\"recipient\":\"r\",\"template\":\"t\",\"logical_message_key\":\"m\"}''\<rparr>"

definition sample_email :: email_db where
  "sample_email = snd (Handler Some (NewServer ''t'' ''adm'') (env_at ''n'' 7) empty_email SendRoute sample_send)"

lemma sample_decode: "decode_email (rq_body sample_send) =
   Some \<lparr>er_IdempotencyKey = [], er_Recipient = ''r'', er_Template = ''t'', er_LogicalMessageKey = ''m'',
         er_ExperimentRunID = None\<rparr>"
proof -
  let ?ms = "[(''recipient'', ''\"r\"'', JStr ''r''), (''template'', ''\"t\"'', JStr ''t''),
      (''logical_message_key'', ''\"m\"'', JStr ''m'')]"
  have size: "length (rq_body sample_send) \<le> max_body" by (simp add: sample_send_def max_body_def)
  have parsed: "decode_one (rq_body sample_send) = Some (JObj [(''recipient'', JStr ''r''), (''template'', JStr ''t''),
      (''logical_message_key'', JStr ''m'')], [])" by code_simp
  have raw: "object_members (rq_body sample_send) = Some ?ms" by code_simp
  have "known [''recipient'', ''template'', ''logical_message_key'', ''experiment_run_id''] ?ms"
    "string_field ''recipient'' ?ms = Some ''r''" "string_field ''template'' ?ms = Some ''t''"
    "string_field ''logical_message_key'' ?ms = Some ''m''" "ptr_field ''experiment_run_id'' None ?ms = Some None"
    by code_simp+
  then show ?thesis unfolding decode_email_def decode_struct_object [OF size parsed raw] by simp
qed

lemmas commit_simps = Commit_def email_tx_def commit_body_def insert_effect_def new_effect_def empty_email_def
  env_at_def newID_def stmtP_def guardE_def of_opt_def Let_def

lemma sample_email_value: "sample_email = \<lparr>effects = [\<lparr>ee_ReceiptID = ''neffect'', ee_OperationID = ''a'',
     ee_Recipient = ''r'', ee_Template = ''t'', ee_LogicalMessageKey = ''m'', ee_CommittedAt = 7\<rparr>],
   email_keys = [], dispatch_log = [\<lparr>x_operation = ''a'', x_run = None, x_message_key = ''m'', x_idempotency = []\<rparr>]\<rparr>"
proof -
  have auth: "bearer_ok (sv_token (NewServer ''t'' ''adm'')) sample_send"
    and id: "header sample_send ''X-Watchkeeper-Operation-ID'' = ''a''" by code_simp+
  show ?thesis
    unfolding sample_email_def
    by (simp only: Handler.simps auth if_True, simp add: send_def sample_decode id, simp add: NewServer_def commit_simps)
qed

theorem ledger_covers_effects_witness:
  "\<exists>st. Status Some (env_at ''o'' 9) sample_email ''a'' = Inr st \<and> es_CommittedCount st = 1
     \<and> DispatchCount Some (env_at ''o'' 9) sample_email ''a'' = Inr 1 \<and> es_CommittedCount st \<le> 1"
proof -
  obtain st where st: "Status Some (env_at ''o'' 9) sample_email ''a'' = Inr st" "es_CommittedCount st = 1"
    by (simp add: Status_def sample_email_value env_at_def stmtP_def Let_def)
  have n: "DispatchCount Some (env_at ''o'' 9) sample_email ''a'' = Inr 1"
    by (simp add: DispatchCount_def sample_email_value env_at_def stmtP_def)
  have "sim_reachable Some sample_email"
    unfolding sample_email_def by (intro sim_reachable.intros)
  from ledger_covers_effects [OF this st(1) n] st n show ?thesis by simp
qed

end
