(* ===== verification/Verifier_Safety.thy ===== *)
theory Verifier_Safety
  imports Coordinator Simulator_Safety
begin

text \<open>
  The verifier's observations against what the external service holds: what an answer must say
  to count as completed, and, with the simulator answering, that verifier and decision table
  together resolve an operation exactly when its one effect is there.
\<close>

section \<open>What completed evidence is\<close>

text \<open>The service answered the lookup with the document \<open>d\<close>.\<close>

definition answered :: "http_get \<Rightarrow> string \<Rightarrow> string \<Rightarrow> Operation \<Rightarrow> status_doc \<Rightarrow> bool" where
  "answered get base token op d \<longleftrightarrow> (\<exists>url body. verify_endpoint base op = Inr url
     \<and> get url token = Response 200 (Some body) \<and> decode_status body = Some d)"

text \<open>The document reports one effect, with a receipt, and it is the expected one.\<close>

definition reports_effect :: "Operation \<Rightarrow> status_doc \<Rightarrow> Latest \<Rightarrow> bool" where
  "reports_effect op d l \<longleftrightarrow> sd_CommittedCount d = 1 \<and> sd_Latest d = Some l \<and> lt_ReceiptID l \<noteq> []
     \<and> lt_Recipient l \<noteq> [] \<and> lt_Template l \<noteq> [] \<and> lt_LogicalMessageKey l \<noteq> []
     \<and> expected_fields (op_ExpectedEffect op) = Some (lt_Recipient l, lt_Template l, lt_LogicalMessageKey l)
     \<and> (op_CapabilityProfile op = ''indirect_unique'' \<or> sd_OperationID d = op_ID op \<and> lt_OperationID l = op_ID op)"

lemma effect_matches_reports:
  "sd_CommittedCount d = 1 \<Longrightarrow> effect_matches op d \<longleftrightarrow> (\<exists>l. reports_effect op d l)"
  by (auto simp: effect_matches_def reports_effect_def split: option.splits)

text \<open>C22. Soundness of the verifier for any service behind the URL. A completed observation is backed by
  a 200 answer reporting exactly one committed effect, with a receipt (its reference) and the expected
  recipient, template and message key, and, but for the indirect profile, the operation's own id; it is
  as authoritative as the answer says. A contradictory one is backed by a 200 answer that reports more
  than one effect, or one that is not the expected one, and is never authoritative. An unknown one
  comes from a 200 answer that reports no effect, or from the two profiles without a lookup. The
  verifier never claims absence, and an authoritative observation is a completed one or, under the
  idempotency profile, the service's guarantee of a safe repeat.\<close>

theorem verifier_sound:
  assumes "Verify get base token op = Inr ob"
  shows "(ob_Outcome ob = OutcomeCompleted \<longrightarrow>
      (\<exists>d l. answered get base token op d \<and> reports_effect op d l \<and> ob_ExternalReference ob = lt_ReceiptID l
         \<and> ob_Authoritative ob = sd_Authoritative d))
    \<and> (ob_Outcome ob = OutcomeContradictory \<longrightarrow> \<not> ob_Authoritative ob \<and>
      (\<exists>d. answered get base token op d
         \<and> (1 < sd_CommittedCount d \<or> sd_CommittedCount d = 1 \<and> (\<forall>l. \<not> reports_effect op d l))))
    \<and> (ob_Outcome ob = OutcomeUnknown \<longrightarrow> op_CapabilityProfile op \<in> {''none'', ''idempotency_only''}
         \<or> (\<exists>d. answered get base token op d \<and> sd_CommittedCount d < 1))
    \<and> ob_Outcome ob \<noteq> OutcomeAbsent
    \<and> (ob_Authoritative ob \<longrightarrow> ob_Outcome ob = OutcomeCompleted
         \<or> op_CapabilityProfile op = ''idempotency_only'' \<and> ob_Mechanism ob = MechanismIdempotentRepeat
           \<and> ob_Outcome ob = OutcomeUnknown)"
proof (cases "op_CapabilityProfile op \<in> {''none'', ''idempotency_only''}")
  case True
  then show ?thesis
    using assms
    by (auto simp: Verify_def verify_repeat_def observe_def repeat_failed_def split: http_result.splits option.splits if_splits)
next
  case False
  with assms obtain url where url: "verify_endpoint base op = Inr url"
    by (auto simp: Verify_def bindE_Inr_iff)
  show ?thesis
  proof (cases "ob = lookup_failed")
    case True
    then show ?thesis by (simp add: lookup_failed_def observe_def)
  next
    case other: False
    then obtain d where d: "answered get base token op d" and ob: "ob = classify op d"
      using assms False url
      by (auto simp: Verify_def answered_def bindE_Inr_iff bind_eq_Some_conv split: http_result.splits if_splits)
    consider "1 < sd_CommittedCount d" | "sd_CommittedCount d < 1"
      | "sd_CommittedCount d = 1" "\<not> effect_matches op d" | "sd_CommittedCount d = 1" "effect_matches op d" by linarith
    then show ?thesis
    proof cases
      case 4
      then obtain l where l: "reports_effect op d l" using effect_matches_reports by blast
      then have "sd_Latest d = Some l" by (simp add: reports_effect_def)
      with 4 l d show ?thesis by (auto simp: ob classify_def observe_def)
    qed (use d effect_matches_reports in \<open>auto simp: ob classify_def Let_def observe_def\<close>)
  qed
qed

section \<open>The simulator as the service\<close>

definition get_request :: "string \<Rightarrow> string \<Rightarrow> (string \<times> string) list \<Rightarrow> request" where
  "get_request token param qs = \<lparr>rq_param = param, rq_query = qs,
     rq_headers = [(''Authorization'', ''Bearer '' @ token)], rq_body = []\<rparr>"

text \<open>The simulator's answer to the status request of the verifier, for the profile it runs.\<close>

definition sim_status :: "uuid_parser \<Rightarrow> sim_server \<Rightarrow> env \<Rightarrow> email_db \<Rightarrow> string \<Rightarrow> uuid
    \<Rightarrow> string \<times> string \<times> string \<Rightarrow> json response" where
  "sim_status parse sv e t token i f =
     (case f of (r, m, k) \<Rightarrow> fst (if sv_Profile sv = ''indirect_unique''
        then Handler parse sv e t InspectRoute
               (get_request token [] [(''recipient'', r), (''template'', m), (''logical_message_key'', k)])
        else Handler parse sv e t StatusRoute (get_request token i [])))"

definition answers :: "http_get \<Rightarrow> string \<Rightarrow> string \<Rightarrow> json response \<Rightarrow> bool" where
  "answers get url token res \<longleftrightarrow> get url token = Response (rs_status res) (Some (rs_body res))"

text \<open>The expected effect names all three fields, however it is read.\<close>

definition expects :: "Operation \<Rightarrow> string \<times> string \<times> string \<Rightarrow> bool" where
  "expects op f \<longleftrightarrow> (case f of (r, m, k) \<Rightarrow> r \<noteq> [] \<and> m \<noteq> [] \<and> k \<noteq> []
     \<and> expected_fields (op_ExpectedEffect op) = Some (r, m, k))"

definition relevant :: "Operation \<Rightarrow> string \<times> string \<times> string \<Rightarrow> email_db \<Rightarrow> EmailEffect list" where
  "relevant op f t = (case f of (r, m, k) \<Rightarrow>
     if op_CapabilityProfile op = ''indirect_unique'' then filter (matching r m k) (effects t)
     else filter (\<lambda>x. ee_OperationID x = op_ID op) (effects t))"

definition of_effect :: "EmailEffect \<Rightarrow> Latest" where
  "of_effect f = \<lparr>lt_ReceiptID = ee_ReceiptID f, lt_OperationID = ee_OperationID f, lt_Recipient = ee_Recipient f,
     lt_Template = ee_Template f, lt_LogicalMessageKey = ee_LogicalMessageKey f\<rparr>"

lemma bearer_get: "token \<noteq> [] \<Longrightarrow> bearer_ok token (get_request token p qs)"
  by (simp add: bearer_ok_def get_request_def header_def trim_prefix_def)

lemma get_request_reads [simp]:
  "query (get_request token p qs) name = (case map_of qs name of Some v \<Rightarrow> v | None \<Rightarrow> [])"
  "rq_param (get_request token p qs) = p"
  by (simp_all add: query_def get_request_def)

lemma decode_status_json:
  assumes "0 \<le> n" and "n < 2 ^ 63"
  shows "decode_status (status_json \<lparr>es_OperationID = i, es_CommittedCount = n, es_Latest = l, es_Authoritative = a\<rparr>)
    = Some \<lparr>sd_OperationID = i, sd_CommittedCount = n, sd_Authoritative = a, sd_Latest = map_option of_effect l\<rparr>"
  using assms int64_round_trip [of n]
  by (cases l) (simp_all add: decode_status_def status_json_def effect_json_def equal_fold_def to_lower_def
      decode_latest_def of_effect_def int_json_def)

text \<open>What the simulator reports, decoded.\<close>

lemma sim_status_doc:
  assumes "op_CapabilityProfile op \<in> {''receipt_status'', ''indirect_unique''}"
    and "sv_Profile sv = op_CapabilityProfile op" and "sv_token sv = token" and "token \<noteq> []"
    and "healthy e" and "parse (op_ID op) = Some (op_ID op)" and "expects op f"
    and "length (effects t) < 2 ^ 63"
  shows "\<exists>body d. sim_status parse sv e t token (op_ID op) f = \<lparr>rs_status = 200, rs_body = body\<rparr>
    \<and> decode_status body = Some d \<and> sd_CommittedCount d = int (length (relevant op f t)) \<and> sd_Authoritative d
    \<and> (if op_CapabilityProfile op = ''indirect_unique'' then sd_Latest d = map_option of_effect (map_option (\<lambda>x. x\<lparr>ee_OperationID := []\<rparr>) (latest (relevant op f t)))
       else sd_OperationID d = op_ID op \<and> sd_Latest d = map_option of_effect (latest (relevant op f t)))"
proof -
  obtain r m k where f: "f = (r, m, k)" by (cases f)
  have "length (filter p (effects t)) \<le> length (effects t)" for p by simp
  then have small: "int (length (filter p (effects t))) < 2 ^ 63" for p
    using assms(8) by (metis le_less_trans nat_int nat_less_iff of_nat_less_iff of_nat_numeral of_nat_power)
  show ?thesis
  proof (cases "op_CapabilityProfile op = ''indirect_unique''")
    case True
    then show ?thesis
      using assms(2-5,7) decode_status_json [OF _ small]
      by (simp add: sim_status_def f bearer_get inspect_def Inspect_def Let_def relevant_def expects_def)
  next
    case False
    then show ?thesis
      using assms(1-6) decode_status_json [OF _ small]
      by (simp add: sim_status_def f bearer_get status_def Status_def Let_def relevant_def)
  qed
qed

section \<open>Verdicts on what the service holds\<close>

definition truth :: "string \<times> string \<times> string \<Rightarrow> EmailEffect list \<Rightarrow> ObservationOutcome" where
  "truth f fs = (case fs of [] \<Rightarrow> OutcomeUnknown
     | [x] \<Rightarrow> (if matching (fst f) (fst (snd f)) (snd (snd f)) x then OutcomeCompleted else OutcomeContradictory)
     | _ \<Rightarrow> OutcomeContradictory)"

lemma classify_truth:
  assumes "expects op f" and "sd_CommittedCount d = int (length fs)" and "sd_Authoritative d"
    and "\<forall>x \<in> set fs. ee_ReceiptID x \<noteq> []"
    and "if op_CapabilityProfile op = ''indirect_unique'' then sd_Latest d = map_option of_effect (map_option (\<lambda>x. x\<lparr>ee_OperationID := []\<rparr>) (latest fs))
       else sd_OperationID d = op_ID op \<and> sd_Latest d = map_option of_effect (latest fs) \<and> (\<forall>x \<in> set fs. ee_OperationID x = op_ID op)"
  shows "ob_Outcome (classify op d) = truth f fs
    \<and> (ob_Authoritative (classify op d) \<longleftrightarrow> truth f fs = OutcomeCompleted)
    \<and> (truth f fs = OutcomeCompleted \<longrightarrow> (\<forall>x \<in> set fs. ob_ExternalReference (classify op d) = ee_ReceiptID x))
    \<and> ob_Mechanism (classify op d) \<noteq> MechanismIdempotentRepeat"
proof -
  consider "fs = []" | x where "fs = [x]" | x y r where "fs = x # y # r" by (metis neq_Nil_conv)
  then show ?thesis
  proof cases
    case 1
    then show ?thesis using assms(2) by (simp add: classify_def Let_def observe_def truth_def)
  next
    case (2 x)
    then show ?thesis
      using assms by (cases f) (auto simp: classify_def Let_def observe_def truth_def latest_def effect_matches_def
          expects_def matching_def of_effect_def split: if_splits)
  next
    case (3 x y r)
    then show ?thesis using assms(2) by (simp add: classify_def Let_def observe_def truth_def)
  qed
qed

lemma verify_truth:
  assumes "op_CapabilityProfile op \<in> {''receipt_status'', ''indirect_unique''}"
    and "sv_Profile sv = op_CapabilityProfile op" and "sv_token sv = token" and "token \<noteq> []"
    and "healthy e" and "parse (op_ID op) = Some (op_ID op)" and "expects op f"
    and "length (effects t) < 2 ^ 63" and "\<forall>x \<in> set (effects t). ee_ReceiptID x \<noteq> []"
    and "verify_endpoint base op = Inr url" and "answers get url token (sim_status parse sv e t token (op_ID op) f)"
  shows "\<exists>ob. Verify get base token op = Inr ob \<and> ob_Outcome ob = truth f (relevant op f t)
    \<and> (ob_Authoritative ob \<longleftrightarrow> truth f (relevant op f t) = OutcomeCompleted)
    \<and> (truth f (relevant op f t) = OutcomeCompleted
        \<longrightarrow> (\<forall>x \<in> set (relevant op f t). ob_ExternalReference ob = ee_ReceiptID x))
    \<and> ob_Mechanism ob \<noteq> MechanismIdempotentRepeat"
proof -
  obtain body d where b: "sim_status parse sv e t token (op_ID op) f = \<lparr>rs_status = 200, rs_body = body\<rparr>"
      "decode_status body = Some d" "sd_CommittedCount d = int (length (relevant op f t))" "sd_Authoritative d"
    and l: "if op_CapabilityProfile op = ''indirect_unique'' then sd_Latest d = map_option of_effect (map_option (\<lambda>x. x\<lparr>ee_OperationID := []\<rparr>) (latest (relevant op f t)))
       else sd_OperationID d = op_ID op \<and> sd_Latest d = map_option of_effect (latest (relevant op f t))"
    using sim_status_doc [OF assms(1-5), where parse = parse, OF assms(6-8)] by (elim exE conjE)
  have v: "Verify get base token op = Inr (classify op d)"
    using assms(1,10,11) b by (auto simp: Verify_def answers_def)
  have own: "\<forall>x \<in> set (relevant op f t). ee_ReceiptID x \<noteq> []"
    using assms(9) by (cases f) (auto simp: relevant_def)
  have "if op_CapabilityProfile op = ''indirect_unique'' then sd_Latest d = map_option of_effect (map_option (\<lambda>x. x\<lparr>ee_OperationID := []\<rparr>) (latest (relevant op f t)))
       else sd_OperationID d = op_ID op \<and> sd_Latest d = map_option of_effect (latest (relevant op f t))
         \<and> (\<forall>x \<in> set (relevant op f t). ee_OperationID x = op_ID op)"
    using l by (cases f) (auto simp: relevant_def)
  note c = classify_truth [OF assms(7) b(3,4) own this]
  with v show ?thesis by blast
qed

text \<open>C23. Verifier and decision table tell the truth about the service. The simulator answers in a
  healthy call; then the verifier observes nothing as unknown, one effect as completed exactly when it
  has the expected recipient, template and key, with its receipt id, more than one as contradictory,
  and is authoritative exactly on completed. With that observation a dispatched operation is reconciled
  exactly when its one effect is there as expected, and uncertain otherwise, whatever the attempt.\<close>

theorem verdict_is_true:
  assumes "op_CapabilityProfile op \<in> {''receipt_status'', ''indirect_unique''}"
    and "sv_Profile sv = op_CapabilityProfile op" and "sv_token sv = token" and "token \<noteq> []"
    and "healthy e" and "parse (op_ID op) = Some (op_ID op)" and "expects op f"
    and "length (effects t) < 2 ^ 63" and "\<forall>x \<in> set (effects t). ee_ReceiptID x \<noteq> []"
    and "verify_endpoint base op = Inr url" and "answers get url token (sim_status parse sv e t token (op_ID op) f)"
  shows "\<exists>ob. Verify get base token op = Inr ob \<and> ob_Outcome ob = truth f (relevant op f t)
    \<and> (ob_Authoritative ob \<longleftrightarrow> truth f (relevant op f t) = OutcomeCompleted)
    \<and> (truth f (relevant op f t) = OutcomeCompleted
        \<longrightarrow> (\<forall>x \<in> set (relevant op f t). ob_ExternalReference ob = ee_ReceiptID x))
    \<and> (op_DispatchAuthorized op \<longrightarrow> v_toState (decide op ob n) =
         (if truth f (relevant op f t) = OutcomeCompleted then StateReconciled else StateUncertain))"
proof -
  have "truth f (relevant op f t) \<in> {OutcomeUnknown, OutcomeCompleted, OutcomeContradictory}"
    by (auto simp: truth_def split: list.splits)
  with verify_truth [OF assms] show ?thesis by (elim exE conjE) (intro exI conjI, auto simp: decide_def)
qed

definition verified_op :: Operation where
  "verified_op = scanOperation \<lparr>w_id = ''w'', w_external = ''w'', w_strategy = StrategyWatchkeeper, w_experiment = None\<rparr>
     (new_op_row (env_at ''a'' 0) ''a'' ''w'' (sample_request\<lparr>pr_CapabilityProfile := ''receipt_status''\<rparr>)
        (JObj [(''template'', JStr ''t''), (''recipient'', JStr ''r''), (''logical_message_key'', JStr ''m'')]) (JObj []))
     \<lparr>op_DispatchAuthorized := True\<rparr>"

definition sample_get :: http_get where
  "sample_get url token = (let res = fst (Handler Some (NewServer ''t'' ''adm'') (env_at ''o'' 9) sample_email StatusRoute
     (get_request token ''a'' [])) in Response (rs_status res) (Some (rs_body res)))"

lemma verified_op_simps: "op_ID verified_op = ''a''" "op_CapabilityProfile verified_op = ''receipt_status''"
  "op_DispatchAuthorized verified_op" "verify_endpoint base verified_op = Inr (trim_right_slash base @ ''/email/operations/a'')"
  "expects verified_op (''r'', ''t'', ''m'')"
proof -
  show [simp]: "op_ID verified_op = ''a''" "op_CapabilityProfile verified_op = ''receipt_status''" "op_DispatchAuthorized verified_op"
    by (simp_all add: verified_op_def scanOperation_def new_op_row_def)
  show "verify_endpoint base verified_op = Inr (trim_right_slash base @ ''/email/operations/a'')"
    by (simp add: verify_endpoint_def)
  have e: "op_ExpectedEffect verified_op = JObj [(''template'', JStr ''t''), (''recipient'', JStr ''r''), (''logical_message_key'', JStr ''m'')]"
    by (simp add: verified_op_def scanOperation_def new_op_row_def)
  have "expected_fields (JObj [(''template'', JStr ''t''), (''recipient'', JStr ''r''), (''logical_message_key'', JStr ''m'')])
      = Some (''r'', ''t'', ''m'')" by code_simp
  then show "expects verified_op (''r'', ''t'', ''m'')" by (simp add: expects_def e)
qed

lemma relevant_sample: "relevant verified_op (''r'', ''t'', ''m'') sample_email = effects sample_email"
  by (simp add: relevant_def verified_op_simps sample_email_value)

lemma sample_truth: "relevant verified_op (''r'', ''t'', ''m'') sample_email = [\<lparr>ee_ReceiptID = ''neffect'',
     ee_OperationID = ''a'', ee_Recipient = ''r'', ee_Template = ''t'', ee_LogicalMessageKey = ''m'', ee_CommittedAt = 7\<rparr>]"
  "truth (''r'', ''t'', ''m'') (relevant verified_op (''r'', ''t'', ''m'') sample_email) = OutcomeCompleted"
  by (simp_all only: relevant_sample) (simp_all add: sample_email_value truth_def matching_def)

lemma sample_answers: "answers sample_get url ''t'' (sim_status Some (NewServer ''t'' ''adm'') (env_at ''o'' 9) sample_email ''t''
    (op_ID verified_op) (''r'', ''t'', ''m''))"
  by (simp add: answers_def sample_get_def Let_def sim_status_def verified_op_simps NewServer_def)

lemma sample_hyps: "op_CapabilityProfile verified_op \<in> {''receipt_status'', ''indirect_unique''}"
    "sv_Profile (NewServer ''t'' ''adm'') = op_CapabilityProfile verified_op" "sv_token (NewServer ''t'' ''adm'') = ''t''"
    "''t'' \<noteq> []" "length (effects sample_email) < 2 ^ 63" "\<forall>x \<in> set (effects sample_email). ee_ReceiptID x \<noteq> []"
  by (simp_all add: verified_op_simps NewServer_def sample_email_value)

lemmas sample_verified = sample_hyps(1-4) healthy_env_at refl verified_op_simps(5) sample_hyps(5,6) verified_op_simps(4) sample_answers

theorem verdict_is_true_witness:
  "\<exists>ob. Verify sample_get ''http://s'' ''t'' verified_op = Inr ob \<and> ob_Outcome ob = OutcomeCompleted \<and> ob_Authoritative ob
     \<and> ob_ExternalReference ob = ''neffect'' \<and> v_toState (decide verified_op ob 1) = StateReconciled"
  using verdict_is_true [where parse = Some and n = 1 and base = "''http://s''", OF sample_verified] verified_op_simps(3)
  unfolding sample_truth(2) unfolding sample_truth(1) by auto

theorem verifier_sound_witness:
  "\<exists>ob d l. Verify sample_get ''http://s'' ''t'' verified_op = Inr ob \<and> ob_Outcome ob = OutcomeCompleted
     \<and> answered sample_get ''http://s'' ''t'' verified_op d \<and> reports_effect verified_op d l
     \<and> ob_ExternalReference ob = lt_ReceiptID l"
proof -
  obtain ob where ob: "Verify sample_get ''http://s'' ''t'' verified_op = Inr ob" "ob_Outcome ob = OutcomeCompleted"
    using verify_truth [where parse = Some and base = "''http://s''", OF sample_verified] unfolding sample_truth(2) by auto
  from verifier_sound [OF ob(1), THEN conjunct1, THEN mp, OF ob(2)] ob show ?thesis by blast
qed

end
