(* ===== verification/Worker.thy ===== *)
theory Worker
  imports Coordinator
begin

text \<open>
  \<open>internal/workflow/worker.go\<close>: the restartable worker. It prepares an operation, obtains the
  permission for its one dispatch, sends, confirms, and otherwise waits for what recovery decides.
  The client, the HTTP transport, the hook and the context are functions on the state of the world
  \<open>'w\<close>, which other parties may change within each of them. When the client reports an error, the
  operation beside it is the zero value.
\<close>

section \<open>The worker's surroundings\<close>

record post_request =
  po_url :: string
  po_headers :: "(string \<times> string) list"
  po_body :: string

record 'w worker =
  wk_Prepare :: "PrepareRequest \<Rightarrow> 'w \<Rightarrow> (error + Operation) \<times> 'w"
  wk_BeginRetry :: "uuid \<Rightarrow> int \<Rightarrow> string \<Rightarrow> 'w \<Rightarrow> (error + Operation) \<times> 'w"
  wk_AuthorizeDispatch :: "uuid \<Rightarrow> int \<Rightarrow> 'w \<Rightarrow> (error + Operation) \<times> 'w"
  wk_Confirm :: "uuid \<Rightarrow> ConfirmRequest \<Rightarrow> 'w \<Rightarrow> (error + Operation) \<times> 'w"
  wk_GetOperation :: "uuid \<Rightarrow> 'w \<Rightarrow> (error + Operation) \<times> 'w"
  wk_Post :: "post_request \<Rightarrow> 'w \<Rightarrow> http_result \<times> 'w"
  wk_Hook :: "(string \<Rightarrow> Operation \<Rightarrow> 'w \<Rightarrow> error option \<times> 'w) option"
  wk_Wait :: "'w \<Rightarrow> error option \<times> 'w"   \<comment> \<open>100 ms pass, or the context ends\<close>
  wk_Err :: "'w \<Rightarrow> error option"           \<comment> \<open>\<open>ctx.Err()\<close>\<close>
  wk_SimulatorURL :: string
  wk_SimulatorToken :: string

definition zero_operation :: Operation where
  "zero_operation = \<lparr>op_DispatchAuthorized = False, op_ID = [], op_WorkflowID = [], op_LogicalKey = [],
     op_TargetService = [], op_Action = [], op_RequestFingerprint = [], op_ExpectedEffect = JNull,
     op_CapabilityProfile = [], op_State = OtherState [], op_AttemptCount = 0, op_Version = 0,
     op_PreparedAt = zero_time, op_ConfirmedAt = None, op_ResolvedAt = None, op_CreatedAt = zero_time,
     op_UpdatedAt = zero_time, op_Receipt = None\<rparr>"

definition barrier :: "'w worker \<Rightarrow> string \<Rightarrow> Operation \<Rightarrow> 'w \<Rightarrow> error option \<times> 'w" where
  "barrier wk name op w = (case wk_Hook wk of None \<Rightarrow> (None, w) | Some hook \<Rightarrow> hook name op w)"

definition ErrUncertain :: error where
  "ErrUncertain = PlainError ''external completion is uncertain''"

section \<open>Receipts and sending\<close>

record service_receipt =
  sr_ReceiptID :: string
  sr_OperationID :: string
  sr_Status :: string
  sr_CommittedAt :: time

definition decode_receipt :: "json \<Rightarrow> service_receipt option" where
  "decode_receipt v =
     (case members_of v of
        None \<Rightarrow> None
      | Some ms \<Rightarrow>
          (case (field as_string ''receipt_id'' [] ms, field as_string ''operation_id'' [] ms,
                 field as_string ''status'' [] ms, field as_time ''committed_at'' zero_time ms) of
             (Some r, Some i, Some st, Some t) \<Rightarrow>
               Some \<lparr>sr_ReceiptID = r, sr_OperationID = i, sr_Status = st, sr_CommittedAt = t\<rparr>
           | _ \<Rightarrow> None))"

definition receipt_json :: "service_receipt \<Rightarrow> json" where
  "receipt_json rc = JObj [(''receipt_id'', JStr (sr_ReceiptID rc)), (''operation_id'', JStr (sr_OperationID rc)),
     (''status'', JStr (sr_Status rc)), (''committed_at'', JStr (format_time (sr_CommittedAt rc)))]"

definition send_headers :: "string \<Rightarrow> Operation \<Rightarrow> (string \<times> string) list" where
  "send_headers token op = [(''Authorization'', ''Bearer '' @ token), (''Content-Type'', ''application/json''),
     (''X-Watchkeeper-Operation-ID'', op_ID op)]
     @ (if op_CapabilityProfile op = ''idempotency_only'' then [(''Idempotency-Key'', op_ID op)] else [])"

definition send_request :: "'w worker \<Rightarrow> Operation \<Rightarrow> string \<Rightarrow> post_request" where
  "send_request wk op payload = \<lparr>po_url = wk_SimulatorURL wk @ ''/email/messages'',
     po_headers = send_headers (wk_SimulatorToken wk) op, po_body = payload\<rparr>"

definition read_receipt :: "Operation \<Rightarrow> http_result \<Rightarrow> error + service_receipt" where
  "read_receipt op res =
     (case res of
        TransportError e \<Rightarrow> Inl (PlainError e)
      | Response code body \<Rightarrow>
          if code \<noteq> 201 then Inl (PlainError (''dispatch status '' @ decimal (nat code)))
          else (case Option.bind body decode_receipt of
             None \<Rightarrow> Inl (PlainError ''decode receipt'')
           | Some rc \<Rightarrow>
               if sr_OperationID rc \<noteq> op_ID op \<or> sr_ReceiptID rc = [] \<or> sr_Status rc \<noteq> ''committed''
               then Inl (PlainError ''receipt identity mismatch'') else Inr rc))"

definition send :: "'w worker \<Rightarrow> Operation \<Rightarrow> string \<Rightarrow> 'w \<Rightarrow> (error + service_receipt) \<times> 'w" where
  "send wk op payload w = (case wk_Post wk (send_request wk op payload) w of (res, w1) \<Rightarrow> (read_receipt op res, w1))"

section \<open>Confirming\<close>

definition confirm_request :: "Operation \<Rightarrow> service_receipt \<Rightarrow> ConfirmRequest" where
  "confirm_request op rc = \<lparr>cr_ExpectedVersion = op_Version op, cr_ServiceReceiptID = sr_ReceiptID rc,
     cr_Receipt = marshal (receipt_json rc), cr_ReceivedAt = sr_CommittedAt rc\<rparr>"

text \<open>At most \<open>n\<close> more tries; the answer is the operation and an error, if any.\<close>

fun confirm_loop :: "nat \<Rightarrow> 'w worker \<Rightarrow> Operation \<Rightarrow> service_receipt \<Rightarrow> 'w
    \<Rightarrow> (Operation \<times> error option) \<times> 'w" where
  "confirm_loop 0 wk op rc w = ((op, Some (PlainError ''confirmation could not be persisted'')), w)"
| "confirm_loop (Suc n) wk op rc w =
     (case wk_Confirm wk (op_ID op) (confirm_request op rc) w of
        (Inr confirmed, w1) \<Rightarrow> ((confirmed, None), w1)
      | (Inl err, w1) \<Rightarrow>
          (case wk_GetOperation wk (op_ID op) w1 of
             (Inl getErr, w2) \<Rightarrow> ((op, Some err), w2)
           | (Inr current, w2) \<Rightarrow>
               if op_State current = StateConfirmed then
                 (if map_option rc_ServiceReceiptID (op_Receipt current) = Some (sr_ReceiptID rc)
                  then ((current, None), w2)
                  else ((current, Some (PlainError ''conflicting confirmed receipt'')), w2))
               else if op_State current = StateReconciled then ((current, None), w2)
               else if op_State current \<noteq> StatePrepared then ((current, Some err), w2)
               else confirm_loop n wk current rc w2))"

definition confirm :: "'w worker \<Rightarrow> Operation \<Rightarrow> service_receipt \<Rightarrow> 'w \<Rightarrow> (Operation \<times> error option) \<times> 'w" where
  "confirm wk op rc w = confirm_loop 5 wk op rc w"

section \<open>Execute\<close>

text \<open>One round of the \<open>switch\<close>: \<open>Execute\<close> returns, or goes on waiting with an operation.\<close>

datatype round = Return Operation "error option" | Again Operation

definition dispatch_round :: "'w worker \<Rightarrow> PrepareRequest \<Rightarrow> Operation \<Rightarrow> 'w \<Rightarrow> round \<times> 'w" where
  "dispatch_round wk req op w =
     (case barrier wk ''before_dispatch'' op w of
        (Some err, w1) \<Rightarrow> (Return op (Some err), w1)
      | (None, w1) \<Rightarrow>
          (case wk_AuthorizeDispatch wk (op_ID op) (op_Version op) w1 of
             (Inl grantErr, w2) \<Rightarrow> (Again op, w2)
           | (Inr granted, w2) \<Rightarrow>
               (case send wk granted (pr_Request req) w2 of
                  (Inl sendErr, w3) \<Rightarrow> (Again granted, w3)
                | (Inr receipt, w3) \<Rightarrow>
                    (case barrier wk ''after_response'' granted w3 of
                       (Some err, w4) \<Rightarrow> (Return granted (Some err), w4)
                     | (None, w4) \<Rightarrow>
                         (case confirm wk granted receipt w4 of
                            ((confirmed, Some confirmErr), w5) \<Rightarrow> (Again granted, w5)
                          | ((confirmed, None), w5) \<Rightarrow>
                              (case barrier wk ''after_persistence'' confirmed w5 of
                                 (err, w6) \<Rightarrow> (Return confirmed err, w6)))))))"

definition execute_round :: "'w worker \<Rightarrow> PrepareRequest \<Rightarrow> Operation \<Rightarrow> 'w \<Rightarrow> round \<times> 'w" where
  "execute_round wk req op w =
     (case op_State op of
        StateConfirmed \<Rightarrow> (Return op None, w)
      | StateReconciled \<Rightarrow> (Return op None, w)
      | StateUncertain \<Rightarrow> (Return op (Some ErrUncertain), w)
      | StateRetryable \<Rightarrow>
          (case wk_BeginRetry wk (op_ID op) (op_Version op) ''safe_recovery_retry'' w of
             (Inl err, w1) \<Rightarrow> (Return zero_operation (Some err), w1)
           | (Inr op1, w1) \<Rightarrow> (Again op1, w1))
      | StatePrepared \<Rightarrow>
          if op_DispatchAuthorized op then (Again op, w) else dispatch_round wk req op w
      | OtherState s \<Rightarrow> (Return op (Some (PlainError (''invalid operation state '' @ marshal_string s))), w))"

text \<open>Between rounds: wait, then read the operation again; a failed read keeps the one it has.\<close>

definition poll :: "'w worker \<Rightarrow> Operation \<Rightarrow> 'w \<Rightarrow> round \<times> 'w" where
  "poll wk op w =
     (case wk_Wait wk w of
        (Some err, w1) \<Rightarrow> (Return op (Some err), w1)
      | (None, w1) \<Rightarrow>
          (case wk_GetOperation wk (op_ID op) w1 of
             (Inr current, w2) \<Rightarrow> (Again current, w2)
           | (Inl getErr, w2) \<Rightarrow>
               (case wk_Err wk w2 of
                  Some err \<Rightarrow> (Return op (Some err), w2)
                | None \<Rightarrow> (Again op, w2))))"

text \<open>The loop has no bound of its own: the context ends it. \<open>None\<close> means still waiting after \<open>n\<close> rounds.\<close>

fun execute_loop :: "nat \<Rightarrow> 'w worker \<Rightarrow> PrepareRequest \<Rightarrow> Operation \<Rightarrow> 'w
    \<Rightarrow> (Operation \<times> error option) option \<times> 'w" where
  "execute_loop 0 wk req op w = (None, w)"
| "execute_loop (Suc n) wk req op w =
     (case execute_round wk req op w of
        (Return op1 err, w1) \<Rightarrow> (Some (op1, err), w1)
      | (Again op1, w1) \<Rightarrow>
          (case poll wk op1 w1 of
             (Return op2 err, w2) \<Rightarrow> (Some (op2, err), w2)
           | (Again op2, w2) \<Rightarrow> execute_loop n wk req op2 w2))"

definition Execute :: "nat \<Rightarrow> 'w worker \<Rightarrow> PrepareRequest \<Rightarrow> 'w \<Rightarrow> (Operation \<times> error option) option \<times> 'w" where
  "Execute n wk req w =
     (case barrier wk ''before_intent'' (zero_operation\<lparr>op_LogicalKey := pr_LogicalKey req\<rparr>) w of
        (Some err, w1) \<Rightarrow> (Some (zero_operation, Some err), w1)
      | (None, w1) \<Rightarrow>
          (case wk_Prepare wk req w1 of
             (Inl err, w2) \<Rightarrow> (Some (zero_operation, Some err), w2)
           | (Inr op, w2) \<Rightarrow> execute_loop n wk req op w2))"

end
