(* ===== verification/Worker_Contract.thy ===== *)
theory Worker_Contract
  imports Worker "HOL-Library.Multiset"
begin

text \<open>
  The contract between the worker and its surroundings: what each call keeps of an invariant
  indexed by the dispatch permits the worker holds. A granted \<open>AuthorizeDispatch\<close> adds a permit,
  a post consumes the permit of its operation, a confirmation is only sent for an answered post,
  everything else leaves the permits alone. \<open>Execute\<close> then ends with the permits it began with.
\<close>

text \<open>A permit: the operation and the idempotency key its request carries.\<close>

type_synonym permit = "uuid \<times> string"

definition permit_for :: "Operation \<Rightarrow> permit" where
  "permit_for op = (op_ID op, if op_CapabilityProfile op = ''idempotency_only'' then op_ID op else [])"

locale worker_services =
  fixes wk :: "'w worker"
    and inv :: "permit multiset \<Rightarrow> 'w \<Rightarrow> bool"
    and vouched :: "uuid \<Rightarrow> service_receipt \<Rightarrow> 'w \<Rightarrow> bool"
    and settled :: "Operation \<Rightarrow> 'w \<Rightarrow> bool"
  assumes prepare: "inv P w \<Longrightarrow> wk_Prepare wk req w = (x, w') \<Longrightarrow> inv P w' \<and> (\<forall>op. x = Inr op \<longrightarrow> settled op w')"
    and retry: "inv P w \<Longrightarrow> wk_BeginRetry wk i v reason w = (y, w') \<Longrightarrow> inv P w' \<and> (\<forall>op. y = Inr op \<longrightarrow> settled op w')"
    and get: "inv P w \<Longrightarrow> wk_GetOperation wk i w = (y, w') \<Longrightarrow> inv P w' \<and> (\<forall>op. y = Inr op \<longrightarrow> settled op w')"
    and refused: "inv P w \<Longrightarrow> wk_AuthorizeDispatch wk i v w = (Inl err, w') \<Longrightarrow> inv P w'"
    and granted: "inv P w \<Longrightarrow> wk_AuthorizeDispatch wk i v w = (Inr op, w') \<Longrightarrow> inv (add_mset (permit_for op) P) w' \<and> op_State op = StatePrepared"
    and post: "inv (add_mset (permit_for op) P) w \<Longrightarrow> wk_Post wk (send_request wk op payload) w = (res, w') \<Longrightarrow>
      inv P w' \<and> (\<forall>rc. read_receipt op res = Inr rc \<longrightarrow> vouched (op_ID op) rc w')"
    and confirm: "inv P w \<Longrightarrow> vouched (op_ID op) rc w \<Longrightarrow>
      wk_Confirm wk (op_ID op) (confirm_request op rc) w = (y, w') \<Longrightarrow>
      inv P w' \<and> (\<forall>op. y = Inr op \<longrightarrow> op_State op = StateConfirmed \<and> settled op w')"
    and hook: "inv P w \<Longrightarrow> wk_Hook wk = Some h \<Longrightarrow> h name op w = (z, w') \<Longrightarrow> inv P w'"
    and pause: "inv P w \<Longrightarrow> wk_Wait wk w = (z, w') \<Longrightarrow> inv P w'"
    and get_names: "inv P w \<Longrightarrow> wk_GetOperation wk i w = (Inr op, w') \<Longrightarrow> op_ID op = i"
    and vouched_get: "inv P w \<Longrightarrow> vouched i rc w \<Longrightarrow> vouched i rc (snd (wk_GetOperation wk j w))"
    and vouched_confirm: "inv P w \<Longrightarrow> vouched i rc w \<Longrightarrow> vouched i rc (snd (wk_Confirm wk j cr w))"
    and vouched_hook: "inv P w \<Longrightarrow> wk_Hook wk = Some h \<Longrightarrow> vouched i rc w \<Longrightarrow> vouched i rc (snd (h name op w))"
    and settled_hook: "inv P w \<Longrightarrow> wk_Hook wk = Some h \<Longrightarrow> settled op w \<Longrightarrow> settled op (snd (h name op' w))"
    and settled_pause: "inv P w \<Longrightarrow> settled op w \<Longrightarrow> settled op (snd (wk_Wait wk w))"
    and settled_get: "inv P w \<Longrightarrow> settled op w \<Longrightarrow> settled op (snd (wk_GetOperation wk j w))"
begin

lemma barrier_keeps: "inv P w \<Longrightarrow> barrier wk name op w = (z, w') \<Longrightarrow> inv P w'"
  using hook by (auto simp: barrier_def split: option.splits)

lemma barrier_vouched: "inv P w \<Longrightarrow> vouched i rc w \<Longrightarrow> barrier wk name op w = (z, w') \<Longrightarrow> vouched i rc w'"
  using vouched_hook [of P w _ i rc name op] by (auto simp: barrier_def split: option.splits)

lemma barrier_settled: "inv P w \<Longrightarrow> settled op w \<Longrightarrow> barrier wk name op' w = (z, w') \<Longrightarrow> settled op w'"
  using settled_hook [of P w _ op name op'] by (auto simp: barrier_def split: option.splits)

text \<open>The five tries of a confirmation; a success is a confirmed or reconciled operation.\<close>

lemma confirm_loop_keeps:
  assumes "inv P w" and "vouched (op_ID op) rc w" and "confirm_loop n wk op rc w = ((op', err), w')"
  shows "inv P w' \<and> (err = None \<longrightarrow> op_State op' \<in> {StateConfirmed, StateReconciled} \<and> settled op' w')"
  using assms
proof (induction n arbitrary: op w)
  case (Suc n)
  obtain y w1 where c: "wk_Confirm wk (op_ID op) (confirm_request op rc) w = (y, w1)" by fastforce
  obtain g w2 where g: "wk_GetOperation wk (op_ID op) w1 = (g, w2)" by fastforce
  note k1 = confirm [OF Suc.prems(1,2) c]
  note k2 = get [OF conjunct1 [OF k1] g]
  have v2: "vouched (op_ID op) rc w2"
    using vouched_get [OF conjunct1 [OF k1] , of "op_ID op" rc "op_ID op"]
      vouched_confirm [OF Suc.prems(1,2), of "op_ID op" "confirm_request op rc"] c g by simp
  have same: "op_ID current = op_ID op" if "g = Inr current" for current
    using get_names [OF conjunct1 [OF k1]] g that by simp
  show ?case
  proof (cases y)
    case (Inr confirmed)
    then show ?thesis using Suc.prems(3) c k1 by auto
  next
    case err: (Inl e)
    show ?thesis
    proof (cases g)
      case (Inl e')
      then show ?thesis using Suc.prems(3) c g err k2 by auto
    next
      case (Inr current)
      have "vouched (op_ID current) rc w2" using v2 same [OF Inr] by simp
      from Suc.IH [OF conjunct1 [OF k2] this] show ?thesis
        using Suc.prems(3) c g err Inr k2 by (auto split: if_splits)
    qed
  qed
qed auto

text \<open>A round that goes on holds an operation that is settled if it is final; one that returns without
  an error returns a final operation, settled.\<close>

definition final_state :: "Operation \<Rightarrow> bool" where
  "final_state op \<longleftrightarrow> op_State op \<in> {StateConfirmed, StateReconciled}"

definition good_round :: "round \<Rightarrow> 'w \<Rightarrow> bool" where
  "good_round r w = (case r of
     Return op err \<Rightarrow> err = None \<longrightarrow> final_state op \<and> settled op w
   | Again op \<Rightarrow> final_state op \<longrightarrow> settled op w)"

lemma dispatch_round_keeps:
  assumes "inv P w" and "op_State op = StatePrepared" and "dispatch_round wk req op w = (r, w')"
  shows "inv P w' \<and> good_round r w'"
proof -
  obtain b w1 where b: "barrier wk ''before_dispatch'' op w = (b, w1)" by fastforce
  note i1 = barrier_keeps [OF assms(1) b]
  obtain g w2 where g: "wk_AuthorizeDispatch wk (op_ID op) (op_Version op) w1 = (g, w2)" by fastforce
  show ?thesis
  proof (cases "b = None \<and> is_ok g")
    case False
    then show ?thesis
      using assms(2,3) b g i1 refused [OF i1, of "op_ID op" "op_Version op" _ w2]
      by (cases b; cases g) (auto simp: dispatch_round_def good_round_def final_state_def)
  next
    case True
    then obtain granted where gr: "g = Inr granted" by (auto simp: is_ok_iff)
    note i2 = granted [OF i1 g [unfolded gr]]
    obtain res w3 where p: "wk_Post wk (send_request wk granted (pr_Request req)) w2 = (res, w3)" by fastforce
    note i3 = post [OF conjunct1 [OF i2] p]
    show ?thesis
    proof (cases "read_receipt granted res")
      case (Inl err)
      then show ?thesis
        using assms(3) b g gr True p i2 i3 by (auto simp: dispatch_round_def send_def good_round_def final_state_def)
    next
      case (Inr rc)
      obtain b2 w4 where b2: "barrier wk ''after_response'' granted w3 = (b2, w4)" by fastforce
      note i4 = barrier_keeps [OF conjunct1 [OF i3] b2]
      have v: "vouched (op_ID granted) rc w4" using barrier_vouched [OF conjunct1 [OF i3] _ b2] i3 Inr by blast
      obtain op5 e5 w5 where c: "confirm_loop 5 wk granted rc w4 = ((op5, e5), w5)" by (metis surj_pair)
      note i5 = confirm_loop_keeps [OF i4 v c]
      obtain b3 w6 where b3: "barrier wk ''after_persistence'' op5 w5 = (b3, w6)" by fastforce
      have "inv P w6" "settled op5 w5 \<Longrightarrow> settled op5 w6"
        using barrier_keeps [OF conjunct1 [OF i5] b3] barrier_settled [OF conjunct1 [OF i5] _ b3] by blast+
      then show ?thesis
        using assms(3) b g gr True p Inr b2 c b3 i2 i3 i4 i5
        by (cases b2; cases e5) (auto simp: dispatch_round_def send_def confirm_def good_round_def final_state_def)
    qed
  qed
qed

lemma execute_round_keeps:
  assumes "inv P w" and "final_state op \<longrightarrow> settled op w" and "execute_round wk req op w = (r, w')"
  shows "inv P w' \<and> good_round r w'"
proof (cases "op_State op")
  case StatePrepared
  then show ?thesis
    using assms dispatch_round_keeps [OF assms(1)]
    by (auto simp: execute_round_def good_round_def final_state_def split: if_splits)
next
  case StateRetryable
  obtain y w1 where "wk_BeginRetry wk (op_ID op) (op_Version op) ''safe_recovery_retry'' w = (y, w1)" by fastforce
  with retry [OF assms(1) this] show ?thesis
    using assms(3) StateRetryable by (cases y) (auto simp: execute_round_def good_round_def)
qed (use assms in \<open>auto simp: execute_round_def good_round_def final_state_def\<close>)

lemma poll_keeps:
  assumes "inv P w" and "good_round (Again op) w" and "poll wk op w = (r, w')"
  shows "inv P w' \<and> good_round r w'"
proof -
  obtain z w1 where z: "wk_Wait wk w = (z, w1)" by fastforce
  note i1 = pause [OF assms(1) z]
  obtain g w2 where g: "wk_GetOperation wk (op_ID op) w1 = (g, w2)" by fastforce
  note i2 = get [OF i1 g]
  have "settled op w \<Longrightarrow> settled op w2"
    using settled_get [OF i1, of op "op_ID op"] settled_pause [OF assms(1), of op] z g by simp
  then show ?thesis
    using assms z g i1 i2 by (cases z; cases g) (auto simp: poll_def good_round_def split: option.splits)
qed

lemma execute_loop_keeps:
  assumes "inv P w" and "final_state op \<longrightarrow> settled op w"
  shows "inv P (snd (execute_loop n wk req op w))
    \<and> (\<forall>op'. fst (execute_loop n wk req op w) = Some (op', None)
         \<longrightarrow> final_state op' \<and> settled op' (snd (execute_loop n wk req op w)))"
  using assms
proof (induction n arbitrary: op w)
  case (Suc n)
  obtain r w1 where r: "execute_round wk req op w = (r, w1)" by fastforce
  note i1 = execute_round_keeps [OF Suc.prems r]
  show ?case
  proof (cases r)
    case (Return op1 err)
    then show ?thesis using r i1 by (auto simp: good_round_def)
  next
    case (Again op1)
    obtain q w2 where q: "poll wk op1 w1 = (q, w2)" by fastforce
    note i2 = poll_keeps [OF conjunct1 [OF i1] conjunct2 [OF i1, unfolded Again] q]
    then show ?thesis
      using r q Again Suc.IH by (cases q) (auto simp: good_round_def)
  qed
qed simp

text \<open>The whole run: the invariant holds with the permits it began with, and a success is settled.\<close>

lemma execute_keeps:
  assumes "inv P w"
  shows "inv P (snd (Execute n wk req w))"
    and "fst (Execute n wk req w) = Some (op, None) \<Longrightarrow> op_State op \<in> {StateConfirmed, StateReconciled}
      \<and> settled op (snd (Execute n wk req w))"
proof -
  obtain b w1 where b: "barrier wk ''before_intent'' (zero_operation\<lparr>op_LogicalKey := pr_LogicalKey req\<rparr>) w = (b, w1)"
    by fastforce
  note i1 = barrier_keeps [OF assms b]
  obtain y w2 where y: "wk_Prepare wk req w1 = (y, w2)" by fastforce
  note i2 = prepare [OF i1 y]
  have "inv P (snd (Execute n wk req w)) \<and> (fst (Execute n wk req w) = Some (op, None) \<longrightarrow> final_state op
      \<and> settled op (snd (Execute n wk req w)))"
    using b y i1 i2 execute_loop_keeps [OF conjunct1 [OF i2], of _ n req]
    by (cases b; cases y) (auto simp: Execute_def)
  then show "inv P (snd (Execute n wk req w))"
    and "fst (Execute n wk req w) = Some (op, None) \<Longrightarrow> op_State op \<in> {StateConfirmed, StateReconciled}
      \<and> settled op (snd (Execute n wk req w))"
    by (auto simp: final_state_def)
qed

end

end
