(* ===== verification/System.thy ===== *)
theory System
  imports Worker_Contract Simulator_Safety
begin

text \<open>
  The whole system in small steps: the store, the email service, the dispatch permits workers
  hold, the requests under way and the answers received. Any client calls the store at any time;
  workers follow the discipline of \<open>Execute\<close> (\<open>Worker_Run\<close> proves that they do); messages are
  lost, delayed, and, when they carry an idempotency key, repeated by the transport.
\<close>

section \<open>States and steps\<close>

record system =
  sy_store :: db
  sy_email :: email_db
  sy_permits :: "permit multiset"
  sy_flight :: "request multiset"
  sy_answers :: "(uuid \<times> json response) list"

definition boot :: "uuid list \<Rightarrow> system" where
  "boot runs = \<lparr>sy_store = empty_db runs, sy_email = empty_email, sy_permits = {#}, sy_flight = {#}, sy_answers = []\<rparr>"

definition to_request :: "post_request \<Rightarrow> request" where
  "to_request po = \<lparr>rq_param = [], rq_query = [], rq_headers = po_headers po, rq_body = po_body po\<rparr>"

text \<open>What a request spends: the operation it names and the key it carries.\<close>

definition permit_of :: "request \<Rightarrow> permit" where
  "permit_of rq = (header rq ''X-Watchkeeper-Operation-ID'', header rq ''Idempotency-Key'')"

fun confirms :: "call \<Rightarrow> bool" where
  "confirms (CallConfirm i req) = True"
| "confirms _ = False"

definition answer :: "json response \<Rightarrow> http_result" where
  "answer res = Response (rs_status res) (Some (rs_body res))"

definition delivered :: "uuid_parser \<Rightarrow> sim_server \<Rightarrow> env \<Rightarrow> request \<Rightarrow> system \<Rightarrow> system" where
  "delivered parse sv e rq \<sigma> =
     (case Handler parse sv e (sy_email \<sigma>) SendRoute rq of
        (res, t) \<Rightarrow> \<sigma>\<lparr>sy_email := t, sy_answers := (fst (permit_of rq), res) # sy_answers \<sigma>\<rparr>)"

inductive sys_step :: "uuid_parser \<Rightarrow> sim_server \<Rightarrow> system \<Rightarrow> system \<Rightarrow> bool" for parse sv where
  call: "\<not> confirms c \<Longrightarrow> sys_step parse sv \<sigma> (\<sigma>\<lparr>sy_store := store_exec e c (sy_store \<sigma>)\<rparr>)"
| grant: "AuthorizeDispatch e (sy_store \<sigma>) i v = (Inr op, s') \<Longrightarrow>
    sys_step parse sv \<sigma> (\<sigma>\<lparr>sy_store := s', sy_permits := add_mset (permit_for op) (sy_permits \<sigma>)\<rparr>)"
| post: "permit_of rq \<in># sy_permits \<sigma> \<Longrightarrow>
    sys_step parse sv \<sigma> (\<sigma>\<lparr>sy_permits := sy_permits \<sigma> - {#permit_of rq#}, sy_flight := add_mset rq (sy_flight \<sigma>)\<rparr>)"
| deliver: "rq \<in># sy_flight \<sigma> \<Longrightarrow>
    sys_step parse sv \<sigma> (delivered parse sv e rq (\<sigma>\<lparr>sy_flight := sy_flight \<sigma> - {#rq#}\<rparr>))"
| repeat: "rq \<in># sy_flight \<sigma> \<Longrightarrow> header rq ''Idempotency-Key'' \<noteq> [] \<Longrightarrow>
    sys_step parse sv \<sigma> (delivered parse sv e rq \<sigma>)"
| lose: "sys_step parse sv \<sigma> (\<sigma>\<lparr>sy_flight := sy_flight \<sigma> - {#rq#}\<rparr>)"
| confirm: "(op_ID op, res) \<in> set (sy_answers \<sigma>) \<Longrightarrow> read_receipt op (answer res) = Inr rc \<Longrightarrow>
    sys_step parse sv \<sigma> (\<sigma>\<lparr>sy_store := store_exec e (CallConfirm (op_ID op) (confirm_request op rc)) (sy_store \<sigma>)\<rparr>)"

inductive sys_reachable :: "uuid_parser \<Rightarrow> sim_server \<Rightarrow> system \<Rightarrow> bool" for parse sv where
  boot: "sys_reachable parse sv (boot runs)"
| step: "sys_reachable parse sv \<sigma> \<Longrightarrow> sys_step parse sv \<sigma> \<sigma>' \<Longrightarrow> sys_reachable parse sv \<sigma>'"

inductive_cases sys_stepE: "sys_step parse sv \<sigma> \<sigma>'"

lemma delivered_fields [simp]:
  "sy_store (delivered parse sv e rq \<sigma>) = sy_store \<sigma>"
  "sy_permits (delivered parse sv e rq \<sigma>) = sy_permits \<sigma>"
  "sy_flight (delivered parse sv e rq \<sigma>) = sy_flight \<sigma>"
  "sy_email (delivered parse sv e rq \<sigma>) = snd (Handler parse sv e (sy_email \<sigma>) SendRoute rq)"
  "sy_answers (delivered parse sv e rq \<sigma>) = (fst (permit_of rq), fst (Handler parse sv e (sy_email \<sigma>) SendRoute rq)) # sy_answers \<sigma>"
  by (simp_all add: delivered_def split: prod.splits)

section \<open>The store's share\<close>

lemma sys_step_store: "sys_step parse sv \<sigma> \<sigma>' \<Longrightarrow>
  sy_store \<sigma>' = sy_store \<sigma> \<or> (\<exists>e c. sy_store \<sigma>' = store_exec e c (sy_store \<sigma>))"
proof (induction rule: sys_step.induct)
  case (grant e \<sigma> i v op s')
  then have "sy_store (\<sigma>\<lparr>sy_store := s', sy_permits := add_mset (permit_for op) (sy_permits \<sigma>)\<rparr>)
      = store_exec e (CallAuthorize i v) (sy_store \<sigma>)" by simp
  then show ?case by blast
qed (auto simp del: store_exec.simps)

lemma sys_reachable_store: "sys_reachable parse sv \<sigma> \<Longrightarrow> reachable (sy_store \<sigma>)"
proof (induction rule: sys_reachable.induct)
  case (step \<sigma> \<sigma>')
  then show ?case using sys_step_store [OF step.hyps(2)] reachable.step by auto
qed (simp add: boot_def reachable.initial)

lemma sys_step_email: "sys_step parse sv \<sigma> \<sigma>' \<Longrightarrow>
  sy_email \<sigma>' = sy_email \<sigma> \<or> (\<exists>e rq. sy_email \<sigma>' = snd (Handler parse sv e (sy_email \<sigma>) SendRoute rq))"
  by (induction rule: sys_step.induct) auto

lemma sys_reachable_email: "sys_reachable parse sv \<sigma> \<Longrightarrow> email_inv (sy_email \<sigma>)"
proof (induction rule: sys_reachable.induct)
  case (step \<sigma> \<sigma>')
  then show ?case using sys_step_email [OF step.hyps(2)] handler_inv by metis
qed (simp add: boot_def email_inv_def empty_email_def)

text \<open>Rows keep their identity.\<close>

lemma row_stays:
  assumes "reachable s" and "op_at s i = Some r"
  shows "\<exists>r'. op_at (store_exec e c s) i = Some r' \<and> o_profile r' = o_profile r"
  using row_write_keeps
  by (cases rule: store_exec_row [OF reachable_inv [OF assms(1)] assms(2), of e c]) auto

lemma dispatches_grow: "dispatches (events_of j s) \<le> dispatches (events_of j (store_exec e c s))"
  using store_exec_events [of e c s] by (auto simp: events_of_def dispatches_def)

section \<open>Accounting\<close>

text \<open>The store's identifiers are in the form PostgreSQL prints.\<close>

definition canonical :: "uuid_parser \<Rightarrow> db \<Rightarrow> bool" where
  "canonical parse s \<longleftrightarrow> (\<forall>r \<in> set (operations s). parse (o_id r) = Some (o_id r))"

definition known :: "db \<Rightarrow> permit \<Rightarrow> bool" where
  "known s p \<longleftrightarrow> (\<exists>r. op_at s (fst p) = Some r
     \<and> snd p = (if o_profile r = ''idempotency_only'' then fst p else []))"

lemma known_parse: "canonical parse s \<Longrightarrow> known s p \<Longrightarrow> parse (fst p) = Some (fst p)"
  using lookup_by_Some unfolding canonical_def known_def by metis

lemma known_stays: "reachable s \<Longrightarrow> known s p \<Longrightarrow> known (store_exec e c s) p"
  using row_stays unfolding known_def by metis

lemma canonical_back:
  assumes "reachable s" and "canonical parse (store_exec e c s)"
  shows "canonical parse s"
  unfolding canonical_def
proof
  fix r assume "r \<in> set (operations s)"
  then have "op_at s (o_id r) = Some r"
    using reachable_inv [OF assms(1)] by (auto simp: store_inv_def intro: lookup_by_distinct)
  then obtain r' where "op_at (store_exec e c s) (o_id r) = Some r'" using row_stays [OF assms(1)] by blast
  then show "parse (o_id r) = Some (o_id r)"
    using assms(2) lookup_by_Some unfolding canonical_def by metis
qed

lemma sys_canonical_back: "sys_reachable parse sv \<sigma> \<Longrightarrow> sys_step parse sv \<sigma> \<sigma>' \<Longrightarrow>
  canonical parse (sy_store \<sigma>') \<Longrightarrow> canonical parse (sy_store \<sigma>)"
  using sys_step_store canonical_back sys_reachable_store by metis

lemma grant_ok:
  assumes "AuthorizeDispatch e s i v = (Inr op, s')"
  shows "op_ID op = i" "op_State op = StatePrepared" "known s' (permit_for op)"
    "dispatches (events_of j s') = dispatches (events_of j s) + (if j = i then 1 else 0)"
proof -
  have "authorize_body e s i v = Inr (op, s')" using assms by (simp add: AuthorizeDispatch_def run_tx_Inr)
  then obtain r w where r: "op_at s i = Some r" "o_state r = StatePrepared" "op = scanOperation w (authorize_row e r)"
    "s' = append_event e i ''dispatch_authorized'' (Some StatePrepared) (Some StatePrepared) (v + 1)
       ''worker'' ''workflow-worker'' ''single_send_authorized'' [] (update_op i (authorize_row e) s)"
    by (rule authorize_ok)
  show "op_ID op = i" "op_State op = StatePrepared"
    using r op_at_id [OF r(1)] by (simp_all add: authorize_row_def)
  then show "known s' (permit_for op)" using r by (simp add: known_def permit_for_def store_simps authorize_row_def)
  show "dispatches (events_of j s') = dispatches (events_of j s) + (if j = i then 1 else 0)"
    by (simp add: r(4) store_simps dispatches_def is_dispatch_def events_of_cong [of "update_op i (authorize_row e) s" s])
qed

text \<open>Everything under way belongs to an operation of the store and is labelled as the worker labels it.\<close>

definition sys_wf :: "system \<Rightarrow> bool" where
  "sys_wf \<sigma> \<longleftrightarrow> (\<forall>p \<in># sy_permits \<sigma>. known (sy_store \<sigma>) p)
     \<and> (\<forall>rq \<in># sy_flight \<sigma>. known (sy_store \<sigma>) (permit_of rq))"

lemma sys_wf_store: "sys_wf \<sigma> \<Longrightarrow> reachable (sy_store \<sigma>) \<Longrightarrow> sys_wf (\<sigma>\<lparr>sy_store := store_exec e c (sy_store \<sigma>)\<rparr>)"
  by (auto simp: sys_wf_def known_stays)

lemma sys_step_wf:
  assumes "sys_step parse sv \<sigma> \<sigma>'" and "sys_wf \<sigma>" and "reachable (sy_store \<sigma>)"
  shows "sys_wf \<sigma>'"
  using assms
proof (induction rule: sys_step.induct)
  case (grant e \<sigma> i v op s')
  have "s' = store_exec e (CallAuthorize i v) (sy_store \<sigma>)" using grant.hyps by simp
  moreover have "known s' (permit_for op)" by (rule grant_ok(3) [OF grant.hyps])
  ultimately show ?case using sys_wf_store [OF grant.prems, of e "CallAuthorize i v"] by (simp add: sys_wf_def)
next
  case (post rq \<sigma>)
  then show ?case by (auto simp: sys_wf_def dest: in_diffD)
next
  case (deliver rq \<sigma> e)
  then show ?case by (fastforce simp: sys_wf_def dest: in_diffD)
next
  case (repeat rq \<sigma> e)
  then show ?case by (fastforce simp: sys_wf_def)
next
  case (lose \<sigma> rq)
  then show ?case by (auto simp: sys_wf_def dest: in_diffD)
qed (simp_all add: sys_wf_store del: store_exec.simps)

lemma sys_reachable_wf: "sys_reachable parse sv \<sigma> \<Longrightarrow> sys_wf \<sigma>"
proof (induction rule: sys_reachable.induct)
  case (step \<sigma> \<sigma>')
  then show ?case using sys_step_wf sys_reachable_store by blast
qed (simp add: sys_wf_def boot_def)

text \<open>What is still to come of an operation's dispatches.\<close>

definition outstanding :: "system \<Rightarrow> uuid \<Rightarrow> nat" where
  "outstanding \<sigma> j = size (filter_mset (\<lambda>p. fst p = j) (sy_permits \<sigma>))
     + size (filter_mset (\<lambda>rq. fst (permit_of rq) = j) (sy_flight \<sigma>))"

lemma send_effects:
  "effects_for (snd (Handler parse sv e t SendRoute rq)) k
    \<le> effects_for t k + (if parse (header rq ''X-Watchkeeper-Operation-ID'') = k then 1 else 0)"
  using handler_cases [of parse sv e t SendRoute rq] send_commits [of parse sv e t rq]
    email.at_most_one [where q = "(header rq ''X-Watchkeeper-Operation-ID'', er)" and parse = parse and e = e and s = t and k = k for er]
  by auto

definition keyed_row :: "db \<Rightarrow> uuid \<Rightarrow> bool" where
  "keyed_row s j \<longleftrightarrow> (\<exists>r. op_at s j = Some r \<and> o_profile r = ''idempotency_only'')"

lemma keyed_row_known: "known s p \<Longrightarrow> snd p = (if keyed_row s (fst p) then fst p else [])"
  by (auto simp: known_def keyed_row_def)

lemma keyed_row_stays: "reachable s \<Longrightarrow> keyed_row s j \<Longrightarrow> keyed_row (store_exec e c s) j"
  using row_stays unfolding keyed_row_def by metis

end
