(* ===== verification/System_Scenario.thy ===== *)
theory System_Scenario
  imports System
begin

text \<open>
  One concrete history of the whole system, for either kind of profile: an operation is prepared
  and granted, its request is posted and delivered, and the receipt is confirmed.
\<close>

lemma single_key: "map key t = [i] \<Longrightarrow> r \<in> set t \<Longrightarrow> key r = i"
  by (cases t) auto

definition demo_parse :: uuid_parser where
  "demo_parse s = (if s = [] then None else Some s)"

definition demo_service :: "string \<Rightarrow> sim_server" where
  "demo_service p = (NewServer ''t'' ''adm'')\<lparr>sv_Profile := p\<rparr>"

definition demo_prepared :: "string \<Rightarrow> db" where
  "demo_prepared p = store_exec (env_at ''a'' 0) (CallPrepare (sample_request\<lparr>pr_CapabilityProfile := p\<rparr>)) (empty_db [])"

definition demo_op :: "string \<Rightarrow> Operation" where
  "demo_op p = projr (fst (AuthorizeDispatch (env_at ''b'' 1) (demo_prepared p) ''aoperation'' 1))"

definition demo_granted :: "string \<Rightarrow> db" where
  "demo_granted p = snd (AuthorizeDispatch (env_at ''b'' 1) (demo_prepared p) ''aoperation'' 1)"

definition demo_rq :: "string \<Rightarrow> request" where
  "demo_rq p = to_request \<lparr>po_url = ''/email/messages'', po_headers = send_headers ''t'' (demo_op p), po_body = rq_body sample_send\<rparr>"

definition demo_delivered :: "string \<Rightarrow> system" where
  "demo_delivered p = delivered demo_parse (demo_service p) (env_at ''n'' 7) (demo_rq p)
     ((boot [])\<lparr>sy_store := demo_granted p\<rparr>)"

lemma demo_op_value: "demo_op p = scanOperation \<lparr>w_id = ''aworkflow'', w_external = ''w'', w_strategy = StrategyWatchkeeper,
    w_experiment = None\<rparr> (authorize_row (env_at ''b'' 1) (new_op_row (env_at ''a'' 0) ''aoperation'' ''aworkflow''
      (sample_request\<lparr>pr_CapabilityProfile := p\<rparr>) (JObj []) (JObj [])))"
  by (simp add: demo_op_def demo_prepared_def sample_request_def exec_simps)

lemma demo_grant: "AuthorizeDispatch (env_at ''b'' 1) (demo_prepared p) ''aoperation'' 1 = (Inr (demo_op p), demo_granted p)"
  by (simp add: demo_op_def demo_granted_def demo_prepared_def sample_request_def exec_simps)

lemma demo_row: "op_at (demo_granted p) ''aoperation'' = Some (authorize_row (env_at ''b'' 1) (new_op_row (env_at ''a'' 0)
    ''aoperation'' ''aworkflow'' (sample_request\<lparr>pr_CapabilityProfile := p\<rparr>) (JObj []) (JObj [])))"
  and demo_ids: "map o_id (operations (demo_granted p)) = [''aoperation'']"
  by (simp_all add: demo_granted_def demo_prepared_def sample_request_def exec_simps)

lemma demo_permit: "permit_of (demo_rq p) = permit_for (demo_op p)"
  by (simp add: permit_of_def demo_rq_def to_request_def header_def send_headers_def permit_for_def)

lemma demo_reachable: "sys_reachable demo_parse (demo_service p) (demo_delivered p)"
proof -
  let ?s0 = "(boot [])\<lparr>sy_store := demo_prepared p\<rparr>"
  let ?s1 = "?s0\<lparr>sy_store := demo_granted p, sy_permits := {#permit_for (demo_op p)#}\<rparr>"
  let ?s2 = "?s1\<lparr>sy_permits := {#}, sy_flight := {#demo_rq p#}\<rparr>"
  have "sys_step demo_parse (demo_service p) (boot []) ?s0"
    using sys_step.call [where c = "CallPrepare (sample_request\<lparr>pr_CapabilityProfile := p\<rparr>)" and \<sigma> = "boot []"
        and e = "env_at ''a'' 0"] by (simp add: demo_prepared_def boot_def)
  moreover have "sys_step demo_parse (demo_service p) ?s0 ?s1"
    using sys_step.grant [where \<sigma> = ?s0, of "env_at ''b'' 1", OF _, of "''aoperation''" 1 "demo_op p" "demo_granted p"]
      demo_grant by (simp add: boot_def)
  moreover have "sys_step demo_parse (demo_service p) ?s1 ?s2"
    using sys_step.post [where \<sigma> = ?s1 and rq = "demo_rq p"] demo_permit [of p] by (simp add: boot_def)
  moreover have "sys_step demo_parse (demo_service p) ?s2 (demo_delivered p)"
    using sys_step.deliver [where \<sigma> = ?s2 and rq = "demo_rq p" and e = "env_at ''n'' 7"]
    by (simp add: boot_def demo_delivered_def)
  ultimately show ?thesis by (meson sys_reachable.intros)
qed

lemma demo_canonical: "canonical demo_parse (sy_store (demo_delivered p))"
proof -
  have "r \<in> set (operations (demo_granted p)) \<Longrightarrow> o_id r = ''aoperation''" for r
    by (rule single_key [OF demo_ids])
  then show ?thesis by (auto simp: canonical_def demo_delivered_def demo_parse_def)
qed

lemma demo_send: "bearer_ok (sv_token (demo_service p)) (demo_rq p)"
  "header (demo_rq p) ''X-Watchkeeper-Operation-ID'' = ''aoperation''"
  "header (demo_rq p) ''Idempotency-Key'' = (if p = ''idempotency_only'' then ''aoperation'' else [])"
  "rq_body (demo_rq p) = rq_body sample_send"
  by (simp_all add: demo_service_def NewServer_def demo_rq_def to_request_def send_headers_def bearer_ok_def header_def
      trim_prefix_def demo_op_value authorize_row_def new_op_row_def sample_request_def)

definition demo_effect :: EmailEffect where
  "demo_effect = \<lparr>ee_ReceiptID = ''neffect'', ee_OperationID = ''aoperation'', ee_Recipient = ''r'', ee_Template = ''t'',
     ee_LogicalMessageKey = ''m'', ee_CommittedAt = 7\<rparr>"

lemma demo_handled:
  "fst (Handler demo_parse (demo_service p) (env_at ''n'' 7) empty_email SendRoute (demo_rq p)) = \<lparr>rs_status = 201,
     rs_body = JObj [(''committed_at'', JStr (format_time 7)), (''operation_id'', JStr ''aoperation''),
       (''receipt_id'', JStr ''neffect''), (''status'', JStr ''committed'')]\<rparr>"
  "effects (snd (Handler demo_parse (demo_service p) (env_at ''n'' 7) empty_email SendRoute (demo_rq p))) = [demo_effect]"
  by (simp_all only: Handler.simps demo_send(1) if_True)
    (simp_all add: send_def demo_send sample_decode demo_service_def NewServer_def demo_parse_def demo_effect_def
      Commit_def email_tx_def commit_body_def insert_effect_def new_effect_def empty_email_def env_simps Let_def)

lemma demo_effects: "effects_for (sy_email (demo_delivered p)) (Some ''aoperation'') = 1"
  by (simp add: demo_delivered_def boot_def effects_for_def demo_handled demo_effect_def del: Handler.simps)

lemma demo_store: "sy_store (demo_delivered p) = demo_granted p"
  by (simp add: demo_delivered_def)

text \<open>The receipt and its confirmation.\<close>

definition demo_receipt :: service_receipt where
  "demo_receipt = \<lparr>sr_ReceiptID = ''neffect'', sr_OperationID = ''aoperation'', sr_Status = ''committed'', sr_CommittedAt = 7\<rparr>"

lemma demo_decode: "decode_receipt (JObj [(''committed_at'', JStr (format_time 7)), (''operation_id'', JStr ''aoperation''),
    (''receipt_id'', JStr ''neffect''), (''status'', JStr ''committed'')]) = Some demo_receipt"
  by code_simp

lemma demo_answer: "(op_ID (demo_op p), fst (Handler demo_parse (demo_service p) (env_at ''n'' 7) empty_email SendRoute (demo_rq p)))
    \<in> set (sy_answers (demo_delivered p))"
  "read_receipt (demo_op p) (answer (fst (Handler demo_parse (demo_service p) (env_at ''n'' 7) empty_email SendRoute (demo_rq p))))
    = Inr demo_receipt"
proof -
  show "(op_ID (demo_op p), fst (Handler demo_parse (demo_service p) (env_at ''n'' 7) empty_email SendRoute (demo_rq p)))
      \<in> set (sy_answers (demo_delivered p))"
    by (simp add: demo_delivered_def boot_def demo_permit permit_for_def del: Handler.simps)
  have "op_ID (demo_op p) = ''aoperation''" by (simp add: demo_op_value authorize_row_def new_op_row_def)
  then show "read_receipt (demo_op p) (answer (fst (Handler demo_parse (demo_service p) (env_at ''n'' 7) empty_email SendRoute
      (demo_rq p)))) = Inr demo_receipt"
    unfolding demo_handled by (simp add: read_receipt_def answer_def demo_decode, simp add: demo_receipt_def)
qed

definition demo_confirmed :: "string \<Rightarrow> system" where
  "demo_confirmed p = (demo_delivered p)\<lparr>sy_store := store_exec (env_at ''c'' 8)
     (CallConfirm (op_ID (demo_op p)) (confirm_request (demo_op p) demo_receipt)) (sy_store (demo_delivered p))\<rparr>"

lemma demo_confirm_reachable: "sys_reachable demo_parse (demo_service p) (demo_confirmed p)"
  unfolding demo_confirmed_def
  by (rule sys_reachable.step [OF demo_reachable sys_step.confirm [OF demo_answer]])

lemma demo_document:
  "CanonicalJSON (marshal (receipt_json demo_receipt)) = Inr ''{\"committed_at\":\"1970-01-01T00:00:00.000000007Z\",\"operation_id\":\"aoperation\",\"receipt_id\":\"neffect\",\"status\":\"committed\"}''"
  "jsonb (marshal (receipt_json demo_receipt)) = Some (receipt_json demo_receipt)"
  by code_simp+

lemma demo_confirmed_row: "op_at (sy_store (demo_confirmed p)) ''aoperation'' = Some (confirm_row (env_at ''c'' 8)
    (authorize_row (env_at ''b'' 1) (new_op_row (env_at ''a'' 0) ''aoperation'' ''aworkflow''
      (sample_request\<lparr>pr_CapabilityProfile := p\<rparr>) (JObj []) (JObj []))))"
  and demo_confirmed_ids: "map o_id (operations (sy_store (demo_confirmed p))) = [''aoperation'']"
proof -
  have fp: "ReceiptFingerprint (cr_Receipt (confirm_request (demo_op p) demo_receipt))
      = Inr (sha256_hex (projr (CanonicalJSON (marshal (receipt_json demo_receipt)))))"
    by (simp add: ReceiptFingerprint_def confirm_request_def demo_document)
  have doc: "jsonb (cr_Receipt (confirm_request (demo_op p) demo_receipt)) = Some (receipt_json demo_receipt)"
    by (simp add: confirm_request_def demo_document)
  have v: "cr_ExpectedVersion (confirm_request (demo_op p) demo_receipt) = 2" "op_ID (demo_op p) = ''aoperation''"
    by (simp_all add: confirm_request_def demo_op_value authorize_row_def new_op_row_def)
  show "op_at (sy_store (demo_confirmed p)) ''aoperation'' = Some (confirm_row (env_at ''c'' 8)
      (authorize_row (env_at ''b'' 1) (new_op_row (env_at ''a'' 0) ''aoperation'' ''aworkflow''
        (sample_request\<lparr>pr_CapabilityProfile := p\<rparr>) (JObj []) (JObj []))))"
    and "map o_id (operations (sy_store (demo_confirmed p))) = [''aoperation'']"
    by (simp_all add: demo_confirmed_def demo_store v, simp_all add: demo_granted_def demo_prepared_def exec_simps fp doc v
        sample_request_def)
qed

lemma demo_confirmed_canonical: "canonical demo_parse (sy_store (demo_confirmed p))"
proof -
  have "r \<in> set (operations (sy_store (demo_confirmed p))) \<Longrightarrow> o_id r = ''aoperation''" for r
    by (rule single_key [OF demo_confirmed_ids])
  then show ?thesis by (auto simp: canonical_def demo_parse_def)
qed

end
