(* ===== verification/System_Safety.thy ===== *)
theory System_Safety
  imports System_Scenario
begin

text \<open>
  How many effects the whole system can cause, over every interleaving of clients, workers,
  crashes and message faults.
\<close>

section \<open>Effects against dispatches\<close>

definition bounded :: "system \<Rightarrow> uuid \<Rightarrow> bool" where
  "bounded \<sigma> j \<longleftrightarrow> keyed_row (sy_store \<sigma>) j
     \<or> effects_for (sy_email \<sigma>) (Some j) + outstanding \<sigma> j \<le> dispatches (events_of j (sy_store \<sigma>))"

lemma bounded_store:
  assumes "bounded \<sigma> j" and "reachable (sy_store \<sigma>)"
  shows "bounded (\<sigma>\<lparr>sy_store := store_exec e c (sy_store \<sigma>)\<rparr>) j"
  using assms keyed_row_stays [OF assms(2)] dispatches_grow [of j "sy_store \<sigma>" e c]
  by (auto simp: bounded_def outstanding_def simp del: store_exec.simps)

lemma size_filter_remove:
  "x \<in># M \<Longrightarrow> size (filter_mset P M) = size (filter_mset P (M - {#x#})) + (if P x then 1 else 0)"
  by (auto dest!: multi_member_split)

lemma size_filter_minus: "size (filter_mset P (M - N)) \<le> size (filter_mset P M)"
  by (simp add: size_mset_mono multiset_filter_mono)

lemma delivered_effects:
  assumes "known s (permit_of rq)" and "canonical parse s"
  shows "effects_for (snd (Handler parse sv e t SendRoute rq)) (Some j)
    \<le> effects_for t (Some j) + (if j = fst (permit_of rq) then 1 else 0)"
  using send_effects [of parse sv e t rq "Some j"] known_parse [OF assms(2,1)]
  by (auto simp: permit_of_def split: if_splits)

lemma sys_step_bounded:
  assumes "sys_step parse sv \<sigma> \<sigma>'" and "bounded \<sigma> j" and "sys_wf \<sigma>" and "reachable (sy_store \<sigma>)"
    and "canonical parse (sy_store \<sigma>)"
  shows "bounded \<sigma>' j"
  using assms
proof (induction rule: sys_step.induct)
  case (grant e \<sigma> i v op s')
  have s': "s' = store_exec e (CallAuthorize i v) (sy_store \<sigma>)" using grant.hyps by simp
  have "keyed_row (sy_store \<sigma>) j \<Longrightarrow> keyed_row s' j"
    unfolding s' by (rule keyed_row_stays [OF grant.prems(3)])
  with grant.prems(1) grant_ok(1,4) [OF grant.hyps] show ?case
    by (auto simp: bounded_def outstanding_def permit_for_def)
next
  case (post rq \<sigma>)
  have "outstanding (\<sigma>\<lparr>sy_permits := sy_permits \<sigma> - {#permit_of rq#}, sy_flight := add_mset rq (sy_flight \<sigma>)\<rparr>) j
      = outstanding \<sigma> j"
    unfolding outstanding_def size_filter_remove [OF post.hyps, of "\<lambda>p. fst p = j"] by simp
  with post.prems(1) show ?case by (simp add: bounded_def)
next
  case (deliver rq \<sigma> e)
  let ?\<sigma>' = "delivered parse sv e rq (\<sigma>\<lparr>sy_flight := sy_flight \<sigma> - {#rq#}\<rparr>)"
  from deliver have k: "known (sy_store \<sigma>) (permit_of rq)" by (auto simp: sys_wf_def)
  have "outstanding \<sigma> j = outstanding ?\<sigma>' j + (if fst (permit_of rq) = j then 1 else 0)"
    unfolding outstanding_def size_filter_remove [OF deliver.hyps, of "\<lambda>rq. fst (permit_of rq) = j"] by simp
  moreover have "effects_for (sy_email ?\<sigma>') (Some j)
      \<le> effects_for (sy_email \<sigma>) (Some j) + (if j = fst (permit_of rq) then 1 else 0)"
    using delivered_effects [OF k deliver.prems(4)] by simp
  ultimately show ?case
    using deliver.prems(1) unfolding bounded_def delivered_fields system.simps by (auto simp del: Handler.simps split: if_splits)
next
  case (repeat rq \<sigma> e)
  then have k: "known (sy_store \<sigma>) (permit_of rq)" by (auto simp: sys_wf_def)
  show ?case
  proof (cases "j = fst (permit_of rq)")
    case True
    have "snd (permit_of rq) \<noteq> []" using repeat.hyps(2) by (simp add: permit_of_def)
    then have "keyed_row (sy_store \<sigma>) j" using keyed_row_known [OF k] unfolding True by presburger
    then show ?thesis by (simp add: bounded_def)
  next
    case False
    then show ?thesis
      using delivered_effects [OF k repeat.prems(4), of sv e "sy_email \<sigma>" j] repeat.prems(1)
      unfolding bounded_def delivered_fields outstanding_def by (auto simp del: Handler.simps)
  qed
next
  case (lose \<sigma> rq)
  then show ?case
    using size_filter_minus [of "\<lambda>rq. fst (permit_of rq) = j" "sy_flight \<sigma>" "{#rq#}"]
    by (auto simp: bounded_def outstanding_def)
qed (simp_all add: bounded_store del: store_exec.simps)

lemma sys_bounded:
  "sys_reachable parse sv \<sigma> \<Longrightarrow> canonical parse (sy_store \<sigma>) \<Longrightarrow> bounded \<sigma> j"
proof (induction rule: sys_reachable.induct)
  case (step \<sigma> \<sigma>')
  from sys_canonical_back [OF step.hyps step.prems] step.IH
  show ?case using sys_step_bounded [OF step.hyps(2)] sys_reachable_wf sys_reachable_store step.hyps(1) by blast
qed (simp add: bounded_def boot_def outstanding_def empty_email_def effects_for_def)

text \<open>Dispatches are paid for by licences.\<close>

definition licences :: "Event list \<Rightarrow> nat" where
  "licences evs = length (filter licenses_resend evs)"

lemma life_run_licences:
  "life_run p evs l \<Longrightarrow> dispatches evs \<le> licences evs + (if pending evs then 1 else 0)"
proof (induction rule: life_run.induct)
  case (start ev)
  then show ?case by (simp add: dispatches_def event_kinds signs_intent_def)
next
  case (step evs l ev l')
  show ?case
  proof (cases "is_dispatch ev")
    case True
    with step.hyps(2) have "\<not> l_auth l" by (cases rule: life_step.cases) (auto simp: is_dispatch_def signs_def)
    then have "\<not> pending evs" using life_run_pending [OF step.hyps(1)] by blast
    then show ?thesis
      using step.IH True by (simp add: dispatches_def licences_def pending_from_append event_kinds)
  next
    case False
    then show ?thesis
      using step.IH by (auto simp: dispatches_def licences_def pending_from_append split: if_splits)
  qed
qed

text \<open>Without the idempotency profile only an operator's finding is a licence.\<close>

lemma manual_licences:
  assumes "reachable s" and "op_at s i = Some r" and "o_profile r \<noteq> ''idempotency_only''"
  shows "licences (events_of i s) = length (filter manual_absent_event (events_of i s))"
proof -
  have "\<forall>ev \<in> set (events_of i s). \<not> replay_event ev"
    using life_run_replay [OF store_invD(1) [OF reachable_inv [OF assms(1)] assms(2)]] assms(3) by blast
  then have "filter licenses_resend (events_of i s) = filter manual_absent_event (events_of i s)"
    by (auto simp: licenses_resend_def intro: filter_cong)
  then show ?thesis by (simp add: licences_def)
qed

text \<open>C24. At most once without a key: over every interleaving of clients, workers, coordinators, operators,
  crashes, lost and delayed messages, the external service performs at most one effect for an operation
  of any profile but \<open>idempotency_only\<close>, plus one for each time an operator declared the effect absent.
  (An operation of the idempotency profile may be sent again by recovery and by the transport: whether
  that repeats the effect is up to the service's keys, C25.)\<close>

theorem at_most_once:
  assumes "sys_reachable parse sv \<sigma>" and "canonical parse (sy_store \<sigma>)"
    and "op_at (sy_store \<sigma>) i = Some r" and "o_profile r \<noteq> ''idempotency_only''"
  shows "effects_for (sy_email \<sigma>) (Some i) \<le> 1 + length (filter manual_absent_event (events_of i (sy_store \<sigma>)))"
proof -
  have "\<not> keyed_row (sy_store \<sigma>) i" using assms(3,4) by (simp add: keyed_row_def)
  then have "effects_for (sy_email \<sigma>) (Some i) \<le> dispatches (events_of i (sy_store \<sigma>))"
    using sys_bounded [OF assms(1,2), of i] by (simp add: bounded_def)
  also have "\<dots> \<le> licences (events_of i (sy_store \<sigma>)) + 1"
    using life_run_licences [OF store_invD(1) [OF reachable_inv [OF sys_reachable_store [OF assms(1)]] assms(3)]]
    by (auto split: if_splits)
  finally show ?thesis
    using manual_licences [OF sys_reachable_store [OF assms(1)] assms(3,4)] by simp
qed

theorem at_most_once_witness:
  "effects_for (sy_email (demo_delivered ''opaque'')) (Some ''aoperation'') = 1
   \<and> effects_for (sy_email (demo_delivered ''opaque'')) (Some ''aoperation'')
     \<le> 1 + length (filter manual_absent_event (events_of ''aoperation'' (sy_store (demo_delivered ''opaque''))))"
proof -
  have "op_at (sy_store (demo_delivered ''opaque'')) ''aoperation'' \<noteq> None" by (simp add: demo_store demo_row)
  then obtain r where r: "op_at (sy_store (demo_delivered ''opaque'')) ''aoperation'' = Some r" by blast
  then have "o_profile r \<noteq> ''idempotency_only''" by (auto simp: demo_store demo_row authorize_row_def new_op_row_def)
  from at_most_once [OF demo_reachable demo_canonical r this] show ?thesis using demo_effects by blast
qed

section \<open>Effects under a durable key\<close>

lemma absent_no_effects:
  assumes "sys_reachable parse sv \<sigma>" and "canonical parse (sy_store \<sigma>)" and "op_at (sy_store \<sigma>) j = None"
  shows "effects_for (sy_email \<sigma>) (Some j) = 0"
proof -
  have "events_of j (sy_store \<sigma>) = []"
    using reachable_inv [OF sys_reachable_store [OF assms(1)]] assms(3) by (auto simp: store_inv_def)
  moreover have "\<not> keyed_row (sy_store \<sigma>) j" using assms(3) by (simp add: keyed_row_def)
  ultimately show ?thesis using sys_bounded [OF assms(1,2), of j] by (simp add: bounded_def dispatches_def)
qed

lemma keyed_row_back:
  assumes "reachable s" and "keyed_row (store_exec e c s) j"
  shows "keyed_row s j \<or> op_at s j = None"
proof (cases "op_at s j")
  case (Some r)
  with row_stays [OF assms(1) Some, of e c] assms(2) show ?thesis by (auto simp: keyed_row_def)
qed simp

lemma commit_keyed:
  assumes "er_IdempotencyKey er = j" and "j \<noteq> []" and "parse j = Some j"
  shows "let t' = snd (Commit parse e t j er) in
      effects_for t' (Some j) = effects_for t (Some j) \<and> email_keys t' = email_keys t
    \<or> lookup_by k_key j (email_keys t) = None \<and> lookup_by k_key j (email_keys t') \<noteq> None
      \<and> effects_for t' (Some j) = effects_for t (Some j) + 1"
proof (cases rule: email_tx_cases [of e t "commit_body parse e t j er"])
  case (2 f)
  then show ?thesis
    by (cases rule: commit_body_ok)
      (use assms in \<open>auto simp: Commit_def effects_for_def new_effect_def lookup_by_append Let_def\<close>)
qed (simp add: Commit_def Let_def)

lemma commit_keys_stay:
  "lookup_by k_key j (email_keys t) \<noteq> None \<Longrightarrow> lookup_by k_key j (email_keys (snd (Commit parse e t i er))) \<noteq> None"
proof (cases rule: email_tx_cases [of e t "commit_body parse e t i er"])
  case (2 f)
  then show "lookup_by k_key j (email_keys t) \<noteq> None \<Longrightarrow> ?thesis"
    by (cases rule: commit_body_ok) (auto simp: Commit_def lookup_by_append)
qed (simp add: Commit_def)

definition spent_key :: "email_db \<Rightarrow> uuid \<Rightarrow> bool" where
  "spent_key t j \<longleftrightarrow> effects_for t (Some j) \<le> 1
     \<and> (effects_for t (Some j) = 1 \<longrightarrow> lookup_by k_key j (email_keys t) \<noteq> None)"

definition keyed_once :: "system \<Rightarrow> uuid \<Rightarrow> bool" where
  "keyed_once \<sigma> j \<longleftrightarrow> (keyed_row (sy_store \<sigma>) j \<longrightarrow> spent_key (sy_email \<sigma>) j)"

lemma handled_spent:
  assumes k: "known s (permit_of rq)" and "canonical parse s" and "sv_Profile sv = ''idempotency_only''"
    and "parse [] = None" and "keyed_row s j" and "spent_key t j"
  shows "spent_key (snd (Handler parse sv e t SendRoute rq)) j"
proof (cases "snd (Handler parse sv e t SendRoute rq) = t")
  case False
  let ?i = "header rq ''X-Watchkeeper-Operation-ID''"
  have id: "parse ?i = Some ?i" using known_parse [OF assms(2) k] by (simp add: permit_of_def)
  from False obtain er where t': "snd (Handler parse sv e t SendRoute rq) = snd (Commit parse e t ?i er)"
    and key: "er_IdempotencyKey er = header rq ''Idempotency-Key''"
    using handler_cases [of parse sv e t SendRoute rq] send_commits [of parse sv e t rq] assms(3)
    by (auto simp del: Handler.simps)
  show ?thesis
  proof (cases "j = ?i")
    case True
    then have "keyed_row s (fst (permit_of rq))" using assms(5) by (simp add: permit_of_def)
    then have "er_IdempotencyKey er = j"
      using keyed_row_known [OF k] key True by (simp add: permit_of_def)
    moreover have "j \<noteq> []"
    proof
      assume "j = []"
      with True id assms(4) show False by simp
    qed
    ultimately show ?thesis using commit_keyed [of er j parse e t] id True assms(6)
      unfolding t' by (auto simp: spent_key_def Let_def)
  next
    case False
    have "effects_for (snd (Commit parse e t ?i er)) (Some j) = effects_for t (Some j)"
      using commit_effects [of parse e t ?i er] id False by (auto simp: effects_for_def)
    then show ?thesis unfolding t' using assms(6) commit_keys_stay by (simp add: spent_key_def)
  qed
qed (use assms(6) in simp)

lemma keyed_once_store:
  assumes "sys_reachable parse sv \<sigma>" and "canonical parse (sy_store \<sigma>)" and "keyed_once \<sigma> j"
  shows "keyed_once (\<sigma>\<lparr>sy_store := store_exec e c (sy_store \<sigma>)\<rparr>) j"
  using keyed_row_back [OF sys_reachable_store [OF assms(1)], of e c j] assms(3) absent_no_effects [OF assms(1,2), of j]
  by (auto simp: keyed_once_def spent_key_def simp del: store_exec.simps)

lemma sys_step_keyed:
  assumes "sys_step parse sv \<sigma> \<sigma>'" and "sys_reachable parse sv \<sigma>" and "canonical parse (sy_store \<sigma>)"
    and "sv_Profile sv = ''idempotency_only''" and "parse [] = None" and "keyed_once \<sigma> j"
  shows "keyed_once \<sigma>' j"
  using assms
proof (induction rule: sys_step.induct)
  case (grant e \<sigma> i v op s')
  have "s' = store_exec e (CallAuthorize i v) (sy_store \<sigma>)" using grant.hyps by simp
  then show ?case
    using keyed_once_store [OF grant.prems(1,2,5), of e "CallAuthorize i v"] by (simp add: keyed_once_def)
next
  case (deliver rq \<sigma> e)
  then have "known (sy_store \<sigma>) (permit_of rq)" using sys_reachable_wf by (fastforce simp: sys_wf_def)
  from handled_spent [OF this deliver.prems(2,3,4)] deliver.prems(5) show ?case
    by (simp add: keyed_once_def del: Handler.simps)
next
  case (repeat rq \<sigma> e)
  then have "known (sy_store \<sigma>) (permit_of rq)" using sys_reachable_wf by (fastforce simp: sys_wf_def)
  from handled_spent [OF this repeat.prems(2,3,4)] repeat.prems(5) show ?case
    by (simp add: keyed_once_def del: Handler.simps)
next
  case (call c \<sigma> e)
  show ?case by (rule keyed_once_store [OF call.prems(1,2,5)])
next
  case (confirm op res \<sigma> rc e)
  show ?case by (rule keyed_once_store [OF confirm.prems(1,2,5)])
qed (simp_all add: keyed_once_def)

lemma sys_keyed:
  assumes "sys_reachable parse sv \<sigma>" and "canonical parse (sy_store \<sigma>)"
    and "sv_Profile sv = ''idempotency_only''" and "parse [] = None"
  shows "keyed_once \<sigma> j"
  using assms
proof (induction rule: sys_reachable.induct)
  case (step \<sigma> \<sigma>')
  from sys_canonical_back [OF step.hyps step.prems(1)] step show ?case using sys_step_keyed by blast
qed (simp add: keyed_once_def boot_def keyed_row_def empty_db_def)

text \<open>C25. Exactly one key, one effect: when the service binds keys durably, an operation of the
  idempotency profile has at most one effect, however often it is authorised, retried, declared
  absent, replayed by recovery or repeated by the transport.\<close>

theorem keyed_at_most_once:
  assumes "sys_reachable parse sv \<sigma>" and "canonical parse (sy_store \<sigma>)" and "parse [] = None"
    and "sv_Profile sv = ''idempotency_only''"
    and "op_at (sy_store \<sigma>) i = Some r" and "o_profile r = ''idempotency_only''"
  shows "effects_for (sy_email \<sigma>) (Some i) \<le> 1"
  using sys_keyed [OF assms(1,2,4,3), of i] assms(5,6) by (auto simp: keyed_once_def keyed_row_def spent_key_def)

theorem keyed_at_most_once_witness:
  "effects_for (sy_email (demo_delivered ''idempotency_only'')) (Some ''aoperation'') = 1
   \<and> effects_for (sy_email (demo_delivered ''idempotency_only'')) (Some ''aoperation'') \<le> 1"
proof -
  have "op_at (sy_store (demo_delivered ''idempotency_only'')) ''aoperation'' \<noteq> None" by (simp add: demo_store demo_row)
  then obtain r where r: "op_at (sy_store (demo_delivered ''idempotency_only'')) ''aoperation'' = Some r" by blast
  then have p: "o_profile r = ''idempotency_only''" by (auto simp: demo_store demo_row authorize_row_def new_op_row_def)
  have "demo_parse [] = None" "sv_Profile (demo_service ''idempotency_only'') = ''idempotency_only''"
    by (simp_all add: demo_parse_def demo_service_def)
  from keyed_at_most_once [OF demo_reachable demo_canonical this r p] show ?thesis using demo_effects by blast
qed

section \<open>Confirmed means done\<close>

lemma receipts_call: "\<not> confirms c \<Longrightarrow> receipts (store_exec e c s) = receipts s"
proof (cases rule: store_exec_cases [of e c s])
  case (prepare req x)
  then show ?thesis by (cases x) (auto elim!: prepare_ok simp: store_simps)
next
  case (authorize i v op)
  from authorize(2) show ?thesis by (rule authorize_ok) (simp add: store_simps)
next
  case (retry i v reason op)
  from retry(2) show ?thesis by (rule retry_ok) (simp add: store_simps)
next
  case (request i v actor reason op)
  from request(2) show ?thesis by (rule request_ok) (simp add: store_simps)
next
  case (claim worker limit d grace wname cs)
  then show ?thesis using claim_all_receipts by blast
next
  case (submit i res op)
  from submit(2) show ?thesis by (rule submit_ok) (auto simp: store_simps)
next
  case (manual i m op)
  from manual(2) show ?thesis by (rule manual_ok) (simp add: store_simps)
qed (simp_all add: store_simps)

lemma receipts_confirm:
  assumes "x \<in> set (receipts (store_exec e (CallConfirm i req) s))"
  shows "x \<in> set (receipts s) \<or> r_operation x = i \<and> r_service_id x = cr_ServiceReceiptID req"
proof (cases rule: store_exec_cases [of e "CallConfirm i req" s])
  case (confirm i' req' fp op)
  from confirm_body_ok [OF confirm(3)] show ?thesis
    using assms confirm(1) by (auto elim!: confirm_first_ok simp: store_simps simp del: store_exec.simps)
qed (use assms in simp_all)

definition performed :: "email_db \<Rightarrow> uuid \<Rightarrow> string \<Rightarrow> bool" where
  "performed t i receipt \<longleftrightarrow> (\<exists>f \<in> set (effects t). ee_OperationID f = i \<and> ee_ReceiptID f = receipt)"

lemma handled_effects: "\<exists>fs. effects (snd (Handler parse sv e t SendRoute rq)) = effects t @ fs"
proof (cases "snd (Handler parse sv e t SendRoute rq) = t")
  case False
  then obtain er where "snd (Handler parse sv e t SendRoute rq)
      = snd (Commit parse e t (header rq ''X-Watchkeeper-Operation-ID'') er)"
    using handler_cases [of parse sv e t SendRoute rq] send_commits [of parse sv e t rq] by metis
  then show ?thesis
    using commit_effects [of parse e t "header rq ''X-Watchkeeper-Operation-ID''" er] by (auto simp del: Handler.simps)
qed (simp del: Handler.simps)

lemma performed_stays: "performed t i x \<Longrightarrow> performed (snd (Handler parse sv e t SendRoute rq)) i x"
  using handled_effects [of parse sv e t rq] by (auto simp: performed_def simp del: Handler.simps)

lemma commit_performs:
  assumes "Commit parse e t i er = (Inr f, t')" and "email_inv t" and "parse i = Some i"
  shows "performed t' i (ee_ReceiptID f)"
proof -
  have "commit_body parse e t i er = Inr (f, t')" using assms(1) by (simp add: Commit_def email_tx_Inr)
  then show ?thesis
  proof (cases rule: commit_body_ok)
    case (first rid i')
    then show ?thesis using assms(3) by (simp add: performed_def new_effect_def)
  next
    case (replay k)
    then obtain f' where "lookup_by ee_ReceiptID (k_receipt k) (effects t) = Some f'" "ee_OperationID f' = k_operation k"
      using assms(2) lookup_by_Some [of k_key] unfolding email_inv_def by metis
    then show ?thesis using replay lookup_by_Some [of ee_ReceiptID "k_receipt k" "effects t" f]
      by (auto simp: performed_def)
  qed
qed

lemma send_created:
  assumes "rs_status (fst (send parse sv e t rq)) = 201"
  obtains er f where "Commit parse e t (header rq ''X-Watchkeeper-Operation-ID'') er = (Inr f, snd (send parse sv e t rq))"
    "rs_body (fst (send parse sv e t rq)) = JObj [(''committed_at'', JStr (format_time (ee_CommittedAt f))),
       (''operation_id'', JStr (header rq ''X-Watchkeeper-Operation-ID'')), (''receipt_id'', JStr (ee_ReceiptID f)),
       (''status'', JStr ''committed'')]"
proof -
  let ?i = "header rq ''X-Watchkeeper-Operation-ID''"
  have "parse ?i \<noteq> None"
  proof
    assume "parse ?i = None"
    then show False using assms by (simp add: send_def Let_def fail_json_def)
  qed
  then obtain i' where p: "parse ?i = Some i'" by blast
  then obtain er0 where d: "decode_email (rq_body rq) = Some er0"
    using assms by (cases "decode_email (rq_body rq)") (simp_all add: send_def Let_def fail_json_def)
  define er where "er = (if sv_Profile sv = ''idempotency_only''
    then er0\<lparr>er_IdempotencyKey := header rq ''Idempotency-Key''\<rparr> else er0)"
  have n: "\<not> (er_Recipient er0 = [] \<or> er_Template er0 = [] \<or> er_LogicalMessageKey er0 = [])"
  proof
    assume "er_Recipient er0 = [] \<or> er_Template er0 = [] \<or> er_LogicalMessageKey er0 = []"
    then show False using assms p d by (simp add: send_def Let_def fail_json_def)
  qed
  have h: "sv_Hook sv ''accepted_before_commit'' ?i er = None"
    using assms p d n by (cases "sv_Hook sv ''accepted_before_commit'' ?i er") (simp_all add: send_def Let_def fail_json_def er_def [symmetric])
  obtain c t' where c: "Commit parse e t ?i er = (c, t')" by fastforce
  have step: "send parse sv e t rq = (case c of Inl err \<Rightarrow> (fail_json 503 ''simulator database unavailable'', t')
      | Inr f \<Rightarrow> (case sv_Hook sv ''after_commit'' ?i er of
          Some err \<Rightarrow> (fail_json 503 err, t')
        | None \<Rightarrow> (\<lparr>rs_status = 201, rs_body = JObj [(''committed_at'', JStr (format_time (ee_CommittedAt f))),
            (''operation_id'', JStr ?i), (''receipt_id'', JStr (ee_ReceiptID f)), (''status'', JStr ''committed'')]\<rparr>, t')))"
    using p d n h c by (simp add: send_def Let_def er_def [symmetric] split: sum.splits)
  with assms obtain f where f: "c = Inr f" by (cases c) (auto simp: fail_json_def)
  with assms step have "sv_Hook sv ''after_commit'' ?i er = None"
    by (cases "sv_Hook sv ''after_commit'' ?i er") (auto simp: fail_json_def)
  with step f c that show thesis by simp
qed

lemma send_receipt:
  assumes "read_receipt op (answer (fst (send parse sv e t rq))) = Inr rc"
  shows "\<exists>er f. Commit parse e t (header rq ''X-Watchkeeper-Operation-ID'') er = (Inr f, snd (send parse sv e t rq))
    \<and> sr_ReceiptID rc = ee_ReceiptID f"
proof -
  have "rs_status (fst (send parse sv e t rq)) = 201"
    using assms by (auto simp: read_receipt_def answer_def split: if_splits)
  then obtain er f where c: "Commit parse e t (header rq ''X-Watchkeeper-Operation-ID'') er = (Inr f, snd (send parse sv e t rq))"
    and b: "rs_body (fst (send parse sv e t rq)) = JObj [(''committed_at'', JStr (format_time (ee_CommittedAt f))),
       (''operation_id'', JStr (header rq ''X-Watchkeeper-Operation-ID'')), (''receipt_id'', JStr (ee_ReceiptID f)),
       (''status'', JStr ''committed'')]"
    by (rule send_created)
  have "sr_ReceiptID x = ee_ReceiptID f" if "decode_receipt (rs_body (fst (send parse sv e t rq))) = Some x" for x
    using that unfolding b by (auto simp: decode_receipt_def equal_fold_def to_lower_def split: option.splits)
  then have "sr_ReceiptID rc = ee_ReceiptID f"
    using assms by (auto simp: read_receipt_def answer_def split: if_splits option.splits)
  with c show ?thesis by blast
qed

definition truthful :: "system \<Rightarrow> bool" where
  "truthful \<sigma> \<longleftrightarrow>
     (\<forall>x \<in> set (sy_answers \<sigma>). \<forall>op rc. op_ID op = fst x \<and> read_receipt op (answer (snd x)) = Inr rc
        \<longrightarrow> performed (sy_email \<sigma>) (fst x) (sr_ReceiptID rc))
     \<and> (\<forall>x \<in> set (receipts (sy_store \<sigma>)). performed (sy_email \<sigma>) (r_operation x) (r_service_id x))"

lemma truthful_delivered:
  assumes "truthful \<sigma>" and k: "known (sy_store \<sigma>) (permit_of rq)" and "canonical parse (sy_store \<sigma>)"
    and "email_inv (sy_email \<sigma>)"
  shows "truthful (delivered parse sv e rq \<sigma>)"
proof -
  let ?t = "snd (Handler parse sv e (sy_email \<sigma>) SendRoute rq)" and ?i = "fst (permit_of rq)"
  have "performed ?t ?i (sr_ReceiptID rc)"
    if "read_receipt op (answer (fst (Handler parse sv e (sy_email \<sigma>) SendRoute rq))) = Inr rc" for op rc
  proof (cases "bearer_ok (sv_token sv) rq")
    case True
    then have "Handler parse sv e (sy_email \<sigma>) SendRoute rq = send parse sv e (sy_email \<sigma>) rq" by simp
    with that send_receipt [of op parse sv e "sy_email \<sigma>" rq rc]
    obtain er f where c: "Commit parse e (sy_email \<sigma>) ?i er = (Inr f, ?t)" and "sr_ReceiptID rc = ee_ReceiptID f"
      by (auto simp: permit_of_def simp del: Handler.simps)
    then show ?thesis using commit_performs [OF c assms(4) known_parse [OF assms(3) k]] by (simp del: Handler.simps)
  next
    case False
    with that show ?thesis by (simp add: read_receipt_def answer_def unauthorized_def fail_json_def)
  qed
  with assms(1) show ?thesis
    unfolding truthful_def delivered_fields using performed_stays by (auto simp del: Handler.simps)
qed

lemma sys_step_truthful:
  assumes "sys_step parse sv \<sigma> \<sigma>'" and "truthful \<sigma>" and "sys_wf \<sigma>" and "canonical parse (sy_store \<sigma>)"
    and "email_inv (sy_email \<sigma>)"
  shows "truthful \<sigma>'"
  using assms
proof (induction rule: sys_step.induct)
  case (call c \<sigma> e)
  then show ?case by (simp add: truthful_def receipts_call)
next
  case (grant e \<sigma> i v op s')
  then have "s' = store_exec e (CallAuthorize i v) (sy_store \<sigma>)" by simp
  then have "receipts s' = receipts (sy_store \<sigma>)" by (simp only: receipts_call confirms.simps not_False_eq_True)
  with grant.prems(1) show ?case by (simp add: truthful_def)
next
  case (deliver rq \<sigma> e)
  then have k: "known (sy_store \<sigma>) (permit_of rq)" by (auto simp: sys_wf_def)
  show ?case
    by (rule truthful_delivered) (use deliver.prems k in \<open>simp_all add: truthful_def\<close>)
next
  case (repeat rq \<sigma> e)
  then have k: "known (sy_store \<sigma>) (permit_of rq)" by (auto simp: sys_wf_def)
  show ?case by (rule truthful_delivered) (use repeat.prems k in simp_all)
next
  case (confirm op res \<sigma> rc e)
  have "performed (sy_email \<sigma>) (op_ID op) (sr_ReceiptID rc)"
    using confirm.hyps(1,2) confirm.prems(1) by (fastforce simp: truthful_def)
  then have "performed (sy_email \<sigma>) (r_operation x) (r_service_id x)"
    if "x \<in> set (receipts (store_exec e (CallConfirm (op_ID op) (confirm_request op rc)) (sy_store \<sigma>)))" for x
    using receipts_confirm [OF that] confirm.prems(1) by (auto simp: truthful_def confirm_request_def)
  then show ?case using confirm.prems(1) by (simp add: truthful_def del: store_exec.simps)
qed (simp_all add: truthful_def)

lemma sys_truthful:
  "sys_reachable parse sv \<sigma> \<Longrightarrow> canonical parse (sy_store \<sigma>) \<Longrightarrow> truthful \<sigma>"
proof (induction rule: sys_reachable.induct)
  case (step \<sigma> \<sigma>')
  from sys_canonical_back [OF step.hyps step.prems] step.IH
  show ?case using sys_step_truthful [OF step.hyps(2)] sys_reachable_wf sys_reachable_email step.hyps(1) by blast
qed (simp add: truthful_def boot_def empty_db_def)

text \<open>C26. Confirmed means done: when an operation is confirmed, the external service holds an effect of
  that operation with the receipt id the store recorded.\<close>

theorem confirmed_has_effect:
  assumes "sys_reachable parse sv \<sigma>" and "canonical parse (sy_store \<sigma>)"
    and "op_at (sy_store \<sigma>) i = Some r" and "o_state r = StateConfirmed"
  shows "\<exists>rc f. receipt_at (sy_store \<sigma>) i = Some rc \<and> f \<in> set (effects (sy_email \<sigma>))
    \<and> ee_OperationID f = i \<and> ee_ReceiptID f = r_service_id rc"
proof -
  note reach = sys_reachable_store [OF assms(1)]
  obtain rc where rc: "receipt_at (sy_store \<sigma>) i = Some rc"
    using life_run_confirmed [OF reachable_run [OF reach assms(3)]] op_at_id [OF assms(3)] assms(4)
    by (auto simp: life_of_def)
  then have "rc \<in> set (receipts (sy_store \<sigma>))" "r_operation rc = i"
    using lookup_by_Some [of r_operation i "receipts (sy_store \<sigma>)" rc] by auto
  with sys_truthful [OF assms(1,2)] rc show ?thesis by (auto simp: truthful_def performed_def)
qed

theorem confirmed_has_effect_witness:
  "\<exists>rc f. receipt_at (sy_store (demo_confirmed ''opaque'')) ''aoperation'' = Some rc
     \<and> f \<in> set (effects (sy_email (demo_confirmed ''opaque''))) \<and> ee_ReceiptID f = r_service_id rc"
proof -
  have "o_state (confirm_row (env_at ''c'' 8) x) = StateConfirmed" for x by (simp add: confirm_row_def)
  from confirmed_has_effect [OF demo_confirm_reachable demo_confirmed_canonical demo_confirmed_row this]
  show ?thesis by blast
qed

end
