(* ===== verification/Worker_Run.thy ===== *)
theory Worker_Run
  imports System_Safety Store_Replay
begin

text \<open>
  The worker in the system: its client calls reach the store, its posts reach the email service,
  each call may be answered, fail before or after it took effect, or be delayed, and anything
  may happen around it. Its runs are paths of the small-step system.
\<close>

section \<open>The world a worker runs in\<close>

text \<open>What happens to the \<open>n\<close>th message: \<open>Delayed\<close> ones reach the service after the caller gave up.\<close>

datatype net_fate = Answered | Unreachable | ReplyDropped | Delayed

text \<open>
  What the other parties may do: any step of the system that does not use the permits this worker
  holds. A move that is not possible is skipped.
\<close>

datatype move =
    MoveCall env call
  | MoveGrant env uuid int
  | MovePost request
  | MoveDeliver env request
  | MoveRepeat env request
  | MoveLose request
  | MoveConfirm env Operation "json response"

fun apply_move :: "uuid_parser \<Rightarrow> sim_server \<Rightarrow> permit multiset \<Rightarrow> move \<Rightarrow> system \<Rightarrow> system" where
  "apply_move parse sv P (MoveCall e c) \<sigma> =
     (if confirms c then \<sigma> else \<sigma>\<lparr>sy_store := store_exec e c (sy_store \<sigma>)\<rparr>)"
| "apply_move parse sv P (MoveGrant e i v) \<sigma> =
     (case AuthorizeDispatch e (sy_store \<sigma>) i v of
        (Inl err, s') \<Rightarrow> \<sigma>
      | (Inr op, s') \<Rightarrow> \<sigma>\<lparr>sy_store := s', sy_permits := add_mset (permit_for op) (sy_permits \<sigma>)\<rparr>)"
| "apply_move parse sv P (MovePost rq) \<sigma> =
     (if permit_of rq \<in># sy_permits \<sigma> - P
      then \<sigma>\<lparr>sy_permits := sy_permits \<sigma> - {#permit_of rq#}, sy_flight := add_mset rq (sy_flight \<sigma>)\<rparr> else \<sigma>)"
| "apply_move parse sv P (MoveDeliver e rq) \<sigma> =
     (if rq \<in># sy_flight \<sigma> then delivered parse sv e rq (\<sigma>\<lparr>sy_flight := sy_flight \<sigma> - {#rq#}\<rparr>) else \<sigma>)"
| "apply_move parse sv P (MoveRepeat e rq) \<sigma> =
     (if rq \<in># sy_flight \<sigma> \<and> header rq ''Idempotency-Key'' \<noteq> [] then delivered parse sv e rq \<sigma> else \<sigma>)"
| "apply_move parse sv P (MoveLose rq) \<sigma> = \<sigma>\<lparr>sy_flight := sy_flight \<sigma> - {#rq#}\<rparr>"
| "apply_move parse sv P (MoveConfirm e op res) \<sigma> =
     (if (op_ID op, res) \<in> set (sy_answers \<sigma>) then
        (case read_receipt op (answer res) of
           Inl err \<Rightarrow> \<sigma>
         | Inr rc \<Rightarrow> \<sigma>\<lparr>sy_store := store_exec e (CallConfirm (op_ID op) (confirm_request op rc)) (sy_store \<sigma>)\<rparr>)
      else \<sigma>)"

definition meanwhile :: "uuid_parser \<Rightarrow> sim_server \<Rightarrow> permit multiset \<Rightarrow> move list \<Rightarrow> system \<Rightarrow> system" where
  "meanwhile parse sv P ms \<sigma> = fold (apply_move parse sv P) ms \<sigma>"

record surroundings =
  su_env :: "nat \<Rightarrow> env"
  su_net :: "nat \<Rightarrow> net_fate"
  su_others :: "nat \<Rightarrow> move list"
  su_context :: "nat \<Rightarrow> error option"
  su_hook :: "(nat \<Rightarrow> string \<Rightarrow> error option) option"

text \<open>\<open>wd_held\<close> records the permits this worker has been granted and not yet used.\<close>

record world =
  wd_system :: system
  wd_held :: "permit multiset"
  wd_tick :: nat

definition advance :: "uuid_parser \<Rightarrow> sim_server \<Rightarrow> surroundings \<Rightarrow> world \<Rightarrow> world" where
  "advance parse sv su w = w\<lparr>wd_system := meanwhile parse sv (wd_held w) (su_others su (wd_tick w)) (wd_system w),
     wd_tick := Suc (wd_tick w)\<rparr>"

definition remote :: "uuid_parser \<Rightarrow> sim_server \<Rightarrow> surroundings \<Rightarrow> (env \<Rightarrow> db \<Rightarrow> (error + 'a) \<times> db) \<Rightarrow> world \<Rightarrow> (error + 'a) \<times> world" where
  "remote parse sv su f w =
     (let w1 = advance parse sv su w in
      case f (su_env su (wd_tick w)) (sy_store (wd_system w1)) of
        (x, s') \<Rightarrow>
          (let w2 = w1\<lparr>wd_system := (wd_system w1)\<lparr>sy_store := s'\<rparr>\<rparr> in
           case su_net su (wd_tick w) of
             Answered \<Rightarrow> (x, w2)
           | Unreachable \<Rightarrow> (Inl (PlainError ''connection refused''), w1)
           | _ \<Rightarrow> (Inl (PlainError ''timeout''), w2)))"

definition note_grant :: "permit \<Rightarrow> world \<Rightarrow> world" where
  "note_grant p w = w\<lparr>wd_held := add_mset p (wd_held w),
     wd_system := (wd_system w)\<lparr>sy_permits := add_mset p (sy_permits (wd_system w))\<rparr>\<rparr>"

definition note_post :: "request \<Rightarrow> world \<Rightarrow> world" where
  "note_post rq w = w\<lparr>wd_held := wd_held w - {#permit_of rq#},
     wd_system := (wd_system w)\<lparr>sy_permits := sy_permits (wd_system w) - {#permit_of rq#},
       sy_flight := add_mset rq (sy_flight (wd_system w))\<rparr>\<rparr>"

definition note_delivery :: "uuid_parser \<Rightarrow> sim_server \<Rightarrow> env \<Rightarrow> request \<Rightarrow> world \<Rightarrow> world" where
  "note_delivery parse sv e rq w = w\<lparr>wd_system := delivered parse sv e rq
     ((wd_system w)\<lparr>sy_flight := sy_flight (wd_system w) - {#rq#}\<rparr>)\<rparr>"

definition post_message :: "uuid_parser \<Rightarrow> sim_server \<Rightarrow> surroundings \<Rightarrow> post_request \<Rightarrow> world \<Rightarrow> http_result \<times> world" where
  "post_message parse sv su po w =
     (let rq = to_request po; e = su_env su (wd_tick w); w1 = note_post rq (advance parse sv su w);
          res = fst (Handler parse sv e (sy_email (wd_system w1)) SendRoute rq) in
      case su_net su (wd_tick w) of
        Answered \<Rightarrow> (answer res, note_delivery parse sv e rq w1)
      | Unreachable \<Rightarrow> (TransportError ''connection refused'',
          w1\<lparr>wd_system := (wd_system w1)\<lparr>sy_flight := sy_flight (wd_system w1) - {#rq#}\<rparr>\<rparr>)
      | ReplyDropped \<Rightarrow> (TransportError ''timeout'', note_delivery parse sv e rq w1)
      | Delayed \<Rightarrow> (TransportError ''timeout'', w1))"

definition store_worker :: "uuid_parser \<Rightarrow> sim_server \<Rightarrow> surroundings \<Rightarrow> string \<Rightarrow> string \<Rightarrow> world worker" where
  "store_worker parse sv su url token = \<lparr>
     wk_Prepare = (\<lambda>req. remote parse sv su (\<lambda>e s. map_prod (map_sum id fst) id (Prepare e s req))),
     wk_BeginRetry = (\<lambda>i v reason. remote parse sv su (\<lambda>e s. BeginRetry e s i v reason)),
     wk_AuthorizeDispatch = (\<lambda>i v w. case remote parse sv su (\<lambda>e s. AuthorizeDispatch e s i v) w of
         (Inl err, w') \<Rightarrow> (Inl err, w')
       | (Inr op, w') \<Rightarrow> (Inr op, note_grant (permit_for op) w')),
     wk_Confirm = (\<lambda>i cr. remote parse sv su (\<lambda>e s. Confirm e s i cr)),
     wk_GetOperation = (\<lambda>i. remote parse sv su (\<lambda>e s. (GetOperation e s s i, s))),
     wk_Post = post_message parse sv su,
     wk_Hook = map_option (\<lambda>h name op w. (h (wd_tick w) name, advance parse sv su w)) (su_hook su),
     wk_Wait = (\<lambda>w. (su_context su (wd_tick w), advance parse sv su w)),
     wk_Err = (\<lambda>w. su_context su (wd_tick w)),
     wk_SimulatorURL = url, wk_SimulatorToken = token\<rparr>"

section \<open>Its runs are paths of the system\<close>

definition path :: "uuid_parser \<Rightarrow> sim_server \<Rightarrow> system \<Rightarrow> system \<Rightarrow> bool" where
  "path parse sv \<sigma> \<sigma>' \<longleftrightarrow> (sys_step parse sv)\<^sup>*\<^sup>* \<sigma> \<sigma>'"

lemma path_refl [simp]: "path parse sv \<sigma> \<sigma>"
  by (simp add: path_def)

lemma path_step: "path parse sv \<sigma> \<sigma>' \<Longrightarrow> sys_step parse sv \<sigma>' \<sigma>'' \<Longrightarrow> path parse sv \<sigma> \<sigma>''"
  by (simp add: path_def)

lemma path_trans: "path parse sv \<sigma> \<sigma>' \<Longrightarrow> path parse sv \<sigma>' \<sigma>'' \<Longrightarrow> path parse sv \<sigma> \<sigma>''"
  by (simp add: path_def)

lemma path_induct [consumes 1, case_names refl step]:
  assumes "path parse sv \<sigma> \<sigma>'" and "Q \<sigma>"
    and "\<And>\<tau> \<tau>'. path parse sv \<sigma> \<tau> \<Longrightarrow> Q \<tau> \<Longrightarrow> sys_step parse sv \<tau> \<tau>' \<Longrightarrow> Q \<tau>'"
  shows "Q \<sigma>'"
proof -
  from assms(1) have "(sys_step parse sv)\<^sup>*\<^sup>* \<sigma> \<sigma>'" by (simp add: path_def)
  then show ?thesis
  proof (induction rule: rtranclp_induct)
    case base
    show ?case by (rule assms(2))
  next
    case (step \<tau> \<tau>')
    from step.hyps(1) have "path parse sv \<sigma> \<tau>" by (simp add: path_def)
    from assms(3) [OF this step.IH step.hyps(2)] show ?case .
  qed
qed

lemma path_reachable: "sys_reachable parse sv \<sigma> \<Longrightarrow> path parse sv \<sigma> \<sigma>' \<Longrightarrow> sys_reachable parse sv \<sigma>'"
proof -
  assume r: "sys_reachable parse sv \<sigma>" and p: "path parse sv \<sigma> \<sigma>'"
  from p r show "sys_reachable parse sv \<sigma>'" by (induction rule: path_induct) (auto intro: sys_reachable.step)
qed

lemma step_answers: "sys_step parse sv \<sigma> \<sigma>' \<Longrightarrow> set (sy_answers \<sigma>) \<subseteq> set (sy_answers \<sigma>')"
  by (induction rule: sys_step.induct) auto

lemma path_answers: "path parse sv \<sigma> \<sigma>' \<Longrightarrow> set (sy_answers \<sigma>) \<subseteq> set (sy_answers \<sigma>')"
  by (induction rule: path_induct) (use step_answers in blast)+

lemma step_events: "sys_step parse sv \<sigma> \<sigma>' \<Longrightarrow> set (events (sy_store \<sigma>)) \<subseteq> set (events (sy_store \<sigma>'))"
  using sys_step_store store_exec_events by (metis Un_upper1 order_refl set_append)

lemma path_events: "path parse sv \<sigma> \<sigma>' \<Longrightarrow> set (events (sy_store \<sigma>)) \<subseteq> set (events (sy_store \<sigma>'))"
  by (induction rule: path_induct) (use step_events in blast)+

definition keeps :: "uuid_parser \<Rightarrow> sim_server \<Rightarrow> system \<Rightarrow> permit multiset \<Rightarrow> world \<Rightarrow> bool" where
  "keeps parse sv \<sigma>0 P w \<longleftrightarrow> path parse sv \<sigma>0 (wd_system w) \<and> sys_reachable parse sv (wd_system w)
     \<and> wd_held w = P \<and> P \<subseteq># sy_permits (wd_system w)"

definition onward :: "uuid_parser \<Rightarrow> sim_server \<Rightarrow> world \<Rightarrow> world \<Rightarrow> bool" where
  "onward parse sv w w' \<longleftrightarrow> path parse sv (wd_system w) (wd_system w')"

lemma keeps_move:
  assumes "keeps parse sv \<sigma>0 P w" and "path parse sv (wd_system w) \<sigma>'" and "P \<subseteq># sy_permits \<sigma>'"
  shows "keeps parse sv \<sigma>0 P (w\<lparr>wd_system := \<sigma>'\<rparr>)"
  using assms path_trans [of parse sv \<sigma>0] path_reachable by (auto simp: keeps_def)

lemma mset_subset_eq_more: "P \<subseteq># Q \<Longrightarrow> P \<subseteq># add_mset x Q"
  by (simp add: subseteq_mset_def le_SucI)

lemma mset_subset_eq_less: "P \<subseteq># Q \<Longrightarrow> x \<in># Q - P \<Longrightarrow> P \<subseteq># Q - {#x#}"
  by (auto simp: subseteq_mset_def in_diff_count)

lemma move_step:
  assumes "P \<subseteq># sy_permits \<sigma>"
  shows "path parse sv \<sigma> (apply_move parse sv P m \<sigma>) \<and> P \<subseteq># sy_permits (apply_move parse sv P m \<sigma>)"
proof (cases m)
  case (MoveCall e c)
  then show ?thesis using assms path_step [OF path_refl sys_step.call] by (simp del: store_exec.simps)
next
  case (MoveGrant e i v)
  obtain x s' where a: "AuthorizeDispatch e (sy_store \<sigma>) i v = (x, s')" by fastforce
  show ?thesis
  proof (cases x)
    case (Inr op)
    have "P \<subseteq># add_mset (permit_for op) (sy_permits \<sigma>)"
      using assms by (rule mset_subset_eq_more)
    then show ?thesis using a Inr MoveGrant path_step [OF path_refl sys_step.grant] by fastforce
  qed (use a MoveGrant assms in simp)
next
  case (MovePost rq)
  show ?thesis
  proof (cases "permit_of rq \<in># sy_permits \<sigma> - P")
    case True
    have "P \<subseteq># sy_permits \<sigma> - {#permit_of rq#}"
      using assms True by (rule mset_subset_eq_less)
    moreover have "permit_of rq \<in># sy_permits \<sigma>" using True by (rule in_diffD)
    ultimately show ?thesis
      using True MovePost path_step [OF path_refl sys_step.post] by simp
  qed (use MovePost assms in simp)
next
  case (MoveDeliver e rq)
  then show ?thesis using assms path_step [OF path_refl sys_step.deliver] by simp
next
  case (MoveRepeat e rq)
  then show ?thesis using assms path_step [OF path_refl sys_step.repeat] by simp
next
  case (MoveLose rq)
  then show ?thesis using assms path_step [OF path_refl sys_step.lose] by simp
next
  case (MoveConfirm e op res)
  then show ?thesis
    using assms path_step [OF path_refl sys_step.confirm [of op res \<sigma>]]
    by (cases "read_receipt op (answer res)") (simp_all del: store_exec.simps)
qed

lemma meanwhile_path: "P \<subseteq># sy_permits \<sigma> \<Longrightarrow>
  path parse sv \<sigma> (meanwhile parse sv P ms \<sigma>) \<and> P \<subseteq># sy_permits (meanwhile parse sv P ms \<sigma>)"
proof (induction ms arbitrary: \<sigma>)
  case (Cons m ms)
  note m = move_step [OF Cons.prems, of parse sv m]
  from Cons.IH [OF conjunct2 [OF m]] m path_trans [of parse sv \<sigma>] show ?case by (auto simp: meanwhile_def)
qed (simp add: meanwhile_def)

lemma advance_keeps:
  assumes "keeps parse sv \<sigma>0 P w"
  shows "keeps parse sv \<sigma>0 P (advance parse sv su w)" and "onward parse sv w (advance parse sv su w)"
proof -
  let ?\<sigma>' = "meanwhile parse sv (wd_held w) (su_others su (wd_tick w)) (wd_system w)"
  have m: "path parse sv (wd_system w) ?\<sigma>'" "P \<subseteq># sy_permits ?\<sigma>'"
    using assms meanwhile_path [of P] by (auto simp: keeps_def)
  have "keeps parse sv \<sigma>0 P ((w\<lparr>wd_system := ?\<sigma>'\<rparr>)\<lparr>wd_tick := Suc (wd_tick w)\<rparr>)"
    using keeps_move [OF assms m] by (auto simp: keeps_def)
  then show "keeps parse sv \<sigma>0 P (advance parse sv su w)" by (simp add: advance_def)
  show "onward parse sv w (advance parse sv su w)" using m(1) by (simp add: onward_def advance_def)
qed

lemma advance_fields [simp]: "wd_held (advance parse sv su w) = wd_held w"
  by (simp add: advance_def)

text \<open>A call of the store, answered or not, is a move of the system, and its answer is the store's.\<close>

lemma remote_keeps:
  assumes k: "keeps parse sv \<sigma>0 P w"
    and moves: "\<And>\<sigma> e. path parse sv (wd_system w) \<sigma> \<Longrightarrow> sys_reachable parse sv \<sigma> \<Longrightarrow>
      path parse sv \<sigma> (\<sigma>\<lparr>sy_store := snd (f e (sy_store \<sigma>))\<rparr>)"
    and r: "remote parse sv su f w = (x, w')"
  shows "keeps parse sv \<sigma>0 P w'" and "onward parse sv w w'"
    and "x = Inr y \<Longrightarrow> \<exists>e s. reachable s \<and> f e s = (Inr y, sy_store (wd_system w'))"
proof -
  let ?w1 = "advance parse sv su w"
  let ?e = "su_env su (wd_tick w)"
  note k1 = advance_keeps [OF k, where su = su]
  have r1: "sys_reachable parse sv (wd_system ?w1)" using k1(1) by (simp add: keeps_def)
  obtain z s' where f: "f ?e (sy_store (wd_system ?w1)) = (z, s')" by fastforce
  let ?w2 = "?w1\<lparr>wd_system := (wd_system ?w1)\<lparr>sy_store := s'\<rparr>\<rparr>"
  have p: "path parse sv (wd_system ?w1) ((wd_system ?w1)\<lparr>sy_store := s'\<rparr>)"
    using moves [OF _ r1, of ?e] k1(2) f by (simp add: onward_def)
  have k2: "keeps parse sv \<sigma>0 P ?w2"
    by (rule keeps_move [OF k1(1) p]) (use k1(1) in \<open>simp add: keeps_def\<close>)
  have o2: "onward parse sv w ?w2"
    using k1(2) p path_trans by (fastforce simp: onward_def)
  have w': "w' = ?w1 \<and> (\<forall>y. x \<noteq> Inr y) \<or> w' = ?w2 \<and> (x = z \<or> (\<forall>y. x \<noteq> Inr y))"
    using r f by (auto simp: remote_def Let_def split: net_fate.splits)
  show "keeps parse sv \<sigma>0 P w'" "onward parse sv w w'" using w' k1 k2 o2 by auto
  show "\<exists>e s. reachable s \<and> f e s = (Inr y, sy_store (wd_system w'))" if "x = Inr y"
  proof -
    have "w' = ?w2" "z = Inr y" using w' that by auto
    with f sys_reachable_store [OF r1] show ?thesis by auto
  qed
qed

lemma call_moves:
  assumes "\<not> confirms c" and "snd (f e (sy_store \<sigma>)) = store_exec e c (sy_store \<sigma>)"
  shows "path parse sv \<sigma> (\<sigma>\<lparr>sy_store := snd (f e (sy_store \<sigma>))\<rparr>)"
  unfolding assms(2) using sys_step.call [OF assms(1)] path_step [OF path_refl] by blast

lemma authorize_keeps:
  assumes k: "keeps parse sv \<sigma>0 P w"
    and r: "wk_AuthorizeDispatch (store_worker parse sv su url token) i v w = (x, w')"
  shows "case x of Inl _ \<Rightarrow> keeps parse sv \<sigma>0 P w'
    | Inr op \<Rightarrow> keeps parse sv \<sigma>0 (add_mset (permit_for op) P) w' \<and> op_State op = StatePrepared"
proof -
  let ?f = "\<lambda>e s. AuthorizeDispatch e s i v"
  obtain y w1 where q: "remote parse sv su ?f w = (y, w1)" by fastforce
  show ?thesis
  proof (cases y)
    case (Inl err)
    have "keeps parse sv \<sigma>0 P w1"
      by (rule remote_keeps(1) [OF k _ q]) (rule call_moves [where c = "CallAuthorize i v"], simp_all)
    then show ?thesis using r q Inl by (auto simp: store_worker_def)
  next
    case (Inr op)
    let ?w1 = "advance parse sv su w"
    note k1 = advance_keeps [OF k, where su = su]
    obtain s' where f: "?f (su_env su (wd_tick w)) (sy_store (wd_system ?w1)) = (Inr op, s')"
      and w1: "w1 = ?w1\<lparr>wd_system := (wd_system ?w1)\<lparr>sy_store := s'\<rparr>\<rparr>"
      using q Inr by (auto simp: remote_def Let_def split: prod.splits net_fate.splits)
    let ?\<sigma> = "wd_system ?w1"
    have "path parse sv ?\<sigma> (?\<sigma>\<lparr>sy_store := s', sy_permits := add_mset (permit_for op) (sy_permits ?\<sigma>)\<rparr>)"
      by (rule path_step [OF path_refl]) (rule sys_step.grant [OF f])
    moreover have "w' = note_grant (permit_for op) w1" using r q Inr by (simp add: store_worker_def)
    ultimately have "keeps parse sv \<sigma>0 (add_mset (permit_for op) P) w'"
      using k1(1) path_trans [of parse sv \<sigma>0 ?\<sigma>] path_reachable [of parse sv ?\<sigma>]
      by (auto simp: keeps_def note_grant_def w1)
    then show ?thesis using r q Inr grant_ok(2) [OF f] by (auto simp: store_worker_def)
  qed
qed

lemma permit_of_send: "permit_of (to_request (send_request wk op payload)) = permit_for op"
  by (simp add: permit_of_def to_request_def send_request_def header_def send_headers_def permit_for_def)

lemma post_keeps:
  assumes k: "keeps parse sv \<sigma>0 (add_mset (permit_of (to_request po)) P) w"
    and r: "post_message parse sv su po w = (res, w')"
  shows "keeps parse sv \<sigma>0 P w'"
    and "(\<exists>e. res = TransportError e)
      \<or> (\<exists>jr. res = answer jr \<and> (fst (permit_of (to_request po)), jr) \<in> set (sy_answers (wd_system w')))"
proof -
  let ?rq = "to_request po" and ?w1 = "advance parse sv su w" and ?e = "su_env su (wd_tick w)"
  let ?\<sigma> = "wd_system ?w1"
  let ?\<sigma>1 = "?\<sigma>\<lparr>sy_permits := sy_permits ?\<sigma> - {#permit_of ?rq#}, sy_flight := add_mset ?rq (sy_flight ?\<sigma>)\<rparr>"
  note k1 = advance_keeps [OF k, where su = su]
  have held: "add_mset (permit_of ?rq) P \<subseteq># sy_permits ?\<sigma>" "wd_held ?w1 = add_mset (permit_of ?rq) P"
    using k1(1) by (simp_all add: keeps_def)
  then have mem: "permit_of ?rq \<in># sy_permits ?\<sigma>" and sub: "P \<subseteq># sy_permits ?\<sigma> - {#permit_of ?rq#}"
    by (simp_all add: insert_subset_eq_iff)
  have p1: "path parse sv ?\<sigma> ?\<sigma>1" by (rule path_step [OF path_refl]) (rule sys_step.post [OF mem])
  have w1: "wd_system (note_post ?rq ?w1) = ?\<sigma>1" "wd_held (note_post ?rq ?w1) = P"
    using held(2) by (simp_all add: note_post_def)
  let ?\<sigma>2 = "delivered parse sv ?e ?rq (?\<sigma>1\<lparr>sy_flight := sy_flight ?\<sigma>1 - {#?rq#}\<rparr>)"
  have p2: "path parse sv ?\<sigma>1 ?\<sigma>2" by (rule path_step [OF path_refl], rule sys_step.deliver) simp
  have p3: "path parse sv ?\<sigma>1 (?\<sigma>1\<lparr>sy_flight := sy_flight ?\<sigma>1 - {#?rq#}\<rparr>)"
    by (rule path_step [OF path_refl], rule sys_step.lose)
  have base: "keeps parse sv \<sigma>0 P (note_post ?rq ?w1)"
    using k1(1) path_trans [of parse sv \<sigma>0 ?\<sigma>] path_reachable [of parse sv ?\<sigma>] p1 sub
    by (auto simp: keeps_def w1)
  have d: "keeps parse sv \<sigma>0 P (note_delivery parse sv ?e ?rq (note_post ?rq ?w1))"
    unfolding note_delivery_def w1 by (rule keeps_move [OF base]) (use p2 sub in \<open>simp_all add: w1\<close>)
  have l: "keeps parse sv \<sigma>0 P ((note_post ?rq ?w1)\<lparr>wd_system := ?\<sigma>1\<lparr>sy_flight := sy_flight ?\<sigma>1 - {#?rq#}\<rparr>\<rparr>)"
    by (rule keeps_move [OF base]) (use p3 sub in \<open>simp_all add: w1\<close>)
  show "keeps parse sv \<sigma>0 P w'"
    using r base d l by (cases "su_net su (wd_tick w)") (auto simp: post_message_def Let_def w1 simp del: Handler.simps)
  show "(\<exists>e. res = TransportError e)
      \<or> (\<exists>jr. res = answer jr \<and> (fst (permit_of ?rq), jr) \<in> set (sy_answers (wd_system w')))"
    using r by (cases "su_net su (wd_tick w)")
      (auto simp: post_message_def Let_def w1 note_delivery_def simp del: Handler.simps)
qed

section \<open>What the store's answers say\<close>

definition reads :: "db \<Rightarrow> Operation \<Rightarrow> bool" where
  "reads s op \<longleftrightarrow> (\<exists>r. op_at s (op_ID op) = Some r \<and> op_State op = o_state r)"

lemma joined_reads: "joined s i = Some op \<Longrightarrow> reads s op \<and> op_ID op = i"
  by (auto simp: reads_def store_simps op_at_id)

lemma prepare_reads: "Prepare e s req = (Inr (op, created), s') \<Longrightarrow> reads s' op"
proof -
  assume "Prepare e s req = (Inr (op, created), s')"
  then have "prepare_body e s req = Inr ((op, created), s')" by (simp add: Prepare_def run_tx_Inr)
  then show "reads s' op" by (cases rule: prepare_ok) (use joined_reads in blast)+
qed

lemma retry_reads:
  assumes "BeginRetry e s i v reason = (Inr op, s')"
  shows "reads s' op"
proof -
  have "retry_body e s i v reason = Inr (op, s')" using assms by (simp add: BeginRetry_def run_tx_Inr)
  then have "joined s' i = Some op" by (auto simp: retry_body_def bindE_Inr_iff Let_def getOperationTx_def)
  then show ?thesis using joined_reads by blast
qed

lemma get_reads:
  assumes "GetOperation e s s i = Inr op"
  shows "reads s op \<and> op_ID op = i"
proof -
  obtain x rc where x: "getOperationTx e s i = Inr x" and op: "op = x\<lparr>op_Receipt := rc\<rparr>"
    using assms by (cases "getReceiptTx e s i") (auto simp: GetOperation_def bindE_Inr_iff split: if_splits)
  from x have "joined s i = Some x" by (simp add: getOperationTx_def bindE_Inr_iff)
  from joined_reads [OF this] show ?thesis by (auto simp: op reads_def)
qed

lemma confirm_reads:
  assumes "reachable s" and "Confirm e s i req = (Inr op, s')"
  shows "reads s' op \<and> op_ID op = i \<and> op_State op = StateConfirmed"
proof -
  obtain fp where "ReceiptFingerprint (cr_Receipt req) = Inr fp"
    using assms(2) by (cases "ReceiptFingerprint (cr_Receipt req)") (simp_all add: Confirm_def)
  with assms(2) have "confirm_body e s i req fp = Inr (op, s')" by (simp add: Confirm_def run_tx_Inr)
  then obtain rc where rc: "receipt_at s' i = Some rc" and w: "with_receipt e s' i = Inr op" by (rule confirm_leaves)
  then obtain op0 where j: "joined s' i = Some op0" and op: "op_ID op = op_ID op0" "op_State op = op_State op0"
    by (auto simp: with_receipt_def bindE_Inr_iff getOperationTx_def)
  have reach: "reachable s'" using reachable.step [OF assms(1), of e "CallConfirm i req"] assms(2) by simp
  from j obtain r where r: "op_at s' i = Some r" "op_State op0 = o_state r" by (auto simp: store_simps)
  then have "o_state r = StateConfirmed"
    using life_run_confirmed [OF reachable_run [OF reach r(1)]] rc op_at_id [OF r(1)] by (simp add: life_of_def)
  then show ?thesis using joined_reads [OF j] r op by (auto simp: reads_def)
qed

text \<open>A state read from the store is one its log reached.\<close>

definition settled :: "Operation \<Rightarrow> world \<Rightarrow> bool" where
  "settled op w \<longleftrightarrow> (\<exists>ev \<in> set (events (sy_store (wd_system w))).
     ev_OperationID ev = op_ID op \<and> ev_ToState ev = Some (op_State op))"

lemma reads_settled:
  assumes "reachable (sy_store (wd_system w))" and "reads (sy_store (wd_system w)) op"
  shows "settled op w"
proof -
  let ?s = "sy_store (wd_system w)"
  obtain r where r: "op_at ?s (op_ID op) = Some r" "op_State op = o_state r" using assms(2) by (auto simp: reads_def)
  note run = reachable_run [OF assms(1) r(1)]
  have "last (events_of (op_ID op) ?s) \<in> set (events_of (op_ID op) ?s)"
    using life_run_nonempty [OF run] by simp
  then show ?thesis
    using life_run_chained [OF run] r(2) by (auto simp: settled_def events_of_def life_of_def)
qed

lemma settled_onward: "settled op w \<Longrightarrow> onward parse sv w w' \<Longrightarrow> settled op w'"
  using path_events unfolding settled_def onward_def by (metis subsetD)

definition vouched :: "uuid \<Rightarrow> service_receipt \<Rightarrow> world \<Rightarrow> bool" where
  "vouched i rc w \<longleftrightarrow> (\<exists>op jr. op_ID op = i \<and> (i, jr) \<in> set (sy_answers (wd_system w))
     \<and> read_receipt op (answer jr) = Inr rc)"

lemma vouched_onward: "vouched i rc w \<Longrightarrow> onward parse sv w w' \<Longrightarrow> vouched i rc w'"
  using path_answers unfolding vouched_def onward_def by (metis subsetD)

lemma read_receipt_id: "op_ID op = op_ID op' \<Longrightarrow> read_receipt op res = read_receipt op' res"
  by (simp add: read_receipt_def split: http_result.splits option.splits)

lemma confirm_moves:
  assumes "vouched (op_ID op) rc w" and "path parse sv (wd_system w) \<sigma>"
  shows "path parse sv \<sigma> (\<sigma>\<lparr>sy_store := snd (Confirm e (sy_store \<sigma>) (op_ID op) (confirm_request op rc))\<rparr>)"
proof -
  from assms(1) obtain op0 jr where "op_ID op0 = op_ID op" "(op_ID op, jr) \<in> set (sy_answers (wd_system w))"
    "read_receipt op0 (answer jr) = Inr rc" by (auto simp: vouched_def)
  moreover from this have "(op_ID op, jr) \<in> set (sy_answers \<sigma>)" using path_answers [OF assms(2)] by blast
  ultimately have "sys_step parse sv \<sigma>
      (\<sigma>\<lparr>sy_store := store_exec e (CallConfirm (op_ID op) (confirm_request op rc)) (sy_store \<sigma>)\<rparr>)"
    using read_receipt_id [of op0 op] by (intro sys_step.confirm) auto
  then show ?thesis using path_step [OF path_refl] by simp
qed

section \<open>Execute refines the system\<close>

lemma answer_receipt: "read_receipt op (TransportError e) \<noteq> Inr rc"
  by (simp add: read_receipt_def)

lemma remote_call:
  assumes "keeps parse sv \<sigma>0 P w" and "\<not> confirms c"
    and "\<And>e s. snd (f e s) = store_exec e c s"
    and "\<And>e s op s'. reachable s \<Longrightarrow> f e s = (Inr op, s') \<Longrightarrow> reads s' op"
    and "remote parse sv su f w = (x, w')"
  shows "keeps parse sv \<sigma>0 P w' \<and> (\<forall>op. x = Inr op \<longrightarrow> settled op w')"
proof -
  have moves: "path parse sv \<sigma> (\<sigma>\<lparr>sy_store := snd (f e (sy_store \<sigma>))\<rparr>)" for \<sigma> e
    by (rule call_moves [where c = c, OF assms(2)]) (rule assms(3))
  note k = remote_keeps [OF assms(1) moves assms(5)]
  have "settled op w'" if x: "x = Inr op" for op
  proof -
    obtain e s where "reachable s" "f e s = (Inr op, sy_store (wd_system w'))" using k(3) [OF x] by blast
    then have "reads (sy_store (wd_system w')) op" using assms(4) by blast
    moreover have "reachable (sy_store (wd_system w'))" using k(1) sys_reachable_store by (auto simp: keeps_def)
    ultimately show ?thesis using reads_settled by blast
  qed
  with k(1) show ?thesis by blast
qed

lemma get_call:
  assumes "keeps parse sv \<sigma>0 P w"
    and "remote parse sv su (\<lambda>e s. (GetOperation e s s i, s)) w = (x, w')"
  shows "keeps parse sv \<sigma>0 P w'" and "onward parse sv w w'" and "\<forall>op. x = Inr op \<longrightarrow> settled op w' \<and> op_ID op = i"
proof -
  have moves: "path parse sv \<sigma> (\<sigma>\<lparr>sy_store := snd ((\<lambda>e s. (GetOperation e s s i, s)) e (sy_store \<sigma>))\<rparr>)" for \<sigma> e by simp
  note k = remote_keeps [OF assms(1) moves assms(2)]
  show "keeps parse sv \<sigma>0 P w'" "onward parse sv w w'" by (fact k)+
  have "settled op w' \<and> op_ID op = i" if x: "x = Inr op" for op
  proof -
    obtain e where "GetOperation e (sy_store (wd_system w')) (sy_store (wd_system w')) i = Inr op"
      using k(3) [OF x] by auto
    moreover have "reachable (sy_store (wd_system w'))" using k(1) sys_reachable_store by (auto simp: keeps_def)
    ultimately show ?thesis using get_reads reads_settled by blast
  qed
  then show "\<forall>op. x = Inr op \<longrightarrow> settled op w' \<and> op_ID op = i" by blast
qed

lemma confirm_call:
  assumes "keeps parse sv \<sigma>0 P w" and "vouched (op_ID op) rc w"
    and "remote parse sv su (\<lambda>e s. Confirm e s (op_ID op) (confirm_request op rc)) w = (x, w')"
  shows "keeps parse sv \<sigma>0 P w' \<and> onward parse sv w w'
    \<and> (\<forall>op. x = Inr op \<longrightarrow> op_State op = StateConfirmed \<and> settled op w')"
proof -
  have moves: "path parse sv (wd_system w) \<sigma> \<Longrightarrow>
      path parse sv \<sigma> (\<sigma>\<lparr>sy_store := snd (Confirm e (sy_store \<sigma>) (op_ID op) (confirm_request op rc))\<rparr>)" for \<sigma> e
    by (rule confirm_moves [OF assms(2)])
  have k: "keeps parse sv \<sigma>0 P w'" "onward parse sv w w'"
    "x = Inr y \<Longrightarrow> \<exists>e s. reachable s \<and> Confirm e s (op_ID op) (confirm_request op rc) = (Inr y, sy_store (wd_system w'))" for y
    using remote_keeps [OF assms(1) _ assms(3)] moves by blast+
  have "op_State op' = StateConfirmed \<and> settled op' w'" if x: "x = Inr op'" for op'
  proof -
    obtain e s where "reachable s" "Confirm e s (op_ID op) (confirm_request op rc) = (Inr op', sy_store (wd_system w'))"
      using k(3) [OF x] by blast
    from confirm_reads [OF this] have "reads (sy_store (wd_system w')) op'" "op_State op' = StateConfirmed" by blast+
    moreover have "reachable (sy_store (wd_system w'))" using k(1) sys_reachable_store by (auto simp: keeps_def)
    ultimately show ?thesis using reads_settled by blast
  qed
  with k show ?thesis by blast
qed

lemma prepare_snd: "snd (map_prod (map_sum id fst) id (Prepare e s req)) = store_exec e (CallPrepare req) s"
  by (cases "Prepare e s req") simp

lemma prepare_fst: "map_prod (map_sum id fst) id (Prepare e s req) = (Inr op, s') \<Longrightarrow> reads s' op"
  using prepare_reads by (cases "Prepare e s req"; cases "fst (Prepare e s req)") fastforce+

lemma confirm_vouched: "vouched i rc w \<Longrightarrow> keeps parse sv \<sigma>0 P w \<Longrightarrow>
  vouched i rc (snd (remote parse sv su f w))"
proof -
  assume v: "vouched i rc w" and k: "keeps parse sv \<sigma>0 P w"
  let ?w1 = "advance parse sv su w"
  have "vouched i rc ?w1" by (rule vouched_onward [OF v advance_keeps(2) [OF k]])
  then show ?thesis
    by (cases "su_net su (wd_tick w)") (simp_all add: remote_def Let_def vouched_def split: prod.splits)
qed

lemma snd_eq: "snd p = y \<longleftrightarrow> (\<exists>x. p = (x, y))"
  by (cases p) simp

text \<open>The contract holds of the worker's client and HTTP client in the system.\<close>

interpretation store_run: worker_services "store_worker parse sv su url token" "keeps parse sv \<sigma>0" vouched settled
  for parse sv su url token \<sigma>0
proof
  let ?wk = "store_worker parse sv su url token"
  fix P w w'
  assume k: "keeps parse sv \<sigma>0 P w"
  show "keeps parse sv \<sigma>0 P w' \<and> (\<forall>op. x = Inr op \<longrightarrow> settled op w')" if "wk_Prepare ?wk req w = (x, w')" for req x
    by (rule remote_call [OF k, where c = "CallPrepare req"])
      (use that prepare_snd prepare_fst in \<open>simp_all add: store_worker_def\<close>)
  show "keeps parse sv \<sigma>0 P w' \<and> (\<forall>op. y = Inr op \<longrightarrow> settled op w')"
    if "wk_BeginRetry ?wk i v reason w = (y, w')" for i v reason y
    by (rule remote_call [OF k, where c = "CallRetry i v reason"])
      (use that retry_reads in \<open>simp_all add: store_worker_def\<close>)
  show "keeps parse sv \<sigma>0 P w' \<and> (\<forall>op. y = Inr op \<longrightarrow> settled op w')" if "wk_GetOperation ?wk i w = (y, w')" for i y
    using that get_call [OF k] by (simp add: store_worker_def)
  show "op_ID op = i" if "wk_GetOperation ?wk i w = (Inr op, w')" for i op
    using that get_call(3) [OF k] by (simp add: store_worker_def)
  show "keeps parse sv \<sigma>0 P w'" if "wk_AuthorizeDispatch ?wk i v w = (Inl err, w')" for i v err
    using authorize_keeps [OF k that] by simp
  show "keeps parse sv \<sigma>0 (add_mset (permit_for op) P) w' \<and> op_State op = StatePrepared"
    if "wk_AuthorizeDispatch ?wk i v w = (Inr op, w')" for i v op
    using authorize_keeps [OF k that] by simp
  show "keeps parse sv \<sigma>0 P w' \<and> (\<forall>op. y = Inr op \<longrightarrow> op_State op = StateConfirmed \<and> settled op w')"
    if "vouched (op_ID op) rc w" "wk_Confirm ?wk (op_ID op) (confirm_request op rc) w = (y, w')" for op rc y
    using confirm_call [OF k that(1)] that(2) by (simp add: store_worker_def)
  show "keeps parse sv \<sigma>0 P w'" if "wk_Hook ?wk = Some h" "h name op w = (z, w')" for h name op z
    using that advance_keeps(1) [OF k, of su] by (auto simp: store_worker_def)
  show "keeps parse sv \<sigma>0 P w'" if "wk_Wait ?wk w = (z, w')" for z
    using that advance_keeps(1) [OF k, of su] by (simp add: store_worker_def)
  show "vouched i rc (snd (wk_GetOperation ?wk j w))" if "vouched i rc w" for i rc j
    using confirm_vouched [OF that k] by (simp add: store_worker_def)
  show "vouched i rc (snd (wk_Confirm ?wk j cr w))" if "vouched i rc w" for i rc j cr
    using confirm_vouched [OF that k] by (simp add: store_worker_def)
  show "vouched i rc (snd (h name op w))" if "wk_Hook ?wk = Some h" "vouched i rc w" for h i rc name op
    using that vouched_onward [OF _ advance_keeps(2) [OF k, of su]] by (auto simp: store_worker_def)
  show "settled op (snd (h name op' w))" if "wk_Hook ?wk = Some h" "settled op w" for h op name op'
    using that settled_onward [OF _ advance_keeps(2) [OF k, of su]] by (auto simp: store_worker_def)
  show "settled op (snd (wk_Wait ?wk w))" if "settled op w" for op
    using settled_onward [OF that advance_keeps(2) [OF k, of su]] by (simp add: store_worker_def)
  show "settled op (snd (wk_GetOperation ?wk j w))" if "settled op w" for op j
    using settled_onward [OF that get_call(2) [OF k]] by (cases "wk_GetOperation ?wk j w") (simp add: store_worker_def)
next
  let ?wk = "store_worker parse sv su url token"
  fix op P w payload res w'
  let ?po = "send_request ?wk op payload"
  assume "keeps parse sv \<sigma>0 (add_mset (permit_for op) P) w" and "wk_Post ?wk ?po w = (res, w')"
  then have k: "keeps parse sv \<sigma>0 (add_mset (permit_of (to_request ?po)) P) w" and r: "post_message parse sv su ?po w = (res, w')"
    by (simp_all add: permit_of_send) (simp add: store_worker_def)
  note p = post_keeps [OF k r, unfolded permit_of_send]
  show "keeps parse sv \<sigma>0 P w' \<and> (\<forall>rc. read_receipt op res = Inr rc \<longrightarrow> vouched (op_ID op) rc w')"
    using p answer_receipt by (auto simp: vouched_def permit_for_def)
qed

text \<open>A world at its start: the worker holds no permit.\<close>

definition starting :: "system \<Rightarrow> world" where
  "starting \<sigma> = \<lparr>wd_system = \<sigma>, wd_held = {#}, wd_tick = 0\<rparr>"

lemma starting_keeps: "sys_reachable parse sv \<sigma> \<Longrightarrow> keeps parse sv \<sigma> {#} (starting \<sigma>)"
  by (simp add: starting_def keeps_def)

text \<open>C27. Whatever the network, the other workers and the clock do around it, a run of the worker's
  \<open>Execute\<close> is a path of the small-step system: it sends only on a licence it was granted, sends
  each licence at most once, and confirms only a receipt the service answered. It ends holding no
  unused licence it recorded as its own. When it returns without an error, the operation it
  returns is Confirmed or Reconciled and the store's log records the change to that state.\<close>

theorem execute_refines:
  assumes "sys_reachable parse sv \<sigma>"
    and "Execute n (store_worker parse sv su url token) req (starting \<sigma>) = (out, w')"
  shows "(sys_step parse sv)\<^sup>*\<^sup>* \<sigma> (wd_system w') \<and> wd_held w' = {#}
    \<and> (\<forall>op. out = Some (op, None) \<longrightarrow> op_State op \<in> {StateConfirmed, StateReconciled}
        \<and> (\<exists>ev \<in> set (events (sy_store (wd_system w'))). ev_OperationID ev = op_ID op \<and> ev_ToState ev = Some (op_State op)))"
proof -
  note k = store_run.execute_keeps [OF starting_keeps [OF assms(1)], of n su url token req, unfolded assms(2) fst_conv snd_conv]
  have "keeps parse sv \<sigma> {#} w'" by (rule k(1))
  moreover have "op_State op \<in> {StateConfirmed, StateReconciled} \<and> settled op w'" if "out = Some (op, None)" for op
    by (rule k(2) [OF that])
  ultimately show ?thesis by (auto simp: keeps_def path_def settled_def)
qed

text \<open>A quiet run: nothing fails, and the worker returns the confirmed operation.\<close>

definition quiet :: surroundings where
  "quiet = \<lparr>su_env = (\<lambda>n. [env_at ''a'' 0, env_at ''b'' 1, env_at ''n'' 7, env_at ''c'' 8] ! n), su_net = (\<lambda>_. Answered),
     su_others = (\<lambda>_. []), su_context = (\<lambda>_. None), su_hook = None\<rparr>"

definition quiet_worker :: "world worker" where
  "quiet_worker = store_worker demo_parse (demo_service ''opaque'') quiet [] ''t''"

definition quiet_request :: PrepareRequest where
  "quiet_request = sample_request\<lparr>pr_Request := rq_body sample_send\<rparr>"

definition quiet_at :: "system \<Rightarrow> nat \<Rightarrow> world" where
  "quiet_at \<sigma> n = \<lparr>wd_system = \<sigma>, wd_held = {#}, wd_tick = n\<rparr>"

lemma quiet_advance: "advance parse sv quiet w = w\<lparr>wd_tick := Suc (wd_tick w)\<rparr>"
  by (simp add: advance_def quiet_def meanwhile_def)

lemma quiet_remote: "remote parse sv quiet f w = (case f (su_env quiet (wd_tick w)) (sy_store (wd_system w)) of
    (x, s') \<Rightarrow> (x, w\<lparr>wd_tick := Suc (wd_tick w), wd_system := (wd_system w)\<lparr>sy_store := s'\<rparr>\<rparr>))"
  unfolding remote_def quiet_advance by (simp add: quiet_def Let_def split: prod.splits)

lemma quiet_env: "su_env quiet 0 = env_at ''a'' 0" "su_env quiet (Suc 0) = env_at ''b'' 1"
  "su_env quiet 2 = env_at ''n'' 7" "su_env quiet 3 = env_at ''c'' 8"
  by (simp_all add: quiet_def)

lemma quiet_prepare: "\<exists>op. wk_Prepare quiet_worker quiet_request (starting (boot []))
    = (Inr op, quiet_at ((boot [])\<lparr>sy_store := demo_prepared ''opaque''\<rparr>) 1)
    \<and> op_ID op = ''aoperation'' \<and> op_Version op = 1 \<and> op_State op = StatePrepared \<and> \<not> op_DispatchAuthorized op"
  by (simp add: quiet_worker_def store_worker_def quiet_remote starting_def quiet_at_def boot_def quiet_env)
    (simp add: quiet_request_def demo_prepared_def sample_request_def exec_simps)

lemma quiet_authorize: "wk_AuthorizeDispatch quiet_worker ''aoperation'' 1 (quiet_at ((boot [])\<lparr>sy_store := demo_prepared ''opaque''\<rparr>) 1)
    = (Inr (demo_op ''opaque''), note_grant (permit_for (demo_op ''opaque'')) (quiet_at ((boot [])\<lparr>sy_store := demo_granted ''opaque''\<rparr>) 2))"
  using demo_grant [of "''opaque''"]
  by (simp add: quiet_worker_def store_worker_def quiet_remote quiet_at_def quiet_env numeral_2_eq_2)

lemma quiet_post: "\<exists>res. wk_Post quiet_worker (send_request quiet_worker (demo_op ''opaque'') (rq_body sample_send))
      (note_grant (permit_for (demo_op ''opaque'')) (quiet_at ((boot [])\<lparr>sy_store := demo_granted ''opaque''\<rparr>) 2))
    = (res, quiet_at (demo_delivered ''opaque'') 3) \<and> read_receipt (demo_op ''opaque'') res = Inr demo_receipt"
proof -
  have "to_request (send_request quiet_worker (demo_op ''opaque'') (rq_body sample_send)) = demo_rq ''opaque''"
    by (simp add: demo_rq_def to_request_def send_request_def quiet_worker_def store_worker_def)
  moreover have "wk_Post quiet_worker = post_message demo_parse (demo_service ''opaque'') quiet"
    by (simp add: quiet_worker_def store_worker_def)
  moreover have "su_net quiet n = Answered" for n by (simp add: quiet_def)
  ultimately show ?thesis
    using demo_answer(2) [of "''opaque''"] demo_permit [of "''opaque''"]
    by (simp add: post_message_def quiet_advance Let_def note_grant_def note_post_def
        note_delivery_def quiet_at_def boot_def demo_delivered_def quiet_env del: Handler.simps)
qed

lemma quiet_confirm: "\<exists>op w'. wk_Confirm quiet_worker ''aoperation'' (confirm_request (demo_op ''opaque'') demo_receipt)
      (quiet_at (demo_delivered ''opaque'') 3) = (Inr op, w') \<and> op_State op = StateConfirmed"
proof -
  let ?s = "demo_granted ''opaque''" and ?req = "confirm_request (demo_op ''opaque'') demo_receipt"
  have fp: "ReceiptFingerprint (cr_Receipt ?req) = Inr (sha256_hex (projr (CanonicalJSON (marshal (receipt_json demo_receipt)))))"
    by (simp add: ReceiptFingerprint_def confirm_request_def demo_document)
  have doc: "jsonb (cr_Receipt ?req) = Some (receipt_json demo_receipt)"
    by (simp add: confirm_request_def demo_document)
  have v: "cr_ExpectedVersion ?req = 2" by (simp add: confirm_request_def demo_op_value authorize_row_def new_op_row_def)
  have "is_ok (fst (Confirm (env_at ''c'' 8) ?s ''aoperation'' ?req))"
    by (simp add: demo_granted_def demo_prepared_def exec_simps fp doc v sample_request_def)
  then obtain op s' where c: "Confirm (env_at ''c'' 8) ?s ''aoperation'' ?req = (Inr op, s')"
    by (metis is_ok_iff prod.collapse)
  have "reachable ?s" using sys_reachable_store [OF demo_reachable [of "''opaque''"]] by (simp add: demo_store)
  from confirm_reads [OF this c] have "op_State op = StateConfirmed" by blast
  then show ?thesis
    using c by (simp add: quiet_worker_def store_worker_def quiet_remote quiet_at_def quiet_env demo_store)
qed

lemma quiet_run: "\<exists>op w'. Execute 1 quiet_worker quiet_request (starting (boot [])) = (Some (op, None), w')
  \<and> op_State op = StateConfirmed"
proof -
  obtain op where p: "wk_Prepare quiet_worker quiet_request (starting (boot []))
      = (Inr op, quiet_at ((boot [])\<lparr>sy_store := demo_prepared ''opaque''\<rparr>) 1)"
    "op_ID op = ''aoperation''" "op_Version op = 1" "op_State op = StatePrepared" "\<not> op_DispatchAuthorized op"
    using quiet_prepare by blast
  obtain res where r: "wk_Post quiet_worker (send_request quiet_worker (demo_op ''opaque'') (rq_body sample_send))
      (note_grant (permit_for (demo_op ''opaque'')) (quiet_at ((boot [])\<lparr>sy_store := demo_granted ''opaque''\<rparr>) 2))
    = (res, quiet_at (demo_delivered ''opaque'') 3)" "read_receipt (demo_op ''opaque'') res = Inr demo_receipt"
    using quiet_post by blast
  obtain fin w' where c: "wk_Confirm quiet_worker ''aoperation'' (confirm_request (demo_op ''opaque'') demo_receipt)
      (quiet_at (demo_delivered ''opaque'') 3) = (Inr fin, w')" "op_State fin = StateConfirmed"
    using quiet_confirm by blast
  have id: "op_ID (demo_op ''opaque'') = ''aoperation''" by (simp add: demo_op_value authorize_row_def new_op_row_def)
  have "wk_Hook quiet_worker = None" by (simp add: quiet_worker_def store_worker_def quiet_def)
  then have b: "barrier quiet_worker name op w = (None, w)" for name op w by (simp add: barrier_def)
  have "Worker.confirm quiet_worker (demo_op ''opaque'') demo_receipt (quiet_at (demo_delivered ''opaque'') 3) = ((fin, None), w')"
    using c(1) by (simp add: Worker.confirm_def id eval_nat_numeral)
  note cf = this
  have "pr_Request quiet_request = rq_body sample_send" by (simp add: quiet_request_def)
  then show ?thesis
    using p r cf c(2) quiet_authorize by (simp add: Execute_def b execute_round_def dispatch_round_def Worker.send_def)
qed

theorem execute_refines_witness:
  "\<exists>op w'. Execute 1 quiet_worker quiet_request (starting (boot [])) = (Some (op, None), w')
     \<and> op_State op = StateConfirmed
     \<and> (sys_step demo_parse (demo_service ''opaque''))\<^sup>*\<^sup>* (boot []) (wd_system w') \<and> wd_held w' = {#}"
proof -
  obtain op w' where r: "Execute 1 quiet_worker quiet_request (starting (boot [])) = (Some (op, None), w')"
    "op_State op = StateConfirmed" using quiet_run by blast
  from execute_refines [OF sys_reachable.boot r(1) [unfolded quiet_worker_def]] r show ?thesis by blast
qed

end
