(* ===== verification/Worker_Ends.thy ===== *)
theory Worker_Ends
  imports Worker_Run
begin

text \<open>
  The loop of \<open>Execute\<close> has no bound of its own. It ends because its context does: every round
  waits once, waiting takes time, and a wait after the deadline reports the context's error.
\<close>

section \<open>A clock behind the worker's calls\<close>

locale worker_clock =
  fixes wk :: "'w worker"
    and now :: "'w \<Rightarrow> nat"
    and over :: "nat \<Rightarrow> bool"
  assumes prepare_time: "now w \<le> now (snd (wk_Prepare wk req w))"
    and retry_time: "now w \<le> now (snd (wk_BeginRetry wk i v reason w))"
    and authorize_time: "now w \<le> now (snd (wk_AuthorizeDispatch wk i v w))"
    and confirm_time: "now w \<le> now (snd (wk_Confirm wk i cr w))"
    and get_time: "now w \<le> now (snd (wk_GetOperation wk i w))"
    and post_time: "now w \<le> now (snd (wk_Post wk po w))"
    and hook_time: "wk_Hook wk = Some h \<Longrightarrow> now w \<le> now (snd (h name op w))"
    and wait_time: "now w < now (snd (wk_Wait wk w))"
    and wait_ends: "over (now w) \<Longrightarrow> fst (wk_Wait wk w) \<noteq> None"
begin

lemma barrier_time: "barrier wk name op w = (z, w') \<Longrightarrow> now w \<le> now w'"
  using hook_time [of _ w name op] by (auto simp: barrier_def split: option.splits)

lemma send_time: "Worker.send wk op payload w = (z, w') \<Longrightarrow> now w \<le> now w'"
  using post_time [of w "send_request wk op payload"] by (auto simp: Worker.send_def split: prod.splits)

lemma confirm_loop_time: "confirm_loop n wk op rc w = (z, w') \<Longrightarrow> now w \<le> now w'"
proof (induction n arbitrary: op w)
  case (Suc n)
  obtain y w1 where c: "wk_Confirm wk (op_ID op) (confirm_request op rc) w = (y, w1)" by fastforce
  obtain g w2 where g: "wk_GetOperation wk (op_ID op) w1 = (g, w2)" by fastforce
  have "now w \<le> now w1" "now w1 \<le> now w2"
    using confirm_time [of w "op_ID op" "confirm_request op rc"] get_time [of w1 "op_ID op"] c g by simp_all
  with Suc.prems Suc.IH [of _ w2] c g show ?case
    by (cases y; cases g) (force split: if_splits)+
qed simp

lemma dispatch_time: "dispatch_round wk req op w = (r, w') \<Longrightarrow> now w \<le> now w'"
proof -
  assume r: "dispatch_round wk req op w = (r, w')"
  obtain b w1 where b: "barrier wk ''before_dispatch'' op w = (b, w1)" by fastforce
  obtain g w2 where g: "wk_AuthorizeDispatch wk (op_ID op) (op_Version op) w1 = (g, w2)" by fastforce
  have t2: "now w \<le> now w1" "now w1 \<le> now w2"
    using barrier_time [OF b] authorize_time [of w1 "op_ID op" "op_Version op"] g by simp_all
  show ?thesis
  proof (cases "\<exists>granted. b = None \<and> g = Inr granted")
    case False
    with r b g t2 show ?thesis by (cases b; cases g) (auto simp: dispatch_round_def)
  next
    case True
    then obtain granted where gr: "b = None" "g = Inr granted" by blast
    obtain s w3 where s: "Worker.send wk granted (pr_Request req) w2 = (s, w3)" by fastforce
    obtain b' w4 where b': "barrier wk ''after_response'' granted w3 = (b', w4)" by fastforce
    note t4 = send_time [OF s] barrier_time [OF b']
    show ?thesis
    proof (cases "\<exists>rc. s = Inr rc \<and> b' = None")
      case False
      with r b g gr s b' t2 t4 show ?thesis by (cases s; cases b') (auto simp: dispatch_round_def)
    next
      case True
      then obtain rc where rc: "s = Inr rc" "b' = None" by blast
      obtain c err w5 where c: "Worker.confirm wk granted rc w4 = ((c, err), w5)" by (metis surj_pair)
      obtain b'' w6 where b'': "barrier wk ''after_persistence'' c w5 = (b'', w6)" by fastforce
      have "now w4 \<le> now w5" "now w5 \<le> now w6"
        using confirm_loop_time c barrier_time [OF b''] by (auto simp: Worker.confirm_def)
      with r b g gr s b' rc c b'' t2 t4 show ?thesis by (cases err) (auto simp: dispatch_round_def)
    qed
  qed
qed

lemma round_time: "execute_round wk req op w = (r, w') \<Longrightarrow> now w \<le> now w'"
  using dispatch_time [of req op w r w'] retry_time [of w "op_ID op" "op_Version op" "''safe_recovery_retry''"]
  by (auto simp: execute_round_def split: OperationState.splits if_splits prod.splits sum.splits)

lemma poll_time:
  assumes "poll wk op w = (r, w')"
  shows "now w < now w'" and "over (now w) \<Longrightarrow> \<exists>op' err. r = Return op' err"
proof -
  obtain z w1 where z: "wk_Wait wk w = (z, w1)" by fastforce
  obtain g w2 where g: "wk_GetOperation wk (op_ID op) w1 = (g, w2)" by fastforce
  have "now w < now w1" "now w1 \<le> now w2" using wait_time [of w] get_time [of w1 "op_ID op"] z g by simp_all
  with assms z g show "now w < now w'"
    by (cases z; cases g) (auto simp: poll_def split: option.splits)
  show "\<exists>op' err. r = Return op' err" if "over (now w)"
    using wait_ends [OF that] assms z by (auto simp: poll_def)
qed

lemma loop_returns:
  assumes over: "\<forall>k \<ge> deadline. over k"
  shows "deadline - now w < n \<Longrightarrow> \<exists>out w'. execute_loop n wk req op w = (Some out, w')"
proof (induction n arbitrary: op w)
  case (Suc n)
  obtain r w1 where r: "execute_round wk req op w = (r, w1)" by fastforce
  show ?case
  proof (cases r)
    case (Again op1)
    obtain p w2 where p: "poll wk op1 w1 = (p, w2)" by fastforce
    note t = round_time [OF r] poll_time [OF p]
    show ?thesis
    proof (cases p)
      case again: (Again op2)
      then have "\<not> over (now w1)" using t(3) by auto
      then have "now w1 < deadline" using over by (meson not_less)
      then have "deadline - now w2 < n" using t(1,2) Suc.prems by linarith
      from Suc.IH [OF this] show ?thesis using r p Again again by simp
    qed (use r p Again in simp)
  qed (use r in simp)
qed simp

end

text \<open>What the loop returns does not depend on the rounds it is given once they are enough.\<close>

lemma execute_loop_more:
  "execute_loop n wk req op w = (Some out, w') \<Longrightarrow> n \<le> m \<Longrightarrow> execute_loop m wk req op w = (Some out, w')"
proof (induction n arbitrary: m op w)
  case (Suc n)
  then obtain k where m: "m = Suc k" "n \<le> k" by (cases m) auto
  obtain r w1 where r: "execute_round wk req op w = (r, w1)" by fastforce
  show ?case
  proof (cases r)
    case (Again op1)
    obtain p w2 where "poll wk op1 w1 = (p, w2)" by fastforce
    then show ?thesis using Suc.prems(1) Suc.IH [OF _ m(2)] r Again m(1) by (cases p) simp_all
  qed (use Suc.prems(1) r m(1) in simp)
qed simp


context worker_clock
begin

lemma execute_ends:
  assumes "\<forall>k \<ge> deadline. over k"
  shows "\<exists>out w'. \<forall>n > deadline. Execute n wk req w = (Some out, w')"
proof -
  obtain b w1 where b: "barrier wk ''before_intent'' (zero_operation\<lparr>op_LogicalKey := pr_LogicalKey req\<rparr>) w = (b, w1)"
    by fastforce
  obtain g w2 where g: "wk_Prepare wk req w1 = (g, w2)" by fastforce
  show ?thesis
  proof (cases "\<exists>op. b = None \<and> g = Inr op")
    case True
    then obtain op where op: "b = None" "g = Inr op" by blast
    obtain out w' where l: "execute_loop (Suc deadline) wk req op w2 = (Some out, w')"
      using loop_returns [OF assms, of w2 "Suc deadline" req op] by (metis diff_less_Suc prod.collapse)
    have "Execute n wk req w = (Some out, w')" if "n > deadline" for n
      using execute_loop_more [OF l] that b g op by (simp add: Execute_def)
    then show ?thesis by blast
  qed (use b g in \<open>cases b; cases g; simp add: Execute_def\<close>)
qed

end

section \<open>The clock of the system\<close>

lemma advance_tick [simp]: "wd_tick (advance parse sv su w) = Suc (wd_tick w)"
  by (simp add: advance_def)

lemma remote_tick [simp]: "wd_tick (snd (remote parse sv su f w)) = Suc (wd_tick w)"
  by (simp add: remote_def Let_def split: prod.split net_fate.split)

lemma remote_tick' [simp]: "remote parse sv su f w = (x, w') \<Longrightarrow> wd_tick w' = Suc (wd_tick w)"
  using remote_tick [of parse sv su f w] by simp

lemma post_tick [simp]: "wd_tick (snd (post_message parse sv su po w)) = Suc (wd_tick w)"
  by (simp add: post_message_def Let_def note_post_def note_delivery_def split: net_fate.split)

interpretation store_clock: worker_clock "store_worker parse sv su url token" wd_tick "\<lambda>k. su_context su k \<noteq> None"
  for parse sv su url token
  by unfold_locales
    (auto simp: store_worker_def note_grant_def split: prod.splits sum.splits intro: order.strict_implies_order)

text \<open>C29. \<open>Execute\<close> ends. Whatever the network, the other workers and the service do, once the
  context is over from tick \<open>d\<close> on, a run of at most \<open>d + 1\<close> rounds returns, and what it returns does
  not depend on how many more it could take.\<close>

theorem execute_returns:
  assumes "\<forall>k \<ge> d. su_context su k \<noteq> None"
  shows "\<exists>out w'. \<forall>n > d. Execute n (store_worker parse sv su url token) req w = (Some out, w')"
  by (rule store_clock.execute_ends [OF assms])

definition cut_off :: surroundings where
  "cut_off = quiet\<lparr>su_net := (\<lambda>k. if k = 2 then Delayed else Answered),
     su_context := (\<lambda>k. if 5 \<le> k then Some (PlainError ''context deadline exceeded'') else None)\<rparr>"

theorem execute_returns_witness:
  "\<exists>out w'. \<forall>n > 5. Execute n (store_worker demo_parse (demo_service ''opaque'') cut_off [] ''t'') quiet_request
     (starting (boot [])) = (Some out, w')"
  by (rule execute_returns) (simp add: cut_off_def)

end
