(* ===== verification/Json_Round.thy ===== *)
theory Json_Round
  imports Http
begin

text \<open>
  Reading back what \<open>Marshal\<close> prints. A tree is printable when its strings are valid UTF-8, its
  numbers are literals of the grammar and it is not nested too deeply; parsing its text gives the
  tree again, whatever follows, and the members of a printed object are found with their texts.
\<close>

section \<open>Strings\<close>

function utf8 :: "string \<Rightarrow> bool" where
  "utf8 [] = True"
| "utf8 (c # s) = (utf8_len (c # s) \<noteq> 0 \<and> utf8 (drop (utf8_len (c # s) - 1) s))"
  by pat_completeness auto
termination
  by (relation "measure length") auto

declare utf8.simps(2) [simp del]

lemma utf8_ascii: "list_all (\<lambda>c. byte c < 128) s \<Longrightarrow> utf8 s"
  by (induction s) (simp_all add: utf8.simps(2))

lemma utf8_len_shape:
  "utf8_len (c # s) = 0 \<or> byte c < 128 \<and> utf8_len (c # s) = 1
   \<or> 128 \<le> byte c \<and> (\<exists>b r. s = b # r \<and> utf8_len (c # s) = 2 \<and> cont b)
   \<or> 128 \<le> byte c \<and> (\<exists>b d r. s = b # d # r \<and> utf8_len (c # s) = 3 \<and> cont b \<and> cont d)
   \<or> 128 \<le> byte c \<and> (\<exists>b d e r. s = b # d # e # r \<and> utf8_len (c # s) = 4 \<and> cont b \<and> cont d \<and> cont e)"
  by (simp add: Let_def split: list.splits)

text \<open>The length of a sequence is decided by the sequence alone.\<close>

lemma utf8_len_front:
  assumes "utf8_len (c # s) = Suc n"
  shows "utf8_len (c # take n s @ t) = Suc n"
  using utf8_len_shape [of c s] assms
  by (elim disjE exE conjE) (auto simp: Let_def eval_nat_numeral split: if_splits list.splits)

lemma utf8_len_bound: "utf8_len (c # s) = Suc n \<Longrightarrow> n \<le> length s"
  using utf8_len_shape [of c s] by auto

lemma utf8_front_bytes:
  assumes "128 \<le> byte c" and "utf8_len (c # s) = Suc n" and "x \<in> set (c # take n s)"
  shows "128 \<le> byte x"
  using utf8_len_shape [of c s] assms by (elim disjE exE conjE) (auto simp: cont_def eval_nat_numeral)

lemma plain_bytes: "128 \<le> byte x \<Longrightarrow> x \<noteq> CHR 0x22 \<and> x \<noteq> CHR 0x5C \<and> \<not> byte x < 32"
  by auto

lemma scan_plain: "list_all (\<lambda>x. x \<noteq> CHR 0x22 \<and> x \<noteq> CHR 0x5C \<and> \<not> byte x < 32) w \<Longrightarrow>
  scan_string (w @ t) = map_option (\<lambda>(raw, u). (w @ raw, u)) (scan_string t)"
  by (induction w) (auto simp: option.map_comp comp_def split_def option.map_id0 [unfolded id_def])

lemma nibble_hex: "n < 16 \<Longrightarrow> is_hex (nibble n) \<and> hex_val (nibble n) = n"
  by (auto simp: nibble_def is_hex_def is_digit_def hex_val_def)

lemma escape_hex: "byte c < 128 \<Longrightarrow> hex4 (byte c) = [nibble 0, nibble 0, nibble (byte c div 16), nibble (byte c mod 16)]"
  by (simp add: hex4_def)

lemma escape_byte_shape:
  assumes "byte c < 128"
  obtains (plain) "escape_byte c = [c]" "c \<noteq> CHR 0x22" "c \<noteq> CHR 0x5C" "\<not> byte c < 32"
  | (short) e where "escape_byte c = [CHR 0x5C, e]" "e \<noteq> CHR ''u''" "e \<in> set (CHR 0x22 # CHR 0x5C # ''/bfnrt'')"
      "unescape1 e = c"
  | (long) "escape_byte c = CHR 0x5C # CHR ''u'' # hex4 (byte c)"
proof (cases "c \<in> {CHR 0x22, CHR 0x5C, CHR 0x08, CHR 0x0C, CHR 0x0A, CHR 0x0D, CHR 0x09}")
  case True
  then have "escape_byte c = [CHR 0x5C, (escape_byte c) ! 1] \<and> (escape_byte c) ! 1 \<noteq> CHR ''u''
      \<and> (escape_byte c) ! 1 \<in> set (CHR 0x22 # CHR 0x5C # ''/bfnrt'') \<and> unescape1 ((escape_byte c) ! 1) = c"
    by (elim insertE emptyE) (simp_all add: escape_byte_def unescape1_def)
  then show ?thesis using short by blast
next
  case False
  then show ?thesis using plain long by (cases "byte c < 32 \<or> c = CHR ''<'' \<or> c = CHR ''>'' \<or> c = CHR ''&''")
    (simp_all add: escape_byte_def)
qed

lemma hex4_read: "byte c < 128 \<Longrightarrow> \<exists>a b x y. hex4 (byte c) = [a, b, x, y] \<and> is_hex a \<and> is_hex b \<and> is_hex x \<and> is_hex y
    \<and> u4 a b x y = byte c"
  by (simp add: escape_hex u4_def nibble_hex)

lemma scan_escape_byte:
  assumes "byte c < 128"
  shows "scan_string (escape_byte c @ t) = map_option (\<lambda>(raw, u). (escape_byte c @ raw, u)) (scan_string t)"
  using assms
proof (cases rule: escape_byte_shape)
  case long
  obtain a b x y where "hex4 (byte c) = [a, b, x, y]" "is_hex a" "is_hex b" "is_hex x" "is_hex y"
    using hex4_read [OF assms] by blast
  then show ?thesis by (simp add: long)
qed simp_all

lemma unquote_escape_byte:
  assumes "byte c < 128"
  shows "unquote (escape_byte c @ t) = c # unquote t"
  using assms
proof (cases rule: escape_byte_shape)
  case plain
  then show ?thesis using assms by (simp add: unquote.simps(2))
next
  case (short e)
  then show ?thesis by (simp add: unquote.simps(2) del: list.set)
next
  case long
  obtain a b x y where h: "hex4 (byte c) = [a, b, x, y]" "u4 a b x y = byte c"
    using hex4_read [OF assms] by blast
  have "encode_rune (byte c) = [c]" using assms by (simp add: encode_rune_def)
  then show ?thesis using assms by (simp add: long h unquote.simps(2))
qed

section \<open>Whole strings\<close>

lemma separators: "encode_rune 8232 = [CHR 0xE2, CHR 0x80, CHR 0xA8]"
  "encode_rune 8233 = [CHR 0xE2, CHR 0x80, CHR 0xA9]"
  by (simp_all add: encode_rune_def char_of_def bit_iff_odd)

declare utf8_len.simps(2) [simp del]

lemma separator_front:
  assumes "take 3 (c # s) = encode_rune 8232 \<or> take 3 (c # s) = encode_rune 8233"
  obtains r where "c = CHR 0xE2" "s = CHR 0x80 # CHR 0xA8 # r" "take 3 (c # s) = encode_rune 8232"
  | r where "c = CHR 0xE2" "s = CHR 0x80 # CHR 0xA9 # r" "take 3 (c # s) = encode_rune 8233"
  using assms by (cases s; cases "tl s") (auto simp: separators)

lemma separator_len: "utf8_len (CHR 0xE2 # CHR 0x80 # CHR 0xA8 # r) = 3" "utf8_len (CHR 0xE2 # CHR 0x80 # CHR 0xA9 # r) = 3"
  by (simp_all add: utf8_len.simps(2) cont_def)

lemma scan_escaped: "scan_string (escape_string s @ t) = map_option (\<lambda>(raw, u). (escape_string s @ raw, u)) (scan_string t)"
proof (induction s rule: escape_string.induct)
  case 1
  show ?case by (simp add: split_def option.map_ident)
next
  case (2 c s)
  have sep: "scan_string (CHR 0x5C # CHR ''u'' # w @ u) = map_option (\<lambda>(raw, v). (CHR 0x5C # CHR ''u'' # w @ raw, v)) (scan_string u)"
    if "w \<in> {''fffd'', ''2028'', ''2029''}" for w u
    using that by (auto simp: is_hex_def is_digit_def)
  have raw: "scan_string ((c # take n s) @ u) = map_option (\<lambda>(raw, v). ((c # take n s) @ raw, v)) (scan_string u)"
    if "\<not> byte c < 128" "utf8_len (c # s) = Suc n" for n u
  proof (rule scan_plain)
    have "128 \<le> byte x" if "x \<in> set (c # take n s)" for x
      by (rule utf8_front_bytes [of c s n x]) (use \<open>\<not> byte c < 128\<close> \<open>utf8_len (c # s) = Suc n\<close> that in simp_all)
    then show "list_all (\<lambda>x. x \<noteq> CHR 0x22 \<and> x \<noteq> CHR 0x5C \<and> \<not> byte x < 32) (c # take n s)"
      unfolding list_all_iff using plain_bytes by blast
  qed
  consider "byte c < 128" | "\<not> byte c < 128" "utf8_len (c # s) = 0"
    | "\<not> byte c < 128" "utf8_len (c # s) \<noteq> 0" "take 3 (c # s) = encode_rune 8232"
    | "\<not> byte c < 128" "utf8_len (c # s) \<noteq> 0" "take 3 (c # s) \<noteq> encode_rune 8232" "take 3 (c # s) = encode_rune 8233"
    | n where "\<not> byte c < 128" "utf8_len (c # s) = Suc n" "take 3 (c # s) \<noteq> encode_rune 8232" "take 3 (c # s) \<noteq> encode_rune 8233"
    by (cases "utf8_len (c # s)") blast+
  then show ?case
  proof cases
    case 1
    then show ?thesis
      using "2.IH"(1) by (simp add: escape_string.simps(2) scan_escape_byte option.map_comp comp_def split_def)
  next
    case c: 2
    then show ?thesis
      using "2.IH"(2) [OF c] sep [of "''fffd''"] by (simp add: escape_string.simps(2) option.map_comp comp_def split_def)
  next
    case c: 3
    then show ?thesis
      using "2.IH"(3) [OF c] sep [of "''2028''"] by (simp add: escape_string.simps(2) option.map_comp comp_def split_def)
  next
    case c: 4
    then show ?thesis
      using "2.IH"(4) [OF c] sep [of "''2029''"] by (simp add: escape_string.simps(2) option.map_comp comp_def split_def)
  next
    case c: 5
    then show ?thesis
      using "2.IH"(5) raw [OF c(1,2)] by (simp add: escape_string.simps(2) option.map_comp comp_def split_def)
  qed
qed

lemma unquote_escaped: "utf8 s \<Longrightarrow> unquote (escape_string s @ t) = s @ unquote t"
proof (induction s rule: escape_string.induct)
  case 1
  show ?case by simp
next
  case (2 c s)
  obtain n where n: "utf8_len (c # s) = Suc n" and rest: "utf8 (drop n s)"
    using "2.prems" by (cases "utf8_len (c # s)") (simp_all add: utf8.simps(2))
  show ?case
  proof (cases "byte c < 128")
    case True
    then show ?thesis
      using "2.IH"(1) [OF True] rest n by (simp add: escape_string.simps(2) unquote_escape_byte utf8_len.simps(2))
  next
    case False
    show ?thesis
    proof (cases "take 3 (c # s) = encode_rune 8232 \<or> take 3 (c # s) = encode_rune 8233")
      case True
      have u: "u4 CHR ''2'' CHR ''0'' CHR ''2'' CHR ''8'' = 8232" "u4 CHR ''2'' CHR ''0'' CHR ''2'' CHR ''9'' = 8233"
        by (simp_all add: u4_def hex_val_def is_digit_def)
      from True show ?thesis
      proof (cases rule: separator_front)
        case (1 r)
        then show ?thesis
          using "2.IH"(3) [OF False] rest n separator_len(1) [of r]
          by (simp add: escape_string.simps(2) unquote.simps(2) u separators)
      next
        case (2 r)
        then show ?thesis
          using "2.IH"(4) [OF False] rest n separator_len(2) [of r]
          by (simp add: escape_string.simps(2) unquote.simps(2) u separators)
      qed
    next
      case plain: False
      have "unquote ((c # take n s) @ escape_string (drop n s) @ t) = (c # take n s) @ unquote (escape_string (drop n s) @ t)"
        using utf8_len_front [OF n] utf8_len_bound [OF n] False by (auto simp: unquote.simps(2) min_absorb2)
      then show ?thesis
        using "2.IH"(5) [OF False] n plain rest False by (simp add: escape_string.simps(2))
    qed
  qed
qed

theorem unquote_marshal: "utf8 s \<Longrightarrow> unquote (escape_string s) = s"
  using unquote_escaped [of s "[]"] by simp

lemma scan_marshalled: "scan_string (escape_string s @ CHR 0x22 # t) = Some (escape_string s, t)"
  by (simp add: scan_escaped)

section \<open>Numbers\<close>

text \<open>What may follow a value: nothing, a delimiter or white space.\<close>

definition stops :: "string \<Rightarrow> bool" where
  "stops t \<longleftrightarrow> (case t of [] \<Rightarrow> True | c # _ \<Rightarrow> c \<in> set ''],}'' \<or> is_ws c)"

lemma stops_simps [simp]: "stops []" "stops (CHR '','' # t)" "stops (CHR '']'' # t)" "stops (CHR ''}'' # t)"
  by (simp_all add: stops_def)

lemma stops_not: "stops (c # t) \<Longrightarrow> \<not> is_digit c \<and> c \<noteq> CHR ''.'' \<and> c \<noteq> CHR ''e'' \<and> c \<noteq> CHR ''E''"
  by (auto simp: stops_def is_digit_def is_ws_def)

definition literal :: "string \<Rightarrow> bool" where
  "literal l \<longleftrightarrow> scan_number l = Some (l, [])"

lemma scan_digits1_more: "scan_digits1 s = Some (ds, r) \<Longrightarrow> r \<noteq> [] \<or> stops t \<Longrightarrow> scan_digits1 (s @ t) = Some (ds, r @ t)"
proof -
  assume a: "scan_digits1 s = Some (ds, r)" and e: "r \<noteq> [] \<or> stops t"
  then have ds: "ds = takeWhile is_digit s" "r = dropWhile is_digit s" "ds \<noteq> []"
    by (auto simp: scan_digits1_def split: if_splits)
  show ?thesis
  proof (cases "\<forall>x \<in> set s. is_digit x")
    case True
    then have r: "r = []" "ds = s" using ds by (simp_all add: takeWhile_eq_all_conv)
    then have "takeWhile is_digit t = []" "dropWhile is_digit t = t"
      using e stops_not by (cases t; auto)+
    then show ?thesis using True r ds(3) by (simp add: scan_digits1_def)
  next
    case False
    then have "takeWhile is_digit (s @ t) = ds" "dropWhile is_digit (s @ t) = r @ t"
      using ds by (auto simp: takeWhile_append dropWhile_append)
    then show ?thesis using ds(3) by (simp add: scan_digits1_def)
  qed
qed

lemma scan_int_more: "scan_int s = Some (ds, r) \<Longrightarrow> r \<noteq> [] \<or> stops t \<Longrightarrow> scan_int (s @ t) = Some (ds, r @ t)"
  using scan_digits1_more [of s ds r t] by (cases s) (auto split: if_splits)

lemma scan_frac_more: "scan_frac s = Some (ds, r) \<Longrightarrow> r \<noteq> [] \<or> stops t \<Longrightarrow> scan_frac (s @ t) = Some (ds, r @ t)"
proof (cases s)
  case Nil
  assume "scan_frac s = Some (ds, r)" "r \<noteq> [] \<or> stops t"
  then show ?thesis using Nil stops_not by (cases t) auto
next
  case (Cons c s')
  assume "scan_frac s = Some (ds, r)" "r \<noteq> [] \<or> stops t"
  then show ?thesis using Cons scan_digits1_more [of s' _ r t] by (auto split: if_splits)
qed

lemma scan_exp_more: "scan_exp s = Some (ds, r) \<Longrightarrow> r \<noteq> [] \<or> stops t \<Longrightarrow> scan_exp (s @ t) = Some (ds, r @ t)"
proof (cases s)
  case Nil
  assume "scan_exp s = Some (ds, r)" "r \<noteq> [] \<or> stops t"
  then show ?thesis using Nil stops_not by (cases t) auto
next
  case (Cons c s')
  assume a: "scan_exp s = Some (ds, r)" "r \<noteq> [] \<or> stops t"
  then show ?thesis
    using Cons scan_digits1_more [of s' _ r t] scan_digits1_more [of "tl s'" _ r t]
    by (cases s') (auto split: if_splits)
qed

lemma scan_number_more:
  assumes "literal l" and "stops t"
  shows "scan_number (l @ t) = Some (l, t)"
proof -
  obtain sign s0 where s0: "(case l of c # r \<Rightarrow> if c = CHR ''-'' then ([c], r) else ([], l) | [] \<Rightarrow> ([], l)) = (sign, s0)"
    by fastforce
  have l: "l = sign @ s0" using s0 by (auto split: list.splits if_splits)
  from assms(1) s0 obtain i s1 f s2 e where
    i: "scan_int s0 = Some (i, s1)" and f: "scan_frac s1 = Some (f, s2)" and e: "scan_exp s2 = Some (e, [])"
    and l': "sign @ i @ f @ e = l"
    by (auto simp: literal_def scan_number_def split: option.splits)
  have "s0 \<noteq> []" using i by (cases s0) auto
  then have "(case l @ t of c # r \<Rightarrow> if c = CHR ''-'' then ([c], r) else ([], l @ t) | [] \<Rightarrow> ([], l @ t)) = (sign, s0 @ t)"
    using s0 by (cases l) (auto split: if_splits)
  then show ?thesis
    using scan_int_more [OF i, of t] scan_frac_more [OF f, of t] scan_exp_more [OF e, of t] assms(2) l'
    by (simp add: scan_number_def)
qed

lemma literal_front: "literal l \<Longrightarrow> \<exists>c r. l = c # r \<and> (is_digit c \<or> c = CHR ''-'')"
proof -
  assume "literal l"
  then show ?thesis
    by (cases l) (auto simp: literal_def scan_number_def scan_digits1_def is_digit_def split: if_splits option.splits)
qed

text \<open>Integers are printed as literals.\<close>

lemma decimal_front: "0 < n \<Longrightarrow> hd (decimal n) \<noteq> CHR ''0''"
proof (induction n rule: decimal.induct)
  case (1 n)
  show ?case
  proof (cases "n < 10")
    case True
    have "byte (char_of (48 + n)) = 48 + n" using True by simp
    then have "char_of (48 + n) \<noteq> CHR ''0''" using 1(2) by force
    then show ?thesis using True by (subst decimal.simps) simp
  next
    case False
    then have "decimal n = decimal (n div 10) @ [char_of (48 + n mod 10)]" by (subst decimal.simps) simp
    then show ?thesis using 1(1) [OF False] False decimal_digits [of "n div 10"] by simp
  qed
qed

lemma scan_decimal: "scan_int (decimal n) = Some (decimal n, [])"
proof -
  obtain c r where c: "decimal n = c # r" using decimal_digits [of n] by (cases "decimal n") auto
  have digits: "list_all is_digit (c # r)" using decimal_digits [of n] c by simp
  show ?thesis
  proof (cases "n = 0")
    case True
    have "decimal 0 = ''0''" by (subst decimal.simps) (simp add: char_of_def bit_iff_odd)
    then show ?thesis using True by simp
  next
    case False
    then have "c \<noteq> CHR ''0''" using decimal_front [of n] c by simp
    moreover have "takeWhile is_digit (c # r) = c # r" "dropWhile is_digit (c # r) = []"
      using digits by (simp_all add: list_all_iff)
    ultimately show ?thesis unfolding c by (simp add: scan_digits1_def)
  qed
qed

lemma literal_decimal: "literal (decimal n)" "literal (CHR ''-'' # decimal n)"
proof -
  obtain c r where c: "decimal n = c # r" "is_digit c" using decimal_digits [of n] by (cases "decimal n") auto
  then have "c \<noteq> CHR ''-''" using digit_not_minus by blast
  then show "literal (decimal n)" "literal (CHR ''-'' # decimal n)"
    using scan_decimal [of n] c by (simp_all add: literal_def scan_number_def)
qed

section \<open>Values\<close>

fun depth :: "json \<Rightarrow> nat"
  and depth_list :: "json list \<Rightarrow> nat"
  and depth_members :: "(string \<times> json) list \<Rightarrow> nat" where
  "depth (JArr vs) = Suc (depth_list vs)"
| "depth (JObj ms) = Suc (depth_members ms)"
| "depth v = 0"
| "depth_list [] = 0"
| "depth_list (v # vs) = max (depth v) (depth_list vs)"
| "depth_members [] = 0"
| "depth_members ((k, v) # ms) = max (depth v) (depth_members ms)"

fun printable :: "json \<Rightarrow> bool"
  and printable_list :: "json list \<Rightarrow> bool"
  and printable_members :: "(string \<times> json) list \<Rightarrow> bool" where
  "printable (JNum l) = literal l"
| "printable (JStr s) = utf8 s"
| "printable (JArr vs) = printable_list vs"
| "printable (JObj ms) = printable_members ms"
| "printable v = True"
| "printable_list [] = True"
| "printable_list (v # vs) = (printable v \<and> printable_list vs)"
| "printable_members [] = True"
| "printable_members ((k, v) # ms) = (utf8 k \<and> printable v \<and> printable_members ms)"

lemma printable_int [simp]: "printable (int_json n)"
  using literal_decimal by (simp add: int_json_def)

lemma depth_int [simp]: "depth (int_json n) = 0"
  by (simp add: int_json_def)

lemma skip_ws_id [simp]: "\<not> is_ws c \<Longrightarrow> skip_ws (c # s) = c # s"
  by (simp add: skip_ws_def)

lemma ws_marks [simp]: "\<not> is_ws CHR ''{''" "\<not> is_ws CHR ''[''" "\<not> is_ws CHR '']''" "\<not> is_ws CHR ''}''" "\<not> is_ws CHR '',''"
  "\<not> is_ws CHR '':''" "\<not> is_ws CHR 0x22" "\<not> is_ws CHR ''t''" "\<not> is_ws CHR ''f''" "\<not> is_ws CHR ''n''"
  by (simp_all add: is_ws_def)

lemma number_marks: "is_digit c \<or> c = CHR ''-'' \<Longrightarrow> \<not> is_ws c \<and> c \<noteq> CHR ''{'' \<and> c \<noteq> CHR ''['' \<and> c \<noteq> CHR '']'' \<and> c \<noteq> CHR 0x22
    \<and> c \<noteq> CHR ''t'' \<and> c \<noteq> CHR ''f'' \<and> c \<noteq> CHR ''n''"
  by (auto simp: is_digit_def is_ws_def)

text \<open>A printed value starts with a mark of its own, never white space and never a closing bracket.\<close>

lemma marshal_front: "printable v \<Longrightarrow> \<exists>c r. marshal v = c # r \<and> \<not> is_ws c \<and> c \<noteq> CHR '']''"
  using literal_front number_marks by (cases v) (fastforce simp: marshal_string_def)+

lemma parse_number:
  assumes "literal l" and "stops t"
  shows "parse_value (Suc n) d (l @ t) = Some (JNum l, t)"
proof -
  obtain c r where c: "l = c # r" "is_digit c \<or> c = CHR ''-''" using literal_front [OF assms(1)] by blast
  note m = number_marks [OF c(2)]
  show ?thesis using scan_number_more [OF assms] m by (simp add: c(1))
qed

lemma parse_printed:
  "printable v \<Longrightarrow> length (marshal v) \<le> n \<Longrightarrow> d + depth v \<le> max_depth \<Longrightarrow> stops t \<Longrightarrow>
     parse_value n d (marshal v @ t) = Some (v, t)"
  "vs \<noteq> [] \<Longrightarrow> printable_list vs \<Longrightarrow> length (marshal_list vs) < n \<Longrightarrow> d + depth_list vs \<le> max_depth \<Longrightarrow>
     parse_elems n d (marshal_list vs @ CHR '']'' # t) = Some (vs, t)"
  "ms \<noteq> [] \<Longrightarrow> printable_members ms \<Longrightarrow> length (marshal_members ms) < n \<Longrightarrow> d + depth_members ms \<le> max_depth \<Longrightarrow>
     parse_members n d (marshal_members ms @ CHR ''}'' # t) = Some (ms, t)"
proof (induction v and vs and ms arbitrary: n d t and n d t and n d t rule: marshal_marshal_list_marshal_members.induct)
  case 1
  then show ?case by (cases n) simp_all
next
  case (2 b)
  then show ?case by (cases n; cases b) simp_all
next
  case (3 l)
  then show ?case using literal_front by (cases n) (auto intro: parse_number simp del: parse_value.simps)
next
  case (4 s)
  then show ?case by (cases n) (simp_all add: marshal_string_def scan_marshalled unquote_marshal)
next
  case (5 vs)
  then obtain k where n: "n = Suc k" by (cases n) simp_all
  show ?case
  proof (cases vs)
    case Nil
    then show ?thesis using 5 n by simp
  next
    case (Cons w ws)
    then have p: "printable w" using 5 by simp
    obtain c r where c: "marshal w = c # r" "\<not> is_ws c" "c \<noteq> CHR '']''" using marshal_front [OF p] by blast
    have "marshal_list vs = c # r @ (if ws = [] then [] else '','' @ marshal_list ws)" using Cons c by simp
    then show ?thesis using 5 n Cons c by (simp del: marshal_list.simps)
  qed
next
  case (6 ms)
  then obtain k where n: "n = Suc k" by (cases n) simp_all
  show ?case
  proof (cases ms)
    case Nil
    then show ?thesis using 6 n by simp
  next
    case (Cons kv ws)
    then obtain r where "marshal_members ms = CHR 0x22 # r" by (cases kv) (simp add: marshal_string_def)
    then show ?thesis using 6 n Cons by (simp del: marshal_members.simps)
  qed
next
  case 7
  then show ?case by simp
next
  case (8 v vs)
  then obtain k where n: "n = Suc k" by (cases n) simp_all
  show ?case
  proof (cases "vs = []")
    case True
    then show ?thesis using 8 n by simp
  next
    case False
    then show ?thesis using 8 n by simp
  qed
next
  case 9
  then show ?case by simp
next
  case (10 key v ms)
  then obtain k where n: "n = Suc k" by (cases n) simp_all
  show ?case
  proof (cases "ms = []")
    case True
    then show ?thesis using 10 n by (simp add: marshal_string_def scan_marshalled unquote_marshal)
  next
    case False
    then show ?thesis using 10 n by (simp add: marshal_string_def scan_marshalled unquote_marshal)
  qed
qed

theorem decode_marshal:
  assumes "printable v" and "depth v \<le> max_depth" and "stops t"
  shows "decode_one (marshal v @ t) = Some (v, t)"
  unfolding decode_one_def using assms by (intro parse_printed(1)) simp_all

corollary decode_all_marshal: "printable v \<Longrightarrow> depth v \<le> max_depth \<Longrightarrow> decode_all (marshal v) = Some v"
  using decode_marshal [of v "[]"] by (simp add: decode_all_def skip_ws_def)

section \<open>Members with their texts\<close>

definition with_texts :: "(string \<times> json) list \<Rightarrow> member list" where
  "with_texts ms = map (\<lambda>(k, v). (k, marshal v, v)) ms"

lemma raw_value_marshal:
  assumes "printable v" and "depth v \<le> max_depth" and "stops t"
  shows "raw_value (marshal v @ t) = Some (marshal v, v, t)"
proof -
  obtain c r where c: "marshal v = c # r" "\<not> is_ws c" using marshal_front [OF assms(1)] by blast
  then have "skip_ws (marshal v @ t) = marshal v @ t" by simp
  then show ?thesis using decode_marshal [OF assms] by (simp add: raw_value_def)
qed

lemma raw_members_marshal:
  "ms \<noteq> [] \<Longrightarrow> printable_members ms \<Longrightarrow> length (marshal_members ms) \<le> n \<Longrightarrow> depth_members ms \<le> max_depth \<Longrightarrow>
     raw_members n (marshal_members ms @ CHR ''}'' # t) = Some (with_texts ms, t)"
proof (induction ms arbitrary: n)
  case (Cons kv ms)
  obtain k v where kv: "kv = (k, v)" by (cases kv)
  from Cons.prems(3) kv obtain j where n: "n = Suc j" by (cases n) (simp_all add: marshal_string_def)
  have raw: "raw_value (marshal v @ u) = Some (marshal v, v, u)" if "stops u" for u
    using raw_value_marshal that Cons.prems(2,4) kv by simp
  show ?case
  proof (cases "ms = []")
    case True
    then show ?thesis using Cons.prems(2) kv n raw
      by (simp add: marshal_string_def scan_marshalled unquote_marshal with_texts_def)
  next
    case False
    then show ?thesis using Cons kv n raw
      by (simp add: marshal_string_def scan_marshalled unquote_marshal with_texts_def)
  qed
qed simp

theorem object_members_marshal:
  assumes "printable_members ms" and "depth_members ms \<le> max_depth"
  shows "object_members (marshal (JObj ms)) = Some (with_texts ms)"
proof (cases ms)
  case Nil
  then show ?thesis by (simp add: object_members_def with_texts_def)
next
  case (Cons kv ms')
  then obtain r where r: "marshal_members ms = CHR 0x22 # r" by (cases kv) (simp add: marshal_string_def)
  have "raw_members (length (marshal_members ms @ ''}'')) (marshal_members ms @ ''}'') = Some (with_texts ms, [])"
    by (rule raw_members_marshal) (use assms Cons in simp_all)
  then show ?thesis using r by (simp add: object_members_def del: raw_members.simps)
qed

text \<open>A printed object decodes into a struct as the members it was printed from.\<close>

theorem decode_struct_marshal:
  assumes "printable_members ms" and "depth_members ms < max_depth" and "length (marshal (JObj ms)) \<le> max_body"
    and "list_all (\<lambda>(k, v). list_ex (equal_fold k) names) ms"
  shows "decode_struct names (marshal (JObj ms)) = Some (with_texts ms)"
proof -
  have "known names (with_texts ms)" using assms(4) by (simp add: known_def with_texts_def list_all_iff split_def)
  then show ?thesis
    using decode_struct_object [OF assms(3), of ms "with_texts ms" names] assms(1,2)
      decode_marshal [of "JObj ms" "[]"] object_members_marshal [of ms] by simp
qed

lemma plain_with_texts [simp]: "plain_members (with_texts ms) = ms"
  by (induction ms) (auto simp: plain_members_def with_texts_def)

text \<open>Member names are matched up to the case of their letters; names of a struct are all different.\<close>

lemma field_marshal: "field rd name x ms = field rd name x (filter (\<lambda>(k, v). equal_fold k name) ms)"
  by (induction rd name x ms rule: field.induct) (auto split: option.splits)

end
