(* ===== verification/Time_Round.thy ===== *)
theory Time_Round
  imports Http
begin

text \<open>
  Reading back a formatted time: the calendar conversions are inverse to each other, numbers
  padded with zeros read as themselves, and the fraction keeps all nine digits. Times of the
  years 0 to 9999, the ones RFC 3339 can write, survive the trip through JSON.
\<close>

section \<open>The calendar\<close>

text \<open>
  A day of a 400-year era, by century, four-year cycle and year. The estimate of the year divides
  after taking out the leap days seen so far.
\<close>

lemma era_day:
  fixes doe :: int
  assumes "0 \<le> doe" and "doe \<le> 146096"
  obtains c q k u where "0 \<le> c" "c \<le> 3" "0 \<le> q" "q \<le> 24" "0 \<le> k" "k \<le> 3" "0 \<le> u" "u \<le> 365"
    "doe = 36524 * c + 1461 * q + 365 * k + u"
    "u = 365 \<Longrightarrow> k = 3 \<and> (q < 24 \<or> c = 3)"
    "(doe - doe div 1460 + doe div 36524 - doe div 146096) div 365 = 100 * c + 4 * q + k"
proof -
  define c where "c = (if doe = 146096 then 3 else doe div 36524)"
  define r where "r = doe - 36524 * c"
  define q where "q = (if doe = 146096 then 24 else r div 1461)"
  define s where "s = r - 1461 * q"
  define k where "k = (if s = 1460 then 3 else s div 365)"
  have c: "0 \<le> c" "c \<le> 3" using assms by (auto simp: c_def)
  have r: "0 \<le> r" "r \<le> 36524" "r = 36524 \<Longrightarrow> c = 3"
    using assms by (auto simp: r_def c_def)
  have q: "0 \<le> q" "q \<le> 24" using r assms by (auto simp: q_def r_def c_def)
  have s: "0 \<le> s" "s \<le> 1460" "s = 1460 \<Longrightarrow> q < 24 \<or> c = 3"
    using r q assms by (auto simp: s_def q_def r_def c_def)
  have k: "0 \<le> k" "k \<le> 3" using s by (auto simp: k_def)
  define u where "u = s - 365 * k"
  have u: "0 \<le> u" "u \<le> 365" "u = 365 \<Longrightarrow> s = 1460" "u = 365 \<Longrightarrow> k = 3"
    using s by (auto simp: u_def k_def split: if_splits)
  have split: "doe = 36524 * c + 1461 * q + s" by (simp add: s_def r_def)
  define e :: int where "e = (if 24 * c + q + s \<ge> 1460 then 1 else 0)"
  have "doe div 1460 = 25 * c + q + e"
    by (rule int_div_pos_eq [where r = "24 * c + q + s - 1460 * e"]) (use split c q s in \<open>auto simp: e_def\<close>)
  moreover have "doe div 36524 - doe div 146096 = c"
    using assms by (auto simp: c_def div_pos_pos_trivial)
  ultimately have n: "doe - doe div 1460 + doe div 36524 - doe div 146096 = 365 * (100 * c + 4 * q + k) + (u - e)"
    using split by (simp add: u_def)
  have "u - e \<ge> 0" "u - e < 365"
    using c q s k by (auto simp: e_def u_def k_def)
  with n have est: "(doe - doe div 1460 + doe div 36524 - doe div 146096) div 365 = 100 * c + 4 * q + k"
    by (intro int_div_pos_eq [where r = "u - e"]) simp_all
  have "doe = 36524 * c + 1461 * q + 365 * k + u" using split by (simp add: u_def)
  then show ?thesis using that [of c q k u] c q k u s(3) est by blast
qed

text \<open>A day of the year that starts in March, by month.\<close>

lemma month_day:
  fixes doy :: int
  assumes "0 \<le> doy" and "doy \<le> 365"
  defines "mp \<equiv> (5 * doy + 2) div 153"
  defines "d \<equiv> doy - (153 * mp + 2) div 5 + 1"
  shows "0 \<le> mp" "mp \<le> 11" "1 \<le> d" "d \<le> 31" "mp \<in> {1, 3, 6, 8} \<Longrightarrow> d \<le> 30" "mp = 11 \<Longrightarrow> d \<le> 29"
    "mp = 11 \<Longrightarrow> d = 29 \<Longrightarrow> doy = 365"
proof -
  have b: "153 * mp \<le> 5 * doy + 2" "5 * doy + 2 < 153 * mp + 153"
    unfolding mp_def by (simp_all add: algebra_simps)
  then show m: "0 \<le> mp" "mp \<le> 11" using assms(1,2) by linarith+
  have "mp \<in> {0, 1, 2, 3, 4, 5, 6, 7, 8, 9, 10, 11}" using m by simp presburger
  then have "1 \<le> d \<and> d \<le> 31 \<and> (mp \<in> {1, 3, 6, 8} \<longrightarrow> d \<le> 30) \<and> (mp = 11 \<longrightarrow> d \<le> 29 \<and> (d = 29 \<longrightarrow> doy = 365))"
    using b assms(1,2) unfolding d_def by (elim insertE emptyE) simp_all
  then show "1 \<le> d" "d \<le> 31" "mp \<in> {1, 3, 6, 8} \<Longrightarrow> d \<le> 30" "mp = 11 \<Longrightarrow> d \<le> 29"
    "mp = 11 \<Longrightarrow> d = 29 \<Longrightarrow> doy = 365" by blast+
qed

lemma leap_year:
  fixes c q k era :: int
  assumes "k = 3" and "q < 24 \<or> c = 3" and "0 \<le> q" "q \<le> 24" "0 \<le> c" "c \<le> 3"
  shows "is_leap (100 * c + 4 * q + k + era * 400 + 1)"
proof -
  have y: "100 * c + 4 * q + k + era * 400 + 1 = 100 * c + 4 * (q + 1) + era * 400" using assms(1) by simp
  have "100 * c + 4 * (q + 1) + era * 400 = (25 * c + q + 1 + era * 100) * 4" by simp
  then have "(100 * c + 4 * (q + 1) + era * 400) mod 4 = 0" by simp
  moreover have "(100 * c + 4 * (q + 1) + era * 400) mod 100 \<noteq> 0" if "q < 24"
  proof -
    have "100 * c + 4 * (q + 1) + era * 400 = 4 * (q + 1) + (c + era * 4) * 100" by simp
    then have "(100 * c + 4 * (q + 1) + era * 400) mod 100 = 4 * (q + 1) mod 100" by (simp only: mod_mult_self1)
    then show ?thesis using that assms(3) by simp
  qed
  moreover have "(100 * c + 4 * (q + 1) + era * 400) mod 400 = 0" if "q = 24" "c = 3"
    using that by simp
  ultimately show ?thesis using assms unfolding is_leap_def y by fastforce
qed

lemma civil_round:
  assumes "civil_from_days z = (y, m, d)"
  shows "days_from_civil y m d = z" "1 \<le> m" "m \<le> 12" "1 \<le> d" "d \<le> days_in y m"
proof -
  define era where "era = (z + 719468) div 146097"
  define doe where "doe = (z + 719468) mod 146097"
  have z: "z = era * 146097 + doe - 719468" and doe: "0 \<le> doe" "doe \<le> 146096"
    by (simp_all add: era_def doe_def)
  obtain c q k u where ckq: "0 \<le> c" "c \<le> 3" "0 \<le> q" "q \<le> 24" "0 \<le> k" "k \<le> 3" "0 \<le> u" "u \<le> 365"
    and split: "doe = 36524 * c + 1461 * q + 365 * k + u" and leap: "u = 365 \<Longrightarrow> k = 3 \<and> (q < 24 \<or> c = 3)"
    and est: "(doe - doe div 1460 + doe div 36524 - doe div 146096) div 365 = 100 * c + 4 * q + k"
    using era_day [OF doe] by metis
  define yoe where "yoe = 100 * c + 4 * q + k"
  have yoe: "0 \<le> yoe" "yoe < 400" "yoe div 4 = 25 * c + q" "yoe div 100 = c"
    using ckq by (simp_all add: yoe_def)
  have doy: "doe - (365 * yoe + yoe div 4 - yoe div 100) = u"
    unfolding yoe(3,4) using split by (simp add: yoe_def)
  define mp where "mp = (5 * u + 2) div 153"
  note md = month_day [OF ckq(7,8), folded mp_def]
  have v: "d = u - (153 * mp + 2) div 5 + 1" "m = (if mp < 10 then mp + 3 else mp - 9)"
    "y = yoe + era * 400 + (if m \<le> 2 then 1 else 0)"
    using assms unfolding civil_from_days_def Let_def era_def [symmetric] doe_def [symmetric] est yoe_def [symmetric] doy
      mp_def [symmetric] by auto
  show m: "1 \<le> m" "m \<le> 12" using md(1,2) v(2) by auto
  show "1 \<le> d" using md(3) v(1) by simp
  have y': "(if m \<le> 2 then y - 1 else y) = yoe + era * 400" using v(3) by auto
  have era: "(yoe + era * 400) div 400 = era" "(yoe + era * 400) mod 400 = yoe" using yoe by simp_all
  have mp: "(if m > 2 then m - 3 else m + 9) = mp" using md(1,2) v(2) by auto
  show "days_from_civil y m d = z"
    unfolding days_from_civil_def Let_def y' era mp
    using doy v(1) z by simp
  show "d \<le> days_in y m"
  proof (cases "mp = 11 \<and> d = 29")
    case True
    then have "u - (153 * mp + 2) div 5 + 1 = 29" using v(1) by presburger
    with md(7) True have "u = 365" by blast
    then have "is_leap (yoe + era * 400 + 1)" using leap leap_year [of k q c era] ckq by (simp add: yoe_def)
    then show ?thesis using True v(2,3) by (simp add: days_in_def)
  next
    case False
    then show ?thesis using md v m by (auto simp: days_in_def)
  qed
qed

section \<open>Digits\<close>

lemma pad_reads:
  assumes "0 \<le> n" and "n < 10 ^ w"
  shows "length (pad w n) = w \<and> list_all is_digit (pad w n) \<and> int (nat_of_digits (pad w n)) = n"
  using assms
proof (induction w arbitrary: n)
  case (Suc w)
  have b: "0 \<le> n div 10" "n div 10 < 10 ^ w" "0 \<le> n mod 10" "n mod 10 < 10" using Suc.prems by auto
  have "is_digit (char_of (48 + nat (n mod 10)))" "byte (char_of (48 + nat (n mod 10))) = 48 + nat (n mod 10)"
    using digit_char [of "nat (n mod 10)"] b by simp_all
  then show ?case using Suc.IH [OF b(1,2)] b(3) by (simp add: nat_of_digits_snoc)
qed (simp add: nat_of_digits_def)

lemmas pad_digits = conjunct1 [OF pad_reads] conjunct1 [OF conjunct2 [OF pad_reads]] conjunct2 [OF conjunct2 [OF pad_reads]]

lemma pad_all_digits: "list_all is_digit (pad w n)"
proof (induction w arbitrary: n)
  case (Suc w)
  have "is_digit (char_of (48 + nat (n mod 10)))" by (rule digit_char) (simp add: nat_less_iff)
  with Suc show ?case by simp
qed simp

lemma read_pad: "0 \<le> n \<Longrightarrow> n < 10 ^ w \<Longrightarrow> 0 < w \<Longrightarrow> read_int (pad w n) = Some n"
  using pad_digits [of n w] by (cases "pad w n") (auto simp: read_int_def)

lemma nat_of_digits_zeros: "nat_of_digits (ds @ replicate k (CHR ''0'')) = nat_of_digits ds * 10 ^ k"
proof (induction k)
  case (Suc k)
  have "ds @ replicate (Suc k) (CHR ''0'') = (ds @ replicate k (CHR ''0'')) @ [CHR ''0'']"
    by (simp add: replicate_append_same)
  then show ?case using Suc by (simp add: nat_of_digits_snoc del: append_assoc)
qed simp

lemma strip_zeros_split: "\<exists>k. s = strip_zeros s @ replicate k (CHR ''0'')"
proof -
  let ?z = "takeWhile (\<lambda>c. c = CHR ''0'') (rev s)"
  have "rev s = ?z @ dropWhile (\<lambda>c. c = CHR ''0'') (rev s)" by simp
  then have "s = strip_zeros s @ rev ?z" unfolding strip_zeros_def by (metis rev_append rev_rev_ident)
  moreover have "?z = replicate (length ?z) (CHR ''0'')"
    by (rule replicate_length_same [symmetric]) (auto dest: set_takeWhileD)
  ultimately show ?thesis by (metis rev_replicate)
qed

lemma read_fraction_pad:
  assumes "0 \<le> ns" and "ns < 10 ^ 9"
  shows "read_fraction ((if strip_zeros (pad 9 ns) = [] then [] else CHR ''.'' # strip_zeros (pad 9 ns)) @ ''Z'') = Some (ns, ''Z'')"
proof -
  note p = pad_digits [OF assms]
  obtain k where k: "pad 9 ns = strip_zeros (pad 9 ns) @ replicate k (CHR ''0'')" using strip_zeros_split by blast
  let ?f = "strip_zeros (pad 9 ns)"
  have "length (pad 9 ns) = length ?f + k" "list_all is_digit (?f @ replicate k CHR ''0'')"
    "int (nat_of_digits (?f @ replicate k CHR ''0'')) = ns"
    using k p by (metis length_append length_replicate)+
  then have len: "length ?f \<le> 9" and digits: "list_all is_digit ?f" and k9: "k = 9 - length ?f"
    and "int (nat_of_digits ?f) * 10 ^ k = ns"
    using p(1) by (simp_all add: nat_of_digits_zeros)
  then have val: "int (nat_of_digits ?f) * 10 ^ (9 - length ?f) = ns" by (simp only: k9)
  have z: "\<not> is_digit CHR ''Z''" by (simp add: is_digit_def)
  show ?thesis
  proof (cases "?f = []")
    case True
    then show ?thesis using val by (simp add: read_fraction_def nat_of_digits_def)
  next
    case False
    have "takeWhile is_digit (?f @ ''Z'') = ?f" "dropWhile is_digit (?f @ ''Z'') = ''Z''"
      using digits z by (simp_all add: takeWhile_append dropWhile_append list_all_iff)
    then show ?thesis using False len val by (simp add: read_fraction_def)
  qed
qed

section \<open>Times\<close>

text \<open>The first and one past the last instant RFC 3339 can write.\<close>

definition writable :: "time \<Rightarrow> bool" where
  "writable t \<longleftrightarrow> (case civil_from_days (t div day_ns) of (y, m, d) \<Rightarrow> 0 \<le> y \<and> y \<le> 9999)"

lemma two_chars: "length s = 2 \<Longrightarrow> \<exists>a b. s = [a, b]"
  by (cases s; cases "tl s") auto

lemma four_chars: "length s = 4 \<Longrightarrow> \<exists>a b c d. s = [a, b, c, d]"
  by (cases s; cases "tl s"; cases "tl (tl s)"; cases "tl (tl (tl s))") auto

theorem parse_format:
  assumes "writable t"
  shows "parse_time (format_time t) = Some t"
proof -
  obtain y m d where ymd: "civil_from_days (t div day_ns) = (y, m, d)" by (metis prod_cases3)
  note c = civil_round [OF ymd]
  have y: "0 \<le> y" "y \<le> 9999" using assms ymd by (simp_all add: writable_def)
  have d: "d \<le> 31" using c(5) by (auto simp: days_in_def split: if_splits)
  define r where "r = t mod day_ns"
  define ns where "ns = r mod second"
  define s where "s = r div second"
  have r: "0 \<le> r" "r < day_ns" "t = t div day_ns * day_ns + r" by (simp_all add: r_def day_ns_def second_def millisecond_def)
  have ns: "0 \<le> ns" "ns < 10 ^ 9" "r = s * second + ns" by (simp_all add: ns_def s_def second_def millisecond_def)
  have s: "0 \<le> s" "s < 86400" using r(1,2) by (simp_all add: s_def day_ns_def second_def millisecond_def)
  define h where "h = s div 3600"
  define mi where "mi = s div 60 mod 60"
  define sec where "sec = s mod 60"
  have hms: "0 \<le> h" "h \<le> 23" "0 \<le> mi" "mi \<le> 59" "0 \<le> sec" "sec \<le> 59" "s = h * 3600 + mi * 60 + sec"
  proof -
    have "s = s div 60 * 60 + sec" "s div 60 = s div 60 div 60 * 60 + mi"
      unfolding sec_def mi_def by (rule div_mult_mod_eq [symmetric])+
    moreover have "s div 60 div 60 = h" by (simp add: h_def flip: zdiv_zmult2_eq)
    ultimately show "s = h * 3600 + mi * 60 + sec" by linarith
  qed (use s in \<open>simp_all add: h_def mi_def sec_def\<close>)
  obtain y1 y2 y3 y4 where Y: "pad 4 y = [y1, y2, y3, y4]"
    using four_chars [OF pad_digits(1) [of y 4]] y by auto
  obtain m1 m2 where M: "pad 2 m = [m1, m2]" using two_chars [OF pad_digits(1) [of m 2]] c(2,3) by auto
  obtain d1 d2 where D: "pad 2 d = [d1, d2]" using two_chars [OF pad_digits(1) [of d 2]] c(4) d by auto
  obtain h1 h2 where H: "pad 2 h = [h1, h2]" using two_chars [OF pad_digits(1) [of h 2]] hms by auto
  obtain i1 i2 where I: "pad 2 mi = [i1, i2]" using two_chars [OF pad_digits(1) [of mi 2]] hms by auto
  obtain s1 s2 where S: "pad 2 sec = [s1, s2]" using two_chars [OF pad_digits(1) [of sec 2]] hms by auto
  let ?f = "(if strip_zeros (pad 9 ns) = [] then [] else CHR ''.'' # strip_zeros (pad 9 ns)) @ ''Z''"
  have layout: "format_time t = [y1, y2, y3, y4, CHR ''-'', m1, m2, CHR ''-'', d1, d2, CHR ''T'', h1, h2, CHR '':'', i1, i2,
      CHR '':'', s1, s2] @ ?f"
    unfolding format_time_def Let_def ymd prod.case r_def [symmetric] ns_def [symmetric] s_def [symmetric]
      h_def [symmetric] mi_def [symmetric] sec_def [symmetric] Y M D H I S by simp
  have reads: "read_int [y1, y2, y3, y4] = Some y" "read_int [m1, m2] = Some m" "read_int [d1, d2] = Some d"
    "read_int [h1, h2] = Some h" "read_int [i1, i2] = Some mi" "read_int [s1, s2] = Some sec"
    using read_pad [of y 4] read_pad [of m 2] read_pad [of d 2] read_pad [of h 2] read_pad [of mi 2] read_pad [of sec 2]
      y c(2,3,4) d hms by (simp_all add: Y M D H I S)
  have whole: "(t div day_ns * 86400 + h * 3600 + mi * 60 + sec) * second + ns = t"
    using r(3) ns(3) hms(7) by (simp add: day_ns_def algebra_simps)
  show ?thesis
    unfolding parse_time_def layout using reads read_fraction_pad [OF ns(1,2)] c hms whole
    by (simp add: read_zone_def)
qed

text \<open>A formatted time is plain ASCII.\<close>

lemma strip_zeros_all: "list_all P s \<Longrightarrow> list_all P (strip_zeros s)"
  using set_dropWhileD by (fastforce simp: strip_zeros_def list_all_iff)

lemma format_ascii: "list_all (\<lambda>c. byte c < 128) (format_time t)"
proof -
  have ascii: "list_all (\<lambda>c. byte c < 128) s" if "list_all is_digit s" for s
    using that by (auto simp: list_all_iff is_digit_def)
  have p: "list_all (\<lambda>c. byte c < 128) (pad w n)" for w n by (rule ascii [OF pad_all_digits])
  have f: "list_all (\<lambda>c. byte c < 128) (strip_zeros (pad 9 n))" for n by (rule strip_zeros_all [OF p])
  show ?thesis by (simp add: format_time_def Let_def p f split: prod.split)
qed

end
