(* ===== verification/Listing.thy ===== *)
theory Listing
  imports Coordinator Scenario Json_Round Time_Round "HOL-Library.Product_Lexorder"
begin

text \<open>
  The paged reads of the store: \<open>cursor.go\<close>, \<open>ListOperations\<close> and \<open>ListEvents\<close> of
  \<open>postgres.go\<close>. A cursor is the position of the last item of a page, in base64 of JSON.
\<close>

section \<open>cursor.go\<close>

record operationCursor =
  oc_CreatedAt :: time
  oc_ID :: string

text \<open>\<open>json.Marshal\<close> refuses a time RFC 3339 cannot write; the cursor is then empty.\<close>

definition encodeCursor :: "json option \<Rightarrow> string" where
  "encodeCursor doc = b64_encode (case doc of None \<Rightarrow> [] | Some v \<Rightarrow> marshal v)"

definition operation_cursor_doc :: "operationCursor \<Rightarrow> json option" where
  "operation_cursor_doc c = (if writable (oc_CreatedAt c)
     then Some (JObj [(''created_at'', JStr (format_time (oc_CreatedAt c))), (''id'', JStr (oc_ID c))]) else None)"

definition nil_uuid :: string where
  "nil_uuid = ''00000000-0000-0000-0000-000000000000''"

definition decodeOperationCursor :: "string \<Rightarrow> error + operationCursor" where
  "decodeOperationCursor value =
     (if value = [] then Inr \<lparr>oc_CreatedAt = 0, oc_ID = nil_uuid\<rparr>
      else bindE (of_opt (PlainError ''decode cursor'') (b64_decode value)) (\<lambda>raw.
           bindE (of_opt (PlainError ''parse cursor'') (Option.bind (decode_all raw) members_of)) (\<lambda>ms.
           bindE (of_opt (PlainError ''parse cursor'') (field as_time ''created_at'' zero_time ms)) (\<lambda>t.
           bindE (of_opt (PlainError ''parse cursor'') (field as_string ''id'' [] ms)) (\<lambda>i.
             if i = [] \<or> t = zero_time then Inl (PlainError ''cursor fields are required'')
             else Inr \<lparr>oc_CreatedAt = t, oc_ID = i\<rparr>)))))"

definition encodeEventCursor :: "int \<Rightarrow> string" where
  "encodeEventCursor i = encodeCursor (Some (JObj [(''id'', int_json i)]))"

definition decodeEventCursor :: "string \<Rightarrow> error + int" where
  "decodeEventCursor value =
     (if value = [] then Inr 0
      else bindE (of_opt (PlainError ''decode cursor'') (b64_decode value)) (\<lambda>raw.
           bindE (of_opt (PlainError ''invalid event cursor'')
                    (Option.bind (Option.bind (decode_all raw) members_of) (field as_int64 ''id'' 0))) (\<lambda>i.
             if i < 0 then Inl (PlainError ''invalid event cursor'') else Inr i)))"

section \<open>ListOperations\<close>

record 'a page =
  pg_Items :: "'a list"
  pg_NextCursor :: string

text \<open>The operations of the join, and the \<open>WHERE\<close> clause.\<close>

definition joined_operations :: "db \<Rightarrow> Operation list" where
  "joined_operations s = List.map_filter
     (\<lambda>r. map_option (\<lambda>w. scanOperation w r) (lookup_by w_id (o_workflow r) (workflows s))) (operations s)"

definition selected :: "OperationFilter \<Rightarrow> Operation \<Rightarrow> bool" where
  "selected fl op \<longleftrightarrow> (fl_WorkflowID fl = [] \<or> op_WorkflowID op = fl_WorkflowID fl)
     \<and> (fl_State fl = [] \<or> state_string (op_State op) = fl_State fl)
     \<and> (fl_TargetService fl = [] \<or> op_TargetService op = fl_TargetService fl)
     \<and> (case fl_CreatedAfter fl of None \<Rightarrow> True | Some t \<Rightarrow> op_CreatedAt op > t)"

definition list_key :: "Operation \<Rightarrow> time \<times> string" where
  "list_key op = (op_CreatedAt op, op_ID op)"

definition operation_rows :: "db \<Rightarrow> OperationFilter \<Rightarrow> time \<times> string \<Rightarrow> Operation list" where
  "operation_rows s fl k = take (nat (fl_Limit fl + 1))
     (sort_key list_key (filter (\<lambda>op. selected fl op \<and> list_key op > k) (joined_operations s)))"

definition ListOperations :: "uuid_parser \<Rightarrow> env \<Rightarrow> db \<Rightarrow> OperationFilter \<Rightarrow> error + Operation page" where
  "ListOperations parse e s fl =
     (case decodeOperationCursor (fl_Cursor fl) of
        Inl err \<Rightarrow> Inl (validation ''invalid_cursor'' (error_string err))
      | Inr c \<Rightarrow>
          bindE (stmtU e ''list operations'') (\<lambda>_.
          bindE (stmtU e ''scan operation'') (\<lambda>_.
          bindE (stmtU e ''iterate operations'') (\<lambda>_.
          bindE (of_opt (unavailable ''iterate operations'') (parse (oc_ID c))) (\<lambda>i.
            let items = operation_rows s fl (oc_CreatedAt c, i) in
            if fl_Limit fl < int (length items) then
              (let last = items ! nat (fl_Limit fl - 1) in
               Inr \<lparr>pg_Items = take (nat (fl_Limit fl)) items, pg_NextCursor =
                 encodeCursor (operation_cursor_doc \<lparr>oc_CreatedAt = op_CreatedAt last, oc_ID = op_ID last\<rparr>)\<rparr>)
            else Inr \<lparr>pg_Items = items, pg_NextCursor = []\<rparr>)))))"

section \<open>ListEvents\<close>

text \<open>Three statements outside a transaction: the operation, its receipt, the events.\<close>

definition event_rows :: "db \<Rightarrow> uuid \<Rightarrow> int \<Rightarrow> int \<Rightarrow> Event list" where
  "event_rows s i limit cursor = take (nat (limit + 1))
     (sort_key ev_ID (filter (\<lambda>ev. ev_OperationID ev = i \<and> ev_ID ev > cursor) (events s)))"

definition ListEvents :: "env \<Rightarrow> db \<Rightarrow> db \<Rightarrow> db \<Rightarrow> uuid \<Rightarrow> int \<Rightarrow> string \<Rightarrow> error + Event page" where
  "ListEvents e s1 s2 s3 i limit cursorValue =
     bindE (GetOperation e s1 s2 i) (\<lambda>_.
     (case decodeEventCursor cursorValue of
        Inl err \<Rightarrow> Inl (validation ''invalid_cursor'' (error_string err))
      | Inr c \<Rightarrow>
          bindE (stmtU e ''list events'') (\<lambda>_.
          bindE (stmtU e ''scan event'') (\<lambda>_.
          bindE (stmtP e ''iterate events'') (\<lambda>_.
            let items = event_rows s3 i limit c in
            if limit < int (length items) then
              Inr \<lparr>pg_Items = take (nat limit) items, pg_NextCursor = encodeEventCursor (ev_ID (items ! nat (limit - 1)))\<rparr>
            else Inr \<lparr>pg_Items = items, pg_NextCursor = []\<rparr>)))))"

section \<open>Cursors survive the round trip\<close>

lemma ascii_json [simp]: "utf8 ''created_at''" "utf8 ''id''"
  by code_simp+

lemma names_apart [simp]: "equal_fold ''created_at'' ''created_at''" "equal_fold ''id'' ''id''"
  "\<not> equal_fold ''created_at'' ''id''" "\<not> equal_fold ''id'' ''created_at''"
  by code_simp+

definition full_cursor :: "operationCursor \<Rightarrow> bool" where
  "full_cursor c \<longleftrightarrow> writable (oc_CreatedAt c) \<and> oc_CreatedAt c \<noteq> zero_time \<and> oc_ID c \<noteq> [] \<and> utf8 (oc_ID c)"

lemma format_utf8 [simp]: "utf8 (format_time t)"
  by (rule utf8_ascii [OF format_ascii])

lemma encoded_not_empty: "encodeCursor (Some v) \<noteq> [] \<longleftrightarrow> marshal v \<noteq> []"
  by (cases "marshal v" rule: b64_encode.cases) (simp_all add: encodeCursor_def)

theorem operation_cursor_round:
  assumes "full_cursor c"
  shows "decodeOperationCursor (encodeCursor (operation_cursor_doc c)) = Inr c"
proof -
  let ?doc = "JObj [(''created_at'', JStr (format_time (oc_CreatedAt c))), (''id'', JStr (oc_ID c))]"
  have doc: "operation_cursor_doc c = Some ?doc" using assms by (simp add: operation_cursor_doc_def full_cursor_def)
  have "decode_all (marshal ?doc) = Some ?doc"
    by (rule decode_all_marshal) (use assms in \<open>simp_all add: full_cursor_def format_ascii max_depth_def\<close>)
  moreover have "encodeCursor (Some ?doc) \<noteq> []" by (simp add: encoded_not_empty)
  ultimately show ?thesis
    using assms by (simp add: doc decodeOperationCursor_def encodeCursor_def b64_decode_encode parse_format full_cursor_def del: marshal.simps)
qed

theorem event_cursor_round:
  assumes "0 \<le> i" and "i < 2 ^ 63"
  shows "decodeEventCursor (encodeEventCursor i) = Inr i"
proof -
  let ?doc = "JObj [(''id'', int_json i)]"
  have "decode_all (marshal ?doc) = Some ?doc"
    by (rule decode_all_marshal) (simp_all add: max_depth_def)
  moreover have "encodeCursor (Some ?doc) \<noteq> []" by (simp add: encoded_not_empty)
  moreover have "int_json i \<noteq> JNull" by (simp add: int_json_def)
  ultimately show ?thesis
    using assms int64_round_trip [of i]
    by (simp add: encodeEventCursor_def decodeEventCursor_def encodeCursor_def b64_decode_encode del: marshal.simps)
qed

section \<open>Paging visits everything once\<close>

fun list_all_pages :: "nat \<Rightarrow> uuid_parser \<Rightarrow> env \<Rightarrow> db \<Rightarrow> OperationFilter \<Rightarrow> error + Operation list" where
  "list_all_pages 0 parse e s fl = Inl (PlainError ''more pages'')"
| "list_all_pages (Suc n) parse e s fl =
     bindE (ListOperations parse e s fl) (\<lambda>page.
       if pg_NextCursor page = [] then Inr (pg_Items page)
       else bindE (list_all_pages n parse e s (fl\<lparr>fl_Cursor := pg_NextCursor page\<rparr>)) (\<lambda>rest. Inr (pg_Items page @ rest)))"

definition listed :: "db \<Rightarrow> OperationFilter \<Rightarrow> Operation list" where
  "listed s fl = sort_key list_key (filter (selected fl) (joined_operations s))"

lemma listed_cursor: "listed s (fl\<lparr>fl_Cursor := c\<rparr>) = listed s fl"
proof -
  have "selected (fl\<lparr>fl_Cursor := c\<rparr>) = selected fl" by (simp add: selected_def fun_eq_iff)
  then show ?thesis by (simp add: listed_def)
qed

lemma rows_of_listed: "operation_rows s fl k = take (nat (fl_Limit fl + 1)) (filter (\<lambda>op. list_key op > k) (listed s fl))"
  by (simp add: operation_rows_def listed_def filter_sort conj_commute flip: filter_filter)

lemma joined_ids: "map op_ID (joined_operations s) = map o_id (filter (\<lambda>r. lookup_by w_id (o_workflow r) (workflows s) \<noteq> None) (operations s))"
  unfolding joined_operations_def
  by (induction "operations s") (auto simp: List.map_filter_def scanOperation_def)

lemma listed_strict:
  assumes "reachable s"
  shows "sorted_wrt (\<lambda>a b. list_key a < list_key b) (listed s fl)"
proof -
  have "distinct (map op_ID (joined_operations s))"
    unfolding joined_ids using reachable_inv [OF assms] by (auto simp: store_inv_def intro: distinct_map_filter)
  then have "distinct (map op_ID (filter (selected fl) (joined_operations s)))" by (rule distinct_map_filter)
  then have "distinct (map list_key (filter (selected fl) (joined_operations s)))"
    by (auto simp: distinct_map inj_on_def list_key_def)
  then have "distinct (map list_key (listed s fl))"
    by (simp add: listed_def distinct_map)
  moreover have "sorted (map list_key (listed s fl))" by (simp add: listed_def)
  ultimately have "sorted_wrt (<) (map list_key (listed s fl))" by (simp add: strict_sorted_iff)
  then show ?thesis by (simp add: sorted_wrt_map)
qed

lemma after_item:
  assumes "sorted_wrt (\<lambda>a b. (f a :: 'k :: linorder) < f b) xs" and "j < length xs"
  shows "filter (\<lambda>x. f x > f (xs ! j)) xs = drop (Suc j) xs"
proof -
  have xs: "xs = take j xs @ xs ! j # drop (Suc j) xs" by (rule id_take_nth_drop [OF assms(2)])
  let ?P = "\<lambda>x. f x > f (xs ! j)"
  have "sorted_wrt (\<lambda>a b. f a < f b) (take j xs @ xs ! j # drop (Suc j) xs)" using assms(1) xs by simp
  then have a: "\<forall>x \<in> set (take j xs). f x < f (xs ! j)" and b: "\<forall>x \<in> set (drop (Suc j) xs). ?P x"
    by (auto simp: sorted_wrt_append)
  have "filter ?P xs = filter ?P (take j xs) @ filter ?P (xs ! j # drop (Suc j) xs)"
    by (subst xs, simp only: filter_append)
  also have "filter ?P (take j xs) = []" using a by (auto simp: filter_empty_conv)
  also have "filter ?P (xs ! j # drop (Suc j) xs) = drop (Suc j) xs" using b by (simp add: filter_id_conv)
  finally show ?thesis by simp
qed

text \<open>What a cursor needs of the rows: canonical identifiers and instants RFC 3339 can write, after 1970.\<close>

definition pageable :: "uuid_parser \<Rightarrow> db \<Rightarrow> bool" where
  "pageable parse s \<longleftrightarrow> parse nil_uuid = Some nil_uuid
     \<and> (\<forall>op \<in> set (joined_operations s). parse (op_ID op) = Some (op_ID op) \<and> op_ID op \<noteq> [] \<and> utf8 (op_ID op)
          \<and> 0 < op_CreatedAt op \<and> writable (op_CreatedAt op))"

lemma zero_time_early: "zero_time < 0"
  by (simp add: zero_time_def second_def millisecond_def)

lemma list_page:
  assumes "decodeOperationCursor (fl_Cursor fl) = Inr c" and "parse (oc_ID c) = Some i" and "fails e = (\<lambda>_. False)"
  shows "ListOperations parse e s fl =
    (if fl_Limit fl < int (length (operation_rows s fl (oc_CreatedAt c, i))) then
       Inr \<lparr>pg_Items = take (nat (fl_Limit fl)) (operation_rows s fl (oc_CreatedAt c, i)), pg_NextCursor =
         encodeCursor (operation_cursor_doc
           \<lparr>oc_CreatedAt = op_CreatedAt (operation_rows s fl (oc_CreatedAt c, i) ! nat (fl_Limit fl - 1)),
            oc_ID = op_ID (operation_rows s fl (oc_CreatedAt c, i) ! nat (fl_Limit fl - 1))\<rparr>)\<rparr>
     else Inr \<lparr>pg_Items = operation_rows s fl (oc_CreatedAt c, i), pg_NextCursor = []\<rparr>)"
  using assms by (simp add: ListOperations_def stmtU_def Let_def)

lemma pages_from:
  assumes "reachable s" and "pageable parse s" and ok: "fails e = (\<lambda>_. False)" and lim: "0 < fl_Limit fl"
    and "decodeOperationCursor (fl_Cursor fl) = Inr c" and "parse (oc_ID c) = Some i"
    and "filter (\<lambda>op. list_key op > (oc_CreatedAt c, i)) (listed s fl) = drop m (listed s fl)"
    and "0 < n" and "length (listed s fl) - m \<le> n * nat (fl_Limit fl)"
  shows "list_all_pages n parse e s fl = Inr (drop m (listed s fl))"
  using assms(4-)
proof (induction n arbitrary: m c i fl)
  case (Suc n)
  let ?xs = "listed s fl" and ?k = "nat (fl_Limit fl)"
  have rows: "operation_rows s fl (oc_CreatedAt c, i) = take (Suc ?k) (drop m ?xs)"
    using Suc.prems(1,4) by (simp add: rows_of_listed nat_add_distrib)
  show ?case
  proof (cases "length ?xs - m \<le> ?k")
    case True
    then have "\<not> fl_Limit fl < int (length ?xs - m)" using Suc.prems(1) by linarith
    with True show ?thesis
      using Suc.prems(1-3) ok by (simp add: ListOperations_def stmtU_def rows Let_def)
  next
    case False
    let ?last = "?xs ! (m + (?k - 1))"
    let ?c = "\<lparr>oc_CreatedAt = op_CreatedAt ?last, oc_ID = op_ID ?last\<rparr>"
    have idx: "m + (?k - 1) < length ?xs" using False Suc.prems(1) by simp
    have mem: "?last \<in> set (joined_operations s)"
      using nth_mem [OF idx] by (simp add: listed_def)
    have full: "full_cursor ?c" and canon: "parse (op_ID ?last) = Some (op_ID ?last)"
      using assms(2) mem zero_time_early by (auto simp: pageable_def full_cursor_def)
    let ?next = "encodeCursor (operation_cursor_doc ?c)"
    have dec: "decodeOperationCursor ?next = Inr ?c" by (rule operation_cursor_round [OF full])
    have ne: "?next \<noteq> []" using full by (simp add: operation_cursor_doc_def full_cursor_def encoded_not_empty)
    have page: "ListOperations parse e s fl = Inr \<lparr>pg_Items = take ?k (drop m ?xs), pg_NextCursor = ?next\<rparr>"
    proof -
      let ?items = "take (Suc ?k) (drop m ?xs)"
      have "length ?items = Suc ?k" using False by simp
      then have more: "fl_Limit fl < int (length ?items)" using Suc.prems(1) by linarith
      have pos: "nat (fl_Limit fl - 1) = ?k - 1" "?k - 1 < Suc ?k" using Suc.prems(1) by simp_all
      then have last: "?items ! nat (fl_Limit fl - 1) = ?last" using idx by simp
      have items: "take ?k ?items = take ?k (drop m ?xs)" by simp
      show ?thesis
        unfolding list_page [of fl c parse i e, OF Suc.prems(2,3) ok] rows last items if_P [OF more] by (rule refl)
    qed
    have drop: "filter (\<lambda>op. list_key op > (op_CreatedAt ?last, op_ID ?last)) ?xs = drop (m + ?k) ?xs"
      using after_item [OF listed_strict [OF assms(1)] idx] Suc.prems(1) by (simp add: list_key_def)
    note same = listed_cursor [where s = s and fl = fl and c = ?next]
    let ?fl = "fl\<lparr>fl_Cursor := ?next\<rparr>"
    have "list_all_pages n parse e s ?fl = Inr (drop (m + ?k) (listed s ?fl))"
    proof (rule Suc.IH)
      show "decodeOperationCursor (fl_Cursor ?fl) = Inr ?c" using dec by simp
      show "parse (oc_ID ?c) = Some (op_ID ?last)" using canon by simp
      show "filter (\<lambda>op. (oc_CreatedAt ?c, op_ID ?last) < list_key op) (listed s ?fl) = drop (m + ?k) (listed s ?fl)"
        by (simp only: same operationCursor.simps drop)
      show "0 < n" using Suc.prems(6) False by (cases n) simp_all
      show "length (listed s ?fl) - (m + ?k) \<le> n * nat (fl_Limit ?fl)" unfolding same using Suc.prems(6) by simp
    qed (use Suc.prems(1) in simp)
    then have "list_all_pages n parse e s ?fl = Inr (drop (m + ?k) ?xs)" by (simp only: same)
    then show ?thesis
      using ne by (simp add: page add.commute [of m] flip: drop_drop)
  qed
qed simp

text \<open>C28. Paging through the operations visits every selected operation exactly once, in order: with
  enough pages for the selection (the fuel), following the cursors from the empty one returns all
  operations the filter selects, strictly ordered by creation time and identifier, for any limit.\<close>

theorem pages_enumerate:
  assumes "reachable s" and "pageable parse s" and "fails e = (\<lambda>_. False)" and "0 < fl_Limit fl" and "fl_Cursor fl = []"
    and "length (joined_operations s) < n * nat (fl_Limit fl)"
  shows "\<exists>ops. list_all_pages n parse e s fl = Inr ops
    \<and> sorted_wrt (\<lambda>a b. list_key a < list_key b) ops
    \<and> set ops = {op \<in> set (joined_operations s). selected fl op}"
proof -
  have first: "decodeOperationCursor (fl_Cursor fl) = Inr \<lparr>oc_CreatedAt = 0, oc_ID = nil_uuid\<rparr>"
    by (simp add: assms(5) decodeOperationCursor_def)
  have "list_key op > (0, nil_uuid)" if "op \<in> set (listed s fl)" for op
    using that assms(2) by (auto simp: listed_def pageable_def list_key_def)
  then have all: "filter (\<lambda>op. list_key op > (0, nil_uuid)) (listed s fl) = drop 0 (listed s fl)"
    by (simp add: filter_id_conv)
  have "length (listed s fl) \<le> length (joined_operations s)" by (simp add: listed_def)
  then have "length (listed s fl) - 0 \<le> n * nat (fl_Limit fl)" and "0 < n" using assms(6) by (simp_all, cases n) simp_all
  then have "list_all_pages n parse e s fl = Inr (listed s fl)"
    using pages_from [of s parse e fl "\<lparr>oc_CreatedAt = 0, oc_ID = nil_uuid\<rparr>" nil_uuid 0 n] assms(1-4) first all
    by (simp add: pageable_def)
  then show ?thesis using listed_strict [OF assms(1)] by (auto simp: listed_def)
qed

section \<open>Following the log\<close>

text \<open>One page from each of a series of databases, until a page has no successor.\<close>

fun read_events :: "env \<Rightarrow> uuid \<Rightarrow> int \<Rightarrow> string \<Rightarrow> db list \<Rightarrow> error + (Event list \<times> bool)" where
  "read_events e i limit cursor [] = Inr ([], False)"
| "read_events e i limit cursor (s # ss) =
     bindE (ListEvents e s s s i limit cursor) (\<lambda>page.
       if pg_NextCursor page = [] then Inr (pg_Items page, True)
       else bindE (read_events e i limit (pg_NextCursor page) ss) (\<lambda>(rest, ended). Inr (pg_Items page @ rest, ended)))"

definition later :: "db \<Rightarrow> db \<Rightarrow> bool" where
  "later s s' \<longleftrightarrow> (\<exists>cs. s' = run_calls cs s)"

lemma events_sorted:
  assumes "reachable s"
  shows "sorted_wrt (\<lambda>a b. ev_ID a < ev_ID b) (events_of i s)"
proof -
  have "sorted_wrt (\<lambda>a b. ev_ID a < ev_ID b) (events s)"
    using reachable_inv [OF assms] by (simp add: store_inv_def log_inv_def sorted_wrt_map)
  then show ?thesis unfolding events_of_def by (rule sorted_wrt_filter)
qed

lemma event_rows_of:
  assumes "reachable s"
  shows "event_rows s i limit c = take (nat (limit + 1)) (filter (\<lambda>ev. ev_ID ev > c) (events_of i s))"
proof -
  have "sorted (map ev_ID (filter (\<lambda>ev. ev_ID ev > c) (events_of i s)))"
    using sorted_wrt_filter [OF events_sorted [OF assms], of "\<lambda>ev. ev_ID ev > c" i]
    by (auto simp: sorted_wrt_map elim: sorted_wrt_mono_rel [rotated])
  moreover have "filter (\<lambda>ev. ev_OperationID ev = i \<and> ev_ID ev > c) (events s) = filter (\<lambda>ev. ev_ID ev > c) (events_of i s)"
    by (simp add: events_of_def conj_commute)
  ultimately show ?thesis by (simp add: event_rows_def sort_key_id_if_sorted)
qed

lemma later_events:
  assumes "later s s'"
  shows "\<exists>evs. events_of i s' = events_of i s @ evs"
proof -
  obtain cs where "s' = run_calls cs s" using assms by (auto simp: later_def)
  then show ?thesis using run_calls_events [of cs s] by (auto simp: events_of_def)
qed

definition readable :: "env \<Rightarrow> uuid \<Rightarrow> db \<Rightarrow> bool" where
  "readable e i s \<longleftrightarrow> reachable s \<and> is_ok (GetOperation e s s i) \<and> (\<forall>ev \<in> set (events_of i s). 0 < ev_ID ev \<and> ev_ID ev < 2 ^ 63)"

lemma event_page:
  assumes "readable e i s" and ok: "fails e = (\<lambda>_. False)" and "0 < limit" and "decodeEventCursor cursor = Inr c"
    and after: "filter (\<lambda>ev. ev_ID ev > c) (events_of i s) = drop m (events_of i s)"
  shows "ListEvents e s s s i limit cursor =
    (if length (events_of i s) - m \<le> nat limit then Inr \<lparr>pg_Items = drop m (events_of i s), pg_NextCursor = []\<rparr>
     else Inr \<lparr>pg_Items = take (nat limit) (drop m (events_of i s)),
       pg_NextCursor = encodeEventCursor (ev_ID (events_of i s ! (m + (nat limit - 1))))\<rparr>)"
proof -
  let ?xs = "events_of i s"
  obtain op where op: "GetOperation e s s i = Inr op" using assms(1) by (auto simp: readable_def is_ok_iff)
  have rows: "event_rows s i limit c = take (Suc (nat limit)) (drop m ?xs)"
    using assms(1,3) event_rows_of [of s i limit c] after by (simp add: readable_def nat_add_distrib)
  have page: "ListEvents e s s s i limit cursor =
      (if limit < int (length (event_rows s i limit c)) then Inr \<lparr>pg_Items = take (nat limit) (event_rows s i limit c),
         pg_NextCursor = encodeEventCursor (ev_ID (event_rows s i limit c ! nat (limit - 1)))\<rparr>
       else Inr \<lparr>pg_Items = event_rows s i limit c, pg_NextCursor = []\<rparr>)"
    using ok assms(4) by (simp add: ListEvents_def op stmtU_def stmtP_def Let_def)
  show ?thesis
  proof (cases "length ?xs - m \<le> nat limit")
    case True
    then have "\<not> limit < int (length (take (Suc (nat limit)) (drop m ?xs)))" using assms(3) by simp
    moreover have "take (Suc (nat limit)) (drop m ?xs) = drop m ?xs" using True by simp
    ultimately show ?thesis unfolding page rows using True by simp
  next
    case False
    then have "length (take (Suc (nat limit)) (drop m ?xs)) = Suc (nat limit)" by simp
    then have more: "limit < int (length (take (Suc (nat limit)) (drop m ?xs)))" using assms(3) by linarith
    have pos: "nat (limit - 1) = nat limit - 1" "nat limit - 1 < Suc (nat limit)" by simp_all
    then have last: "take (Suc (nat limit)) (drop m ?xs) ! nat (limit - 1) = ?xs ! (m + (nat limit - 1))" using False by simp
    have items: "take (nat limit) (take (Suc (nat limit)) (drop m ?xs)) = take (nat limit) (drop m ?xs)" by simp
    show ?thesis unfolding page rows if_P [OF more] last items if_not_P [OF False] by (rule refl)
  qed
qed

lemma read_from:
  assumes "\<forall>s \<in> set ss. readable e i s" and "sorted_wrt later ss" and ok: "fails e = (\<lambda>_. False)" and lim: "0 < limit"
    and "decodeEventCursor cursor = Inr c" and "\<forall>s \<in> set ss. m \<le> length (events_of i s)"
    and "\<forall>s \<in> set ss. filter (\<lambda>ev. ev_ID ev > c) (events_of i s) = drop m (events_of i s)"
  shows "\<exists>xs ended. read_events e i limit cursor ss = Inr (xs, ended)
    \<and> (if ended then \<exists>s \<in> set ss. xs = drop m (events_of i s)
       else length xs = length ss * nat limit \<and> (ss \<noteq> [] \<longrightarrow> (\<exists>ys. drop m (events_of i (last ss)) = xs @ ys)))"
  using assms(1,2,5-)
proof (induction ss arbitrary: m c cursor)
  case Nil
  show ?case by (rule exI [of _ "[]"], rule exI [of _ False]) simp
next
  case (Cons s ss)
  let ?k = "nat limit" and ?xs = "events_of i s"
  have r: "readable e i s" and reach: "reachable s" using Cons.prems(1) by (simp_all add: readable_def)
  have k: "0 < ?k" using lim by simp
  note page = event_page [OF r ok lim Cons.prems(3)]
  show ?case
  proof (cases "length ?xs - m \<le> ?k")
    case True
    then show ?thesis using page Cons.prems(5) by auto
  next
    case False
    let ?j = "m + (?k - 1)"
    let ?ev = "?xs ! ?j"
    have idx: "?j < length ?xs" using False k by simp
    have ev: "0 < ev_ID ?ev" "ev_ID ?ev < 2 ^ 63" using r nth_mem [OF idx] by (auto simp: readable_def)
    have dec: "decodeEventCursor (encodeEventCursor (ev_ID ?ev)) = Inr (ev_ID ?ev)"
      by (rule event_cursor_round) (use ev in simp_all)
    have ne: "encodeEventCursor (ev_ID ?ev) \<noteq> []" by (simp add: encodeEventCursor_def encoded_not_empty)
    have grow: "\<exists>evs. events_of i s' = ?xs @ evs" if "s' \<in> set ss" for s'
      using later_events [of s s' i] Cons.prems(2) that by simp
    have long: "\<forall>s' \<in> set ss. m + ?k \<le> length (events_of i s')"
      using grow False by fastforce
    have drop: "\<forall>s' \<in> set ss. filter (\<lambda>x. ev_ID x > ev_ID ?ev) (events_of i s') = drop (m + ?k) (events_of i s')"
    proof
      fix s' assume s': "s' \<in> set ss"
      obtain evs where g: "events_of i s' = ?xs @ evs" using grow [OF s'] by blast
      have "reachable s'" using Cons.prems(1) s' by (simp add: readable_def)
      from after_item [OF events_sorted [OF this], of ?j i] show "filter (\<lambda>x. ev_ID x > ev_ID ?ev) (events_of i s') = drop (m + ?k) (events_of i s')"
        using idx k by (simp add: g nth_append)
    qed
    obtain xs ended where rest: "read_events e i limit (encodeEventCursor (ev_ID ?ev)) ss = Inr (xs, ended)"
      and res: "if ended then \<exists>s \<in> set ss. xs = drop (m + ?k) (events_of i s)
        else length xs = length ss * ?k \<and> (ss \<noteq> [] \<longrightarrow> (\<exists>ys. drop (m + ?k) (events_of i (last ss)) = xs @ ys))"
      using Cons.IH [of "encodeEventCursor (ev_ID ?ev)" "ev_ID ?ev" "m + ?k"] Cons.prems(1,2) dec long drop by auto
    let ?first = "take ?k (drop m ?xs)"
    have all: "read_events e i limit cursor (s # ss) = Inr (?first @ xs, ended)"
      using page [of m] Cons.prems(5) False ne rest by simp
    have len: "length ?first = ?k" using False by simp
    have front: "drop m (events_of i s') = ?first @ drop (m + ?k) (events_of i s')" if "s' \<in> set ss" for s'
    proof -
      obtain evs where g: "events_of i s' = ?xs @ evs" using grow [OF \<open>s' \<in> set ss\<close>] by blast
      have "take ?k (drop m (events_of i s')) = ?first" using False by (simp add: g)
      then show ?thesis by (metis append_take_drop_id drop_drop add.commute)
    qed
    show ?thesis
    proof (cases ended)
      case True
      then show ?thesis using all res front by force
    next
      case False
      have "\<exists>ys. drop m (events_of i (last (s # ss))) = (?first @ xs) @ ys"
      proof (cases "ss = []")
        case True
        then show ?thesis using res False by (metis append_Nil2 append_assoc append_take_drop_id last.simps length_0_conv list.size(3) mult_is_0)
      next
        case nonempty: False
        then show ?thesis using res False front [OF last_in_set [OF nonempty]] by force
      qed
      then show ?thesis using all res False len by auto
    qed
  qed
qed

text \<open>Following an operation's log page by page, each page read from any later database: the events
  returned are the log from its beginning, without a gap or a repetition, whatever is appended
  between the reads. A page without a successor completes the log of the database it came from;
  until then every page is full.\<close>

theorem log_followed:
  assumes "\<forall>s \<in> set ss. readable e i s" and "sorted_wrt later ss" and "fails e = (\<lambda>_. False)" and "0 < limit"
  shows "\<exists>xs ended. read_events e i limit [] ss = Inr (xs, ended)
    \<and> (if ended then \<exists>s \<in> set ss. xs = events_of i s
       else length xs = length ss * nat limit \<and> (ss \<noteq> [] \<longrightarrow> (\<exists>ys. events_of i (last ss) = xs @ ys)))"
proof (rule read_from [OF assms, of "[]" 0 0, unfolded drop_0])
  show "decodeEventCursor [] = Inr 0" by (simp add: decodeEventCursor_def)
  show "\<forall>s \<in> set ss. filter (\<lambda>ev. ev_ID ev > 0) (events_of i s) = events_of i s"
    using assms(1) by (simp add: readable_def filter_id_conv)
qed simp

text \<open>C30. The cursors survive the round trip: what \<open>ListOperations\<close> and \<open>ListEvents\<close> put into
  \<open>next_cursor\<close> is read back as the position it was issued for, through JSON, RFC 3339 and base64.\<close>

theorem cursors_round_trip:
  assumes "full_cursor c" and "0 \<le> i" and "i < 2 ^ 63"
  shows "decodeOperationCursor (encodeCursor (operation_cursor_doc c)) = Inr c
    \<and> decodeEventCursor (encodeEventCursor i) = Inr i"
  using operation_cursor_round [OF assms(1)] event_cursor_round [OF assms(2,3)] by blast

section \<open>The statements at work\<close>

definition list_db :: db where
  "list_db = store_exec (env_at ''a'' 5) (CallPrepare sample_request) (empty_db [])"

definition any_text :: uuid_parser where
  "any_text s = (if s = [] then None else Some s)"

definition every :: OperationFilter where
  "every = \<lparr>fl_WorkflowID = [], fl_State = ''prepared'', fl_TargetService = [], fl_CreatedAfter = None, fl_Limit = 1, fl_Cursor = []\<rparr>"

lemma list_db_reachable: "reachable list_db"
  unfolding list_db_def by (rule reachable.step [OF reachable.initial])

lemma list_db_joined: "joined_operations list_db = [scanOperation
   \<lparr>w_id = ''aworkflow'', w_external = ''w'', w_strategy = StrategyWatchkeeper, w_experiment = None\<rparr>
   (new_op_row (env_at ''a'' 5) ''aoperation'' ''aworkflow'' sample_request (JObj []) (JObj []))]"
  by (simp add: joined_operations_def list_db_def sample_request_def exec_simps List.map_filter_def)

lemma list_db_pageable: "pageable any_text list_db"
proof -
  have "writable 5" "utf8 ''aoperation''" by code_simp+
  then show ?thesis
    by (simp add: pageable_def list_db_joined any_text_def nil_uuid_def scanOperation_def new_op_row_def env_at_def)
qed

theorem pages_enumerate_witness:
  "\<exists>ops. list_all_pages 2 any_text (env_at ''b'' 6) list_db every = Inr ops
    \<and> sorted_wrt (\<lambda>a b. list_key a < list_key b) ops
    \<and> set ops = {op \<in> set (joined_operations list_db). selected every op}"
  by (rule pages_enumerate [OF list_db_reachable list_db_pageable])
    (simp_all add: env_at_def every_def list_db_joined)

definition log_db :: db where
  "log_db = store_exec (env_at ''b'' 6) (CallAuthorize ''aoperation'' 1) list_db"

lemma log_db_readable: "readable (env_at ''c'' 7) ''aoperation'' log_db"
proof -
  have "reachable log_db" unfolding log_db_def by (rule reachable.step [OF list_db_reachable])
  moreover have "is_ok (GetOperation (env_at ''c'' 7) log_db log_db ''aoperation'')"
    by (simp add: log_db_def list_db_def GetOperation_def sample_request_def exec_simps)
  moreover have "map ev_ID (events_of ''aoperation'' log_db) = [1, 2]"
    by (simp add: log_db_def list_db_def sample_request_def exec_simps events_of_def)
  then have "ev_ID ` set (events_of ''aoperation'' log_db) = {1, 2}" by (metis list.set(1,2) list.set_map)
  then have "\<forall>ev \<in> set (events_of ''aoperation'' log_db). ev_ID ev = 1 \<or> ev_ID ev = 2" by blast
  ultimately show ?thesis by (auto simp: readable_def)
qed

theorem log_followed_witness:
  "\<exists>xs ended. read_events (env_at ''c'' 7) ''aoperation'' 1 [] [log_db, log_db] = Inr (xs, ended)
    \<and> (if ended then \<exists>s \<in> set [log_db, log_db]. xs = events_of ''aoperation'' s
       else length xs = length [log_db, log_db] * nat 1
         \<and> ([log_db, log_db] \<noteq> [] \<longrightarrow> (\<exists>ys. events_of ''aoperation'' (last [log_db, log_db]) = xs @ ys)))"
proof (rule log_followed)
  show "\<forall>s \<in> set [log_db, log_db]. readable (env_at ''c'' 7) ''aoperation'' s" using log_db_readable by simp
  have "later log_db log_db" unfolding later_def by (rule exI [of _ "[]"]) simp
  then show "sorted_wrt later [log_db, log_db]" by simp
qed (simp_all add: env_at_def)

theorem cursors_round_trip_witness:
  "decodeOperationCursor (encodeCursor (operation_cursor_doc \<lparr>oc_CreatedAt = 5, oc_ID = ''aoperation''\<rparr>))
     = Inr \<lparr>oc_CreatedAt = 5, oc_ID = ''aoperation''\<rparr>
   \<and> decodeEventCursor (encodeEventCursor 7) = Inr 7"
proof -
  have "writable 5" "utf8 ''aoperation''" by code_simp+
  then have "full_cursor \<lparr>oc_CreatedAt = 5, oc_ID = ''aoperation''\<rparr>"
    using zero_time_early by (simp add: full_cursor_def)
  from cursors_round_trip [OF this, of 7] show ?thesis by simp
qed

end
