(* ===== verification/Wire.thy ===== *)
theory Wire
  imports Worker Listing
begin

text \<open>
  The JSON forms of the domain's records: the struct tags of \<open>domain/types.go\<close>, which the server
  prints, and of the same types in \<open>pkg/client\<close>, which the client reads. Both packages declare the
  types with the same members. A printed record decodes to itself.
\<close>

section \<open>String types\<close>

fun strategy_string :: "Strategy \<Rightarrow> string" where
  "strategy_string StrategyBlindRetry = ''blind_retry''"
| "strategy_string StrategyIdempotencyKey = ''idempotency_key_retry''"
| "strategy_string StrategyCheckpoint = ''checkpoint_recovery''"
| "strategy_string StrategyWatchkeeper = ''watchkeeper''"
| "strategy_string (OtherStrategy s) = s"

definition strategy_of_string :: "string \<Rightarrow> Strategy" where
  "strategy_of_string s =
     (if s = ''blind_retry'' then StrategyBlindRetry
      else if s = ''idempotency_key_retry'' then StrategyIdempotencyKey
      else if s = ''checkpoint_recovery'' then StrategyCheckpoint
      else if s = ''watchkeeper'' then StrategyWatchkeeper else OtherStrategy s)"

fun outcome_string :: "ObservationOutcome \<Rightarrow> string" where
  "outcome_string OutcomeCompleted = ''completed''"
| "outcome_string OutcomeAbsent = ''absent''"
| "outcome_string OutcomeUnknown = ''unknown''"
| "outcome_string OutcomeTransient = ''transient_error''"
| "outcome_string OutcomeContradictory = ''contradictory''"
| "outcome_string (OtherOutcome s) = s"

definition outcome_of_string :: "string \<Rightarrow> ObservationOutcome" where
  "outcome_of_string s =
     (if s = ''completed'' then OutcomeCompleted else if s = ''absent'' then OutcomeAbsent
      else if s = ''unknown'' then OutcomeUnknown else if s = ''transient_error'' then OutcomeTransient
      else if s = ''contradictory'' then OutcomeContradictory else OtherOutcome s)"

fun mechanism_string :: "VerificationMechanism \<Rightarrow> string" where
  "mechanism_string MechanismReceipt = ''receipt_lookup''"
| "mechanism_string MechanismStatus = ''status_lookup''"
| "mechanism_string MechanismIndirect = ''indirect_lookup''"
| "mechanism_string MechanismIdempotentRepeat = ''idempotent_repeat''"
| "mechanism_string MechanismNone = ''none''"
| "mechanism_string (OtherMechanism s) = s"

definition mechanism_of_string :: "string \<Rightarrow> VerificationMechanism" where
  "mechanism_of_string s =
     (if s = ''receipt_lookup'' then MechanismReceipt else if s = ''status_lookup'' then MechanismStatus
      else if s = ''indirect_lookup'' then MechanismIndirect
      else if s = ''idempotent_repeat'' then MechanismIdempotentRepeat
      else if s = ''none'' then MechanismNone else OtherMechanism s)"

section \<open>Printing\<close>

definition time_json :: "time \<Rightarrow> json" where
  "time_json t = JStr (format_time t)"

definition omit_empty :: "string \<Rightarrow> json option \<Rightarrow> (string \<times> json) list" where
  "omit_empty name v = (case v of None \<Rightarrow> [] | Some x \<Rightarrow> [(name, x)])"

definition receipt_members :: "Receipt \<Rightarrow> (string \<times> json) list" where
  "receipt_members r = [(''receipt_id'', JStr (rc_ID r)), (''service_receipt_id'', JStr (rc_ServiceReceiptID r)),
     (''receipt_fingerprint'', JStr (rc_ReceiptFingerprint r)), (''payload'', rc_Payload r),
     (''received_at'', time_json (rc_ReceivedAt r))]"

definition operation_members :: "Operation \<Rightarrow> (string \<times> json) list" where
  "operation_members op = [(''dispatch_authorized'', JBool (op_DispatchAuthorized op)),
     (''operation_id'', JStr (op_ID op)), (''workflow_id'', JStr (op_WorkflowID op)),
     (''logical_key'', JStr (op_LogicalKey op)), (''target_service'', JStr (op_TargetService op)),
     (''action'', JStr (op_Action op)), (''request_fingerprint'', JStr (op_RequestFingerprint op)),
     (''expected_effect'', op_ExpectedEffect op), (''capability_profile'', JStr (op_CapabilityProfile op)),
     (''state'', JStr (state_string (op_State op))), (''attempt_count'', int_json (op_AttemptCount op)),
     (''version'', int_json (op_Version op)), (''prepared_at'', time_json (op_PreparedAt op))]
     @ omit_empty ''confirmed_at'' (map_option time_json (op_ConfirmedAt op))
     @ omit_empty ''resolved_at'' (map_option time_json (op_ResolvedAt op))
     @ [(''created_at'', time_json (op_CreatedAt op)), (''updated_at'', time_json (op_UpdatedAt op))]
     @ omit_empty ''receipt'' (map_option (\<lambda>r. JObj (receipt_members r)) (op_Receipt op))"

definition operation_json :: "Operation \<Rightarrow> json" where
  "operation_json op = JObj (operation_members op)"

definition claim_json :: "RecoveryClaim \<Rightarrow> json" where
  "claim_json cl = JObj [(''operation'', operation_json (cl_Operation cl)), (''claim_token'', JStr (cl_ClaimToken cl)),
     (''attempt_id'', JStr (cl_AttemptID cl)), (''lease_expires_at'', time_json (cl_LeaseExpiresAt cl)),
     (''version'', int_json (cl_Version cl))]"

text \<open>PostgreSQL writes a timestamp inside \<open>jsonb\<close> its own way: \<open>stamp\<close>.\<close>

fun detail_json :: "(time \<Rightarrow> string) \<Rightarrow> detail \<Rightarrow> json" where
  "detail_json stamp (DetailText s) = JStr s"
| "detail_json stamp (DetailTime t) = JStr (stamp t)"

definition event_json :: "(time \<Rightarrow> string) \<Rightarrow> Event \<Rightarrow> json" where
  "event_json stamp ev = JObj ([(''id'', int_json (ev_ID ev)), (''operation_id'', JStr (ev_OperationID ev)),
     (''event_type'', JStr (ev_EventType ev))]
     @ omit_empty ''from_state'' (map_option (\<lambda>st. JStr (state_string st)) (ev_FromState ev))
     @ omit_empty ''to_state'' (map_option (\<lambda>st. JStr (state_string st)) (ev_ToState ev))
     @ [(''operation_version'', int_json (ev_OperationVersion ev)), (''source'', JStr (ev_Source ev)),
        (''actor'', JStr (ev_Actor ev)), (''reason_code'', JStr (ev_ReasonCode ev)),
        (''details'', JObj (map (map_prod id (detail_json stamp)) (ev_Details ev))), (''created_at'', time_json (ev_CreatedAt ev))])"

definition page_json :: "('a \<Rightarrow> json) \<Rightarrow> 'a page \<Rightarrow> json" where
  "page_json item p = JObj ([(''items'', JArr (map item (pg_Items p)))]
     @ omit_empty ''next_cursor'' (if pg_NextCursor p = [] then None else Some (JStr (pg_NextCursor p))))"

section \<open>Reading\<close>

text \<open>A \<open>json.RawMessage\<close> member as a tree; a pointer to a time; a list.\<close>

definition tree_field :: "string \<Rightarrow> json \<Rightarrow> (string \<times> json) list \<Rightarrow> json" where
  "tree_field name x ms = foldl (\<lambda>acc (k, v). if equal_fold k name then v else acc) x ms"

fun time_pointer :: "string \<Rightarrow> time option \<Rightarrow> (string \<times> json) list \<Rightarrow> time option option" where
  "time_pointer name acc [] = Some acc"
| "time_pointer name acc ((k, v) # ms) =
     (if \<not> equal_fold k name then time_pointer name acc ms
      else if v = JNull then time_pointer name None ms
      else (case as_time v of None \<Rightarrow> None | Some t \<Rightarrow> time_pointer name (Some t) ms))"

definition zero_receipt :: Receipt where
  "zero_receipt = \<lparr>rc_ID = [], rc_ServiceReceiptID = [], rc_ReceiptFingerprint = [], rc_Payload = JNull,
     rc_ReceivedAt = zero_time\<rparr>"

definition read_receipt_members :: "Receipt \<Rightarrow> (string \<times> json) list \<Rightarrow> Receipt option" where
  "read_receipt_members r ms =
     (case (field as_string ''receipt_id'' (rc_ID r) ms, field as_string ''service_receipt_id'' (rc_ServiceReceiptID r) ms,
            field as_string ''receipt_fingerprint'' (rc_ReceiptFingerprint r) ms,
            field as_time ''received_at'' (rc_ReceivedAt r) ms) of
        (Some i, Some s, Some f, Some t) \<Rightarrow>
          Some \<lparr>rc_ID = i, rc_ServiceReceiptID = s, rc_ReceiptFingerprint = f,
                rc_Payload = tree_field ''payload'' (rc_Payload r) ms, rc_ReceivedAt = t\<rparr>
      | _ \<Rightarrow> None)"

fun receipt_pointer :: "Receipt option \<Rightarrow> (string \<times> json) list \<Rightarrow> Receipt option option" where
  "receipt_pointer acc [] = Some acc"
| "receipt_pointer acc ((k, v) # ms) =
     (if \<not> equal_fold k ''receipt'' then receipt_pointer acc ms
      else (case v of
         JNull \<Rightarrow> receipt_pointer None ms
       | JObj rs \<Rightarrow>
           (case read_receipt_members (case acc of None \<Rightarrow> zero_receipt | Some r \<Rightarrow> r) rs of
              None \<Rightarrow> None
            | Some r \<Rightarrow> receipt_pointer (Some r) ms)
       | _ \<Rightarrow> None))"


text \<open>The members of an operation, decoded over the value a struct already has.\<close>

definition as_state :: "json \<Rightarrow> OperationState option" where
  "as_state v = map_option state_of_string (as_string v)"

definition read_operation_members :: "Operation \<Rightarrow> (string \<times> json) list \<Rightarrow> Operation option" where
  "read_operation_members op ms =
     Option.bind (field as_bool ''dispatch_authorized'' (op_DispatchAuthorized op) ms) (\<lambda>authorized.
     Option.bind (field as_string ''operation_id'' (op_ID op) ms) (\<lambda>i.
     Option.bind (field as_string ''workflow_id'' (op_WorkflowID op) ms) (\<lambda>workflow.
     Option.bind (field as_string ''logical_key'' (op_LogicalKey op) ms) (\<lambda>key.
     Option.bind (field as_string ''target_service'' (op_TargetService op) ms) (\<lambda>target.
     Option.bind (field as_string ''action'' (op_Action op) ms) (\<lambda>action.
     Option.bind (field as_string ''request_fingerprint'' (op_RequestFingerprint op) ms) (\<lambda>fingerprint.
     Option.bind (field as_string ''capability_profile'' (op_CapabilityProfile op) ms) (\<lambda>profile.
     Option.bind (field as_state ''state'' (op_State op) ms) (\<lambda>st.
     Option.bind (field as_int64 ''attempt_count'' (op_AttemptCount op) ms) (\<lambda>attempt.
     Option.bind (field as_int64 ''version'' (op_Version op) ms) (\<lambda>version.
     Option.bind (field as_time ''prepared_at'' (op_PreparedAt op) ms) (\<lambda>prepared.
     Option.bind (time_pointer ''confirmed_at'' (op_ConfirmedAt op) ms) (\<lambda>confirmed.
     Option.bind (time_pointer ''resolved_at'' (op_ResolvedAt op) ms) (\<lambda>resolved.
     Option.bind (field as_time ''created_at'' (op_CreatedAt op) ms) (\<lambda>created.
     Option.bind (field as_time ''updated_at'' (op_UpdatedAt op) ms) (\<lambda>updated.
     Option.bind (receipt_pointer (op_Receipt op) ms) (\<lambda>receipt.
       Some \<lparr>op_DispatchAuthorized = authorized, op_ID = i, op_WorkflowID = workflow, op_LogicalKey = key,
         op_TargetService = target, op_Action = action, op_RequestFingerprint = fingerprint,
         op_ExpectedEffect = tree_field ''expected_effect'' (op_ExpectedEffect op) ms,
         op_CapabilityProfile = profile, op_State = st, op_AttemptCount = attempt, op_Version = version,
         op_PreparedAt = prepared, op_ConfirmedAt = confirmed, op_ResolvedAt = resolved,
         op_CreatedAt = created, op_UpdatedAt = updated, op_Receipt = receipt\<rparr>)))))))))))))))))"

definition decode_operation :: "json \<Rightarrow> Operation option" where
  "decode_operation v = Option.bind (members_of v) (read_operation_members zero_operation)"

section \<open>Names without capitals\<close>

text \<open>
  The tags of the program's structs are in lower case, so a member a printer of the program
  wrote matches the field of that very name; the names of one object are all different.
\<close>

definition lower :: "string \<Rightarrow> bool" where
  "lower s \<longleftrightarrow> map to_lower s = s"

definition plain_names :: "(string \<times> 'a) list \<Rightarrow> bool" where
  "plain_names ms \<longleftrightarrow> list_all (\<lambda>(k, v). lower k) ms \<and> distinct (map fst ms)"

lemma plain_names_simps [simp]:
  "plain_names []" "plain_names ((k, v) # ms) \<longleftrightarrow> lower k \<and> k \<notin> fst ` set ms \<and> plain_names ms"
  by (auto simp: plain_names_def)

lemma equal_fold_lower: "lower k \<Longrightarrow> lower name \<Longrightarrow> equal_fold k name \<longleftrightarrow> k = name"
  by (simp add: lower_def equal_fold_def)

lemma field_absent: "list_all (\<lambda>(k, v). lower k) ms \<Longrightarrow> lower name \<Longrightarrow> name \<notin> fst ` set ms \<Longrightarrow> field rd name x ms = Some x"
  by (induction ms) (auto simp: equal_fold_lower)

lemma field_plain:
  assumes "plain_names ms" and "lower name"
  shows "field rd name x ms = (case map_of ms name of None \<Rightarrow> Some x | Some v \<Rightarrow> if v = JNull then Some x else rd v)"
  using assms
proof (induction ms)
  case (Cons kv ms)
  obtain k v where kv: "kv = (k, v)" by (cases kv)
  have low: "list_all (\<lambda>(k, v). lower k) ms" using Cons.prems kv by (simp add: plain_names_def)
  show ?case
  proof (cases "k = name")
    case True
    then have "name \<notin> fst ` set ms" using Cons.prems kv by simp
    then have "field rd name y ms = Some y" for y by (rule field_absent [OF low Cons.prems(2)])
    then show ?thesis using True kv by (simp add: equal_fold_def split: option.split)
  next
    case False
    then show ?thesis using Cons kv by (simp add: equal_fold_lower)
  qed
qed simp

lemma tree_absent:
  "list_all (\<lambda>(k, v). lower k) ms \<Longrightarrow> lower name \<Longrightarrow> name \<notin> fst ` set ms \<Longrightarrow> tree_field name x ms = x"
  by (induction ms arbitrary: x) (auto simp: tree_field_def equal_fold_lower)

lemma tree_plain:
  "plain_names ms \<Longrightarrow> lower name \<Longrightarrow> tree_field name x ms = (case map_of ms name of None \<Rightarrow> x | Some v \<Rightarrow> v)"
proof (induction ms)
  case (Cons kv ms)
  obtain k v where kv: "kv = (k, v)" by (cases kv)
  have low: "list_all (\<lambda>(k, v). lower k) ms" using Cons.prems kv by (simp add: plain_names_def)
  show ?case
  proof (cases "k = name")
    case True
    then have "tree_field name v ms = v" using tree_absent [OF low Cons.prems(2)] Cons.prems(1) kv by auto
    then show ?thesis using True kv by (simp add: tree_field_def equal_fold_def)
  next
    case False
    then show ?thesis using Cons kv by (simp add: equal_fold_lower tree_field_def)
  qed
qed (simp add: tree_field_def)

lemma time_pointer_plain:
  assumes "plain_names ms" and "lower name"
  shows "time_pointer name acc ms = (case map_of ms name of None \<Rightarrow> Some acc
      | Some v \<Rightarrow> if v = JNull then Some None else map_option Some (as_time v))"
  using assms
proof (induction ms)
  case (Cons kv ms)
  obtain k v where kv: "kv = (k, v)" by (cases kv)
  have skip: "name \<notin> fst ` set ms \<Longrightarrow> list_all (\<lambda>(k, v). lower k) ms \<Longrightarrow> time_pointer name y ms = Some y" for y
    using Cons.prems(2) by (induction ms) (auto simp: equal_fold_lower)
  show ?case
    using Cons skip kv by (auto simp: equal_fold_lower plain_names_def split: option.splits)
qed simp

lemma receipt_pointer_plain:
  assumes "plain_names ms"
  shows "receipt_pointer acc ms = (case map_of ms ''receipt'' of None \<Rightarrow> Some acc
      | Some JNull \<Rightarrow> Some None
      | Some (JObj rs) \<Rightarrow> map_option Some (read_receipt_members (case acc of None \<Rightarrow> zero_receipt | Some r \<Rightarrow> r) rs)
      | Some _ \<Rightarrow> None)"
  using assms
proof (induction ms)
  case (Cons kv ms)
  obtain k v where kv: "kv = (k, v)" by (cases kv)
  have low: "lower ''receipt''" by code_simp
  have skip: "''receipt'' \<notin> fst ` set ms \<Longrightarrow> list_all (\<lambda>(k, v). lower k) ms \<Longrightarrow> receipt_pointer y ms = Some y" for y
    by (induction ms) (use low in \<open>auto simp: equal_fold_lower\<close>)
  show ?case
    using Cons skip kv low by (cases v) (auto simp: equal_fold_lower plain_names_def split: option.splits)
qed simp

lemma plain_names_append: "plain_names (xs @ ys) \<longleftrightarrow> plain_names xs \<and> plain_names ys \<and> fst ` set xs \<inter> fst ` set ys = {}"
  by (auto simp: plain_names_def)

lemma plain_names_omit [simp]: "plain_names (omit_empty name v) \<longleftrightarrow> v = None \<or> lower name"
  by (cases v) (simp_all add: omit_empty_def)

lemma omit_empty_names [simp]: "fst ` set (omit_empty name v) = (if v = None then {} else {name})"
  by (cases v) (simp_all add: omit_empty_def)

lemma map_of_omit [simp]: "map_of (omit_empty name v) k = (if k = name then v else None)"
  by (cases v) (simp_all add: omit_empty_def)

lemma lower_names [simp]:
  "lower ''dispatch_authorized''" "lower ''operation_id''" "lower ''workflow_id''"
  "lower ''logical_key''" "lower ''target_service''" "lower ''action''"
  "lower ''request_fingerprint''" "lower ''expected_effect''" "lower ''capability_profile''"
  "lower ''state''" "lower ''attempt_count''" "lower ''version''" "lower ''prepared_at''"
  "lower ''confirmed_at''" "lower ''resolved_at''" "lower ''created_at''" "lower ''updated_at''"
  "lower ''receipt''" "lower ''receipt_id''" "lower ''service_receipt_id''"
  "lower ''receipt_fingerprint''" "lower ''payload''" "lower ''received_at''" "lower ''operation''"
  "lower ''claim_token''" "lower ''attempt_id''" "lower ''lease_expires_at''" "lower ''items''"
  "lower ''next_cursor''" "lower ''id''" "lower ''event_type''" "lower ''operation_version''"
  "lower ''claims''" "lower ''mechanism''" "lower ''outcome''" "lower ''authoritative''"
  "lower ''external_reference''" "lower ''evidence''" "lower ''strategy''"
  "lower ''experiment_run_id''" "lower ''request''" "lower ''trace_context''"
  "lower ''expected_version''" "lower ''reason''" "lower ''actor''" "lower ''worker_id''"
  "lower ''limit''" "lower ''lease_duration_ms''" "lower ''observation''"
  "lower ''evidence_reference''" "lower ''error''" "lower ''code''" "lower ''message''"
  "lower ''request_id''" "lower ''details''" "lower ''from_state''" "lower ''to_state''"
  "lower ''source''" "lower ''reason_code''"
  by code_simp+

section \<open>A printed operation decodes to itself\<close>

definition int64_range :: "int \<Rightarrow> bool" where
  "int64_range n \<longleftrightarrow> - (2 ^ 63) \<le> n \<and> n < 2 ^ 63"

text \<open>What JSON can carry: a state by its name, times of four-digit years, integers of 64 bits.\<close>

definition wire_receipt :: "Receipt \<Rightarrow> bool" where
  "wire_receipt r \<longleftrightarrow> writable (rc_ReceivedAt r)"

definition wire_operation :: "Operation \<Rightarrow> bool" where
  "wire_operation op \<longleftrightarrow> state_of_string (state_string (op_State op)) = op_State op
     \<and> int64_range (op_AttemptCount op) \<and> int64_range (op_Version op) \<and> writable (op_PreparedAt op)
     \<and> pred_option writable (op_ConfirmedAt op) \<and> pred_option writable (op_ResolvedAt op)
     \<and> writable (op_CreatedAt op) \<and> writable (op_UpdatedAt op) \<and> pred_option wire_receipt (op_Receipt op)"

lemma int_round [simp]: "int64_range n \<Longrightarrow> as_int64 (int_json n) = Some n"
  by (simp add: int64_round_trip int64_range_def)

lemma int_json_not_null [simp]: "int_json n \<noteq> JNull"
  by (simp add: int_json_def)

lemma time_json_round [simp]: "writable t \<Longrightarrow> as_time (time_json t) = Some t" "time_json t \<noteq> JNull"
  by (simp_all add: time_json_def parse_format)

lemma receipt_names: "plain_names (receipt_members r)"
  by (simp add: receipt_members_def)

lemma receipt_lookup:
  "map_of (receipt_members r) ''receipt_id'' = Some (JStr (rc_ID r))"
  "map_of (receipt_members r) ''service_receipt_id'' = Some (JStr (rc_ServiceReceiptID r))"
  "map_of (receipt_members r) ''receipt_fingerprint'' = Some (JStr (rc_ReceiptFingerprint r))"
  "map_of (receipt_members r) ''payload'' = Some (rc_Payload r)"
  "map_of (receipt_members r) ''received_at'' = Some (time_json (rc_ReceivedAt r))"
  by (simp_all add: receipt_members_def)

lemma receipt_round:
  assumes "wire_receipt r"
  shows "read_receipt_members r0 (receipt_members r) = Some r"
  using assms by (simp add: read_receipt_members_def field_plain [OF receipt_names] tree_plain [OF receipt_names]
      receipt_lookup wire_receipt_def)

lemma operation_names: "plain_names (operation_members op)"
  by (simp add: operation_members_def plain_names_append image_Un)

lemma operation_lookup:
  "map_of (operation_members op) ''dispatch_authorized'' = Some (JBool (op_DispatchAuthorized op))"
  "map_of (operation_members op) ''operation_id'' = Some (JStr (op_ID op))"
  "map_of (operation_members op) ''workflow_id'' = Some (JStr (op_WorkflowID op))"
  "map_of (operation_members op) ''logical_key'' = Some (JStr (op_LogicalKey op))"
  "map_of (operation_members op) ''target_service'' = Some (JStr (op_TargetService op))"
  "map_of (operation_members op) ''action'' = Some (JStr (op_Action op))"
  "map_of (operation_members op) ''request_fingerprint'' = Some (JStr (op_RequestFingerprint op))"
  "map_of (operation_members op) ''expected_effect'' = Some (op_ExpectedEffect op)"
  "map_of (operation_members op) ''capability_profile'' = Some (JStr (op_CapabilityProfile op))"
  "map_of (operation_members op) ''state'' = Some (JStr (state_string (op_State op)))"
  "map_of (operation_members op) ''attempt_count'' = Some (int_json (op_AttemptCount op))"
  "map_of (operation_members op) ''version'' = Some (int_json (op_Version op))"
  "map_of (operation_members op) ''prepared_at'' = Some (time_json (op_PreparedAt op))"
  "map_of (operation_members op) ''confirmed_at'' = map_option time_json (op_ConfirmedAt op)"
  "map_of (operation_members op) ''resolved_at'' = map_option time_json (op_ResolvedAt op)"
  "map_of (operation_members op) ''created_at'' = Some (time_json (op_CreatedAt op))"
  "map_of (operation_members op) ''updated_at'' = Some (time_json (op_UpdatedAt op))"
  "map_of (operation_members op) ''receipt'' = map_option (\<lambda>r. JObj (receipt_members r)) (op_Receipt op)"
  by (simp_all add: operation_members_def map_add_def split: option.split)

lemma operation_round:
  assumes "wire_operation op"
  shows "decode_operation (operation_json op) = Some op"
proof -
  have "time_pointer ''confirmed_at'' None (operation_members op) = Some (op_ConfirmedAt op)"
    "time_pointer ''resolved_at'' None (operation_members op) = Some (op_ResolvedAt op)"
    using assms by (auto simp: time_pointer_plain [OF operation_names] operation_lookup wire_operation_def split: option.split)
  moreover have "receipt_pointer None (operation_members op) = Some (op_Receipt op)"
    using assms by (auto simp: receipt_pointer_plain [OF operation_names] operation_lookup wire_operation_def receipt_round
        split: option.split)
  ultimately show ?thesis
    using assms by (simp add: decode_operation_def operation_json_def read_operation_members_def zero_operation_def
        field_plain [OF operation_names] tree_plain [OF operation_names] operation_lookup wire_operation_def as_state_def)
qed

end
