(* ===== verification/Api.thy ===== *)
theory Api
  imports Wire
begin

text \<open>
  \<open>internal/api/server.go\<close>: the HTTP server in front of the store. A handler takes what the
  surroundings supply (the environment of its store call, the clock, a generated request id, what
  google/uuid and PostgreSQL accept as an identifier), the database and the request, and gives the
  response and the next database. Routing patterns and tokens are in a table. Logging and metrics
  are left out; chi's answers to unmatched requests are 404 and 405 without a JSON body.
\<close>

section \<open>The server\<close>

record api_server =
  sa_authToken :: string
  sa_adminToken :: string
  sa_preparedGrace :: duration

definition DefaultPreparedGrace :: duration where
  "DefaultPreparedGrace = 5 * second"

definition New :: "string \<Rightarrow> string \<Rightarrow> api_server" where
  "New authToken adminToken = \<lparr>sa_authToken = authToken, sa_adminToken = adminToken,
     sa_preparedGrace = DefaultPreparedGrace\<rparr>"

definition SetPreparedGrace :: "duration \<Rightarrow> api_server \<Rightarrow> api_server" where
  "SetPreparedGrace d sv = (if d > 0 then sv\<lparr>sa_preparedGrace := d\<rparr> else sv)"

record api_context =
  cx_env :: env
  cx_valid :: "string \<Rightarrow> bool"                \<comment> \<open>\<open>uuid.Parse\<close> accepts\<close>
  cx_cast :: uuid_parser                       \<comment> \<open>PostgreSQL's \<open>::uuid\<close>\<close>
  cx_now :: time                               \<comment> \<open>\<open>s.now()\<close>\<close>
  cx_new_id :: string                          \<comment> \<open>\<open>uuid.NewString()\<close>\<close>
  cx_json_error :: "string \<Rightarrow> string"         \<comment> \<open>the decoder's message for a body\<close>
  cx_ping :: bool                              \<comment> \<open>the pool reaches the database\<close>
  cx_schema :: "error + string \<times> string \<times> string"   \<comment> \<open>the names \<open>to_regclass\<close> finds\<close>
  cx_schema_version :: "error + int"           \<comment> \<open>the last applied migration\<close>
  cx_stamp :: "time \<Rightarrow> string"                \<comment> \<open>how PostgreSQL writes a timestamp in \<open>jsonb\<close>\<close>
  cx_metrics :: "json option response"         \<comment> \<open>promhttp\<close>

section \<open>Writing responses\<close>

definition requestID :: "api_context \<Rightarrow> request \<Rightarrow> string" where
  "requestID cx rq = (if header rq ''X-Request-ID'' = [] then cx_new_id cx else header rq ''X-Request-ID'')"

definition details_json :: "(string \<times> string) list \<Rightarrow> json" where
  "details_json ds = (if ds = [] then JNull else JObj (map (map_prod id JStr) ds))"

text \<open>Maps are printed with their keys in order.\<close>

definition errorEnvelope :: "string \<Rightarrow> string \<Rightarrow> string \<Rightarrow> (string \<times> string) list \<Rightarrow> json" where
  "errorEnvelope code message rid details = JObj [(''error'', JObj [(''code'', JStr code),
     (''details'', details_json details), (''message'', JStr message), (''request_id'', JStr rid)])]"

definition writeJSON :: "int \<Rightarrow> json option \<Rightarrow> json option response" where
  "writeJSON status v = \<lparr>rs_status = status, rs_body = v\<rparr>"

fun error_status :: "error \<Rightarrow> int" where
  "error_status (DomainError ErrorValidation code m d c) = (if code = ''unauthorized'' then 401 else 422)"
| "error_status (DomainError ErrorNotFound code m d c) = 404"
| "error_status (DomainError ErrorConflict code m d c) = 409"
| "error_status (DomainError ErrorUnavailable code m d c) = 503"
| "error_status (PlainError m) = 500"

fun error_envelope :: "string \<Rightarrow> error \<Rightarrow> json" where
  "error_envelope rid (DomainError kind code m d c) = errorEnvelope code m rid d"
| "error_envelope rid (PlainError m) = errorEnvelope ''internal_error'' ''internal server error'' rid []"

definition writeError :: "api_context \<Rightarrow> request \<Rightarrow> error \<Rightarrow> json option response" where
  "writeError cx rq err = writeJSON (error_status err) (Some (error_envelope (requestID cx rq) err))"

text \<open>\<open>Encode\<close> prints nothing when a time of the record has no four-digit year.\<close>

definition encodable :: "Operation \<Rightarrow> bool" where
  "encodable op \<longleftrightarrow> writable (op_PreparedAt op) \<and> pred_option writable (op_ConfirmedAt op)
     \<and> pred_option writable (op_ResolvedAt op) \<and> writable (op_CreatedAt op) \<and> writable (op_UpdatedAt op)
     \<and> pred_option wire_receipt (op_Receipt op)"

definition operation_body :: "Operation \<Rightarrow> json option" where
  "operation_body op = (if encodable op then Some (operation_json op) else None)"

definition claims_body :: "RecoveryClaim list \<Rightarrow> json option" where
  "claims_body cs = (if list_all (\<lambda>c. encodable (cl_Operation c) \<and> writable (cl_LeaseExpiresAt c)) cs
     then Some (JObj [(''claims'', JArr (map claim_json cs))]) else None)"

definition lease_body :: "time \<Rightarrow> json option" where
  "lease_body t = (if writable t then Some (JObj [(''lease_expires_at'', time_json t)]) else None)"

definition operations_body :: "Operation page \<Rightarrow> json option" where
  "operations_body p = (if list_all encodable (pg_Items p) then Some (page_json operation_json p) else None)"

definition events_body :: "(time \<Rightarrow> string) \<Rightarrow> Event page \<Rightarrow> json option" where
  "events_body stamp p = (if list_all (\<lambda>ev. writable (ev_CreatedAt ev)) (pg_Items p)
     then Some (page_json (event_json stamp) p) else None)"

text \<open>The end of most handlers: the store's answer or its error.\<close>

definition respond :: "api_context \<Rightarrow> request \<Rightarrow> int \<Rightarrow> ('a \<Rightarrow> json option) \<Rightarrow> error + 'a \<Rightarrow> json option response" where
  "respond cx rq status body r =
     (case r of Inl err \<Rightarrow> writeError cx rq err | Inr x \<Rightarrow> writeJSON status (body x))"

definition respond_db :: "api_context \<Rightarrow> request \<Rightarrow> int \<Rightarrow> ('a \<Rightarrow> json option) \<Rightarrow> (error + 'a) \<times> db
    \<Rightarrow> json option response \<times> db" where
  "respond_db cx rq status body r = (case r of (res, s) \<Rightarrow> (respond cx rq status body res, s))"

section \<open>Reading requests\<close>

text \<open>
  \<open>decodeJSON\<close>: one object (or \<open>null\<close>) of known members within the first megabyte, then nothing but
  white space. \<open>read\<close> fills the target from the members.
\<close>

definition decodeJSON :: "api_context \<Rightarrow> string list \<Rightarrow> (member list \<Rightarrow> 'a option) \<Rightarrow> request \<Rightarrow> json option response + 'a" where
  "decodeJSON cx names read rq =
     (let body = take max_body (rq_body rq);
          bad = (\<lambda>message. Inl (writeJSON 400 (Some (errorEnvelope ''invalid_json'' message (requestID cx rq) [])))) in
      case decode_one body of
        None \<Rightarrow> bad (cx_json_error cx (rq_body rq))
      | Some (v, rest) \<Rightarrow>
          (case (case v of JNull \<Rightarrow> Some []
                 | JObj _ \<Rightarrow> Option.bind (object_members body) (\<lambda>ms. if known names ms then Some ms else None)
                 | _ \<Rightarrow> None) of
             None \<Rightarrow> bad (cx_json_error cx (rq_body rq))
           | Some ms \<Rightarrow>
               (case read ms of
                  None \<Rightarrow> bad (cx_json_error cx (rq_body rq))
                | Some x \<Rightarrow>
                    if skip_ws rest \<noteq> [] \<or> length (rq_body rq) > max_body
                    then bad ''request body must contain one JSON value'' else Inr x)))"

record versionReasonPayload =
  vp_ExpectedVersion :: int
  vp_Reason :: string
  vp_Actor :: string

definition read_version_reason :: "member list \<Rightarrow> versionReasonPayload option" where
  "read_version_reason ms =
     (case (int_field ''expected_version'' ms, string_field ''reason'' ms, string_field ''actor'' ms) of
        (Some v, Some r, Some a) \<Rightarrow> Some \<lparr>vp_ExpectedVersion = v, vp_Reason = r, vp_Actor = a\<rparr>
      | _ \<Rightarrow> None)"

definition version_reason_names :: "string list" where
  "version_reason_names = [''expected_version'', ''reason'', ''actor'']"

record claimPayload =
  cp_WorkerID :: string
  cp_Limit :: int
  cp_LeaseDurationMS :: int

definition read_claim :: "member list \<Rightarrow> claimPayload option" where
  "read_claim ms =
     (case (string_field ''worker_id'' ms, int_field ''limit'' ms, int_field ''lease_duration_ms'' ms) of
        (Some w, Some l, Some d) \<Rightarrow> Some \<lparr>cp_WorkerID = w, cp_Limit = l, cp_LeaseDurationMS = d\<rparr>
      | _ \<Rightarrow> None)"

definition claim_names :: "string list" where
  "claim_names = [''worker_id'', ''limit'', ''lease_duration_ms'']"

record renewPayload =
  np_ClaimToken :: string
  np_LeaseDurationMS :: int

definition read_renew :: "member list \<Rightarrow> renewPayload option" where
  "read_renew ms =
     (case (string_field ''claim_token'' ms, int_field ''lease_duration_ms'' ms) of
        (Some t, Some d) \<Rightarrow> Some \<lparr>np_ClaimToken = t, np_LeaseDurationMS = d\<rparr>
      | _ \<Rightarrow> None)"

definition renew_names :: "string list" where
  "renew_names = [''claim_token'', ''lease_duration_ms'']"

text \<open>
  The observation of a recovery result is a struct of its own, whose members must be known as well;
  its evidence is kept as the text it was sent as.
\<close>

definition observation_names :: "string list" where
  "observation_names = [''mechanism'', ''outcome'', ''authoritative'', ''external_reference'', ''evidence'']"

definition zero_observation :: Observation where
  "zero_observation = \<lparr>ob_Mechanism = OtherMechanism [], ob_Outcome = OtherOutcome [],
     ob_Authoritative = False, ob_ExternalReference = [], ob_Evidence = []\<rparr>"

definition raw_over :: "string \<Rightarrow> string \<Rightarrow> member list \<Rightarrow> string" where
  "raw_over name old ms = foldl (\<lambda>acc (k, raw, v). if equal_fold k name then raw else acc) old ms"

definition read_observation :: "Observation \<Rightarrow> string \<Rightarrow> Observation option" where
  "read_observation ob raw =
     Option.bind (object_members raw) (\<lambda>ms.
       if \<not> known observation_names ms then None
       else (case (field as_string ''mechanism'' (mechanism_string (ob_Mechanism ob)) (plain_members ms),
                   field as_string ''outcome'' (outcome_string (ob_Outcome ob)) (plain_members ms),
                   field as_bool ''authoritative'' (ob_Authoritative ob) (plain_members ms),
                   field as_string ''external_reference'' (ob_ExternalReference ob) (plain_members ms)) of
               (Some m, Some oc, Some a, Some x) \<Rightarrow>
                 Some \<lparr>ob_Mechanism = mechanism_of_string m, ob_Outcome = outcome_of_string oc,
                       ob_Authoritative = a, ob_ExternalReference = x,
                       ob_Evidence = raw_over ''evidence'' (ob_Evidence ob) ms\<rparr>
             | _ \<Rightarrow> None))"

fun observation_field :: "Observation \<Rightarrow> member list \<Rightarrow> Observation option" where
  "observation_field ob [] = Some ob"
| "observation_field ob ((k, raw, v) # ms) =
     (if \<not> equal_fold k ''observation'' then observation_field ob ms
      else (case v of
         JNull \<Rightarrow> observation_field ob ms
       | JObj _ \<Rightarrow> Option.bind (read_observation ob raw) (\<lambda>ob'. observation_field ob' ms)
       | _ \<Rightarrow> None))"

text \<open>\<open>recoveryResultPayload\<close> has the members of \<open>domain.RecoveryResult\<close>.\<close>

definition read_recovery_result :: "member list \<Rightarrow> RecoveryResult option" where
  "read_recovery_result ms =
     (case (string_field ''claim_token'' ms, int_field ''expected_version'' ms, string_field ''attempt_id'' ms,
            observation_field zero_observation ms) of
        (Some t, Some v, Some a, Some ob) \<Rightarrow>
          Some \<lparr>rr_ClaimToken = t, rr_ExpectedVersion = v, rr_AttemptID = a, rr_Observation = ob\<rparr>
      | _ \<Rightarrow> None)"

definition recovery_result_names :: "string list" where
  "recovery_result_names = [''claim_token'', ''expected_version'', ''attempt_id'', ''observation'']"

definition read_manual :: "member list \<Rightarrow> ManualResolution option" where
  "read_manual ms =
     (case (int_field ''expected_version'' ms, string_field ''actor'' ms, string_field ''outcome'' ms,
            string_field ''reason'' ms, string_field ''evidence_reference'' ms) of
        (Some v, Some a, Some oc, Some r, Some x) \<Rightarrow>
          Some \<lparr>mr_ExpectedVersion = v, mr_Actor = a, mr_Outcome = oc, mr_Reason = r, mr_EvidenceReference = x\<rparr>
      | _ \<Rightarrow> None)"

definition manual_names :: "string list" where
  "manual_names = [''expected_version'', ''actor'', ''outcome'', ''reason'', ''evidence_reference'']"

definition read_prepare :: "member list \<Rightarrow> PrepareRequest option" where
  "read_prepare ms =
     (case (string_field ''workflow_id'' ms, string_field ''strategy'' ms, ptr_field ''experiment_run_id'' None ms,
            string_field ''logical_key'' ms, string_field ''target_service'' ms, string_field ''action'' ms,
            string_field ''request_fingerprint'' ms, string_field ''capability_profile'' ms) of
        (Some w, Some st, Some run, Some k, Some t, Some a, Some f, Some p) \<Rightarrow>
          Some \<lparr>pr_WorkflowID = w, pr_Strategy = strategy_of_string st, pr_ExperimentRunID = run,
                pr_LogicalKey = k, pr_TargetService = t, pr_Action = a, pr_Request = raw_field ''request'' ms,
                pr_RequestFingerprint = f, pr_ExpectedEffect = raw_field ''expected_effect'' ms,
                pr_CapabilityProfile = p, pr_TraceContext = raw_field ''trace_context'' ms\<rparr>
      | _ \<Rightarrow> None)"

definition prepare_names :: "string list" where
  "prepare_names = [''workflow_id'', ''strategy'', ''experiment_run_id'', ''logical_key'', ''target_service'',
     ''action'', ''request'', ''request_fingerprint'', ''expected_effect'', ''capability_profile'', ''trace_context'']"

definition read_confirm :: "member list \<Rightarrow> ConfirmRequest option" where
  "read_confirm ms =
     (case (int_field ''expected_version'' ms, string_field ''service_receipt_id'' ms,
            field as_time ''received_at'' zero_time (plain_members ms)) of
        (Some v, Some i, Some t) \<Rightarrow>
          Some \<lparr>cr_ExpectedVersion = v, cr_ServiceReceiptID = i, cr_Receipt = raw_field ''receipt'' ms,
                cr_ReceivedAt = t\<rparr>
      | _ \<Rightarrow> None)"

definition confirm_names :: "string list" where
  "confirm_names = [''expected_version'', ''service_receipt_id'', ''receipt'', ''received_at'']"

definition dispatch_names :: "string list" where
  "dispatch_names = [''expected_version'']"

definition read_dispatch :: "member list \<Rightarrow> int option" where
  "read_dispatch ms = int_field ''expected_version'' ms"


section \<open>Validation\<close>

text \<open>
  \<open>json.Unmarshal\<close> into \<open>map[string]any\<close> reads numbers as \<open>float64\<close> and rejects the ones that
  overflow it: from half an ulp above the largest finite value. \<open>strconv\<close> stops counting an
  exponent at ten thousand.
\<close>

definition exponent_value :: "string \<Rightarrow> int" where
  "exponent_value s =
     (let count = (\<lambda>ds. foldl (\<lambda>n c. if n < 10000 then 10 * n + (int (byte c) - 48) else n) 0 ds) in
      case s of
        c # r \<Rightarrow> if c = CHR ''-'' then - count r else if c = CHR ''+'' then count r else count s
      | [] \<Rightarrow> 0)"

definition float_bound :: int where
  "float_bound = 2 ^ 1024 - 2 ^ 970"

definition float_finite :: "string \<Rightarrow> bool" where
  "float_finite lit =
     (let s = (case lit of c # r \<Rightarrow> if c = CHR ''-'' then r else lit | [] \<Rightarrow> lit);
          whole = takeWhile is_digit s;
          r1 = dropWhile is_digit s;
          (frac, r2) = (case r1 of c # r \<Rightarrow> if c = CHR ''.'' then (takeWhile is_digit r, dropWhile is_digit r) else ([], r1)
                        | [] \<Rightarrow> ([], r1));
          m = int (nat_of_digits (whole @ frac));
          e = exponent_value (tl r2) - int (length frac)
      in m = 0 \<or> (e \<le> 400 \<and> (if 0 \<le> e then m * 10 ^ nat e < float_bound else m < float_bound * 10 ^ nat (- e))))"

fun floats_ok :: "json \<Rightarrow> bool"
  and floats_list :: "json list \<Rightarrow> bool"
  and floats_members :: "(string \<times> json) list \<Rightarrow> bool" where
  "floats_ok (JNum l) = float_finite l"
| "floats_ok (JArr vs) = floats_list vs"
| "floats_ok (JObj ms) = floats_members ms"
| "floats_ok v = True"
| "floats_list [] = True"
| "floats_list (v # vs) = (floats_ok v \<and> floats_list vs)"
| "floats_members [] = True"
| "floats_members ((k, v) # ms) = (floats_ok v \<and> floats_members ms)"

definition json_object :: "string \<Rightarrow> bool" where
  "json_object raw = (case decode_all raw of Some v \<Rightarrow> is_object v \<and> floats_ok v | None \<Rightarrow> False)"

definition capability_profiles :: "string list" where
  "capability_profiles = [''receipt_status'', ''idempotency_only'', ''indirect_unique'', ''none'']"

definition validatePrepare :: "(string \<Rightarrow> bool) \<Rightarrow> PrepareRequest \<Rightarrow> error + unit" where
  "validatePrepare valid p =
     bindE (guardE (pr_WorkflowID p = [] \<or> pr_LogicalKey p = [] \<or> pr_TargetService p = [] \<or> pr_Action p = [])
              (validation ''missing_required_field'' ''workflow_id, logical_key, target_service, and action are required'')) (\<lambda>_.
     bindE (guardE (\<not> ValidStrategy (pr_Strategy p)) (validation ''invalid_strategy'' ''strategy is invalid'')) (\<lambda>_.
     bindE (guardE (pr_Request p = [] \<or> pr_ExpectedEffect p = [])
              (validation ''missing_required_field'' ''request and expected_effect are required'')) (\<lambda>_.
     bindE (guardE (\<not> json_object (pr_Request p)) (validation ''invalid_request'' ''request must be a JSON object'')) (\<lambda>_.
     bindE (guardE (pr_TargetService p \<noteq> ''email'' \<or> pr_Action p \<noteq> ''send'')
              (validation ''unsupported_operation'' ''this implementation supports only email/send'')) (\<lambda>_.
     bindE (guardE (\<not> json_object (pr_ExpectedEffect p))
              (validation ''invalid_expected_effect'' ''expected_effect must be a JSON object'')) (\<lambda>_.
     bindE (guardE (pr_CapabilityProfile p \<notin> set capability_profiles)
              (validation ''invalid_capability_profile'' ''capability_profile is invalid'')) (\<lambda>_.
     bindE (guardE (case pr_ExperimentRunID p of Some run \<Rightarrow> \<not> valid run | None \<Rightarrow> False)
              (validation ''invalid_experiment_run_id'' ''experiment_run_id must be a UUID'')) (\<lambda>_.
       guardE (pr_TraceContext p \<noteq> [] \<and> \<not> json_object (pr_TraceContext p))
         (validation ''invalid_trace_context'' ''trace_context must be a JSON object'')))))))))"

text \<open>\<open>strconv.Atoi\<close>: an optional sign and decimal digits, within 64 bits.\<close>

definition atoi :: "string \<Rightarrow> int option" where
  "atoi s =
     (let (neg, ds) = (case s of c # r \<Rightarrow> if c = CHR ''-'' then (True, r) else if c = CHR ''+'' then (False, r) else (False, s)
                       | [] \<Rightarrow> (False, s));
          n = (if neg then - int (nat_of_digits ds) else int (nat_of_digits ds))
      in if ds \<noteq> [] \<and> list_all is_digit ds \<and> int64_range n then Some n else None)"

definition invalid_limit :: error where
  "invalid_limit = validation ''invalid_limit'' ''limit must be between 1 and 200''"

definition parseLimit :: "string \<Rightarrow> error + int" where
  "parseLimit raw =
     (if raw = [] then Inr 50
      else case atoi raw of
        None \<Rightarrow> Inl invalid_limit
      | Some n \<Rightarrow> if n < 1 \<or> n > 200 then Inl invalid_limit else Inr n)"

section \<open>Identifiers\<close>

text \<open>
  A handler tests an identifier with \<open>uuid.Parse\<close> and passes it on as it was written; PostgreSQL
  casts it. Where the cast fails, the statement that uses it fails, known by its label.
\<close>

definition failing :: "string \<Rightarrow> env \<Rightarrow> env" where
  "failing label e = e\<lparr>fails := (fails e)(label := True)\<rparr>"

definition with_cast :: "api_context \<Rightarrow> string \<Rightarrow> string \<Rightarrow> env \<Rightarrow> (env \<Rightarrow> uuid \<Rightarrow> 'a) \<Rightarrow> 'a" where
  "with_cast cx label i e f =
     (case cx_cast cx i of Some u \<Rightarrow> f e u | None \<Rightarrow> f (failing label e) i)"

definition invalid_operation_id :: error where
  "invalid_operation_id = validation ''invalid_operation_id'' ''operation_id must be a UUID''"

text \<open>
  \<open>ensureWorkflow\<close> compares the identifier of the run as it was written with the one PostgreSQL
  prints: another spelling is in conflict with every workflow, even the one just inserted.
\<close>

definition workflow_metadata_conflict :: error where
  "workflow_metadata_conflict = conflict ''workflow_metadata_conflict''
     ''workflow already exists with different strategy or experiment run''"

definition prepare_call :: "api_context \<Rightarrow> db \<Rightarrow> PrepareRequest \<Rightarrow> (error + (Operation \<times> bool)) \<times> db" where
  "prepare_call cx s req =
     (let e = cx_env cx in
      case pr_ExperimentRunID req of
        None \<Rightarrow> Prepare e s req
      | Some run \<Rightarrow>
          (case cx_cast cx run of
             None \<Rightarrow> Prepare (failing ''insert workflow'' e) s req
           | Some u \<Rightarrow>
               if u = run then Prepare e s req
               else run_tx e ''begin prepare transaction'' ''commit prepare'' s
                 (bindE (ensureWorkflow e s (req\<lparr>pr_ExperimentRunID := Some u\<rparr>)) (\<lambda>_.
                    Inl workflow_metadata_conflict))))"


section \<open>Handlers\<close>

text \<open>\<open>r.URL.Query().Get\<close> is \<open>query\<close>; \<open>chi.URLParam\<close> is \<open>rq_param\<close>.\<close>

definition check_id :: "api_context \<Rightarrow> request \<Rightarrow> json option response + unit" where
  "check_id cx rq = guardE (\<not> cx_valid cx (rq_param rq)) (writeError cx rq invalid_operation_id)"

definition reject :: "api_context \<Rightarrow> request \<Rightarrow> bool \<Rightarrow> string \<Rightarrow> string \<Rightarrow> json option response + unit" where
  "reject cx rq bad code message = guardE bad (writeError cx rq (validation code message))"

text \<open>A handler that answers before it calls the store leaves the database as it was.\<close>

definition handle :: "db \<Rightarrow> json option response + (json option response \<times> db) \<Rightarrow> json option response \<times> db" where
  "handle s r = (case r of Inl answer \<Rightarrow> (answer, s) | Inr out \<Rightarrow> out)"

definition beginRetry :: "api_context \<Rightarrow> db \<Rightarrow> request \<Rightarrow> json option response \<times> db" where
  "beginRetry cx s rq = handle s
     (bindE (check_id cx rq) (\<lambda>_.
      bindE (decodeJSON cx version_reason_names read_version_reason rq) (\<lambda>p.
      bindE (reject cx rq (vp_ExpectedVersion p < 1 \<or> vp_Reason p = []) ''invalid_retry''
               ''expected_version and reason are required'') (\<lambda>_.
      Inr (respond_db cx rq 200 operation_body (with_cast cx ''lock operation'' (rq_param rq) (cx_env cx)
             (\<lambda>e i. BeginRetry e s i (vp_ExpectedVersion p) (vp_Reason p))))))))"

definition requestReconciliation :: "api_context \<Rightarrow> db \<Rightarrow> request \<Rightarrow> json option response \<times> db" where
  "requestReconciliation cx s rq = handle s
     (bindE (check_id cx rq) (\<lambda>_.
      bindE (decodeJSON cx version_reason_names read_version_reason rq) (\<lambda>p.
      bindE (reject cx rq (vp_ExpectedVersion p < 1 \<or> vp_Reason p = []) ''invalid_reconciliation_request''
               ''expected_version and reason are required'') (\<lambda>_.
      Inr (let actor = (if vp_Actor p = [] then ''operator'' else vp_Actor p) in
           respond_db cx rq 202 operation_body (with_cast cx ''lock operation'' (rq_param rq) (cx_env cx)
             (\<lambda>e i. RequestReconciliation e s i (vp_ExpectedVersion p) actor (vp_Reason p))))))))"

definition claimRecovery :: "api_server \<Rightarrow> api_context \<Rightarrow> db \<Rightarrow> request \<Rightarrow> json option response \<times> db" where
  "claimRecovery sv cx s rq = handle s
     (bindE (decodeJSON cx claim_names read_claim rq) (\<lambda>p.
      bindE (reject cx rq (cp_WorkerID p = []) ''invalid_claim'' ''worker_id is required'') (\<lambda>_.
      let limit = (if cp_Limit p = 0 then 20 else cp_Limit p) in
      bindE (reject cx rq (limit < 1 \<or> limit > 100) ''invalid_claim'' ''limit must be between 1 and 100'') (\<lambda>_.
      let lease = (if cp_LeaseDurationMS p = 0 then 30000 else cp_LeaseDurationMS p) in
      bindE (reject cx rq (lease < 5000 \<or> lease > 300000) ''invalid_claim''
               ''lease_duration_ms must be between 5000 and 300000'') (\<lambda>_.
      Inr (respond_db cx rq 200 claims_body
             (ClaimRecovery (cx_env cx) s (cp_WorkerID p) limit (lease * millisecond) (sa_preparedGrace sv))))))))"

definition renewClaim :: "api_context \<Rightarrow> db \<Rightarrow> request \<Rightarrow> json option response \<times> db" where
  "renewClaim cx s rq = handle s
     (bindE (decodeJSON cx renew_names read_renew rq) (\<lambda>p.
      bindE (reject cx rq (np_ClaimToken p = []) ''invalid_renewal'' ''claim_token is required'') (\<lambda>_.
      let lease = (if np_LeaseDurationMS p = 0 then 30000 else np_LeaseDurationMS p) in
      bindE (reject cx rq (lease < 5000 \<or> lease > 300000) ''invalid_renewal''
               ''lease_duration_ms must be between 5000 and 300000'') (\<lambda>_.
      bindE (check_id cx rq) (\<lambda>_.
      Inr (respond_db cx rq 200 lease_body (with_cast cx ''renew recovery lease'' (rq_param rq) (cx_env cx)
             (\<lambda>e i. RenewClaim e s i (np_ClaimToken p) (lease * millisecond)))))))))"

definition recoveryResult :: "api_context \<Rightarrow> db \<Rightarrow> request \<Rightarrow> json option response \<times> db" where
  "recoveryResult cx s rq = handle s
     (bindE (decodeJSON cx recovery_result_names read_recovery_result rq) (\<lambda>p.
      bindE (reject cx rq (rr_ClaimToken p = [] \<or> rr_ExpectedVersion p < 1 \<or> rr_AttemptID p = [])
               ''invalid_recovery_result'' ''claim_token, expected_version, and attempt_id are required'') (\<lambda>_.
      bindE (check_id cx rq) (\<lambda>_.
      bindE (reject cx rq (\<not> cx_valid cx (rr_AttemptID p)) ''invalid_attempt_id'' ''attempt_id must be a UUID'') (\<lambda>_.
      Inr (respond_db cx rq 200 operation_body
             (with_cast cx ''lock operation'' (rq_param rq) (cx_env cx) (\<lambda>e i.
              with_cast cx ''read reconciliation attempt'' (rr_AttemptID p) e (\<lambda>e a.
                SubmitRecoveryResult e s i (p\<lparr>rr_AttemptID := a\<rparr>))))))))))"

definition manualResolution :: "api_context \<Rightarrow> db \<Rightarrow> request \<Rightarrow> json option response \<times> db" where
  "manualResolution cx s rq = handle s
     (bindE (decodeJSON cx manual_names read_manual rq) (\<lambda>p.
      bindE (reject cx rq (mr_ExpectedVersion p < 1 \<or> mr_Actor p = [] \<or> mr_Outcome p = [] \<or> mr_Reason p = []
                \<or> mr_EvidenceReference p = []) ''invalid_manual_resolution''
               ''all manual resolution fields are required'') (\<lambda>_.
      bindE (check_id cx rq) (\<lambda>_.
      Inr (respond_db cx rq 200 operation_body (with_cast cx ''lock operation'' (rq_param rq) (cx_env cx)
             (\<lambda>e i. ManualResolve e s i p)))))))"

text \<open>201 for an operation that was created, 200 for the one that was there.\<close>

definition respond_prepared :: "api_context \<Rightarrow> request \<Rightarrow> (error + (Operation \<times> bool)) \<times> db \<Rightarrow> json option response \<times> db" where
  "respond_prepared cx rq r =
     (case r of
        (Inl err, s) \<Rightarrow> (writeError cx rq err, s)
      | (Inr (op, created), s) \<Rightarrow> (writeJSON (if created then 201 else 200) (operation_body op), s))"

definition prepare :: "api_context \<Rightarrow> db \<Rightarrow> request \<Rightarrow> json option response \<times> db" where
  "prepare cx s rq = handle s
     (bindE (decodeJSON cx prepare_names read_prepare rq) (\<lambda>p.
      bindE (case validatePrepare (cx_valid cx) p of Inl err \<Rightarrow> Inl (writeError cx rq err) | Inr _ \<Rightarrow> Inr ()) (\<lambda>_.
      bindE (case Fingerprint (pr_TargetService p) (pr_Action p) (pr_Request p) of
               Inl err \<Rightarrow> Inl (writeError cx rq (validation ''invalid_request'' (error_string err)))
             | Inr f \<Rightarrow> Inr f) (\<lambda>fingerprint.
      bindE (reject cx rq (pr_RequestFingerprint p \<noteq> [] \<and> \<not> equal_fold (pr_RequestFingerprint p) fingerprint)
               ''request_fingerprint_mismatch'' ''request_fingerprint does not match the canonical request'') (\<lambda>_.
      Inr (respond_prepared cx rq (prepare_call cx s (p\<lparr>pr_RequestFingerprint := fingerprint\<rparr>))))))))"

definition confirm :: "api_context \<Rightarrow> db \<Rightarrow> request \<Rightarrow> json option response \<times> db" where
  "confirm cx s rq = handle s
     (bindE (check_id cx rq) (\<lambda>_.
      bindE (decodeJSON cx confirm_names read_confirm rq) (\<lambda>p.
      bindE (reject cx rq (cr_ExpectedVersion p < 1 \<or> cr_ServiceReceiptID p = [] \<or> cr_Receipt p = [])
               ''invalid_confirmation'' ''expected_version, service_receipt_id, and receipt are required'') (\<lambda>_.
      let p' = (if cr_ReceivedAt p = zero_time then p\<lparr>cr_ReceivedAt := cx_now cx\<rparr> else p) in
      Inr (respond_db cx rq 200 operation_body (with_cast cx ''lock operation'' (rq_param rq) (cx_env cx)
             (\<lambda>e i. Confirm e s i p')))))))"

definition authorizeDispatch :: "api_context \<Rightarrow> db \<Rightarrow> request \<Rightarrow> json option response \<times> db" where
  "authorizeDispatch cx s rq = handle s
     (bindE (check_id cx rq) (\<lambda>_.
      bindE (decodeJSON cx dispatch_names read_dispatch rq) (\<lambda>version.
      bindE (reject cx rq (version < 1) ''invalid_dispatch'' ''expected_version is required'') (\<lambda>_.
      Inr (respond_db cx rq 200 operation_body (with_cast cx ''lock operation'' (rq_param rq) (cx_env cx)
             (\<lambda>e i. AuthorizeDispatch e s i version)))))))"

text \<open>
  The reads take the databases their statements see, one after the other.
\<close>

definition getOperation :: "api_context \<Rightarrow> db \<Rightarrow> db \<Rightarrow> request \<Rightarrow> json option response" where
  "getOperation cx s1 s2 rq =
     (case check_id cx rq of
        Inl answer \<Rightarrow> answer
      | Inr _ \<Rightarrow> respond cx rq 200 operation_body
          (with_cast cx ''read operation'' (rq_param rq) (cx_env cx) (\<lambda>e i. GetOperation e s1 s2 i)))"

definition list_filter :: "api_context \<Rightarrow> request \<Rightarrow> error + OperationFilter" where
  "list_filter cx rq =
     bindE (parseLimit (query rq ''limit'')) (\<lambda>limit.
     bindE (guardE (query rq ''state'' \<noteq> [] \<and> \<not> ValidState (state_of_string (query rq ''state'')))
              (validation ''invalid_state'' ''state filter is invalid'')) (\<lambda>_.
     bindE (if query rq ''created_after'' = [] then Inr None
            else (case parse_time (query rq ''created_after'') of
                    None \<Rightarrow> Inl (validation ''invalid_created_after'' ''created_after must use RFC3339'')
                  | Some t \<Rightarrow> Inr (Some t))) (\<lambda>after.
     Inr \<lparr>fl_WorkflowID = query rq ''workflow_id'', fl_State = query rq ''state'',
          fl_TargetService = query rq ''target_service'', fl_CreatedAfter = after, fl_Limit = limit,
          fl_Cursor = query rq ''cursor''\<rparr>)))"

definition listOperations :: "api_context \<Rightarrow> db \<Rightarrow> request \<Rightarrow> json option response" where
  "listOperations cx s rq =
     respond cx rq 200 operations_body
       (bindE (list_filter cx rq) (ListOperations (cx_cast cx) (cx_env cx) s))"

definition listEvents :: "api_context \<Rightarrow> db \<Rightarrow> db \<Rightarrow> db \<Rightarrow> request \<Rightarrow> json option response" where
  "listEvents cx s1 s2 s3 rq =
     (case check_id cx rq of
        Inl answer \<Rightarrow> answer
      | Inr _ \<Rightarrow> respond cx rq 200 (events_body (cx_stamp cx))
          (bindE (parseLimit (query rq ''limit'')) (\<lambda>limit.
             with_cast cx ''read operation'' (rq_param rq) (cx_env cx)
               (\<lambda>e i. ListEvents e s1 s2 s3 i limit (query rq ''cursor'')))))"

section \<open>Health\<close>

definition expectedSchemaVersion :: int where
  "expectedSchemaVersion = 3"

definition SchemaReady :: "api_context \<Rightarrow> error + unit" where
  "SchemaReady cx =
     bindE (cx_schema cx) (\<lambda>(ops, evs, migrations).
     bindE (guardE (ops = [] \<or> evs = [] \<or> migrations = []) (PlainError ''required schema is not migrated'')) (\<lambda>_.
     bindE (case cx_schema_version cx of Inl err \<Rightarrow> Inl (PlainError (''read schema version: '' @ error_string err))
                                        | Inr v \<Rightarrow> Inr v) (\<lambda>version.
       guardE (version \<noteq> expectedSchemaVersion) (PlainError ''schema version is incompatible''))))"

definition live :: "json option response" where
  "live = writeJSON 200 (Some (JObj [(''status'', JStr ''live'')]))"

definition not_ready :: "string \<Rightarrow> json option response" where
  "not_ready reason = writeJSON 503 (Some (JObj [(''reason'', JStr reason), (''status'', JStr ''not_ready'')]))"

definition ready :: "api_context \<Rightarrow> json option response" where
  "ready cx =
     (if \<not> cx_ping cx then not_ready ''database_unavailable''
      else case SchemaReady cx of
        Inl _ \<Rightarrow> not_ready ''schema_not_ready''
      | Inr _ \<Rightarrow> writeJSON 200 (Some (JObj [(''status'', JStr ''ready'')])))"

section \<open>Routes\<close>

datatype segment = Lit string | OperationID

datatype access = Open | AuthToken | AdminToken

datatype api_route =
    LiveRoute | ReadyRoute | MetricsRoute | PrepareRoute | ListOperationsRoute | GetOperationRoute
  | ListEventsRoute | ConfirmRoute | DispatchRoute | BeginRetryRoute | ReconciliationRoute
  | ManualRoute | ClaimRoute | RenewRoute | ResultRoute

text \<open>\<open>None\<close> stands for every method.\<close>

record route_entry =
  re_method :: "string option"
  re_pattern :: "segment list"
  re_access :: access
  re_route :: api_route

definition entry :: "string \<Rightarrow> segment list \<Rightarrow> access \<Rightarrow> api_route \<Rightarrow> route_entry" where
  "entry m p a r = \<lparr>re_method = (if m = [] then None else Some m), re_pattern = p, re_access = a, re_route = r\<rparr>"

definition routes :: "route_entry list" where
  "routes =
    [entry ''GET'' [Lit ''health'', Lit ''live''] Open LiveRoute,
     entry ''GET'' [Lit ''health'', Lit ''ready''] Open ReadyRoute,
     entry [] [Lit ''metrics''] AdminToken MetricsRoute,
     entry ''POST'' [Lit ''v1'', Lit ''operations''] AuthToken PrepareRoute,
     entry ''GET'' [Lit ''v1'', Lit ''operations''] AuthToken ListOperationsRoute,
     entry ''GET'' [Lit ''v1'', Lit ''operations'', OperationID] AuthToken GetOperationRoute,
     entry ''GET'' [Lit ''v1'', Lit ''operations'', OperationID, Lit ''events''] AuthToken ListEventsRoute,
     entry ''POST'' [Lit ''v1'', Lit ''operations'', OperationID, Lit ''confirmations''] AuthToken ConfirmRoute,
     entry ''POST'' [Lit ''v1'', Lit ''operations'', OperationID, Lit ''dispatches''] AuthToken DispatchRoute,
     entry ''POST'' [Lit ''v1'', Lit ''operations'', OperationID, Lit ''attempts''] AuthToken BeginRetryRoute,
     entry ''POST'' [Lit ''v1'', Lit ''operations'', OperationID, Lit ''reconciliation-requests''] AdminToken ReconciliationRoute,
     entry ''POST'' [Lit ''v1'', Lit ''operations'', OperationID, Lit ''manual-resolutions''] AdminToken ManualRoute,
     entry ''POST'' [Lit ''v1'', Lit ''recovery'', Lit ''claims''] AdminToken ClaimRoute,
     entry ''POST'' [Lit ''v1'', Lit ''recovery'', Lit ''claims'', OperationID, Lit ''renew''] AdminToken RenewRoute,
     entry ''POST'' [Lit ''v1'', Lit ''recovery'', Lit ''claims'', OperationID, Lit ''results''] AdminToken ResultRoute]"

text \<open>A path against a pattern: the segment the parameter takes, if there is one.\<close>

fun match_path :: "segment list \<Rightarrow> string list \<Rightarrow> string option" where
  "match_path [] [] = Some []"
| "match_path (Lit l # ps) (x # xs) = (if x = l then match_path ps xs else None)"
| "match_path (OperationID # ps) (x # xs) = (if x = [] then None else map_option (\<lambda>_. x) (match_path ps xs))"
| "match_path _ _ = None"

fun split_path :: "string \<Rightarrow> string list" where
  "split_path [] = [[]]"
| "split_path (c # s) = (if c = CHR ''/'' then [] # split_path s
     else (case split_path s of x # xs \<Rightarrow> (c # x) # xs | [] \<Rightarrow> [[c]]))"

definition path_segments :: "string \<Rightarrow> string list option" where
  "path_segments path = (case split_path path of x # xs \<Rightarrow> if x = [] then Some xs else None | [] \<Rightarrow> None)"

definition path_matches :: "string list \<Rightarrow> route_entry \<Rightarrow> bool" where
  "path_matches segs r \<longleftrightarrow> match_path (re_pattern r) segs \<noteq> None"

definition method_matches :: "string \<Rightarrow> route_entry \<Rightarrow> bool" where
  "method_matches m r \<longleftrightarrow> re_method r = None \<or> re_method r = Some m"

record http_message =
  hm_method :: string
  hm_path :: string
  hm_query :: "(string \<times> string) list"
  hm_headers :: "(string \<times> string) list"
  hm_body :: string

definition routed :: "string \<Rightarrow> string list \<Rightarrow> (route_entry \<times> string) option" where
  "routed m segs = Option.bind (find (\<lambda>r. path_matches segs r \<and> method_matches m r) routes) (\<lambda>r.
     map_option (\<lambda>i. (r, i)) (match_path (re_pattern r) segs))"

definition access_token :: "api_server \<Rightarrow> access \<Rightarrow> string option" where
  "access_token sv a = (case a of Open \<Rightarrow> None | AuthToken \<Rightarrow> Some (sa_authToken sv) | AdminToken \<Rightarrow> Some (sa_adminToken sv))"

definition unauthorized_error :: error where
  "unauthorized_error = validation ''unauthorized'' ''missing or invalid bearer token''"

definition authenticate :: "string option \<Rightarrow> request \<Rightarrow> bool" where
  "authenticate expected rq = (case expected of None \<Rightarrow> True | Some token \<Rightarrow> bearer_ok token rq)"

fun serve_route :: "api_server \<Rightarrow> api_context \<Rightarrow> db \<Rightarrow> api_route \<Rightarrow> request \<Rightarrow> json option response \<times> db" where
  "serve_route sv cx s LiveRoute rq = (live, s)"
| "serve_route sv cx s ReadyRoute rq = (ready cx, s)"
| "serve_route sv cx s MetricsRoute rq = (cx_metrics cx, s)"
| "serve_route sv cx s PrepareRoute rq = prepare cx s rq"
| "serve_route sv cx s ListOperationsRoute rq = (listOperations cx s rq, s)"
| "serve_route sv cx s GetOperationRoute rq = (getOperation cx s s rq, s)"
| "serve_route sv cx s ListEventsRoute rq = (listEvents cx s s s rq, s)"
| "serve_route sv cx s ConfirmRoute rq = confirm cx s rq"
| "serve_route sv cx s DispatchRoute rq = authorizeDispatch cx s rq"
| "serve_route sv cx s BeginRetryRoute rq = beginRetry cx s rq"
| "serve_route sv cx s ReconciliationRoute rq = requestReconciliation cx s rq"
| "serve_route sv cx s ManualRoute rq = manualResolution cx s rq"
| "serve_route sv cx s ClaimRoute rq = claimRecovery sv cx s rq"
| "serve_route sv cx s RenewRoute rq = renewClaim cx s rq"
| "serve_route sv cx s ResultRoute rq = recoveryResult cx s rq"

definition to_request :: "http_message \<Rightarrow> string \<Rightarrow> request" where
  "to_request hm i = \<lparr>rq_param = i, rq_query = hm_query hm, rq_headers = hm_headers hm, rq_body = hm_body hm\<rparr>"

definition ApiHandler :: "api_server \<Rightarrow> api_context \<Rightarrow> db \<Rightarrow> http_message \<Rightarrow> json option response \<times> db" where
  "ApiHandler sv cx s hm =
     (case path_segments (hm_path hm) of
        None \<Rightarrow> (writeJSON 404 None, s)
      | Some segs \<Rightarrow>
          (case routed (hm_method hm) segs of
             None \<Rightarrow> (writeJSON (if list_ex (path_matches segs) routes then 405 else 404) None, s)
           | Some (r, i) \<Rightarrow>
               (let rq = to_request hm i in
                if authenticate (access_token sv (re_access r)) rq then serve_route sv cx s (re_route r) rq
                else (writeError cx rq unauthorized_error, s))))"

section \<open>Bodies printed by \<open>Marshal\<close>\<close>

lemma decodeJSON_marshal:
  assumes "rq_body rq = marshal (JObj ms)" and "printable_members ms" and "depth_members ms < max_depth"
    and "length (marshal (JObj ms)) \<le> max_body" and "known names (with_texts ms)" and "read (with_texts ms) = Some x"
  shows "decodeJSON cx names read rq = Inr x"
proof -
  have "decode_one (marshal (JObj ms) @ []) = Some (JObj ms, [])"
    by (rule decode_marshal) (use assms in simp_all)
  moreover have "object_members (marshal (JObj ms)) = Some (with_texts ms)"
    by (rule object_members_marshal) (use assms in simp_all)
  ultimately show ?thesis
    using assms by (simp add: decodeJSON_def Let_def skip_ws_def del: marshal.simps)
qed

end
