(* ===== verification/Client.thy ===== *)
theory Client
  imports Api
begin

text \<open>
  \<open>pkg/client/client.go\<close>: the client of the server's interface. The HTTP transport is a parameter,
  a function on the state of the world; its answer is a failure or a status with the text of the
  body. Domain records are shared with the server, whose structs have the same members; the client's
  own \<open>Event\<close> keeps five of them. \<open>url.PathEscape\<close> is the identity on the identifiers the server
  hands out and escapes the rest.
\<close>

section \<open>Errors\<close>

record Error =
  ce_Status :: int
  ce_Code :: string
  ce_Message :: string
  ce_RequestID :: string
  ce_Details :: "(string \<times> json) list option"

datatype failure = Refused Error | Failed string

text \<open>\<open>strconv.Itoa\<close>.\<close>

definition itoa :: "int \<Rightarrow> string" where
  "itoa n = (if n < 0 then CHR ''-'' # decimal (nat (- n)) else decimal (nat n))"

definition Error_text :: "Error \<Rightarrow> string" where
  "Error_text e = ''watchkeeper API '' @ ce_Code e @ '' ('' @ itoa (ce_Status e) @ ''): '' @ ce_Message e"

definition Conflict :: "Error \<Rightarrow> bool" where
  "Conflict e \<longleftrightarrow> ce_Status e = 409"

section \<open>Transport\<close>

record http_call =
  hc_method :: string
  hc_url :: string
  hc_headers :: "(string \<times> string) list"
  hc_body :: string

datatype http_answer = NoAnswer string | Answer int string

type_synonym 'w transport = "http_call \<Rightarrow> 'w \<Rightarrow> http_answer \<times> 'w"

record client =
  ct_baseURL :: string
  ct_token :: string

definition New_client :: "string \<Rightarrow> string \<Rightarrow> client" where
  "New_client baseURL token = \<lparr>ct_baseURL = trim_right_slash baseURL, ct_token = token\<rparr>"

section \<open>Printing raw members\<close>

text \<open>
  A \<open>json.RawMessage\<close> is checked and copied without white space outside strings; the characters
  \<open>Marshal\<close> escapes for HTML are escaped in it as well. An absent one is \<open>null\<close>.
\<close>

fun compact_text :: "bool \<Rightarrow> string \<Rightarrow> string" where
  "compact_text inside [] = []"
| "compact_text inside (c # s) =
     (if c = CHR ''<'' \<or> c = CHR ''>'' \<or> c = CHR ''&'' then CHR 0x5C # CHR ''u'' # hex4 (byte c) @ compact_text inside s
      else if take 3 (c # s) = encode_rune 8232 then CHR 0x5C # CHR ''u'' # ''2028'' @ compact_text inside (drop 2 s)
      else if take 3 (c # s) = encode_rune 8233 then CHR 0x5C # CHR ''u'' # ''2029'' @ compact_text inside (drop 2 s)
      else if inside then
        (if c = CHR 0x5C then (case s of [] \<Rightarrow> [c] | e # r \<Rightarrow> c # e # compact_text True r)
         else c # compact_text (c \<noteq> CHR 0x22) s)
      else if is_ws c then compact_text False s
      else c # compact_text (c = CHR 0x22) s)"

definition raw_text :: "string \<Rightarrow> string option" where
  "raw_text raw = (if raw = [] then Some ''null''
     else if decode_all raw = None then None else Some (compact_text False raw))"

text \<open>A struct or a map: its members as texts, one of which may fail to print.\<close>

definition member_text :: "string \<times> string \<Rightarrow> string" where
  "member_text kv = marshal_string (fst kv) @ '':'' @ snd kv"

fun join_members :: "(string \<times> string) list \<Rightarrow> string" where
  "join_members [] = []"
| "join_members (kv # kvs) = member_text kv @ (if kvs = [] then [] else '','' @ join_members kvs)"

definition object_text :: "(string \<times> string) list \<Rightarrow> string" where
  "object_text kvs = ''{'' @ join_members kvs @ ''}''"

definition tree_texts :: "(string \<times> json) list \<Rightarrow> (string \<times> string) list" where
  "tree_texts ms = map (map_prod id marshal) ms"

definition time_text :: "time \<Rightarrow> string option" where
  "time_text t = (if writable t then Some (marshal (time_json t)) else None)"

definition prepare_text :: "PrepareRequest \<Rightarrow> string option" where
  "prepare_text p =
     Option.bind (raw_text (pr_Request p)) (\<lambda>request.
     Option.bind (raw_text (pr_ExpectedEffect p)) (\<lambda>effect.
     Option.bind (raw_text (pr_TraceContext p)) (\<lambda>trace.
       Some (object_text (tree_texts ([(''workflow_id'', JStr (pr_WorkflowID p)),
             (''strategy'', JStr (strategy_string (pr_Strategy p)))]
           @ omit_empty ''experiment_run_id'' (map_option JStr (pr_ExperimentRunID p))
           @ [(''logical_key'', JStr (pr_LogicalKey p)), (''target_service'', JStr (pr_TargetService p)),
              (''action'', JStr (pr_Action p))])
         @ [(''request'', request)]
         @ tree_texts (omit_empty ''request_fingerprint''
             (if pr_RequestFingerprint p = [] then None else Some (JStr (pr_RequestFingerprint p))))
         @ [(''expected_effect'', effect), (''capability_profile'', marshal_string (pr_CapabilityProfile p))]
         @ (if pr_TraceContext p = [] then [] else [(''trace_context'', trace)]))))))"

definition confirm_text :: "ConfirmRequest \<Rightarrow> string option" where
  "confirm_text c =
     Option.bind (raw_text (cr_Receipt c)) (\<lambda>receipt.
     Option.bind (time_text (cr_ReceivedAt c)) (\<lambda>received.
       Some (object_text [(''expected_version'', marshal (int_json (cr_ExpectedVersion c))),
         (''service_receipt_id'', marshal_string (cr_ServiceReceiptID c)), (''receipt'', receipt),
         (''received_at'', received)])))"

definition observation_text :: "Observation \<Rightarrow> string option" where
  "observation_text ob = map_option (\<lambda>evidence. object_text
       (tree_texts ([(''mechanism'', JStr (mechanism_string (ob_Mechanism ob))),
          (''outcome'', JStr (outcome_string (ob_Outcome ob))), (''authoritative'', JBool (ob_Authoritative ob))]
          @ omit_empty ''external_reference''
              (if ob_ExternalReference ob = [] then None else Some (JStr (ob_ExternalReference ob))))
        @ [(''evidence'', evidence)])) (raw_text (ob_Evidence ob))"

section \<open>Reading answers\<close>

text \<open>The first value of at most a megabyte.\<close>

definition first_value :: "string \<Rightarrow> json option" where
  "first_value text = map_option fst (decode_one (take max_body text))"

definition details_field :: "(string \<times> json) list \<Rightarrow> (string \<times> json) list option option" where
  "details_field ms =
     (case tree_field ''details'' JNull ms of JNull \<Rightarrow> Some None | JObj ds \<Rightarrow> Some (Some (norm_members [] ds)) | _ \<Rightarrow> None)"

text \<open>
  The error envelope. A field of the wrong type is left and the others are still read.
\<close>

definition or_empty :: "string option \<Rightarrow> string" where
  "or_empty x = (case x of None \<Rightarrow> [] | Some s \<Rightarrow> s)"

definition read_error :: "int \<Rightarrow> string \<Rightarrow> Error" where
  "read_error status text =
     (let ms = (case Option.bind (first_value text) members_of of None \<Rightarrow> [] | Some ms \<Rightarrow> ms);
          es = (case members_of (tree_field ''error'' JNull ms) of None \<Rightarrow> [] | Some es \<Rightarrow> es) in
      \<lparr>ce_Status = status, ce_Code = or_empty (field as_string ''code'' [] es),
       ce_Message = or_empty (field as_string ''message'' [] es),
       ce_RequestID = or_empty (field as_string ''request_id'' [] es),
       ce_Details = (case details_field es of None \<Rightarrow> None | Some d \<Rightarrow> d)\<rparr>)"

text \<open>The elements of a list decode over zero values.\<close>

definition list_field :: "string \<Rightarrow> (json \<Rightarrow> 'a option) \<Rightarrow> (string \<times> json) list \<Rightarrow> 'a list option" where
  "list_field name read ms =
     (case tree_field name JNull ms of JNull \<Rightarrow> Some [] | JArr vs \<Rightarrow> those (map read vs) | _ \<Rightarrow> None)"

definition decode_claim :: "json \<Rightarrow> RecoveryClaim option" where
  "decode_claim v =
     Option.bind (members_of v) (\<lambda>ms.
     Option.bind (decode_operation (tree_field ''operation'' JNull ms)) (\<lambda>op.
     Option.bind (field as_string ''claim_token'' [] ms) (\<lambda>token.
     Option.bind (field as_string ''attempt_id'' [] ms) (\<lambda>attempt.
     Option.bind (field as_time ''lease_expires_at'' zero_time ms) (\<lambda>expires.
     Option.bind (field as_int64 ''version'' 0 ms) (\<lambda>version.
       Some \<lparr>cl_Operation = op, cl_ClaimToken = token, cl_AttemptID = attempt, cl_LeaseExpiresAt = expires,
         cl_Version = version\<rparr>))))))"

definition decode_claims :: "json \<Rightarrow> RecoveryClaim list option" where
  "decode_claims v = Option.bind (members_of v) (list_field ''claims'' decode_claim)"

definition decode_lease :: "json \<Rightarrow> time option" where
  "decode_lease v = Option.bind (members_of v) (field as_time ''lease_expires_at'' zero_time)"

record client_event =
  ev_id :: int
  ev_operation :: string
  ev_type :: string
  ev_version :: int
  ev_created :: time

definition decode_event :: "json \<Rightarrow> client_event option" where
  "decode_event v =
     Option.bind (members_of v) (\<lambda>ms.
     Option.bind (field as_int64 ''id'' 0 ms) (\<lambda>i.
     Option.bind (field as_string ''operation_id'' [] ms) (\<lambda>op.
     Option.bind (field as_string ''event_type'' [] ms) (\<lambda>ty.
     Option.bind (field as_int64 ''operation_version'' 0 ms) (\<lambda>version.
     Option.bind (field as_time ''created_at'' zero_time ms) (\<lambda>created.
       Some \<lparr>ev_id = i, ev_operation = op, ev_type = ty, ev_version = version, ev_created = created\<rparr>))))))"

definition decode_page :: "(json \<Rightarrow> 'a option) \<Rightarrow> json \<Rightarrow> 'a page option" where
  "decode_page item v =
     Option.bind (members_of v) (\<lambda>ms.
     Option.bind (list_field ''items'' item ms) (\<lambda>items.
     Option.bind (field as_string ''next_cursor'' [] ms) (\<lambda>cursor.
       Some \<lparr>pg_Items = items, pg_NextCursor = cursor\<rparr>)))"

section \<open>do\<close>

definition call_headers :: "client \<Rightarrow> bool \<Rightarrow> (string \<times> string) list" where
  "call_headers c body = (''Authorization'', ''Bearer '' @ ct_token c)
     # (if body then [(''Content-Type'', ''application/json'')] else [])"

definition read_answer :: "(json \<Rightarrow> 'a option) \<Rightarrow> http_answer \<Rightarrow> failure + 'a" where
  "read_answer decode answer =
     (case answer of
        NoAnswer e \<Rightarrow> Inl (Failed e)
      | Answer status text \<Rightarrow>
          if status < 200 \<or> status \<ge> 300 then Inl (Refused (read_error status text))
          else of_opt (Failed ''decode response'') (Option.bind (first_value text) decode))"

text \<open>A body is absent, or a text, or fails to print.\<close>

definition do_call :: "'w transport \<Rightarrow> client \<Rightarrow> string \<Rightarrow> string \<Rightarrow> string option option \<Rightarrow> (json \<Rightarrow> 'a option)
    \<Rightarrow> 'w \<Rightarrow> (failure + 'a) \<times> 'w" where
  "do_call tr c method path body decode w =
     (case body of
        Some None \<Rightarrow> (Inl (Failed ''marshal request''), w)
      | _ \<Rightarrow>
         (let text = (case body of Some (Some t) \<Rightarrow> t | _ \<Rightarrow> []) in
          case tr \<lparr>hc_method = method, hc_url = ct_baseURL c @ path,
                    hc_headers = call_headers c (body \<noteq> None), hc_body = text\<rparr> w of
            (answer, w') \<Rightarrow> (read_answer decode answer, w')))"

definition map_text :: "(string \<times> json) list \<Rightarrow> string option option" where
  "map_text ms = Some (Some (object_text (tree_texts ms)))"

section \<open>Methods\<close>

text \<open>\<open>url.PathEscape\<close> on bytes.\<close>

definition path_escape :: "string \<Rightarrow> string" where
  "path_escape s = concat (map (\<lambda>c.
     if unreserved c \<or> c \<in> {CHR ''$'', CHR ''&'', CHR ''+'', CHR ''='', CHR '':'', CHR ''@''} then [c]
     else [CHR ''%'', upper_nibble (byte c div 16), upper_nibble (byte c mod 16)]) s)"

definition operation_path :: "string \<Rightarrow> string \<Rightarrow> string" where
  "operation_path i suffix = ''/v1/operations/'' @ path_escape i @ suffix"

definition claim_path :: "string \<Rightarrow> string \<Rightarrow> string" where
  "claim_path i suffix = ''/v1/recovery/claims/'' @ path_escape i @ suffix"

definition client_Prepare :: "'w transport \<Rightarrow> client \<Rightarrow> PrepareRequest \<Rightarrow> 'w \<Rightarrow> (failure + Operation) \<times> 'w" where
  "client_Prepare tr c p = do_call tr c ''POST'' ''/v1/operations'' (Some (prepare_text p)) decode_operation"

definition client_Confirm :: "'w transport \<Rightarrow> client \<Rightarrow> string \<Rightarrow> ConfirmRequest \<Rightarrow> 'w \<Rightarrow> (failure + Operation) \<times> 'w" where
  "client_Confirm tr c i r = do_call tr c ''POST'' (operation_path i ''/confirmations'') (Some (confirm_text r)) decode_operation"

definition client_GetOperation :: "'w transport \<Rightarrow> client \<Rightarrow> string \<Rightarrow> 'w \<Rightarrow> (failure + Operation) \<times> 'w" where
  "client_GetOperation tr c i = do_call tr c ''GET'' (operation_path i []) None decode_operation"

definition client_AuthorizeDispatch :: "'w transport \<Rightarrow> client \<Rightarrow> string \<Rightarrow> int \<Rightarrow> 'w \<Rightarrow> (failure + Operation) \<times> 'w" where
  "client_AuthorizeDispatch tr c i version = do_call tr c ''POST'' (operation_path i ''/dispatches'')
     (map_text [(''expected_version'', int_json version)]) decode_operation"

definition client_BeginRetry :: "'w transport \<Rightarrow> client \<Rightarrow> string \<Rightarrow> int \<Rightarrow> string \<Rightarrow> 'w \<Rightarrow> (failure + Operation) \<times> 'w" where
  "client_BeginRetry tr c i version reason = do_call tr c ''POST'' (operation_path i ''/attempts'')
     (map_text [(''expected_version'', int_json version), (''reason'', JStr reason)]) decode_operation"

definition client_RequestReconciliation ::
    "'w transport \<Rightarrow> client \<Rightarrow> string \<Rightarrow> int \<Rightarrow> string \<Rightarrow> string \<Rightarrow> 'w \<Rightarrow> (failure + Operation) \<times> 'w" where
  "client_RequestReconciliation tr c i version actor reason =
     do_call tr c ''POST'' (operation_path i ''/reconciliation-requests'')
       (map_text [(''actor'', JStr actor), (''expected_version'', int_json version), (''reason'', JStr reason)]) decode_operation"

text \<open>\<open>Duration.Milliseconds\<close> rounds towards zero.\<close>

definition milliseconds :: "duration \<Rightarrow> int" where
  "milliseconds d = (if d < 0 then - ((- d) div millisecond) else d div millisecond)"

definition client_ClaimRecovery ::
    "'w transport \<Rightarrow> client \<Rightarrow> string \<Rightarrow> int \<Rightarrow> duration \<Rightarrow> 'w \<Rightarrow> (failure + RecoveryClaim list) \<times> 'w" where
  "client_ClaimRecovery tr c worker limit lease = do_call tr c ''POST'' ''/v1/recovery/claims''
     (map_text [(''lease_duration_ms'', int_json (milliseconds lease)), (''limit'', int_json limit), (''worker_id'', JStr worker)])
     decode_claims"

definition client_RenewClaim ::
    "'w transport \<Rightarrow> client \<Rightarrow> string \<Rightarrow> string \<Rightarrow> duration \<Rightarrow> 'w \<Rightarrow> (failure + time) \<times> 'w" where
  "client_RenewClaim tr c i token lease = do_call tr c ''POST'' (claim_path i ''/renew'')
     (map_text [(''claim_token'', JStr token), (''lease_duration_ms'', int_json (milliseconds lease))]) decode_lease"

definition client_SubmitRecoveryResult ::
    "'w transport \<Rightarrow> client \<Rightarrow> string \<Rightarrow> RecoveryClaim \<Rightarrow> Observation \<Rightarrow> 'w \<Rightarrow> (failure + Operation) \<times> 'w" where
  "client_SubmitRecoveryResult tr c i cl ob = do_call tr c ''POST'' (claim_path i ''/results'')
     (Some (map_option (\<lambda>observation. object_text [(''attempt_id'', marshal_string (cl_AttemptID cl)),
        (''claim_token'', marshal_string (cl_ClaimToken cl)), (''expected_version'', marshal (int_json (cl_Version cl))),
        (''observation'', observation)]) (observation_text ob))) decode_operation"

definition client_ManualResolve :: "'w transport \<Rightarrow> client \<Rightarrow> string \<Rightarrow> int \<Rightarrow> string \<Rightarrow> string \<Rightarrow> string \<Rightarrow> string \<Rightarrow> 'w
    \<Rightarrow> (failure + Operation) \<times> 'w" where
  "client_ManualResolve tr c i version actor outcome reason evidence =
     do_call tr c ''POST'' (operation_path i ''/manual-resolutions'')
       (map_text [(''actor'', JStr actor), (''evidence_reference'', JStr evidence), (''expected_version'', int_json version),
          (''outcome'', JStr outcome), (''reason'', JStr reason)]) decode_operation"

text \<open>\<open>url.Values.Encode\<close>: sorted by name, a question mark even before nothing.\<close>

fun query_pairs :: "(string \<times> string) list \<Rightarrow> string" where
  "query_pairs [] = []"
| "query_pairs (kv # kvs) = query_escape (fst kv) @ ''='' @ query_escape (snd kv)
     @ (if kvs = [] then [] else ''&'' @ query_pairs kvs)"

definition query_text :: "(string \<times> string) list \<Rightarrow> string" where
  "query_text kvs = ''?'' @ query_pairs kvs"

definition given :: "string \<Rightarrow> string \<Rightarrow> (string \<times> string) list" where
  "given name x = (if x = [] then [] else [(name, x)])"

text \<open>\<open>Time.Format(time.RFC3339)\<close> writes whole seconds.\<close>

definition format_seconds :: "time \<Rightarrow> string" where
  "format_seconds t = format_time (t - t mod second)"

definition list_query :: "OperationFilter \<Rightarrow> (string \<times> string) list" where
  "list_query fl = (case fl_CreatedAfter fl of None \<Rightarrow> [] | Some t \<Rightarrow> [(''created_after'', format_seconds t)])
     @ given ''cursor'' (fl_Cursor fl) @ (if fl_Limit fl > 0 then [(''limit'', itoa (fl_Limit fl))] else [])
     @ given ''state'' (fl_State fl) @ given ''target_service'' (fl_TargetService fl) @ given ''workflow_id'' (fl_WorkflowID fl)"

definition client_ListOperations :: "'w transport \<Rightarrow> client \<Rightarrow> OperationFilter \<Rightarrow> 'w \<Rightarrow> (failure + Operation page) \<times> 'w" where
  "client_ListOperations tr c fl = do_call tr c ''GET'' (''/v1/operations'' @ query_text (list_query fl)) None
     (decode_page decode_operation)"

definition client_ListEvents :: "'w transport \<Rightarrow> client \<Rightarrow> string \<Rightarrow> int \<Rightarrow> string \<Rightarrow> 'w \<Rightarrow> (failure + client_event page) \<times> 'w" where
  "client_ListEvents tr c i limit cursor = do_call tr c ''GET''
     (operation_path i ''/events'' @ query_text (given ''cursor'' cursor @ (if limit > 0 then [(''limit'', itoa limit)] else []))) None
     (decode_page decode_event)"

end
