(* ===== verification/Compact_Round.thy ===== *)
theory Compact_Round
  imports Client
begin

text \<open>
  Copying a raw member that is printed already changes nothing, and a body put together from the
  texts of its members is the printed object: what the client sends is a printed tree.
\<close>

section \<open>Strings\<close>

definition quiet :: "char \<Rightarrow> bool" where
  "quiet c \<longleftrightarrow> c \<noteq> CHR ''<'' \<and> c \<noteq> CHR ''>'' \<and> c \<noteq> CHR ''&'' \<and> c \<noteq> CHR 0x22 \<and> c \<noteq> CHR 0x5C \<and> c \<noteq> CHR 0xE2"

lemma quiet_front: "quiet c \<Longrightarrow> compact_text True (c # s) = c # compact_text True s"
  by (simp add: quiet_def separators)

lemma quiet_all: "list_all quiet w \<Longrightarrow> compact_text True (w @ s) = w @ compact_text True s"
  by (induction w) (simp_all add: quiet_front del: compact_text.simps)

lemma quiet_byte: "byte c \<notin> {60, 62, 38, 34, 92, 226} \<Longrightarrow> quiet c"
  by (auto simp: quiet_def)

lemma nibble_quiet: "n < 16 \<Longrightarrow> quiet (nibble n)"
  by (rule quiet_byte) (auto simp: nibble_def)

lemma compact_escape_byte:
  assumes "byte c < 128"
  shows "compact_text True (escape_byte c @ s) = escape_byte c @ compact_text True s"
  using assms
proof (cases rule: escape_byte_shape)
  case plain
  then have "c \<noteq> CHR ''<'' \<and> c \<noteq> CHR ''>'' \<and> c \<noteq> CHR ''&''" by (auto simp: escape_byte_def)
  moreover have "c \<noteq> CHR 0xE2" using assms by auto
  ultimately show ?thesis using plain by (simp add: quiet_def quiet_front del: compact_text.simps)
next
  case (short e)
  then show ?thesis by (simp add: separators)
next
  case long
  have "list_all quiet (hex4 (byte c))" using assms by (simp add: escape_hex nibble_quiet)
  then show ?thesis using long quiet_all by (simp add: separators)
qed

lemma compact_escaped:
  "compact_text True (escape_string s @ t) = escape_string s @ compact_text True t"
proof (induction s rule: escape_string.induct)
  case (2 c s)
  have mark: "compact_text True (CHR 0x5C # CHR ''u'' # w @ u) = CHR 0x5C # CHR ''u'' # w @ compact_text True u"
    if "w \<in> {''fffd'', ''2028'', ''2029''}" for w u
  proof -
    have "list_all quiet w" using that by (auto simp: quiet_def)
    then show ?thesis by (simp add: separators quiet_all)
  qed
  have raw: "compact_text True ((c # take n s) @ u) = (c # take n s) @ compact_text True u"
    if "\<not> byte c < 128" "utf8_len (c # s) = Suc n" "take 3 (c # s) \<noteq> encode_rune 8232" "take 3 (c # s) \<noteq> encode_rune 8233" for n u
  proof -
    have high: "128 \<le> byte c" using that(1) by simp
    have tail: "list_all quiet (take n s)"
      using utf8_len_shape [of c s] that(2)
      by (elim disjE exE conjE) (auto simp: cont_def quiet_def eval_nat_numeral)
    have three: "c = CHR 0xE2 \<Longrightarrow> n = 2"
      using that(2) by (auto simp: utf8_len.simps(2) split: list.splits if_splits)
    have "take 3 ((c # take n s) @ u) \<noteq> encode_rune 8232" "take 3 ((c # take n s) @ u) \<noteq> encode_rune 8233"
      using three that(3,4) utf8_len_bound [OF that(2)] by (auto simp: separators)
    then have "compact_text True ((c # take n s) @ u) = c # compact_text True (take n s @ u)"
      using high plain_bytes [OF high] by auto
    then show ?thesis using quiet_all [OF tail] by simp
  qed
  consider "byte c < 128" | "\<not> byte c < 128" "utf8_len (c # s) = 0"
    | "\<not> byte c < 128" "utf8_len (c # s) \<noteq> 0" "take 3 (c # s) = encode_rune 8232"
    | "\<not> byte c < 128" "utf8_len (c # s) \<noteq> 0" "take 3 (c # s) \<noteq> encode_rune 8232" "take 3 (c # s) = encode_rune 8233"
    | n where "\<not> byte c < 128" "utf8_len (c # s) = Suc n" "take 3 (c # s) \<noteq> encode_rune 8232" "take 3 (c # s) \<noteq> encode_rune 8233"
    by (cases "utf8_len (c # s)") blast+
  then show ?case
  proof cases
    case 1
    then show ?thesis using "2.IH"(1) by (simp add: escape_string.simps(2) compact_escape_byte)
  next
    case c: 2
    then show ?thesis using "2.IH"(2) [OF c] mark [of "''fffd''"] by (simp add: escape_string.simps(2) del: compact_text.simps)
  next
    case c: 3
    then show ?thesis using "2.IH"(3) [OF c] mark [of "''2028''"] by (simp add: escape_string.simps(2) del: compact_text.simps)
  next
    case c: 4
    then show ?thesis using "2.IH"(4) [OF c] mark [of "''2029''"] by (simp add: escape_string.simps(2) del: compact_text.simps)
  next
    case c: 5
    then show ?thesis using "2.IH"(5) raw [OF c] by (simp add: escape_string.simps(2) del: compact_text.simps)
  qed
qed simp

lemma compact_string: "compact_text False (marshal_string s @ t) = marshal_string s @ compact_text False t"
proof -
  have quote: "compact_text False (CHR 0x22 # u) = CHR 0x22 # compact_text True u"
    "compact_text True (CHR 0x22 # u) = CHR 0x22 # compact_text False u" for u
    by (simp_all add: separators is_ws_def)
  show ?thesis by (simp add: marshal_string_def quote compact_escaped del: compact_text.simps)
qed

section \<open>Values\<close>

definition mark :: "char \<Rightarrow> bool" where
  "mark c \<longleftrightarrow> quiet c \<and> \<not> is_ws c"

lemma mark_front: "mark c \<Longrightarrow> compact_text False (c # s) = c # compact_text False s"
  by (simp add: mark_def quiet_def separators)

lemma mark_all: "list_all mark w \<Longrightarrow> compact_text False (w @ s) = w @ compact_text False s"
  by (induction w) (simp_all add: mark_front del: compact_text.simps)

lemma marks: "mark CHR ''{''" "mark CHR ''}''" "mark CHR ''[''" "mark CHR '']''" "mark CHR '',''" "mark CHR '':''"
  "list_all mark ''null''" "list_all mark ''true''" "list_all mark ''false''" "mark CHR ''-''" "mark CHR ''+''"
  "mark CHR ''.''" "mark CHR ''e''" "mark CHR ''E''" "mark CHR ''0''"
  by (simp_all add: mark_def quiet_def is_ws_def)

lemma digit_mark: "is_digit c \<Longrightarrow> mark c"
  by (auto simp: mark_def quiet_def is_ws_def is_digit_def)

lemma digits_mark: "scan_digits1 s = Some (ds, r) \<Longrightarrow> list_all mark ds"
  by (auto simp: scan_digits1_def list_all_iff digit_mark dest: set_takeWhileD split: if_splits)

lemma literal_mark:
  assumes "literal l"
  shows "list_all mark l"
proof -
  have int: "list_all mark ds" if "scan_int s = Some (ds, r)" for s ds r
    using that by (cases s) (auto simp: marks dest: digits_mark split: if_splits)
  have frac: "list_all mark ds" if "scan_frac s = Some (ds, r)" for s ds r
    using that by (cases s) (auto simp: marks dest: digits_mark split: if_splits)
  have exp: "list_all mark ds" if "scan_exp s = Some (ds, r)" for s ds r
    using that by (cases s) (auto simp: marks dest: digits_mark split: if_splits list.splits)
  from assms obtain sign i f e s0 s1 s2 where "l = sign @ i @ f @ e" "list_all mark sign"
    and "scan_int s0 = Some (i, s1)" "scan_frac s1 = Some (f, s2)" "scan_exp s2 = Some (e, [])"
    unfolding literal_def scan_number_def
    by (auto simp: marks simp del: scan_int.simps scan_frac.simps scan_exp.simps split: option.splits list.splits if_splits)
      (metis append_Nil list.pred_inject(1) marks(10) append_Cons list.pred_inject(2))+
  then show ?thesis using int frac exp by simp
qed

lemma compact_marshal:
  "printable v \<Longrightarrow> compact_text False (marshal v @ t) = marshal v @ compact_text False t"
  "printable_list vs \<Longrightarrow> compact_text False (marshal_list vs @ t) = marshal_list vs @ compact_text False t"
  "printable_members ms \<Longrightarrow> compact_text False (marshal_members ms @ t) = marshal_members ms @ compact_text False t"
proof (induction v and vs and ms arbitrary: t and t and t rule: marshal_marshal_list_marshal_members.induct)
  case (1 t)
  show ?case using mark_all [OF marks(7)] by (simp del: compact_text.simps)
next
  case (2 b)
  show ?case using mark_all [OF marks(8)] mark_all [OF marks(9)] by (cases b) (simp_all del: compact_text.simps)
qed (simp_all add: literal_mark mark_all compact_string mark_front marks del: compact_text.simps)

theorem raw_text_marshal:
  assumes "printable v" and "depth v \<le> max_depth"
  shows "raw_text (marshal v) = Some (marshal v)"
proof -
  have "marshal v \<noteq> []" using marshal_front [OF assms(1)] by auto
  then show ?thesis
    using decode_all_marshal [OF assms] compact_marshal(1) [OF assms(1), of "[]"] by (simp add: raw_text_def)
qed

section \<open>Bodies\<close>

lemma object_text_marshal: "object_text (tree_texts ms) = marshal (JObj ms)"
proof -
  have "join_members (tree_texts ms) = marshal_members ms"
    by (induction ms) (auto simp: tree_texts_def member_text_def)
  then show ?thesis by (simp add: object_text_def)
qed

lemma tree_texts_append: "tree_texts (xs @ ys) = tree_texts xs @ tree_texts ys"
  by (simp add: tree_texts_def)

lemma tree_texts_simps: "tree_texts [] = []" "tree_texts ((k, v) # ms) = (k, marshal v) # tree_texts ms"
  by (simp_all add: tree_texts_def)

end
