(* ===== verification/Members.thy ===== *)
theory Members
  imports Api
begin

text \<open>
  Reading the members of a body the program printed itself: their names are lower case and each
  occurs once, so a field is what the list of members maps its name to.
\<close>

lemma known_texts:
  assumes "fst ` set ms \<subseteq> set names"
  shows "known names (with_texts ms)"
proof -
  have "list_ex (equal_fold k) names" if "(k, v) \<in> set ms" for k v
    using assms that by (force simp: list_ex_iff equal_fold_def)
  then show ?thesis by (auto simp: known_def with_texts_def list_all_iff)
qed

lemma field_texts: "string_field name (with_texts ms) = field as_string name [] ms"
  "int_field name (with_texts ms) = field as_int64 name 0 ms"
  by (simp_all add: string_field_def int_field_def)

lemma raw_absent:
  "list_all (\<lambda>(k, v). lower k) ms \<Longrightarrow> lower name \<Longrightarrow> name \<notin> fst ` set ms \<Longrightarrow> raw_over name x (with_texts ms) = x"
  by (induction ms arbitrary: x) (auto simp: raw_over_def with_texts_def equal_fold_lower)

lemma raw_plain:
  "plain_names ms \<Longrightarrow> lower name \<Longrightarrow>
     raw_over name x (with_texts ms) = (case map_of ms name of None \<Rightarrow> x | Some v \<Rightarrow> marshal v)"
proof (induction ms)
  case (Cons kv ms)
  obtain k v where kv: "kv = (k, v)" by (cases kv)
  have low: "list_all (\<lambda>(k, v). lower k) ms" using Cons.prems kv by (simp add: plain_names_def)
  show ?case
  proof (cases "k = name")
    case True
    then have "raw_over name (marshal v) (with_texts ms) = marshal v"
      using raw_absent [OF low Cons.prems(2)] Cons.prems(1) kv by auto
    then show ?thesis using True kv by (simp add: raw_over_def with_texts_def equal_fold_def)
  next
    case False
    then show ?thesis using Cons kv by (simp add: equal_fold_lower raw_over_def with_texts_def)
  qed
qed (simp add: raw_over_def with_texts_def)

lemma raw_field_over: "raw_field name ms = raw_over name [] ms"
  by (simp add: raw_field_def raw_over_def)

lemma ptr_plain:
  assumes "plain_names ms" and "lower name"
  shows "ptr_field name acc (with_texts ms) = (case map_of ms name of None \<Rightarrow> Some acc
      | Some JNull \<Rightarrow> Some None | Some (JStr x) \<Rightarrow> Some (Some x) | Some _ \<Rightarrow> None)"
  using assms
proof (induction ms)
  case (Cons kv ms)
  obtain k v where kv: "kv = (k, v)" by (cases kv)
  have skip: "name \<notin> fst ` set ms \<Longrightarrow> list_all (\<lambda>(k, v). lower k) ms \<Longrightarrow> ptr_field name y (with_texts ms) = Some y" for y
    using Cons.prems(2) by (induction ms) (auto simp: equal_fold_lower with_texts_def)
  show ?case
    using Cons skip kv by (cases v) (auto simp: equal_fold_lower plain_names_def with_texts_def split: option.splits)
qed (simp add: with_texts_def)

end
