(* ===== verification/Api_Contract.thy ===== *)
theory Api_Contract
  imports Members Scenario
begin

text \<open>
  What the handlers promise, as one contract: a handler makes at most one call of the store, one
  it is permitted to make, and a refusal has no effect. Every handler meets it, so whatever holds
  of the store under its calls holds of the server under its requests.
\<close>

section \<open>Calls by token\<close>

fun worker_call :: "call \<Rightarrow> bool" where
  "worker_call (CallPrepare _) = True"
| "worker_call (CallAuthorize _ _) = True"
| "worker_call (CallConfirm _ _) = True"
| "worker_call (CallRetry _ _ _) = True"
| "worker_call _ = False"

fun admin_call :: "call \<Rightarrow> bool" where
  "admin_call c = (\<not> worker_call c)"

text \<open>
  The bounds the handlers put on what they pass on: at most a hundred claims, leases between five
  seconds and five minutes.
\<close>

fun within_bounds :: "call \<Rightarrow> bool" where
  "within_bounds (CallClaim worker limit d grace wname) =
     (1 \<le> limit \<and> limit \<le> 100 \<and> 5 * second \<le> d \<and> d \<le> 300 * second \<and> worker \<noteq> [] \<and> wname = [])"
| "within_bounds (CallRenew i token d) = (5 * second \<le> d \<and> d \<le> 300 * second)"
| "within_bounds _ = True"

definition allowed :: "api_context \<Rightarrow> (call \<Rightarrow> bool) \<Rightarrow> env \<Rightarrow> call \<Rightarrow> bool" where
  "allowed cx calls e c \<longleftrightarrow> now e = now (cx_env cx) \<and> calls c \<and> within_bounds c"

text \<open>The statuses under which a call may have taken effect: success, and a commit whose fate is unknown.\<close>

definition effective :: "int \<Rightarrow> bool" where
  "effective status \<longleftrightarrow> status \<in> {200, 201, 202, 503}"

section \<open>The contract of a handler\<close>

locale handler_contract =
  fixes serve :: "db \<Rightarrow> request \<Rightarrow> json option response \<times> db"
    and permitted :: "env \<Rightarrow> call \<Rightarrow> bool"
  assumes one_call: "snd (serve s rq) = s \<or> (\<exists>e c. permitted e c \<and> snd (serve s rq) = store_exec e c s)"
    and refusal: "\<not> effective (rs_status (fst (serve s rq))) \<Longrightarrow> snd (serve s rq) = s"
begin

lemma keeps_reachable: "reachable s \<Longrightarrow> reachable (snd (serve s rq))"
  using one_call [of s rq] reachable.step by auto

lemma keeps_invariant: "store_inv s \<Longrightarrow> store_inv (snd (serve s rq))"
  using one_call [of s rq] store_exec_inv by auto

lemma unchanged_or_called:
  "snd (serve s rq) = s
   \<or> (\<exists>e c. permitted e c \<and> snd (serve s rq) = store_exec e c s \<and> effective (rs_status (fst (serve s rq))))"
  using one_call [of s rq] refusal [of s rq] by metis

end

section \<open>How a refused call leaves the store\<close>

lemma tx_refused: "run_tx e b c s body = (Inl err, s') \<Longrightarrow> error_status err \<noteq> 503 \<Longrightarrow> s' = s"
  by (auto simp: run_tx_def unavailable_def split: if_splits sum.splits commit_fate.splits)

lemmas calls_refused = tx_refused [where ?'a = Operation] tx_refused

lemma store_refused:
  assumes "error_status err \<noteq> 503"
  shows "Prepare e s req = (Inl err, s') \<Longrightarrow> s' = s"
    "AuthorizeDispatch e s i v = (Inl err, s') \<Longrightarrow> s' = s"
    "Confirm e s i creq = (Inl err, s') \<Longrightarrow> s' = s"
    "BeginRetry e s i v reason = (Inl err, s') \<Longrightarrow> s' = s"
    "RequestReconciliation e s i v actor reason = (Inl err, s') \<Longrightarrow> s' = s"
    "ClaimRecovery e s worker limit d grace = (Inl err, s') \<Longrightarrow> s' = s"
    "RenewClaim e s i token d = (Inl err, s') \<Longrightarrow> s' = s"
    "SubmitRecoveryResult e s i res = (Inl err, s') \<Longrightarrow> s' = s"
    "ManualResolve e s i m = (Inl err, s') \<Longrightarrow> s' = s"
  using tx_refused [OF _ assms]
  by (auto simp: Prepare_def AuthorizeDispatch_def Confirm_def BeginRetry_def RequestReconciliation_def
      ClaimRecovery_def ClaimRecoveryForWorkflow_def RenewClaim_def SubmitRecoveryResult_def ManualResolve_def
      split: sum.splits)

section \<open>From the end of a handler to its contract\<close>

lemma effective_simps [simp]: "effective 200" "effective 201" "effective 202" "effective 503"
  "\<not> effective 400" "\<not> effective 401" "\<not> effective 404" "\<not> effective 405" "\<not> effective 409" "\<not> effective 422" "\<not> effective 500"
  by (simp_all add: effective_def)

lemma writeJSON_status [simp]: "rs_status (writeJSON n v) = n"
  by (simp add: writeJSON_def)

lemma writeError_status [simp]: "rs_status (writeError cx rq err) = error_status err"
  by (simp add: writeError_def)

lemma not_effective_error: "\<not> effective (error_status err) \<Longrightarrow> error_status err \<noteq> 503"
  by (auto simp: effective_def)

lemma respond_refused:
  assumes "\<not> effective (rs_status (fst (respond_db cx rq status body r)))" and "effective status"
  obtains err where "fst r = Inl err" "error_status err \<noteq> 503"
  using assms not_effective_error by (cases r; cases "fst r") (auto simp: respond_db_def respond_def)

lemma respond_db_snd [simp]: "snd (respond_db cx rq status body r) = snd r"
  by (cases r) (simp add: respond_db_def)

lemma handle_simps [simp]: "handle s (Inl answer) = (answer, s)" "handle s (Inr out) = out"
  by (simp_all add: handle_def)

text \<open>A handler's checks end with an answer of their own or lead on.\<close>

definition guarded :: "db \<Rightarrow> (env \<Rightarrow> call \<Rightarrow> bool) \<Rightarrow> json option response + (json option response \<times> db) \<Rightarrow> bool" where
  "guarded s permitted r \<longleftrightarrow>
     (case r of Inl answer \<Rightarrow> True
      | Inr (answer, s') \<Rightarrow>
          (s' = s \<or> (\<exists>e c. permitted e c \<and> s' = store_exec e c s)) \<and> (\<not> effective (rs_status answer) \<longrightarrow> s' = s))"

lemma guarded_handle:
  assumes "guarded s permitted r"
  shows "snd (handle s r) = s \<or> (\<exists>e c. permitted e c \<and> snd (handle s r) = store_exec e c s)"
    "\<not> effective (rs_status (fst (handle s r))) \<Longrightarrow> snd (handle s r) = s"
  using assms by (auto simp: guarded_def handle_def split: sum.splits)

lemma guarded_bind:
  assumes "\<And>x. m = Inr x \<Longrightarrow> guarded s permitted (f x)"
  shows "guarded s permitted (bindE m f)"
  using assms by (cases m) (simp_all add: guarded_def)

lemma guarded_out:
  assumes "snd out = s \<or> (\<exists>e c. permitted e c \<and> snd out = store_exec e c s)"
    and "\<not> effective (rs_status (fst out)) \<Longrightarrow> snd out = s"
  shows "guarded s permitted (Inr out)"
  using assms by (cases out) (simp add: guarded_def)

lemma guarded_respond:
  assumes "effective status" and "permitted e c" and "snd r = store_exec e c s"
    and "\<And>err s'. r = (Inl err, s') \<Longrightarrow> error_status err \<noteq> 503 \<Longrightarrow> s' = s"
  shows "guarded s permitted (Inr (respond_db cx rq status body r))"
proof -
  obtain a b where ab: "respond_db cx rq status body r = (a, b)" by (cases "respond_db cx rq status body r")
  then have "b = snd r" by (metis respond_db_snd snd_conv)
  moreover have "snd r = s" if "\<not> effective (rs_status a)"
    using respond_refused [of cx rq status body r] that assms(1,4) ab by (metis fst_conv prod.collapse)
  ultimately show ?thesis using assms(2,3) ab by (auto simp: guarded_def)
qed

lemma now_failing [simp]: "now (failing label e) = now e"
  by (simp add: failing_def)

text \<open>The call is made with the environment as it is, or with a failing statement in it.\<close>

lemma with_cast_env: "\<exists>e' u. with_cast cx label i e f = f e' u \<and> now e' = now e"
  by (cases "cx_cast cx i") (auto simp: with_cast_def intro: exI [of _ "failing label e"])

lemma guarded_cast:
  assumes "effective status" and "\<And>e' u. now e' = now e \<Longrightarrow> permitted e' (c u)"
    and "\<And>e u. snd (f e u) = store_exec e (c u) s"
    and "\<And>e u err s'. f e u = (Inl err, s') \<Longrightarrow> error_status err \<noteq> 503 \<Longrightarrow> s' = s"
  shows "guarded s permitted (Inr (respond_db cx rq status body (with_cast cx label i e f)))"
proof -
  obtain e' u where call: "with_cast cx label i e f = f e' u" and "now e' = now e"
    using with_cast_env [of cx label i e f] by blast
  then show ?thesis unfolding call
    by (intro guarded_respond [where c = "c u" and e = e']) (use assms in blast)+
qed

section \<open>The handlers meet the contract\<close>

lemma handler_contractI:
  assumes "\<And>s rq. serve s rq = handle s (run s rq)" and "\<And>s rq. guarded s permitted (run s rq)"
  shows "handler_contract serve permitted"
  by unfold_locales (use guarded_handle [OF assms(2)] assms(1) in auto)

lemma reject_ok: "reject cx rq bad code msg = Inr u \<longleftrightarrow> \<not> bad"
  by (simp add: reject_def)

lemmas handler_hints = allowed_def reject_ok millisecond_def second_def

interpretation begin_retry: handler_contract "beginRetry cx" "allowed cx worker_call" for cx
  by (rule handler_contractI [OF beginRetry_def], intro guarded_bind,
      rule guarded_cast [where c = "\<lambda>u. CallRetry u _ _"]) (auto simp: handler_hints dest: store_refused)

interpretation request_reconciliation: handler_contract "requestReconciliation cx" "allowed cx admin_call" for cx
  by (rule handler_contractI [OF requestReconciliation_def], unfold Let_def, intro guarded_bind,
      rule guarded_cast [where c = "\<lambda>u. CallRequest u _ _ _"]) (auto simp: handler_hints dest: store_refused)

interpretation claim_recovery: handler_contract "claimRecovery sv cx" "allowed cx admin_call" for sv cx
  by (rule handler_contractI [OF claimRecovery_def], unfold Let_def, intro guarded_bind,
      rule guarded_respond [where c = "CallClaim _ _ _ _ []" and e = "cx_env cx"])
    (auto simp: handler_hints ClaimRecovery_def dest: store_refused(6) [unfolded ClaimRecovery_def] split: if_splits)

interpretation renew_claim: handler_contract "renewClaim cx" "allowed cx admin_call" for cx
  by (rule handler_contractI [OF renewClaim_def], unfold Let_def, intro guarded_bind,
      rule guarded_cast [where c = "\<lambda>u. CallRenew u _ _"])
    (auto simp: handler_hints dest: store_refused split: if_splits)

interpretation manual_resolution: handler_contract "manualResolution cx" "allowed cx admin_call" for cx
  by (rule handler_contractI [OF manualResolution_def], intro guarded_bind,
      rule guarded_cast [where c = "\<lambda>u. CallManual u _"]) (auto simp: handler_hints dest: store_refused)

interpretation confirm_handler: handler_contract "confirm cx" "allowed cx worker_call" for cx
  by (rule handler_contractI [OF confirm_def], unfold Let_def, intro guarded_bind,
      rule guarded_cast [where c = "\<lambda>u. CallConfirm u _"]) (auto simp: handler_hints dest: store_refused)

interpretation dispatch_handler: handler_contract "authorizeDispatch cx" "allowed cx worker_call" for cx
  by (rule handler_contractI [OF authorizeDispatch_def], intro guarded_bind,
      rule guarded_cast [where c = "\<lambda>u. CallAuthorize u _"]) (auto simp: handler_hints dest: store_refused)

text \<open>A recovery result names two identifiers; either cast may fail.\<close>

lemma submit_call:
  "\<exists>e' i q. now e' = now (cx_env cx) \<and> with_cast cx l1 x (cx_env cx)
     (\<lambda>e i. with_cast cx l2 y e (\<lambda>e a. SubmitRecoveryResult e s i (p\<lparr>rr_AttemptID := a\<rparr>))) = SubmitRecoveryResult e' s i q"
  by (metis with_cast_env [of cx l1 x "cx_env cx"
        "\<lambda>e i. with_cast cx l2 y e (\<lambda>e a. SubmitRecoveryResult e s i (p\<lparr>rr_AttemptID := a\<rparr>))"]
      with_cast_env [of cx l2 y _ "\<lambda>e a. SubmitRecoveryResult e s _ (p\<lparr>rr_AttemptID := a\<rparr>)"])

interpretation recovery_result: handler_contract "recoveryResult cx" "allowed cx admin_call" for cx
proof (rule handler_contractI [OF recoveryResult_def], intro guarded_bind)
  fix s and rq :: request and p :: RecoveryResult
  obtain e' i q where e': "now e' = now (cx_env cx)" and
    out: "with_cast cx ''lock operation'' (rq_param rq) (cx_env cx) (\<lambda>e i.
            with_cast cx ''read reconciliation attempt'' (rr_AttemptID p) e (\<lambda>e a.
              SubmitRecoveryResult e s i (p\<lparr>rr_AttemptID := a\<rparr>))) = SubmitRecoveryResult e' s i q"
    using submit_call by blast
  show "guarded s (allowed cx admin_call) (Inr (respond_db cx rq 200 operation_body
      (with_cast cx ''lock operation'' (rq_param rq) (cx_env cx) (\<lambda>e i.
            with_cast cx ''read reconciliation attempt'' (rr_AttemptID p) e (\<lambda>e a.
              SubmitRecoveryResult e s i (p\<lparr>rr_AttemptID := a\<rparr>))))))"
    unfolding out by (rule guarded_respond [where c = "CallSubmit i q" and e = e'])
      (use e' in \<open>auto simp: handler_hints dest: store_refused\<close>)
qed

text \<open>A spelling of the run that PostgreSQL would print otherwise ends in a conflict, without effect.\<close>

lemma prepare_call_cases:
  "(\<exists>e. now e = now (cx_env cx) \<and> prepare_call cx s req = Prepare e s req) \<or> (\<exists>err. prepare_call cx s req = (Inl err, s))"
proof (cases "pr_ExperimentRunID req")
  case (Some run)
  show ?thesis
  proof (cases "cx_cast cx run")
    case None
    then have "prepare_call cx s req = Prepare (failing ''insert workflow'' (cx_env cx)) s req"
      using Some by (simp add: prepare_call_def Let_def)
    then show ?thesis using now_failing by blast
  next
    case (Some u)
    note u = Some
    show ?thesis
    proof (cases "u = run")
      case True
      then show ?thesis using u \<open>pr_ExperimentRunID req = Some run\<close> by (auto simp: prepare_call_def Let_def)
    next
      case False
      have "\<exists>err. run_tx e b c s (bindE m (\<lambda>_. Inl x)) = (Inl err, s)" for e b c m x
        by (cases m) (simp_all add: run_tx_def)
      then have "\<exists>err. prepare_call cx s req = (Inl err, s)"
        using False u \<open>pr_ExperimentRunID req = Some run\<close> by (simp add: prepare_call_def Let_def)
      then show ?thesis by blast
    qed
  qed
qed (auto simp: prepare_call_def Let_def)

lemma prepare_call_contract:
  "snd (prepare_call cx s req) = s
   \<or> (\<exists>e. now e = now (cx_env cx) \<and> snd (prepare_call cx s req) = store_exec e (CallPrepare req) s)"
  "prepare_call cx s req = (Inl err, s') \<Longrightarrow> error_status err \<noteq> 503 \<Longrightarrow> s' = s"
  using prepare_call_cases [of cx s req] by (auto dest: store_refused(1) [OF _ sym] store_refused(1))

interpretation prepare_handler: handler_contract "prepare cx" "allowed cx worker_call" for cx
proof (rule handler_contractI [OF prepare_def], intro guarded_bind)
  fix s rq fingerprint and p :: PrepareRequest
  let ?req = "p\<lparr>pr_RequestFingerprint := fingerprint\<rparr>"
  let ?out = "respond_prepared cx rq (prepare_call cx s ?req)"
  have "snd ?out = snd (prepare_call cx s ?req)" by (simp add: respond_prepared_def split: prod.split sum.split)
  moreover have "snd ?out = s" if "\<not> effective (rs_status (fst ?out))"
    using that prepare_call_contract(2) [of cx s ?req] not_effective_error
    by (fastforce simp: respond_prepared_def split: prod.splits sum.splits if_splits)
  moreover have "allowed cx worker_call e (CallPrepare ?req)" if "now e = now (cx_env cx)" for e
    using that by (simp add: allowed_def)
  ultimately show "guarded s (allowed cx worker_call) (Inr ?out)"
    using prepare_call_contract(1) [of cx s ?req] by (intro guarded_out) (simp only:, blast, blast)
qed


lemmas handlers_call = begin_retry.unchanged_or_called request_reconciliation.unchanged_or_called
  claim_recovery.unchanged_or_called renew_claim.unchanged_or_called manual_resolution.unchanged_or_called
  confirm_handler.unchanged_or_called dispatch_handler.unchanged_or_called
  recovery_result.unchanged_or_called prepare_handler.unchanged_or_called

section \<open>Routing\<close>

lemma routed_entry: "routed m segs = Some (r, i) \<Longrightarrow> r \<in> set routes"
  by (auto simp: routed_def bind_eq_Some_conv find_Some_iff)

text \<open>The calls a route leads to are the ones of its token.\<close>

definition token_calls :: "access \<Rightarrow> call \<Rightarrow> bool" where
  "token_calls a = (case a of Open \<Rightarrow> (\<lambda>_. False) | AuthToken \<Rightarrow> worker_call | AdminToken \<Rightarrow> admin_call)"

fun route_access :: "api_route \<Rightarrow> access" where
  "route_access LiveRoute = Open" | "route_access ReadyRoute = Open" | "route_access MetricsRoute = AdminToken"
| "route_access ReconciliationRoute = AdminToken" | "route_access ManualRoute = AdminToken"
| "route_access ClaimRoute = AdminToken" | "route_access RenewRoute = AdminToken"
| "route_access ResultRoute = AdminToken" | "route_access route = AuthToken"

lemma routes_access: "r \<in> set routes \<Longrightarrow> re_access r = route_access (re_route r)"
proof -
  have "list_all (\<lambda>r. re_access r = route_access (re_route r)) routes" by code_simp
  then show "r \<in> set routes \<Longrightarrow> re_access r = route_access (re_route r)" by (simp add: list_all_iff)
qed

definition calls_or_keeps :: "(env \<Rightarrow> call \<Rightarrow> bool) \<Rightarrow> db \<Rightarrow> json option response \<times> db \<Rightarrow> bool" where
  "calls_or_keeps permitted s out \<longleftrightarrow> snd out = s
     \<or> (\<exists>e c. permitted e c \<and> snd out = store_exec e c s \<and> effective (rs_status (fst out)))"

lemma token_calls_simps [simp]: "token_calls AuthToken = worker_call" "token_calls AdminToken = admin_call"
  by (simp_all add: token_calls_def fun_eq_iff)

lemma route_calls: "calls_or_keeps (allowed cx (token_calls (route_access route))) s (serve_route sv cx s route rq)"
  by (cases route)
    (simp_all only: serve_route.simps route_access.simps token_calls_simps,
     simp_all add: calls_or_keeps_def del: admin_call.simps, (rule handlers_call)+)

lemma bearer_ok_param [simp]: "NO_MATCH [] i \<Longrightarrow> bearer_ok token (to_request hm i) = bearer_ok token (to_request hm [])"
  by (simp add: bearer_ok_def header_def to_request_def)

text \<open>A message makes at most one call, one its token is good for.\<close>

definition token_good :: "api_server \<Rightarrow> http_message \<Rightarrow> call \<Rightarrow> bool" where
  "token_good sv hm c \<longleftrightarrow> bearer_ok (if worker_call c then sa_authToken sv else sa_adminToken sv) (to_request hm [])"

lemma request_call: "calls_or_keeps (allowed cx (token_good sv hm)) s (ApiHandler sv cx s hm)"
proof (cases "path_segments (hm_path hm)")
  case (Some segs)
  note segs = Some
  show ?thesis
  proof (cases "routed (hm_method hm) segs")
    case None
    then show ?thesis using segs by (simp add: ApiHandler_def calls_or_keeps_def)
  next
    case (Some ri)
    obtain r i where ri: "routed (hm_method hm) segs = Some (r, i)" using Some by (cases ri) simp
    note access = routes_access [OF routed_entry [OF ri]]
    show ?thesis
    proof (cases "authenticate (access_token sv (re_access r)) (to_request hm i)")
      case False
      then show ?thesis using segs ri by (simp add: ApiHandler_def Let_def calls_or_keeps_def)
    next
      case True
      then have out: "ApiHandler sv cx s hm = serve_route sv cx s (re_route r) (to_request hm i)"
        using segs ri by (simp add: ApiHandler_def Let_def)
      have "token_good sv hm c" if "token_calls (route_access (re_route r)) c" for c
        using True that
        by (cases "re_access r") (simp_all add: access token_calls_def access_token_def authenticate_def token_good_def)
      then show ?thesis unfolding out using route_calls [of cx "re_route r" s sv "to_request hm i"]
        unfolding calls_or_keeps_def allowed_def by blast
    qed
  qed
qed (simp add: ApiHandler_def calls_or_keeps_def)

section \<open>A sample server\<close>

definition sample_context :: "env \<Rightarrow> api_context" where
  "sample_context e = \<lparr>cx_env = e, cx_valid = (\<lambda>s. s \<noteq> []), cx_cast = (\<lambda>s. if s = [] then None else Some s),
     cx_now = now e, cx_new_id = ''request'', cx_json_error = (\<lambda>_. ''malformed''), cx_ping = True,
     cx_schema = Inr (''operations'', ''operation_events'', ''goose_db_version''), cx_schema_version = Inr 3,
     cx_stamp = format_time, cx_metrics = writeJSON 200 None\<rparr>"

definition sample_message :: "string \<Rightarrow> string \<Rightarrow> string \<Rightarrow> (string \<times> json) list \<Rightarrow> http_message" where
  "sample_message m path token body = \<lparr>hm_method = m, hm_path = path, hm_query = [],
     hm_headers = (if token = [] then [] else [(''Authorization'', ''Bearer '' @ token)]),
     hm_body = marshal (JObj body)\<rparr>"

text \<open>A claim an hour later, through the server.\<close>

definition claim_message :: http_message where
  "claim_message = sample_message ''POST'' ''/v1/recovery/claims'' ''a'' [(''worker_id'', JStr ''k'')]"

lemma sample_routes: "path_segments ''/v1/recovery/claims'' = Some [''v1'', ''recovery'', ''claims'']"
  "routed ''POST'' [''v1'', ''recovery'', ''claims''] = Some (entry ''POST'' [Lit ''v1'', Lit ''recovery'', Lit ''claims''] AdminToken ClaimRoute, [])"
  "path_segments ''/v1/operations'' = Some [''v1'', ''operations'']"
  "routed ''POST'' [''v1'', ''operations''] = Some (entry ''POST'' [Lit ''v1'', Lit ''operations''] AuthToken PrepareRoute, [])"
  by code_simp+

lemma sample_claim_body:
  "decodeJSON cx claim_names read_claim (to_request claim_message [])
     = Inr \<lparr>cp_WorkerID = ''k'', cp_Limit = 0, cp_LeaseDurationMS = 0\<rparr>"
proof (rule decodeJSON_marshal)
  show "rq_body (to_request claim_message []) = marshal (JObj [(''worker_id'', JStr ''k'')])"
    by (simp add: to_request_def claim_message_def sample_message_def)
  have "length (marshal (JObj [(''worker_id'', JStr ''k'')])) = 17" by code_simp
  then show "length (marshal (JObj [(''worker_id'', JStr ''k'')])) \<le> max_body" by (simp add: max_body_def)
  show "printable_members [(''worker_id'', JStr ''k'')]" by code_simp
  show "depth_members [(''worker_id'', JStr ''k'')] < max_depth" by (simp add: max_depth_def)
  show "known claim_names (with_texts [(''worker_id'', JStr ''k'')])" by code_simp
  show "read_claim (with_texts [(''worker_id'', JStr ''k'')])
      = Some \<lparr>cp_WorkerID = ''k'', cp_Limit = 0, cp_LeaseDurationMS = 0\<rparr>" by code_simp
qed

lemma sample_claimed:
  "op_at (snd (ApiHandler (New ''w'' ''a'') (sample_context (env_at ''h'' (3600 * second))) (sample_db 2) claim_message)) ''aoperation''
     = Some (claim_row (env_at ''h'' (3600 * second)) ''k'' (claimTokenHash (b64_encode ''0'')) (30 * second)
         (authorize_row (env_at ''b'' 1) (new_op_row (env_at ''a'' 0) ''aoperation'' ''aworkflow'' sample_request (JObj []) (JObj []))))"
proof -
  have "path_segments (hm_path claim_message) = Some [''v1'', ''recovery'', ''claims'']" "hm_method claim_message = ''POST''"
    by (simp_all add: claim_message_def sample_message_def sample_routes)
  moreover have "bearer_ok ''a'' (to_request claim_message [])"
    by (simp add: bearer_ok_def header_def to_request_def claim_message_def sample_message_def trim_prefix_def)
  ultimately have out: "ApiHandler (New ''w'' ''a'') (sample_context e) s claim_message
      = claimRecovery (New ''w'' ''a'') (sample_context e) s (to_request claim_message [])" for e s
    by (simp add: ApiHandler_def sample_routes entry_def access_token_def authenticate_def New_def)
  have call: "snd (claimRecovery (New ''w'' ''a'') (sample_context e) s (to_request claim_message []))
      = snd (ClaimRecovery e s ''k'' 20 (30 * second) (5 * second))" for e s
    by (simp add: claimRecovery_def sample_claim_body reject_def Let_def)
      (simp add: sample_context_def New_def DefaultPreparedGrace_def second_def millisecond_def)
  show ?thesis unfolding out call
    by (simp add: ClaimRecovery_def sample_simps exec_simps second_def millisecond_def)
qed

text \<open>C31. Whatever message arrives, on any path, with any method, headers and body: the server makes
  at most one call of the store, the message carries the token that call is reserved for (the worker's
  for preparing, dispatching, confirming and retrying, the administrator's for everything recovery and
  operators do), and the database is as it was unless the answer is a success or reports the database
  unavailable.\<close>

theorem requests_are_calls:
  "snd (ApiHandler sv cx s hm) = s
   \<or> (\<exists>e c. snd (ApiHandler sv cx s hm) = store_exec e c s
          \<and> bearer_ok (if worker_call c then sa_authToken sv else sa_adminToken sv) (to_request hm [])
          \<and> effective (rs_status (fst (ApiHandler sv cx s hm))))"
  using request_call [of cx sv hm s] unfolding calls_or_keeps_def allowed_def token_good_def by blast

text \<open>The route a message is for, and whether it carries the token that route is reserved for.\<close>

definition target_route :: "http_message \<Rightarrow> (api_route \<times> string) option" where
  "target_route hm = Option.bind (path_segments (hm_path hm)) (\<lambda>segs.
     map_option (\<lambda>(r, i). (re_route r, i)) (routed (hm_method hm) segs))"

definition carries_token :: "api_server \<Rightarrow> http_message \<Rightarrow> api_route \<Rightarrow> bool" where
  "carries_token sv hm route \<longleftrightarrow> (case route_access route of
       Open \<Rightarrow> False
     | AuthToken \<Rightarrow> bearer_ok (sa_authToken sv) (to_request hm [])
     | AdminToken \<Rightarrow> bearer_ok (sa_adminToken sv) (to_request hm []))"

text \<open>C32. A message without the token its own route is reserved for (the administrator's for metrics,
  reconciliation requests, manual resolutions and everything under recovery, the worker's for the rest
  of \<open>/v1\<close>; the other token does not help) learns nothing of the database and changes nothing in it:
  the answer is the same over every database, which stays as it is. It is 401 on every reserved route,
  the two health documents on theirs, and an empty 404 or 405 for anything that is no route.\<close>

theorem no_token_no_data:
  assumes "\<forall>route i. target_route hm = Some (route, i) \<longrightarrow> \<not> carries_token sv hm route"
  shows "\<exists>answer. (\<forall>s. ApiHandler sv cx s hm = (answer, s))
    \<and> (case target_route hm of
         None \<Rightarrow> rs_status answer \<in> {404, 405} \<and> rs_body answer = None
       | Some (LiveRoute, i) \<Rightarrow> answer = live
       | Some (ReadyRoute, i) \<Rightarrow> answer = ready cx
       | Some _ \<Rightarrow> rs_status answer = 401)"
proof (cases "path_segments (hm_path hm)")
  case None
  then show ?thesis by (simp add: ApiHandler_def target_route_def writeJSON_def)
next
  case (Some segs)
  note segs = Some
  show ?thesis
  proof (cases "routed (hm_method hm) segs")
    case None
    then show ?thesis using segs by (simp add: ApiHandler_def target_route_def writeJSON_def)
  next
    case (Some ri)
    obtain r i where ri: "routed (hm_method hm) segs = Some (r, i)" using Some by (cases ri) simp
    then have to: "target_route hm = Some (re_route r, i)" using segs by (simp add: target_route_def)
    note access = routes_access [OF routed_entry [OF ri]]
    have out: "ApiHandler sv cx s hm = (if authenticate (access_token sv (re_access r)) (to_request hm i)
        then serve_route sv cx s (re_route r) (to_request hm i)
        else (writeError cx (to_request hm i) unauthorized_error, s))" for s
      using segs ri by (simp add: ApiHandler_def Let_def)
    show ?thesis
    proof (cases "route_access (re_route r) = Open")
      case True
      then have "re_route r = LiveRoute \<or> re_route r = ReadyRoute" by (cases "re_route r") simp_all
      then show ?thesis using True by (auto simp: to out access access_token_def authenticate_def)
    next
      case False
      have "\<not> carries_token sv hm (re_route r)" using assms to by blast
      then have "\<not> authenticate (access_token sv (re_access r)) (to_request hm i)"
        using False by (cases "route_access (re_route r)")
          (simp_all add: access carries_token_def access_token_def authenticate_def)
      moreover have "error_status unauthorized_error = 401"
        by (simp add: unauthorized_error_def validation_def NewError_def)
      ultimately show ?thesis using False by (cases "re_route r") (simp_all add: to out)
    qed
  qed
qed

theorem no_token_no_data_witness:
  "\<exists>answer. rs_status answer = 401
     \<and> ApiHandler (New ''w'' ''a'') (sample_context (env_at ''h'' 1)) (sample_db 1)
         (sample_message ''POST'' ''/v1/recovery/claims'' ''w'' []) = (answer, sample_db 1)
     \<and> ApiHandler (New ''w'' ''a'') (sample_context (env_at ''h'' 1)) (empty_db [])
         (sample_message ''POST'' ''/v1/recovery/claims'' ''w'' []) = (answer, empty_db [])"
proof -
  let ?hm = "sample_message ''POST'' ''/v1/recovery/claims'' ''w'' []"
  have to: "target_route ?hm = Some (ClaimRoute, [])"
    by (simp add: target_route_def sample_message_def sample_routes entry_def)
  have "\<not> carries_token (New ''w'' ''a'') ?hm ClaimRoute"
    by (simp add: carries_token_def bearer_ok_def header_def to_request_def sample_message_def New_def trim_prefix_def)
  with to have "\<forall>route i. target_route ?hm = Some (route, i) \<longrightarrow> \<not> carries_token (New ''w'' ''a'') ?hm route"
    by simp
  from no_token_no_data [OF this, of "sample_context (env_at ''h'' 1)"] show ?thesis by (auto simp: to)
qed

text \<open>What a write does to the end of a lease.\<close>

lemma row_write_lease:
  assumes "row_write e c r r'" and "within_bounds c" and "o_lease_expires r' = Some t"
  shows "o_lease_expires r = Some t \<or> now e + 5 * second \<le> t \<and> t \<le> now e + 300 * second"
  using assms by cases (auto simp: row_writes)

text \<open>C33. Whatever a message asks for, a lease that an operation holds afterwards is either the one it
  held before or ends between five seconds and five minutes after the time of the transaction.\<close>

theorem leases_bounded:
  assumes "reachable s" and "op_at (snd (ApiHandler sv cx s hm)) i = Some r'" and "o_lease_expires r' = Some t"
  shows "(\<exists>r. op_at s i = Some r \<and> o_lease_expires r = Some t)
    \<or> now (cx_env cx) + 5 * second \<le> t \<and> t \<le> now (cx_env cx) + 300 * second"
proof -
  consider "snd (ApiHandler sv cx s hm) = s"
    | e c where "snd (ApiHandler sv cx s hm) = store_exec e c s" "now e = now (cx_env cx)" "within_bounds c"
    using request_call [of cx sv hm s] by (auto simp: calls_or_keeps_def allowed_def)
  then show ?thesis
  proof cases
    case 2
    have "row_frame e c (op_at s i) (Some r')"
      using store_exec_frame [OF reachable_inv [OF assms(1)], of e c i] assms(2) 2(1) by simp
    then show ?thesis using assms(3) 2(2) row_write_lease [of e c _ r' t] 2(3)
      by (auto simp: row_frame_def new_op_row_def)
  qed (use assms in auto)
qed

theorem leases_bounded_witness:
  "now (cx_env (sample_context (env_at ''h'' (3600 * second)))) + 5 * second \<le> 3630 * second
   \<and> 3630 * second \<le> now (cx_env (sample_context (env_at ''h'' (3600 * second)))) + 300 * second"
proof -
  have "op_at (sample_db 2) ''aoperation'' = Some (authorize_row (env_at ''b'' 1)
      (new_op_row (env_at ''a'' 0) ''aoperation'' ''aworkflow'' sample_request (JObj []) (JObj [])))"
    by (simp add: sample_simps exec_simps)
  then have "\<not> (\<exists>r. op_at (sample_db 2) ''aoperation'' = Some r \<and> o_lease_expires r = Some (3630 * second))"
    by (simp add: authorize_row_def new_op_row_def)
  moreover have "o_lease_expires (claim_row (env_at ''h'' (3600 * second)) ''k'' (claimTokenHash (b64_encode ''0'')) (30 * second) r)
      = Some (3630 * second)" for r
    by (simp add: claim_row_def env_at_def second_def millisecond_def)
  ultimately show ?thesis using leases_bounded [OF reachable_sample sample_claimed] by blast
qed

section \<open>Preparing over HTTP\<close>

lemma prepare_returns:
  assumes "store_inv s" and "Prepare e s req = (Inr (op, created), s')"
  shows "op_RequestFingerprint op = pr_RequestFingerprint req" "joined s' (op_ID op) = Some op"
proof -
  have body: "prepare_body e s req = Inr ((op, created), s')"
    using assms(2) by (simp add: Prepare_def run_tx_Inr)
  have ids: "distinct (map o_id (operations s'))"
    using prepare_inv [OF assms(1) body] by (simp add: store_inv_def)
  from body show "op_RequestFingerprint op = pr_RequestFingerprint req"
  proof (cases rule: prepare_ok)
    case (existing new wid r)
    then have "r \<in> set (operations s')" by (auto simp: natural_key_def find_Some_iff)
    then have "op_at s' (o_id r) = Some r" by (rule lookup_by_distinct [OF ids])
    with existing(4,5) show ?thesis by (auto simp: joined_eq_Some)
  next
    case (inserted new wid i effect trace s1)
    then show ?thesis by (auto simp: store_simps lookup_by_append new_op_row_def split: option.splits if_splits)
  qed
  have id: "op_ID op = j" if "joined s' j = Some op" for j
    using that op_at_id by (auto simp: joined_eq_Some)
  from body show "joined s' (op_ID op) = Some op"
    by (cases rule: prepare_ok) (use id in metis)+
qed

lemma refusals_high [simp]: "300 \<le> error_status err" "\<not> error_status err < 300"
  by (cases err rule: error_status.cases; simp)+

lemma decodeJSON_refused: "decodeJSON cx names read rq = Inl answer \<Longrightarrow> rs_status answer = 400"
  by (auto simp: decodeJSON_def Let_def split: option.splits prod.splits if_splits)

lemma reject_refused: "reject cx rq bad code msg = Inl answer \<Longrightarrow> 300 \<le> rs_status answer"
  by (auto simp: reject_def)

text \<open>A success has passed every check.\<close>

lemma handle_passed:
  assumes "handle s (bindE m f) = (answer, s')" and "rs_status answer < 300"
    and "\<And>a. m = Inl a \<Longrightarrow> 300 \<le> rs_status a"
  obtains x where "m = Inr x" and "handle s (f x) = (answer, s')"
  using assms by (cases m) auto

text \<open>C34. A successful answer to a prepare request carries the operation as the database now holds it,
  under the fingerprint the server computes from the request in the body; a fingerprint the client
  sends is only compared with it, up to the case of its digits.\<close>

theorem fingerprint_computed:
  assumes "reachable s" and "prepare cx s rq = (answer, s')" and "rs_status answer < 300"
  shows "\<exists>p fp op. decodeJSON cx prepare_names read_prepare rq = Inr p
      \<and> Fingerprint (pr_TargetService p) (pr_Action p) (pr_Request p) = Inr fp
      \<and> (pr_RequestFingerprint p = [] \<or> equal_fold (pr_RequestFingerprint p) fp)
      \<and> rs_body answer = operation_body op \<and> op_RequestFingerprint op = fp \<and> joined s' (op_ID op) = Some op"
proof -
  note ok = assms(3)
  from assms(2) obtain p fp where p: "decodeJSON cx prepare_names read_prepare rq = Inr p"
    and fp: "Fingerprint (pr_TargetService p) (pr_Action p) (pr_Request p) = Inr fp"
    and same: "pr_RequestFingerprint p = [] \<or> equal_fold (pr_RequestFingerprint p) fp"
    and rest: "respond_prepared cx rq (prepare_call cx s (p\<lparr>pr_RequestFingerprint := fp\<rparr>)) = (answer, s')"
    unfolding prepare_def using ok
    by (elim handle_passed) (auto simp: reject_ok dest: decodeJSON_refused reject_refused split: sum.splits)
  from rest obtain op created where body: "rs_body answer = operation_body op"
    and call: "prepare_call cx s (p\<lparr>pr_RequestFingerprint := fp\<rparr>) = (Inr (op, created), s')"
    using ok by (auto simp: respond_prepared_def writeJSON_def split: prod.splits sum.splits)
  from call prepare_call_cases [of cx s "p\<lparr>pr_RequestFingerprint := fp\<rparr>"] obtain e
    where "Prepare e s (p\<lparr>pr_RequestFingerprint := fp\<rparr>) = (Inr (op, created), s')" by auto
  from prepare_returns [OF reachable_inv [OF assms(1)] this] show ?thesis using p fp same body by auto
qed

definition prepare_members :: "(string \<times> json) list" where
  "prepare_members = [(''workflow_id'', JStr ''w''), (''strategy'', JStr ''watchkeeper''), (''logical_key'', JStr ''k''),
     (''target_service'', JStr ''email''), (''action'', JStr ''send''), (''request'', JObj []),
     (''expected_effect'', JObj []), (''capability_profile'', JStr ''none'')]"

definition prepare_payload :: PrepareRequest where
  "prepare_payload = \<lparr>pr_WorkflowID = ''w'', pr_Strategy = StrategyWatchkeeper, pr_ExperimentRunID = None,
     pr_LogicalKey = ''k'', pr_TargetService = ''email'', pr_Action = ''send'', pr_Request = ''{}'',
     pr_RequestFingerprint = [], pr_ExpectedEffect = ''{}'', pr_CapabilityProfile = ''none'', pr_TraceContext = []\<rparr>"

definition prepare_message :: request where
  "prepare_message = \<lparr>rq_param = [], rq_query = [], rq_headers = [], rq_body = marshal (JObj prepare_members)\<rparr>"

lemma prepare_message_body: "decodeJSON cx prepare_names read_prepare prepare_message = Inr prepare_payload"
proof (rule decodeJSON_marshal)
  show "rq_body prepare_message = marshal (JObj prepare_members)" by (simp add: prepare_message_def)
  have "length (marshal (JObj prepare_members)) = 165" by code_simp
  then show "length (marshal (JObj prepare_members)) \<le> max_body" by (simp add: max_body_def)
  show "printable_members prepare_members" by code_simp
  show "depth_members prepare_members < max_depth" by (simp add: max_depth_def prepare_members_def)
  show "known prepare_names (with_texts prepare_members)"
    by (rule known_texts) (simp add: prepare_members_def prepare_names_def)
  have names: "plain_names prepare_members" by (simp add: prepare_members_def)
  show "read_prepare (with_texts prepare_members) = Some prepare_payload"
    by (simp add: read_prepare_def field_texts field_plain [OF names] raw_field_over raw_plain [OF names]
        ptr_plain [OF names] arg_cong [OF prepare_members_def, of map_of] prepare_payload_def strategy_of_string_def)
qed

lemma prepare_message_served:
  "rs_status (fst (prepare (sample_context (env_at ''a'' 0)) (empty_db []) prepare_message)) = 201"
proof -
  have valid: "validatePrepare (\<lambda>s. s \<noteq> []) prepare_payload = Inr ()" by code_simp
  have canonical: "CanonicalJSON ''{}'' = Inr ''{}''" by code_simp
  have call: "\<exists>op. fst (Prepare (env_at ''a'' 0) (empty_db []) (prepare_payload\<lparr>pr_RequestFingerprint := fp\<rparr>)) = Inr (op, True)" for fp
    by (simp add: prepare_payload_def exec_simps)
  have fp: "Fingerprint (pr_TargetService prepare_payload) (pr_Action prepare_payload) (pr_Request prepare_payload)
      = Inr (sha256_hex (fingerprint_payload ''email'' ''send'' ''{}''))"
    by (simp add: Fingerprint_def prepare_payload_def canonical)
  have none: "pr_RequestFingerprint prepare_payload = []" "pr_ExperimentRunID prepare_payload = None"
    by (simp_all add: prepare_payload_def)
  show ?thesis
    using call [of "sha256_hex (fingerprint_payload ''email'' ''send'' ''{}'')"]
    by (auto simp: prepare_def prepare_message_body sample_context_def valid fp none reject_def prepare_call_def Let_def
        respond_prepared_def split: prod.split)
qed

theorem fingerprint_computed_witness:
  "\<exists>p fp op. decodeJSON (sample_context (env_at ''a'' 0)) prepare_names read_prepare prepare_message = Inr p
      \<and> Fingerprint (pr_TargetService p) (pr_Action p) (pr_Request p) = Inr fp \<and> op_RequestFingerprint op = fp
      \<and> rs_body (fst (prepare (sample_context (env_at ''a'' 0)) (empty_db []) prepare_message)) = operation_body op"
  using fingerprint_computed [OF reachable.initial [of "[]"],
      of "sample_context (env_at ''a'' 0)" prepare_message "fst (prepare (sample_context (env_at ''a'' 0)) (empty_db []) prepare_message)"
         "snd (prepare (sample_context (env_at ''a'' 0)) (empty_db []) prepare_message)"] prepare_message_served
  by auto

end
