(* ===== verification/Remote.thy ===== *)
theory Remote
  imports Compact_Round Api_Contract
begin

text \<open>
  The client over the server over the store: every method of the client answers what the call of
  the store answers, provided the answer fits the wire. The transport delivers a request to the
  server at the base URL and the printed response back; the path of a request is compared as it is
  sent.
\<close>

section \<open>The transport\<close>

definition server_answer :: "json option response \<Rightarrow> http_answer" where
  "server_answer r = Answer (rs_status r) (case rs_body r of None \<Rightarrow> [] | Some v \<Rightarrow> marshal v @ [CHR 0x0A])"

fun split_on :: "char \<Rightarrow> string \<Rightarrow> string list" where
  "split_on d [] = [[]]"
| "split_on d (c # s) = (if c = d then [] # split_on d s
     else (case split_on d s of x # xs \<Rightarrow> (c # x) # xs | [] \<Rightarrow> [[c]]))"

fun query_unescape :: "string \<Rightarrow> string" where
  "query_unescape [] = []"
| "query_unescape (c # s) =
     (if c = CHR ''+'' then CHR '' '' # query_unescape s
      else if c = CHR ''%'' then
        (case s of a # b # r \<Rightarrow> char_of (16 * hex_val a + hex_val b) # query_unescape r | _ \<Rightarrow> [])
      else c # query_unescape s)"

definition parse_pair :: "string \<Rightarrow> string \<times> string" where
  "parse_pair s = (query_unescape (takeWhile (\<lambda>c. c \<noteq> CHR ''='') s), query_unescape (drop 1 (dropWhile (\<lambda>c. c \<noteq> CHR ''='') s)))"

definition parse_query :: "string \<Rightarrow> (string \<times> string) list" where
  "parse_query s = (if s = [] then [] else map parse_pair (split_on CHR ''&'' s))"

definition to_message :: "string \<Rightarrow> http_call \<Rightarrow> http_message" where
  "to_message target hc = \<lparr>hm_method = hc_method hc, hm_path = takeWhile (\<lambda>c. c \<noteq> CHR ''?'') target,
     hm_query = parse_query (drop 1 (dropWhile (\<lambda>c. c \<noteq> CHR ''?'') target)), hm_headers = hc_headers hc, hm_body = hc_body hc\<rparr>"

definition serve_http :: "api_server \<Rightarrow> api_context \<Rightarrow> string \<Rightarrow> db transport" where
  "serve_http sv cx base hc s =
     (if take (length base) (hc_url hc) \<noteq> base then (NoAnswer ''no such host'', s)
      else case ApiHandler sv cx s (to_message (drop (length base) (hc_url hc)) hc) of (r, s') \<Rightarrow> (server_answer r, s'))"

section \<open>Answers\<close>

definition sendable :: "json \<Rightarrow> bool" where
  "sendable v \<longleftrightarrow> printable v \<and> depth v \<le> max_depth \<and> length (marshal v) < max_body"

lemma first_value_printed: "sendable v \<Longrightarrow> first_value (marshal v @ [CHR 0x0A]) = Some v"
  using decode_marshal [of v "[CHR 0x0A]"] take_all [of "marshal v @ [CHR 0x0A]" max_body]
  by (simp add: sendable_def first_value_def stops_def is_ws_def del: take_append)

text \<open>How an error of the store reaches the client.\<close>

definition remote_error :: "string \<Rightarrow> error \<Rightarrow> Error" where
  "remote_error rid err = (case err of
       DomainError kind code m details cause \<Rightarrow>
         \<lparr>ce_Status = error_status err, ce_Code = code, ce_Message = m, ce_RequestID = rid,
          ce_Details = (if details = [] then None else Some (norm_members [] (map (map_prod id JStr) details)))\<rparr>
     | PlainError m \<Rightarrow> \<lparr>ce_Status = 500, ce_Code = ''internal_error'', ce_Message = ''internal server error'',
          ce_RequestID = rid, ce_Details = None\<rparr>)"

lemma read_envelope:
  assumes "sendable (errorEnvelope code m rid ds)"
  shows "read_error status (marshal (errorEnvelope code m rid ds) @ [CHR 0x0A]) =
    \<lparr>ce_Status = status, ce_Code = code, ce_Message = m, ce_RequestID = rid,
     ce_Details = (if ds = [] then None else Some (norm_members [] (map (map_prod id JStr) ds)))\<rparr>"
proof -
  let ?es = "[(''code'', JStr code), (''details'', details_json ds), (''message'', JStr m), (''request_id'', JStr rid)]"
  have names: "plain_names ?es" "plain_names [(''error'', JObj ?es)]" by simp_all
  have "tree_field ''error'' JNull [(''error'', JObj ?es)] = JObj ?es" by (simp add: tree_plain [OF names(2)])
  moreover have "field as_string ''code'' [] ?es = Some code" "field as_string ''message'' [] ?es = Some m"
    "field as_string ''request_id'' [] ?es = Some rid"
    by (simp_all add: field_plain [OF names(1)] del: field.simps)
  moreover have details: "tree_field ''details'' JNull ?es = details_json ds" by (simp add: tree_plain [OF names(1)])
  moreover have "details_field ?es = Some (if ds = [] then None else Some (norm_members [] (map (map_prod id JStr) ds)))"
    unfolding details_field_def details by (simp add: details_json_def)
  moreover have "first_value (marshal (errorEnvelope code m rid ds) @ [CHR 0x0A]) = Some (JObj [(''error'', JObj ?es)])"
    using first_value_printed [OF assms] by (simp add: errorEnvelope_def)
  ultimately show ?thesis by (simp add: read_error_def Let_def or_empty_def del: field.simps marshal.simps)
qed

lemma read_refusal:
  assumes "sendable (error_envelope rid err)"
  shows "read_answer decode (server_answer (writeJSON (error_status err) (Some (error_envelope rid err))))
    = Inl (Refused (remote_error rid err))"
proof -
  have "\<not> error_status err < 300" by simp
  then show ?thesis
    using assms by (cases "(rid, err)" rule: error_envelope.cases)
      (simp_all add: server_answer_def writeJSON_def read_answer_def read_envelope remote_error_def)
qed

lemma read_success:
  assumes "sendable v" and "decode v = Some x" and "200 \<le> status" and "status < 300"
  shows "read_answer decode (server_answer (writeJSON status (Some v))) = Inr x"
  using assms first_value_printed [OF assms(1)] by (simp add: server_answer_def writeJSON_def read_answer_def)

text \<open>
  An answer fits the wire when its texts are UTF-8, its times have four-digit years, its integers
  64 bits, and it is printed in less than a megabyte.
\<close>

definition fits :: "string \<Rightarrow> ('a \<Rightarrow> json option) \<Rightarrow> (json \<Rightarrow> 'a option) \<Rightarrow> error + 'a \<Rightarrow> bool" where
  "fits rid body decode r \<longleftrightarrow>
     (case r of
        Inl err \<Rightarrow> sendable (error_envelope rid err)
      | Inr x \<Rightarrow> (case body x of None \<Rightarrow> False | Some v \<Rightarrow> sendable v \<and> decode v = Some x))"

definition answered :: "string \<Rightarrow> (error + 'a) \<times> db \<Rightarrow> (failure + 'a) \<times> db" where
  "answered rid out = (case out of (r, s) \<Rightarrow>
     (case r of Inl err \<Rightarrow> Inl (Refused (remote_error rid err)) | Inr x \<Rightarrow> Inr x, s))"

lemma respond_answered:
  assumes "fits (requestID cx rq) body decode (fst out)" and "200 \<le> status" and "status < 300"
  shows "map_prod (\<lambda>r. read_answer decode (server_answer r)) id (respond_db cx rq status body out)
    = answered (requestID cx rq) out"
proof -
  obtain r s where out: "out = (r, s)" by (cases out)
  show ?thesis
  proof (cases r)
    case (Inl err)
    then show ?thesis using assms(1) out
      by (simp add: respond_db_def respond_def writeError_def read_refusal fits_def answered_def)
  next
    case (Inr x)
    then obtain v where "body x = Some v" "sendable v" "decode v = Some x"
      using assms(1) out by (auto simp: fits_def split: option.splits)
    then show ?thesis using Inr out assms(2,3)
      by (simp add: respond_db_def respond_def read_success answered_def)
  qed
qed

section \<open>Requests\<close>

text \<open>An identifier as the server hands them out: google/uuid and PostgreSQL take it as it is.\<close>

definition plain_id :: "api_context \<Rightarrow> string \<Rightarrow> bool" where
  "plain_id cx i \<longleftrightarrow> i \<noteq> [] \<and> list_all unreserved i \<and> cx_valid cx i \<and> cx_cast cx i = Some i"

lemma path_escape_plain: "list_all unreserved i \<Longrightarrow> path_escape i = i"
  by (induction i) (simp_all add: path_escape_def)

lemma unreserved_no_mark: "list_all unreserved i \<Longrightarrow> CHR ''/'' \<notin> set i \<and> CHR ''?'' \<notin> set i"
  by (induction i) (auto simp: unreserved_def)

lemma split_path_here: "CHR ''/'' \<notin> set i \<Longrightarrow> split_path (i @ CHR ''/'' # r) = i # split_path r"
  by (induction i) auto

lemma split_path_last: "CHR ''/'' \<notin> set i \<Longrightarrow> split_path i = [i]"
  by (induction i) auto

lemma take_no_query: "CHR ''?'' \<notin> set p \<Longrightarrow> takeWhile (\<lambda>c. c \<noteq> CHR ''?'') p = p \<and> dropWhile (\<lambda>c. c \<noteq> CHR ''?'') p = []"
  by (induction p) auto

lemma bearer_headers: "ct_token c \<noteq> [] \<Longrightarrow> rq_headers rq = call_headers c b \<Longrightarrow> bearer_ok token rq \<longleftrightarrow> token = ct_token c"
  by (auto simp: bearer_ok_def header_def call_headers_def trim_prefix_def Let_def)


text \<open>The request a call with a body becomes.\<close>

definition sent :: "client \<Rightarrow> string \<Rightarrow> string \<Rightarrow> request" where
  "sent c i text = \<lparr>rq_param = i, rq_query = [], rq_headers = call_headers c True, rq_body = text\<rparr>"

lemma sent_simps [simp]: "rq_param (sent c i text) = i" "rq_body (sent c i text) = text"
  "requestID cx (sent c i text) = cx_new_id cx"
  by (simp_all add: sent_def requestID_def header_def call_headers_def)

lemma remote_post:
  assumes "CHR ''?'' \<notin> set path" and "path_segments path = Some segs"
    and "routed ''POST'' segs = Some (r, i)" and "access_token sv (re_access r) = Some (ct_token c)" and "ct_token c \<noteq> []"
  shows "do_call (serve_http sv cx (ct_baseURL c)) c ''POST'' path (Some (Some text)) decode s
    = map_prod (\<lambda>a. read_answer decode (server_answer a)) id (serve_route sv cx s (re_route r) (sent c i text))"
proof -
  let ?hm = "\<lparr>hm_method = ''POST'', hm_path = path, hm_query = [], hm_headers = call_headers c True, hm_body = text\<rparr>"
  have "bearer_ok (ct_token c) (sent c i text)"
    using bearer_headers [OF assms(5), of "sent c i text" True] by (simp add: sent_def)
  moreover have "to_request ?hm i = sent c i text" by (simp add: to_request_def sent_def)
  ultimately have api: "ApiHandler sv cx s ?hm = serve_route sv cx s (re_route r) (sent c i text)"
    using assms(2-4) by (simp add: ApiHandler_def Let_def authenticate_def del: bearer_ok_param)
  have "to_message path \<lparr>hc_method = ''POST'', hc_url = ct_baseURL c @ path, hc_headers = call_headers c True, hc_body = text\<rparr> = ?hm"
    using take_no_query [OF assms(1)] unfolding to_message_def by (simp add: parse_query_def del: takeWhile_eq_all_conv dropWhile_eq_Nil_conv)
  then show ?thesis by (simp add: do_call_def serve_http_def Let_def api split: prod.split)
qed

text \<open>The paths of the methods that name an operation.\<close>

lemma operation_path_segments:
  assumes "list_all unreserved i" and "CHR ''/'' \<notin> set suffix" and "CHR ''?'' \<notin> set suffix"
  shows "path_segments (operation_path i (CHR ''/'' # suffix)) = Some [''v1'', ''operations'', i, suffix]"
    "CHR ''?'' \<notin> set (operation_path i (CHR ''/'' # suffix))"
  using assms unreserved_no_mark [OF assms(1)]
  by (simp_all add: operation_path_def path_escape_plain path_segments_def split_path_here split_path_last)

lemma claim_path_segments:
  assumes "list_all unreserved i" and "CHR ''/'' \<notin> set suffix" and "CHR ''?'' \<notin> set suffix"
  shows "path_segments (claim_path i (CHR ''/'' # suffix)) = Some [''v1'', ''recovery'', ''claims'', i, suffix]"
    "CHR ''?'' \<notin> set (claim_path i (CHR ''/'' # suffix))"
  using assms unreserved_no_mark [OF assms(1)]
  by (simp_all add: claim_path_def path_escape_plain path_segments_def split_path_here split_path_last)

lemma routed_operations:
  assumes "i \<noteq> []"
  shows "routed ''POST'' [''v1'', ''operations'', i, ''dispatches''] = Some (entry ''POST'' [Lit ''v1'', Lit ''operations'', OperationID, Lit ''dispatches''] AuthToken DispatchRoute, i)"
    "routed ''POST'' [''v1'', ''operations'', i, ''confirmations''] = Some (entry ''POST'' [Lit ''v1'', Lit ''operations'', OperationID, Lit ''confirmations''] AuthToken ConfirmRoute, i)"
    "routed ''POST'' [''v1'', ''operations'', i, ''attempts''] = Some (entry ''POST'' [Lit ''v1'', Lit ''operations'', OperationID, Lit ''attempts''] AuthToken BeginRetryRoute, i)"
    "routed ''POST'' [''v1'', ''operations'', i, ''reconciliation-requests''] = Some (entry ''POST'' [Lit ''v1'', Lit ''operations'', OperationID, Lit ''reconciliation-requests''] AdminToken ReconciliationRoute, i)"
    "routed ''POST'' [''v1'', ''operations'', i, ''manual-resolutions''] = Some (entry ''POST'' [Lit ''v1'', Lit ''operations'', OperationID, Lit ''manual-resolutions''] AdminToken ManualRoute, i)"
    "routed ''POST'' [''v1'', ''recovery'', ''claims'', i, ''renew''] = Some (entry ''POST'' [Lit ''v1'', Lit ''recovery'', Lit ''claims'', OperationID, Lit ''renew''] AdminToken RenewRoute, i)"
    "routed ''POST'' [''v1'', ''recovery'', ''claims'', i, ''results''] = Some (entry ''POST'' [Lit ''v1'', Lit ''recovery'', Lit ''claims'', OperationID, Lit ''results''] AdminToken ResultRoute, i)"
    "routed ''GET'' [''v1'', ''operations'', i] = Some (entry ''GET'' [Lit ''v1'', Lit ''operations'', OperationID] AuthToken GetOperationRoute, i)"
    "routed ''GET'' [''v1'', ''operations'', i, ''events''] = Some (entry ''GET'' [Lit ''v1'', Lit ''operations'', OperationID, Lit ''events''] AuthToken ListEventsRoute, i)"
  using assms by (simp_all add: routed_def routes_def entry_def path_matches_def method_matches_def)

text \<open>Members of a body: small enough, and of known names.\<close>

definition sends :: "(string \<times> json) list \<Rightarrow> bool" where
  "sends ms \<longleftrightarrow> printable_members ms \<and> depth_members ms < max_depth \<and> length (marshal (JObj ms)) \<le> max_body"

lemma decode_sent:
  assumes "sends ms" and "fst ` set ms \<subseteq> set names" and "read (with_texts ms) = Some x"
  shows "decodeJSON cx names read (sent c i (marshal (JObj ms))) = Inr x"
  by (rule decodeJSON_marshal [of _ ms]) (use assms known_texts in \<open>simp_all add: sends_def\<close>)


text \<open>A handler that passes its checks answers what the store answers.\<close>

lemma remote_served:
  assumes "serve_route sv cx s route (sent c i text) = respond_db cx (sent c i text) status body out"
    and "200 \<le> status" and "status < 300" and "fits (cx_new_id cx) body decode (fst out)"
    and "path_segments path = Some segs" and "CHR ''?'' \<notin> set path"
    and "routed ''POST'' segs = Some (entry ''POST'' pattern acc route, i)"
    and "access_token sv acc = Some (ct_token c)" and "ct_token c \<noteq> []"
  shows "do_call (serve_http sv cx (ct_baseURL c)) c ''POST'' path (Some (Some text)) decode s = answered (cx_new_id cx) out"
  using remote_post [OF assms(6,5,7) _ assms(9), of sv cx "text" decode s]
    respond_answered [of cx "sent c i text" body decode out status] assms(1-4,8) by (simp add: entry_def)

lemma with_cast_plain [simp]: "plain_id cx i \<Longrightarrow> with_cast cx label i e f = f e i"
  by (simp add: plain_id_def with_cast_def)

lemma unplain: "plain_id cx i \<Longrightarrow> cx_valid cx i"
  by (simp add: plain_id_def)

lemma check_plain [simp]: "plain_id cx i \<Longrightarrow> check_id cx (sent c i text) = Inr ()"
  by (simp add: plain_id_def check_id_def)

lemma reject_eval [simp]: "reject cx rq False code msg = Inr ()"
  by (simp add: reject_def)

lemma entry_sel [simp]: "re_access (entry m p a r) = a" "re_route (entry m p a r) = r"
  by (simp_all add: entry_def)

text \<open>A client configured for a server, with the token of a route.\<close>

definition worker_client :: "api_server \<Rightarrow> client \<Rightarrow> bool" where
  "worker_client sv c \<longleftrightarrow> ct_token c = sa_authToken sv \<and> ct_token c \<noteq> []"

definition admin_client :: "api_server \<Rightarrow> client \<Rightarrow> bool" where
  "admin_client sv c \<longleftrightarrow> ct_token c = sa_adminToken sv \<and> ct_token c \<noteq> []"

lemma access_tokens [simp]:
  "worker_client sv c \<Longrightarrow> access_token sv AuthToken = Some (ct_token c)" "worker_client sv c \<Longrightarrow> ct_token c \<noteq> []"
  "admin_client sv c \<Longrightarrow> access_token sv AdminToken = Some (ct_token c)" "admin_client sv c \<Longrightarrow> ct_token c \<noteq> []"
  by (auto simp: worker_client_def admin_client_def access_token_def)

lemma unreserved_plain [simp]: "plain_id cx i \<Longrightarrow> list_all unreserved i" "plain_id cx i \<Longrightarrow> i \<noteq> []"
  by (simp_all add: plain_id_def)

lemmas text_hints = client_AuthorizeDispatch_def client_BeginRetry_def client_RequestReconciliation_def
  client_ClaimRecovery_def client_RenewClaim_def client_ManualResolve_def map_text_def object_text_marshal

lemmas read_hints = field_texts field_plain read_dispatch_def read_version_reason_def read_claim_def read_renew_def
  read_manual_def dispatch_names_def version_reason_names_def claim_names_def renew_names_def manual_names_def

section \<open>What fits the wire\<close>

definition operation_fits :: "string \<Rightarrow> error + Operation \<Rightarrow> bool" where
  "operation_fits rid r \<longleftrightarrow> (case r of Inl err \<Rightarrow> sendable (error_envelope rid err)
     | Inr op \<Rightarrow> wire_operation op \<and> sendable (operation_json op))"

definition wire_claim :: "RecoveryClaim \<Rightarrow> bool" where
  "wire_claim cl \<longleftrightarrow> wire_operation (cl_Operation cl) \<and> writable (cl_LeaseExpiresAt cl) \<and> int64_range (cl_Version cl)"

definition claims_fit :: "string \<Rightarrow> error + RecoveryClaim list \<Rightarrow> bool" where
  "claims_fit rid r \<longleftrightarrow> (case r of Inl err \<Rightarrow> sendable (error_envelope rid err)
     | Inr cs \<Rightarrow> list_all wire_claim cs \<and> sendable (JObj [(''claims'', JArr (map claim_json cs))]))"

definition lease_fits :: "string \<Rightarrow> error + time \<Rightarrow> bool" where
  "lease_fits rid r \<longleftrightarrow> (case r of Inl err \<Rightarrow> sendable (error_envelope rid err)
     | Inr t \<Rightarrow> writable t \<and> sendable (JObj [(''lease_expires_at'', time_json t)]))"

lemma wire_encodable: "wire_operation op \<Longrightarrow> encodable op"
  by (simp add: wire_operation_def encodable_def)

lemma operation_fits_fits: "operation_fits rid r \<Longrightarrow> fits rid operation_body decode_operation r"
  by (auto simp: operation_fits_def fits_def operation_body_def wire_encodable operation_round split: sum.splits)

lemma claim_round:
  assumes "wire_claim cl"
  shows "decode_claim (claim_json cl) = Some cl"
proof -
  let ?ms = "[(''operation'', operation_json (cl_Operation cl)), (''claim_token'', JStr (cl_ClaimToken cl)),
     (''attempt_id'', JStr (cl_AttemptID cl)), (''lease_expires_at'', time_json (cl_LeaseExpiresAt cl)),
     (''version'', int_json (cl_Version cl))]"
  have names: "plain_names ?ms" by simp
  have op: "decode_operation (tree_field ''operation'' JNull ?ms) = Some (cl_Operation cl)"
    using assms by (simp add: tree_plain [OF names] operation_round wire_claim_def)
  have fields: "field as_string ''claim_token'' [] ?ms = Some (cl_ClaimToken cl)"
    "field as_string ''attempt_id'' [] ?ms = Some (cl_AttemptID cl)"
    "field as_time ''lease_expires_at'' zero_time ?ms = Some (cl_LeaseExpiresAt cl)"
    "field as_int64 ''version'' 0 ?ms = Some (cl_Version cl)"
    using assms by (simp_all add: field_plain [OF names] wire_claim_def del: field.simps)
  show ?thesis by (simp add: decode_claim_def claim_json_def op fields del: field.simps)
qed

lemma those_map: "list_all (\<lambda>x. f (g x) = Some x) xs \<Longrightarrow> those (map f (map g xs)) = Some xs"
  by (induction xs) auto

lemma claims_fit_fits: "claims_fit rid r \<Longrightarrow> fits rid claims_body decode_claims r"
proof (cases r)
  case (Inr cs)
  assume "claims_fit rid r"
  then have wire: "list_all wire_claim cs" and sendable: "sendable (JObj [(''claims'', JArr (map claim_json cs))])"
    using Inr by (simp_all add: claims_fit_def)
  have body: "claims_body cs = Some (JObj [(''claims'', JArr (map claim_json cs))])"
    using wire by (auto simp: claims_body_def list_all_iff wire_claim_def wire_encodable)
  have "those (map decode_claim (map claim_json cs)) = Some cs"
    by (rule those_map) (use wire in \<open>simp add: list_all_iff claim_round\<close>)
  moreover have "tree_field ''claims'' JNull [(''claims'', JArr (map claim_json cs))] = JArr (map claim_json cs)"
    by (simp add: tree_plain)
  ultimately have "decode_claims (JObj [(''claims'', JArr (map claim_json cs))]) = Some cs"
    by (simp add: decode_claims_def list_field_def)
  then show ?thesis using Inr body sendable by (simp add: fits_def)
qed (simp add: claims_fit_def fits_def)

lemma lease_fits_fits: "lease_fits rid r \<Longrightarrow> fits rid lease_body decode_lease r"
  by (auto simp: lease_fits_def fits_def lease_body_def decode_lease_def field_plain simp del: field.simps split: sum.splits)

section \<open>The methods\<close>

definition version_members :: "int \<Rightarrow> (string \<times> json) list" where
  "version_members v = [(''expected_version'', int_json v)]"

lemma remote_dispatch:
  assumes "worker_client sv c" and "plain_id cx i" and "1 \<le> v" and "int64_range v" and "sends (version_members v)"
    and "operation_fits (cx_new_id cx) (fst (AuthorizeDispatch (cx_env cx) s i v))"
  shows "client_AuthorizeDispatch (serve_http sv cx (ct_baseURL c)) c i v s
    = answered (cx_new_id cx) (AuthorizeDispatch (cx_env cx) s i v)"
proof -
  have read: "read_dispatch (with_texts (version_members v)) = Some v"
    using assms(4) by (simp add: version_members_def read_hints del: field.simps)
  have "decodeJSON cx dispatch_names read_dispatch (sent c i (marshal (JObj (version_members v)))) = Inr v"
    by (rule decode_sent [where ms = "version_members v"]) (use assms(5) read in \<open>simp_all add: version_members_def dispatch_names_def\<close>)
  then have "serve_route sv cx s DispatchRoute (sent c i (marshal (JObj (version_members v))))
      = respond_db cx (sent c i (marshal (JObj (version_members v)))) 200 operation_body (AuthorizeDispatch (cx_env cx) s i v)"
    using assms(2,3) by (simp add: authorizeDispatch_def del: marshal.simps)
  from remote_served [OF this _ _ operation_fits_fits [OF assms(6)] operation_path_segments routed_operations(1)] assms(1,2) show ?thesis
    unfolding text_hints version_members_def by simp
qed

lemma remote_retry:
  assumes "worker_client sv c" and "plain_id cx i" and "1 \<le> v" and "int64_range v" and "reason \<noteq> []"
    and "sends [(''expected_version'', int_json v), (''reason'', JStr reason)]"
    and "operation_fits (cx_new_id cx) (fst (BeginRetry (cx_env cx) s i v reason))"
  shows "client_BeginRetry (serve_http sv cx (ct_baseURL c)) c i v reason s
    = answered (cx_new_id cx) (BeginRetry (cx_env cx) s i v reason)"
proof -
  let ?ms = "[(''expected_version'', int_json v), (''reason'', JStr reason)]"
  have "read_version_reason (with_texts ?ms) = Some \<lparr>vp_ExpectedVersion = v, vp_Reason = reason, vp_Actor = []\<rparr>"
    using assms(4) by (simp add: read_hints del: field.simps)
  then have "decodeJSON cx version_reason_names read_version_reason (sent c i (marshal (JObj ?ms)))
      = Inr \<lparr>vp_ExpectedVersion = v, vp_Reason = reason, vp_Actor = []\<rparr>"
    by (rule decode_sent [OF assms(6), rotated]) (simp add: version_reason_names_def)
  then have "serve_route sv cx s BeginRetryRoute (sent c i (marshal (JObj ?ms)))
      = respond_db cx (sent c i (marshal (JObj ?ms))) 200 operation_body (BeginRetry (cx_env cx) s i v reason)"
    using assms(2,3,5) by (simp add: beginRetry_def del: marshal.simps)
  from remote_served [OF this _ _ operation_fits_fits [OF assms(7)] operation_path_segments routed_operations(3)] assms(1,2)
  show ?thesis unfolding text_hints by simp
qed

lemma remote_reconcile:
  assumes "admin_client sv c" and "plain_id cx i" and "1 \<le> v" and "int64_range v" and "actor \<noteq> []" and "reason \<noteq> []"
    and "sends [(''actor'', JStr actor), (''expected_version'', int_json v), (''reason'', JStr reason)]"
    and "operation_fits (cx_new_id cx) (fst (RequestReconciliation (cx_env cx) s i v actor reason))"
  shows "client_RequestReconciliation (serve_http sv cx (ct_baseURL c)) c i v actor reason s
    = answered (cx_new_id cx) (RequestReconciliation (cx_env cx) s i v actor reason)"
proof -
  let ?ms = "[(''actor'', JStr actor), (''expected_version'', int_json v), (''reason'', JStr reason)]"
  have "read_version_reason (with_texts ?ms) = Some \<lparr>vp_ExpectedVersion = v, vp_Reason = reason, vp_Actor = actor\<rparr>"
    using assms(4) by (simp add: read_hints del: field.simps)
  then have "decodeJSON cx version_reason_names read_version_reason (sent c i (marshal (JObj ?ms)))
      = Inr \<lparr>vp_ExpectedVersion = v, vp_Reason = reason, vp_Actor = actor\<rparr>"
    by (rule decode_sent [OF assms(7), rotated]) (simp add: version_reason_names_def)
  then have "serve_route sv cx s ReconciliationRoute (sent c i (marshal (JObj ?ms)))
      = respond_db cx (sent c i (marshal (JObj ?ms))) 202 operation_body (RequestReconciliation (cx_env cx) s i v actor reason)"
    using assms(2,3,5,6) by (simp add: requestReconciliation_def Let_def del: marshal.simps)
  from remote_served [OF this _ _ operation_fits_fits [OF assms(8)] operation_path_segments routed_operations(4)] assms(1,2)
  show ?thesis unfolding text_hints by simp
qed

lemma remote_manual:
  assumes "admin_client sv c" and "plain_id cx i" and "1 \<le> mr_ExpectedVersion m" and "int64_range (mr_ExpectedVersion m)"
    and "mr_Actor m \<noteq> []" "mr_Outcome m \<noteq> []" "mr_Reason m \<noteq> []" "mr_EvidenceReference m \<noteq> []"
    and "sends [(''actor'', JStr (mr_Actor m)), (''evidence_reference'', JStr (mr_EvidenceReference m)),
        (''expected_version'', int_json (mr_ExpectedVersion m)), (''outcome'', JStr (mr_Outcome m)), (''reason'', JStr (mr_Reason m))]"
    and "operation_fits (cx_new_id cx) (fst (ManualResolve (cx_env cx) s i m))"
  shows "client_ManualResolve (serve_http sv cx (ct_baseURL c)) c i (mr_ExpectedVersion m) (mr_Actor m) (mr_Outcome m)
      (mr_Reason m) (mr_EvidenceReference m) s = answered (cx_new_id cx) (ManualResolve (cx_env cx) s i m)"
proof -
  let ?ms = "[(''actor'', JStr (mr_Actor m)), (''evidence_reference'', JStr (mr_EvidenceReference m)),
        (''expected_version'', int_json (mr_ExpectedVersion m)), (''outcome'', JStr (mr_Outcome m)), (''reason'', JStr (mr_Reason m))]"
  have "read_manual (with_texts ?ms) = Some m"
    using assms(4) by (simp add: read_hints del: field.simps)
  then have "decodeJSON cx manual_names read_manual (sent c i (marshal (JObj ?ms))) = Inr m"
    by (rule decode_sent [OF assms(9), rotated]) (simp add: manual_names_def)
  then have "serve_route sv cx s ManualRoute (sent c i (marshal (JObj ?ms)))
      = respond_db cx (sent c i (marshal (JObj ?ms))) 200 operation_body (ManualResolve (cx_env cx) s i m)"
    using assms(2,3,5-8) by (simp add: manualResolution_def del: marshal.simps)
  from remote_served [OF this _ _ operation_fits_fits [OF assms(10)] operation_path_segments routed_operations(5)] assms(1,2)
  show ?thesis unfolding text_hints by simp
qed


lemma milliseconds_exact: "millisecond dvd d \<Longrightarrow> 0 \<le> d \<Longrightarrow> milliseconds d * millisecond = d"
  by (simp add: milliseconds_def millisecond_def)

lemma milliseconds_range:
  assumes "5 * second \<le> d" and "d \<le> 300 * second"
  shows "5000 \<le> milliseconds d" "milliseconds d \<le> 300000" "int64_range (milliseconds d)"
proof -
  show *: "5000 \<le> milliseconds d" "milliseconds d \<le> 300000"
    using assms by (simp_all add: milliseconds_def second_def millisecond_def)
  show "int64_range (milliseconds d)" using * by (simp add: int64_range_def)
qed

lemma remote_claim:
  assumes "admin_client sv c" and "worker \<noteq> []" and "1 \<le> limit" and "limit \<le> 100"
    and "millisecond dvd lease" and "5 * second \<le> lease" and "lease \<le> 300 * second"
    and "sends [(''lease_duration_ms'', int_json (milliseconds lease)), (''limit'', int_json limit), (''worker_id'', JStr worker)]"
    and "claims_fit (cx_new_id cx) (fst (ClaimRecovery (cx_env cx) s worker limit lease (sa_preparedGrace sv)))"
  shows "client_ClaimRecovery (serve_http sv cx (ct_baseURL c)) c worker limit lease s
    = answered (cx_new_id cx) (ClaimRecovery (cx_env cx) s worker limit lease (sa_preparedGrace sv))"
proof -
  let ?ms = "[(''lease_duration_ms'', int_json (milliseconds lease)), (''limit'', int_json limit), (''worker_id'', JStr worker)]"
  let ?p = "\<lparr>cp_WorkerID = worker, cp_Limit = limit, cp_LeaseDurationMS = milliseconds lease\<rparr>"
  have ms: "5000 \<le> milliseconds lease" "milliseconds lease \<le> 300000" "int64_range (milliseconds lease)"
    using milliseconds_range assms(6,7) by simp_all
  have exact: "milliseconds lease * millisecond = lease"
    using milliseconds_exact [OF assms(5)] assms(6) by (simp add: second_def millisecond_def)
  have "int64_range limit" using assms(3,4) by (simp add: int64_range_def)
  then have "read_claim (with_texts ?ms) = Some ?p"
    using ms(3) by (simp add: read_hints del: field.simps)
  then have "decodeJSON cx claim_names read_claim (sent c [] (marshal (JObj ?ms))) = Inr ?p"
    by (rule decode_sent [OF assms(8), rotated]) (simp add: claim_names_def)
  then have "serve_route sv cx s ClaimRoute (sent c [] (marshal (JObj ?ms)))
      = respond_db cx (sent c [] (marshal (JObj ?ms))) 200 claims_body
          (ClaimRecovery (cx_env cx) s worker limit lease (sa_preparedGrace sv))"
    using assms(2-4) ms exact by (simp add: claimRecovery_def Let_def del: marshal.simps)
  from remote_served [OF this _ _ claims_fit_fits [OF assms(9)] sample_routes(1) _ sample_routes(2)] assms(1)
  show ?thesis unfolding text_hints by simp
qed

lemma remote_renew:
  assumes "admin_client sv c" and "plain_id cx i" and "token \<noteq> []"
    and "millisecond dvd lease" and "5 * second \<le> lease" and "lease \<le> 300 * second"
    and "sends [(''claim_token'', JStr token), (''lease_duration_ms'', int_json (milliseconds lease))]"
    and "lease_fits (cx_new_id cx) (fst (RenewClaim (cx_env cx) s i token lease))"
  shows "client_RenewClaim (serve_http sv cx (ct_baseURL c)) c i token lease s
    = answered (cx_new_id cx) (RenewClaim (cx_env cx) s i token lease)"
proof -
  let ?ms = "[(''claim_token'', JStr token), (''lease_duration_ms'', int_json (milliseconds lease))]"
  let ?p = "\<lparr>np_ClaimToken = token, np_LeaseDurationMS = milliseconds lease\<rparr>"
  have ms: "5000 \<le> milliseconds lease" "milliseconds lease \<le> 300000" "int64_range (milliseconds lease)"
    using milliseconds_range assms(5,6) by simp_all
  have exact: "milliseconds lease * millisecond = lease"
    using milliseconds_exact [OF assms(4)] assms(5) by (simp add: second_def millisecond_def)
  have "read_renew (with_texts ?ms) = Some ?p"
    using ms(3) by (simp add: read_hints del: field.simps)
  then have "decodeJSON cx renew_names read_renew (sent c i (marshal (JObj ?ms))) = Inr ?p"
    by (rule decode_sent [OF assms(7), rotated]) (simp add: renew_names_def)
  then have "serve_route sv cx s RenewRoute (sent c i (marshal (JObj ?ms)))
      = respond_db cx (sent c i (marshal (JObj ?ms))) 200 lease_body (RenewClaim (cx_env cx) s i token lease)"
    using assms(2,3) ms exact by (simp add: renewClaim_def Let_def del: marshal.simps)
  from remote_served [OF this _ _ lease_fits_fits [OF assms(8)] claim_path_segments routed_operations(6)] assms(1,2)
  show ?thesis unfolding text_hints by simp
qed

text \<open>Raw members: what the program sends is printed by \<open>Marshal\<close>.\<close>

definition printed :: "string \<Rightarrow> bool" where
  "printed raw \<longleftrightarrow> (\<exists>v. printable v \<and> depth v \<le> max_depth \<and> raw = marshal v)"

definition tree_of :: "string \<Rightarrow> json" where
  "tree_of raw = (case decode_all raw of Some v \<Rightarrow> v | None \<Rightarrow> JNull)"

lemma printed_tree: "printed raw \<Longrightarrow> marshal (tree_of raw) = raw \<and> raw_text raw = Some raw \<and> raw \<noteq> []
    \<and> printable (tree_of raw)"
  using raw_text_marshal decode_all_marshal marshal_front
  by (fastforce simp: printed_def tree_of_def)

definition confirm_members :: "ConfirmRequest \<Rightarrow> (string \<times> json) list" where
  "confirm_members r = [(''expected_version'', int_json (cr_ExpectedVersion r)),
     (''service_receipt_id'', JStr (cr_ServiceReceiptID r)), (''receipt'', tree_of (cr_Receipt r)),
     (''received_at'', time_json (cr_ReceivedAt r))]"

lemma remote_confirm:
  assumes "worker_client sv c" and "plain_id cx i" and "1 \<le> cr_ExpectedVersion r" and "int64_range (cr_ExpectedVersion r)"
    and "cr_ServiceReceiptID r \<noteq> []" and "printed (cr_Receipt r)" and "writable (cr_ReceivedAt r)" and "cr_ReceivedAt r \<noteq> zero_time"
    and "sends (confirm_members r)" and "operation_fits (cx_new_id cx) (fst (Confirm (cx_env cx) s i r))"
  shows "client_Confirm (serve_http sv cx (ct_baseURL c)) c i r s = answered (cx_new_id cx) (Confirm (cx_env cx) s i r)"
proof -
  let ?ms = "confirm_members r"
  note receipt = printed_tree [OF assms(6)]
  have names: "plain_names ?ms" by (simp add: confirm_members_def)
  have lookup: "map_of ?ms ''expected_version'' = Some (int_json (cr_ExpectedVersion r))"
    "map_of ?ms ''service_receipt_id'' = Some (JStr (cr_ServiceReceiptID r))"
    "map_of ?ms ''receipt'' = Some (tree_of (cr_Receipt r))" "map_of ?ms ''received_at'' = Some (time_json (cr_ReceivedAt r))"
    by (simp_all add: confirm_members_def)
  have "read_confirm (with_texts ?ms) = Some r"
    using assms(4,7) receipt
    by (simp add: read_confirm_def field_texts field_plain [OF names] raw_field_over raw_plain [OF names] lookup)
  then have "decodeJSON cx confirm_names read_confirm (sent c i (marshal (JObj ?ms))) = Inr r"
    by (rule decode_sent [OF assms(9), rotated]) (simp add: confirm_members_def confirm_names_def)
  then have served: "serve_route sv cx s ConfirmRoute (sent c i (marshal (JObj ?ms)))
      = respond_db cx (sent c i (marshal (JObj ?ms))) 200 operation_body (Confirm (cx_env cx) s i r)"
    using assms(2,3,5,8) receipt by (simp add: confirm_def Let_def del: marshal.simps)
  have "confirm_text r = Some (object_text (tree_texts ?ms))"
    using receipt assms(7) by (simp add: confirm_text_def time_text_def confirm_members_def tree_texts_simps)
  then have "confirm_text r = Some (marshal (JObj ?ms))" by (simp only: object_text_marshal)
  with remote_served [OF served _ _ operation_fits_fits [OF assms(10)] operation_path_segments routed_operations(2)] assms(1,2)
  show ?thesis unfolding client_Confirm_def by simp
qed


text \<open>An observation inside a recovery result.\<close>

definition observation_members :: "Observation \<Rightarrow> (string \<times> json) list" where
  "observation_members ob = [(''mechanism'', JStr (mechanism_string (ob_Mechanism ob))),
     (''outcome'', JStr (outcome_string (ob_Outcome ob))), (''authoritative'', JBool (ob_Authoritative ob))]
     @ omit_empty ''external_reference'' (if ob_ExternalReference ob = [] then None else Some (JStr (ob_ExternalReference ob)))
     @ [(''evidence'', tree_of (ob_Evidence ob))]"

definition wire_observation :: "Observation \<Rightarrow> bool" where
  "wire_observation ob \<longleftrightarrow> mechanism_of_string (mechanism_string (ob_Mechanism ob)) = ob_Mechanism ob
     \<and> outcome_of_string (outcome_string (ob_Outcome ob)) = ob_Outcome ob \<and> printed (ob_Evidence ob)"

lemma observation_printed:
  assumes "wire_observation ob"
  shows "observation_text ob = Some (marshal (JObj (observation_members ob)))"
proof -
  have "observation_text ob = Some (object_text (tree_texts (observation_members ob)))"
    using printed_tree [of "ob_Evidence ob"] assms
    by (simp add: observation_text_def wire_observation_def observation_members_def tree_texts_append tree_texts_simps)
  then show ?thesis by (simp only: object_text_marshal)
qed

lemma observation_read:
  assumes "wire_observation ob" and "printable_members (observation_members ob)"
    and "depth_members (observation_members ob) \<le> max_depth"
  shows "read_observation zero_observation (marshal (JObj (observation_members ob))) = Some ob"
proof -
  let ?ms = "observation_members ob"
  have names: "plain_names ?ms" by (simp add: observation_members_def plain_names_append)
  have lookup: "map_of ?ms ''mechanism'' = Some (JStr (mechanism_string (ob_Mechanism ob)))"
    "map_of ?ms ''outcome'' = Some (JStr (outcome_string (ob_Outcome ob)))"
    "map_of ?ms ''authoritative'' = Some (JBool (ob_Authoritative ob))"
    "map_of ?ms ''external_reference'' = (if ob_ExternalReference ob = [] then None else Some (JStr (ob_ExternalReference ob)))"
    "map_of ?ms ''evidence'' = Some (tree_of (ob_Evidence ob))"
    by (simp_all add: observation_members_def map_add_def split: option.split)
  have "known observation_names (with_texts ?ms)"
    by (rule known_texts) (simp add: observation_members_def observation_names_def image_Un)
  then show ?thesis
    using object_members_marshal [OF assms(2,3)] assms(1) printed_tree [of "ob_Evidence ob"]
    by (simp add: read_observation_def field_plain [OF names] raw_plain [OF names] lookup zero_observation_def
        wire_observation_def del: marshal.simps)
qed

lemma observation_absent:
  "list_all (\<lambda>(k, v). lower k) ms \<Longrightarrow> ''observation'' \<notin> fst ` set ms \<Longrightarrow> observation_field ob (with_texts ms) = Some ob"
  by (induction ms) (auto simp: equal_fold_lower with_texts_def)

lemma observation_plain:
  assumes "plain_names ms" and "map_of ms ''observation'' = Some (JObj os)"
  shows "observation_field ob (with_texts ms) = read_observation ob (marshal (JObj os))"
  using assms
proof (induction ms)
  case (Cons kv ms)
  obtain k v where kv: "kv = (k, v)" by (cases kv)
  have low: "list_all (\<lambda>(k, v). lower k) ms" using Cons.prems kv by (simp add: plain_names_def)
  show ?case
  proof (cases "k = ''observation''")
    case True
    then have "''observation'' \<notin> fst ` set ms" "v = JObj os" using Cons.prems kv by simp_all
    then show ?thesis using True kv observation_absent [OF low]
      by (cases "read_observation ob (marshal (JObj os))") (simp_all add: with_texts_def equal_fold_def del: marshal.simps)
  next
    case False
    then show ?thesis using Cons kv by (simp add: equal_fold_lower with_texts_def)
  qed
qed simp

definition result_members :: "RecoveryClaim \<Rightarrow> Observation \<Rightarrow> (string \<times> json) list" where
  "result_members cl ob = [(''attempt_id'', JStr (cl_AttemptID cl)), (''claim_token'', JStr (cl_ClaimToken cl)),
     (''expected_version'', int_json (cl_Version cl)), (''observation'', JObj (observation_members ob))]"

lemma remote_submit:
  assumes "admin_client sv c" and "plain_id cx i" and "plain_id cx (cl_AttemptID cl)" and "cl_ClaimToken cl \<noteq> []"
    and "1 \<le> cl_Version cl" and "int64_range (cl_Version cl)" and "wire_observation ob"
    and "sends (result_members cl ob)"
    and "operation_fits (cx_new_id cx) (fst (SubmitRecoveryResult (cx_env cx) s i (claim_result cl ob)))"
  shows "client_SubmitRecoveryResult (serve_http sv cx (ct_baseURL c)) c i cl ob s
    = answered (cx_new_id cx) (SubmitRecoveryResult (cx_env cx) s i (claim_result cl ob))"
proof -
  let ?ms = "result_members cl ob"
  have names: "plain_names ?ms" by (simp add: result_members_def)
  have lookup: "map_of ?ms ''attempt_id'' = Some (JStr (cl_AttemptID cl))"
    "map_of ?ms ''claim_token'' = Some (JStr (cl_ClaimToken cl))"
    "map_of ?ms ''expected_version'' = Some (int_json (cl_Version cl))"
    "map_of ?ms ''observation'' = Some (JObj (observation_members ob))"
    by (simp_all add: result_members_def)
  have "read_observation zero_observation (marshal (JObj (observation_members ob))) = Some ob"
    by (rule observation_read [OF assms(7)]) (use assms(8) in \<open>simp_all add: sends_def result_members_def max_depth_def\<close>)
  then have "read_recovery_result (with_texts ?ms) = Some (claim_result cl ob)"
    using assms(6)
    by (simp add: read_recovery_result_def field_texts field_plain [OF names] observation_plain [OF names lookup(4)] lookup
        claim_result_def del: marshal.simps)
  then have "decodeJSON cx recovery_result_names read_recovery_result (sent c i (marshal (JObj ?ms))) = Inr (claim_result cl ob)"
    by (rule decode_sent [OF assms(8), rotated]) (simp add: result_members_def recovery_result_names_def)
  then have served: "serve_route sv cx s ResultRoute (sent c i (marshal (JObj ?ms)))
      = respond_db cx (sent c i (marshal (JObj ?ms))) 200 operation_body
          (SubmitRecoveryResult (cx_env cx) s i (claim_result cl ob))"
    using assms(2,3,4,5) unplain [OF assms(3)] by (simp add: recoveryResult_def claim_result_def del: marshal.simps)
  have "object_text [(''attempt_id'', marshal_string (cl_AttemptID cl)), (''claim_token'', marshal_string (cl_ClaimToken cl)),
      (''expected_version'', marshal (int_json (cl_Version cl))), (''observation'', marshal (JObj (observation_members ob)))]
      = object_text (tree_texts ?ms)"
    by (simp only: result_members_def tree_texts_simps marshal.simps(4))
  with remote_served [OF served _ _ operation_fits_fits [OF assms(9)] claim_path_segments routed_operations(7)] assms(1,2)
  show ?thesis unfolding client_SubmitRecoveryResult_def observation_printed [OF assms(7)] by (simp add: object_text_marshal del: marshal.simps)
qed


text \<open>Preparing: the fingerprint the store gets is the server's.\<close>

definition request_members :: "PrepareRequest \<Rightarrow> (string \<times> json) list" where
  "request_members p = [(''workflow_id'', JStr (pr_WorkflowID p)), (''strategy'', JStr (strategy_string (pr_Strategy p)))]
     @ omit_empty ''experiment_run_id'' (map_option JStr (pr_ExperimentRunID p))
     @ [(''logical_key'', JStr (pr_LogicalKey p)), (''target_service'', JStr (pr_TargetService p)),
        (''action'', JStr (pr_Action p)), (''request'', tree_of (pr_Request p))]
     @ omit_empty ''request_fingerprint'' (if pr_RequestFingerprint p = [] then None else Some (JStr (pr_RequestFingerprint p)))
     @ [(''expected_effect'', tree_of (pr_ExpectedEffect p)), (''capability_profile'', JStr (pr_CapabilityProfile p))]
     @ omit_empty ''trace_context'' (if pr_TraceContext p = [] then None else Some (tree_of (pr_TraceContext p)))"

definition wire_request :: "PrepareRequest \<Rightarrow> bool" where
  "wire_request p \<longleftrightarrow> ValidStrategy (pr_Strategy p) \<and> printed (pr_Request p) \<and> printed (pr_ExpectedEffect p)
     \<and> (pr_TraceContext p = [] \<or> printed (pr_TraceContext p))"

lemma request_names: "plain_names (request_members p)"
  by (simp add: request_members_def plain_names_append image_Un)

lemma request_lookup:
  "map_of (request_members p) ''workflow_id'' = Some (JStr (pr_WorkflowID p))"
  "map_of (request_members p) ''strategy'' = Some (JStr (strategy_string (pr_Strategy p)))"
  "map_of (request_members p) ''experiment_run_id'' = map_option JStr (pr_ExperimentRunID p)"
  "map_of (request_members p) ''logical_key'' = Some (JStr (pr_LogicalKey p))"
  "map_of (request_members p) ''target_service'' = Some (JStr (pr_TargetService p))"
  "map_of (request_members p) ''action'' = Some (JStr (pr_Action p))"
  "map_of (request_members p) ''request'' = Some (tree_of (pr_Request p))"
  "map_of (request_members p) ''request_fingerprint''
     = (if pr_RequestFingerprint p = [] then None else Some (JStr (pr_RequestFingerprint p)))"
  "map_of (request_members p) ''expected_effect'' = Some (tree_of (pr_ExpectedEffect p))"
  "map_of (request_members p) ''capability_profile'' = Some (JStr (pr_CapabilityProfile p))"
  "map_of (request_members p) ''trace_context''
     = (if pr_TraceContext p = [] then None else Some (tree_of (pr_TraceContext p)))"
  by (simp_all add: request_members_def map_add_def split: option.split)

lemma strategy_round: "ValidStrategy st \<Longrightarrow> strategy_of_string (strategy_string st) = st"
  by (cases st) (simp_all add: strategy_of_string_def)

lemma request_printed:
  assumes "wire_request p"
  shows "prepare_text p = Some (marshal (JObj (request_members p)))"
proof -
  have "raw_text (pr_TraceContext p) = Some (if pr_TraceContext p = [] then ''null'' else pr_TraceContext p)"
    using assms printed_tree [of "pr_TraceContext p"] by (auto simp: wire_request_def raw_text_def)
  then have "prepare_text p = Some (object_text (tree_texts (request_members p)))"
    using assms printed_tree [of "pr_Request p"] printed_tree [of "pr_ExpectedEffect p"] printed_tree [of "pr_TraceContext p"]
    by (auto simp: prepare_text_def wire_request_def request_members_def tree_texts_append tree_texts_simps omit_empty_def)
  then show ?thesis by (simp only: object_text_marshal)
qed

lemma request_read:
  assumes "wire_request p"
  shows "read_prepare (with_texts (request_members p)) = Some p"
proof -
  have trees: "marshal (tree_of (pr_Request p)) = pr_Request p" "marshal (tree_of (pr_ExpectedEffect p)) = pr_ExpectedEffect p"
    "pr_TraceContext p \<noteq> [] \<Longrightarrow> marshal (tree_of (pr_TraceContext p)) = pr_TraceContext p"
    using assms printed_tree by (auto simp: wire_request_def)
  have "ptr_field ''experiment_run_id'' None (with_texts (request_members p)) = Some (pr_ExperimentRunID p)"
    by (cases "pr_ExperimentRunID p") (simp_all add: ptr_plain [OF request_names] request_lookup)
  then show ?thesis
    using assms trees by (simp add: read_prepare_def field_texts field_plain [OF request_names] raw_field_over
        raw_plain [OF request_names] request_lookup strategy_round wire_request_def)
qed

definition run_plain :: "api_context \<Rightarrow> PrepareRequest \<Rightarrow> bool" where
  "run_plain cx p \<longleftrightarrow> (case pr_ExperimentRunID p of None \<Rightarrow> True | Some run \<Rightarrow> cx_cast cx run = Some run)"

definition only_operation :: "(error + (Operation \<times> bool)) \<times> db \<Rightarrow> (error + Operation) \<times> db" where
  "only_operation out = (case out of (Inl err, s) \<Rightarrow> (Inl err, s) | (Inr (op, created), s) \<Rightarrow> (Inr op, s))"

lemma remote_prepare:
  assumes "worker_client sv c" and "wire_request p" and "run_plain cx p" and "sends (request_members p)"
    and "validatePrepare (cx_valid cx) p = Inr ()"
    and "Fingerprint (pr_TargetService p) (pr_Action p) (pr_Request p) = Inr fp"
    and "pr_RequestFingerprint p = [] \<or> equal_fold (pr_RequestFingerprint p) fp"
    and "operation_fits (cx_new_id cx) (fst (only_operation (Prepare (cx_env cx) s (p\<lparr>pr_RequestFingerprint := fp\<rparr>))))"
  shows "client_Prepare (serve_http sv cx (ct_baseURL c)) c p s
    = answered (cx_new_id cx) (only_operation (Prepare (cx_env cx) s (p\<lparr>pr_RequestFingerprint := fp\<rparr>)))"
proof -
  let ?ms = "request_members p"
  let ?rq = "sent c [] (marshal (JObj ?ms))"
  have "decodeJSON cx prepare_names read_prepare ?rq = Inr p"
    by (rule decode_sent [OF assms(4), where read = read_prepare])
      (simp_all add: request_read [OF assms(2)], simp add: request_members_def prepare_names_def image_Un)
  moreover have "prepare_call cx s (p\<lparr>pr_RequestFingerprint := fp\<rparr>) = Prepare (cx_env cx) s (p\<lparr>pr_RequestFingerprint := fp\<rparr>)"
    using assms(3) by (auto simp: prepare_call_def run_plain_def Let_def split: option.splits)
  moreover have "respond_prepared cx ?rq out = respond_db cx ?rq (if \<exists>op s. out = (Inr (op, False), s) then 200 else 201)
      operation_body (only_operation out)" for out
    by (auto simp: respond_prepared_def only_operation_def respond_db_def respond_def split: prod.split sum.split)
  ultimately have served: "serve_route sv cx s PrepareRoute ?rq
      = respond_db cx ?rq (if \<exists>op s'. Prepare (cx_env cx) s (p\<lparr>pr_RequestFingerprint := fp\<rparr>) = (Inr (op, False), s') then 200 else 201)
          operation_body (only_operation (Prepare (cx_env cx) s (p\<lparr>pr_RequestFingerprint := fp\<rparr>)))"
    using assms(5-7) by (auto simp: prepare_def simp del: marshal.simps)
  from remote_served [OF served _ _ operation_fits_fits [OF assms(8)] sample_routes(3) _ sample_routes(4)] assms(1)
  show ?thesis unfolding client_Prepare_def request_printed [OF assms(2)] by simp
qed


section \<open>Reads\<close>

text \<open>A query survives its escaping.\<close>

lemma upper_nibble_hex: "n < 16 \<Longrightarrow> hex_val (upper_nibble n) = n"
  by (auto simp: upper_nibble_def hex_val_def is_digit_def)

lemma byte_nibbles: "byte c div 16 < 16" "byte c mod 16 < 16"
  using of_char_less [of c] by (simp_all add: less_mult_imp_div_less)

lemma unescape_escape: "query_unescape (query_escape s @ t) = s @ query_unescape t"
proof (induction s)
  case (Cons c s)
  have "c \<noteq> CHR ''+'' \<and> c \<noteq> CHR ''%''" if "unreserved c" using that by (auto simp: unreserved_def)
  then show ?case
    using Cons by (auto simp: query_escape_def upper_nibble_hex [OF byte_nibbles(1)] upper_nibble_hex [OF byte_nibbles(2)] unreserved_def)
qed (simp add: query_escape_def)

definition query_safe :: "char \<Rightarrow> bool" where
  "query_safe c \<longleftrightarrow> c \<noteq> CHR ''&'' \<and> c \<noteq> CHR ''='' \<and> c \<noteq> CHR ''?''"

lemma upper_nibble_safe: "n < 16 \<Longrightarrow> query_safe (upper_nibble n)"
proof -
  assume "n < 16"
  then have "byte (upper_nibble n) \<notin> {38, 61, 63}" by (auto simp: upper_nibble_def)
  then show ?thesis by (auto simp: query_safe_def)
qed

lemma escape_safe: "list_all query_safe (query_escape s)"
proof (induction s)
  case (Cons c s)
  have "query_safe c" if "unreserved c" using that by (auto simp: unreserved_def query_safe_def)
  then show ?case
    using Cons upper_nibble_safe [OF byte_nibbles(1)] upper_nibble_safe [OF byte_nibbles(2)]
    by (auto simp: query_escape_def query_safe_def)
qed (simp add: query_escape_def)

lemma split_on_here: "d \<notin> set x \<Longrightarrow> split_on d (x @ d # r) = x # split_on d r"
  by (induction x) auto

lemma split_on_last: "d \<notin> set x \<Longrightarrow> split_on d x = [x]"
  by (induction x) auto

lemma parse_pair_escaped: "parse_pair (query_escape k @ CHR ''='' # query_escape v) = (k, v)"
proof -
  have eq: "list_all (\<lambda>c. c \<noteq> CHR ''='') (query_escape k)"
    using escape_safe [of k] by (simp add: list_all_iff query_safe_def)
  have cut: "takeWhile (\<lambda>c. c \<noteq> CHR ''='') (x @ CHR ''='' # y) = x \<and> dropWhile (\<lambda>c. c \<noteq> CHR ''='') (x @ CHR ''='' # y) = CHR ''='' # y"
    if "list_all (\<lambda>c. c \<noteq> CHR ''='') x" for x y :: string
    using that by (induction x) auto
  show ?thesis
    using cut [OF eq] unescape_escape [of k "[]"] unescape_escape [of v "[]"] by (simp add: parse_pair_def)
qed

lemma parse_query_pairs: "parse_query (query_pairs kvs) = kvs"
proof -
  have no_amp: "CHR ''&'' \<notin> set (query_escape k @ CHR ''='' # query_escape v)" for k v
    using escape_safe [of k] escape_safe [of v] by (auto simp: list_all_iff query_safe_def)
  have "map parse_pair (split_on CHR ''&'' (query_pairs (kv # kvs))) = kv # kvs" for kv and kvs :: "(string \<times> string) list"
  proof (induction kvs arbitrary: kv)
    case Nil
    show ?case using split_on_last [OF no_amp [of "fst kv" "snd kv"]] by (simp add: parse_pair_escaped)
  next
    case (Cons kv' kvs)
    show ?case using split_on_here [OF no_amp [of "fst kv" "snd kv"], of "query_pairs (kv' # kvs)"] Cons
      by (simp add: parse_pair_escaped)
  qed
  then show ?thesis by (cases kvs) (simp_all add: parse_query_def)
qed

text \<open>The request a call without a body becomes, with or without a query.\<close>

definition asked :: "client \<Rightarrow> string \<Rightarrow> (string \<times> string) list \<Rightarrow> request" where
  "asked c i kvs = \<lparr>rq_param = i, rq_query = kvs, rq_headers = call_headers c False, rq_body = []\<rparr>"

lemma asked_simps [simp]: "rq_param (asked c i kvs) = i" "query (asked c i kvs) name = (case map_of kvs name of Some v \<Rightarrow> v | None \<Rightarrow> [])"
  "requestID cx (asked c i kvs) = cx_new_id cx"
  by (simp_all add: asked_def query_def requestID_def header_def call_headers_def)

lemma remote_get:
  assumes "target = path \<and> kvs = [] \<or> target = path @ query_text kvs"
    and "CHR ''?'' \<notin> set path" and "path_segments path = Some segs"
    and "routed ''GET'' segs = Some (entry ''GET'' pattern acc route, i)"
    and "access_token sv acc = Some (ct_token c)" and "ct_token c \<noteq> []"
  shows "do_call (serve_http sv cx (ct_baseURL c)) c ''GET'' target None decode s
    = map_prod (\<lambda>a. read_answer decode (server_answer a)) id (serve_route sv cx s route (asked c i kvs))"
proof -
  let ?hm = "\<lparr>hm_method = ''GET'', hm_path = path, hm_query = kvs, hm_headers = call_headers c False, hm_body = []\<rparr>"
  have "bearer_ok (ct_token c) (asked c i kvs)"
    using bearer_headers [OF assms(6), of "asked c i kvs" False] by (simp add: asked_def)
  moreover have "to_request ?hm i = asked c i kvs" by (simp add: to_request_def asked_def)
  ultimately have api: "ApiHandler sv cx s ?hm = serve_route sv cx s route (asked c i kvs)"
    using assms(3-5) by (simp add: ApiHandler_def Let_def authenticate_def del: bearer_ok_param)
  have cut: "takeWhile (\<lambda>c. c \<noteq> CHR ''?'') (path @ CHR ''?'' # r) = path \<and> dropWhile (\<lambda>c. c \<noteq> CHR ''?'') (path @ CHR ''?'' # r) = CHR ''?'' # r" for r
    using assms(2) by (induction path) auto
  have "to_message target \<lparr>hc_method = ''GET'', hc_url = ct_baseURL c @ target, hc_headers = call_headers c False, hc_body = []\<rparr> = ?hm"
    using assms(1)
  proof
    assume "target = path \<and> kvs = []"
    then show ?thesis using take_no_query [OF assms(2)]
      unfolding to_message_def by (simp add: parse_query_def del: takeWhile_eq_all_conv dropWhile_eq_Nil_conv)
  next
    assume "target = path @ query_text kvs"
    then show ?thesis using cut [of "query_pairs kvs"] parse_query_pairs [of kvs] by (simp add: to_message_def query_text_def)
  qed
  then show ?thesis by (simp add: do_call_def serve_http_def Let_def api split: prod.split)
qed


definition response_of :: "string \<Rightarrow> error + 'a \<Rightarrow> failure + 'a" where
  "response_of rid r = (case r of Inl err \<Rightarrow> Inl (Refused (remote_error rid err)) | Inr x \<Rightarrow> Inr x)"

lemma respond_read:
  assumes "fits (requestID cx rq) body decode r"
  shows "read_answer decode (server_answer (respond cx rq 200 body r)) = response_of (requestID cx rq) r"
  using respond_answered [of cx rq body decode "(r, undefined)" 200] assms
  by (simp add: respond_db_def answered_def response_of_def)

lemma remote_get_operation:
  assumes "worker_client sv c" and "plain_id cx i"
    and "operation_fits (cx_new_id cx) (GetOperation (cx_env cx) s s i)"
  shows "client_GetOperation (serve_http sv cx (ct_baseURL c)) c i s
    = (response_of (cx_new_id cx) (GetOperation (cx_env cx) s s i), s)"
proof -
  have path: "path_segments (operation_path i []) = Some [''v1'', ''operations'', i]" "CHR ''?'' \<notin> set (operation_path i [])"
    using assms(2) unreserved_no_mark [OF unreserved_plain(1) [OF assms(2)]]
    by (simp_all add: operation_path_def path_escape_plain path_segments_def split_path_last)
  have "getOperation cx s s (asked c i []) = respond cx (asked c i []) 200 operation_body (GetOperation (cx_env cx) s s i)"
    using assms(2) by (simp add: getOperation_def check_id_def unplain)
  with remote_get [of "operation_path i []" _ "[]", OF _ path(2,1) routed_operations(8), where sv = sv and c = c
      and decode = decode_operation and s = s and cx = cx] assms(1,2)
    respond_read [of cx "asked c i []", OF operation_fits_fits [OF assms(3), folded asked_simps(3) [of cx c i "[]"]]]
  show ?thesis unfolding client_GetOperation_def by simp
qed

text \<open>Limits travel in decimal; an absent one is the server's fifty.\<close>

lemma parse_limit: "1 \<le> n \<Longrightarrow> n \<le> 200 \<Longrightarrow> parseLimit (itoa n) = Inr n"
proof -
  assume n: "1 \<le> n" "n \<le> 200"
  obtain d ds where d: "decimal (nat n) = d # ds" "is_digit d"
    using decimal_digits [of "nat n"] by (cases "decimal (nat n)") auto
  then have "d \<noteq> CHR ''-'' \<and> d \<noteq> CHR ''+''" by (auto simp: is_digit_def)
  then have "atoi (itoa n) = Some n"
    using n d decimal_digits [of "nat n"] nat_of_decimal [of "nat n"]
    by (simp add: atoi_def itoa_def int64_range_def)
  then show ?thesis using n d by (simp add: parseLimit_def itoa_def)
qed

definition effective_limit :: "int \<Rightarrow> int" where
  "effective_limit n = (if n > 0 then n else 50)"

text \<open>What the client keeps of an event.\<close>

definition event_view :: "Event \<Rightarrow> client_event" where
  "event_view ev = \<lparr>ev_id = ev_ID ev, ev_operation = ev_OperationID ev, ev_type = ev_EventType ev,
     ev_version = ev_OperationVersion ev, ev_created = ev_CreatedAt ev\<rparr>"

definition page_view :: "('a \<Rightarrow> 'b) \<Rightarrow> 'a page \<Rightarrow> 'b page" where
  "page_view f p = \<lparr>pg_Items = map f (pg_Items p), pg_NextCursor = pg_NextCursor p\<rparr>"

definition wire_event :: "Event \<Rightarrow> bool" where
  "wire_event ev \<longleftrightarrow> int64_range (ev_ID ev) \<and> int64_range (ev_OperationVersion ev) \<and> writable (ev_CreatedAt ev)"

definition event_members :: "(time \<Rightarrow> string) \<Rightarrow> Event \<Rightarrow> (string \<times> json) list" where
  "event_members stamp ev = [(''id'', int_json (ev_ID ev)), (''operation_id'', JStr (ev_OperationID ev)),
     (''event_type'', JStr (ev_EventType ev))]
     @ omit_empty ''from_state'' (map_option (\<lambda>st. JStr (state_string st)) (ev_FromState ev))
     @ omit_empty ''to_state'' (map_option (\<lambda>st. JStr (state_string st)) (ev_ToState ev))
     @ [(''operation_version'', int_json (ev_OperationVersion ev)), (''source'', JStr (ev_Source ev)),
        (''actor'', JStr (ev_Actor ev)), (''reason_code'', JStr (ev_ReasonCode ev)),
        (''details'', JObj (map (map_prod id (detail_json stamp)) (ev_Details ev))), (''created_at'', time_json (ev_CreatedAt ev))]"

lemma event_round:
  assumes "wire_event ev"
  shows "decode_event (event_json stamp ev) = Some (event_view ev)"
proof -
  let ?ms = "event_members stamp ev"
  have names: "plain_names ?ms" by (simp add: event_members_def plain_names_append image_Un)
  have lookup: "map_of ?ms ''id'' = Some (int_json (ev_ID ev))" "map_of ?ms ''operation_id'' = Some (JStr (ev_OperationID ev))"
    "map_of ?ms ''event_type'' = Some (JStr (ev_EventType ev))"
    "map_of ?ms ''operation_version'' = Some (int_json (ev_OperationVersion ev))"
    "map_of ?ms ''created_at'' = Some (time_json (ev_CreatedAt ev))"
    by (simp_all add: event_members_def map_add_def split: option.split)
  have "event_json stamp ev = JObj ?ms" by (simp add: event_json_def event_members_def)
  then show ?thesis
    using assms by (simp add: decode_event_def field_plain [OF names] lookup wire_event_def event_view_def)
qed

text \<open>Pages.\<close>

definition page_members :: "('a \<Rightarrow> json) \<Rightarrow> 'a page \<Rightarrow> (string \<times> json) list" where
  "page_members item p = [(''items'', JArr (map item (pg_Items p)))]
     @ omit_empty ''next_cursor'' (if pg_NextCursor p = [] then None else Some (JStr (pg_NextCursor p)))"

lemma page_round:
  assumes "\<And>x. x \<in> set (pg_Items p) \<Longrightarrow> decode (item x) = Some (view x)"
  shows "decode_page decode (page_json item p) = Some (page_view view p)"
proof -
  let ?ms = "page_members item p"
  have names: "plain_names ?ms" by (simp add: page_members_def plain_names_append)
  have lookup: "map_of ?ms ''items'' = Some (JArr (map item (pg_Items p)))"
    "map_of ?ms ''next_cursor'' = (if pg_NextCursor p = [] then None else Some (JStr (pg_NextCursor p)))"
    by (simp_all add: page_members_def map_add_def split: option.split)
  have "those (map decode (map item xs)) = Some (map view xs)" if "set xs \<subseteq> set (pg_Items p)" for xs
    using that by (induction xs) (auto simp: assms)
  then have "list_field ''items'' decode ?ms = Some (map view (pg_Items p))"
    by (simp add: list_field_def tree_plain [OF names] lookup)
  moreover have "page_json item p = JObj ?ms" by (simp add: page_json_def page_members_def)
  ultimately show ?thesis by (simp add: decode_page_def field_plain [OF names] lookup page_view_def)
qed

lemma page_view_id [simp]: "page_view (\<lambda>x. x) p = p"
  by (simp add: page_view_def)

definition operations_fit :: "string \<Rightarrow> error + Operation page \<Rightarrow> bool" where
  "operations_fit rid r \<longleftrightarrow> (case r of Inl err \<Rightarrow> sendable (error_envelope rid err)
     | Inr p \<Rightarrow> list_all wire_operation (pg_Items p) \<and> sendable (page_json operation_json p))"

definition events_fit :: "(time \<Rightarrow> string) \<Rightarrow> string \<Rightarrow> error + Event page \<Rightarrow> bool" where
  "events_fit stamp rid r \<longleftrightarrow> (case r of Inl err \<Rightarrow> sendable (error_envelope rid err)
     | Inr p \<Rightarrow> list_all wire_event (pg_Items p) \<and> sendable (page_json (event_json stamp) p))"

lemma operations_fit_fits: "operations_fit rid r \<Longrightarrow> fits rid operations_body (decode_page decode_operation) r"
  using page_round [of _ decode_operation operation_json "\<lambda>x. x"]
  by (auto simp: operations_fit_def fits_def operations_body_def list_all_iff wire_encodable operation_round split: sum.splits)

lemma map_of_given: "map_of (given n x @ r) k = (if n = k \<and> x \<noteq> [] then Some x else map_of r k)"
  "map_of (given n x) k = (if n = k \<and> x \<noteq> [] then Some x else None)"
  by (simp_all add: given_def)

lemma remote_list:
  assumes "worker_client sv c" and "fl_Limit fl \<le> 200"
    and "fl_State fl = [] \<or> ValidState (state_of_string (fl_State fl))"
    and "pred_option (\<lambda>t. writable (t - t mod second)) (fl_CreatedAfter fl)"
    and "seen = fl\<lparr>fl_Limit := effective_limit (fl_Limit fl),
           fl_CreatedAfter := map_option (\<lambda>t. t - t mod second) (fl_CreatedAfter fl)\<rparr>"
    and "operations_fit (cx_new_id cx) (ListOperations (cx_cast cx) (cx_env cx) s seen)"
  shows "client_ListOperations (serve_http sv cx (ct_baseURL c)) c fl s
    = (response_of (cx_new_id cx) (ListOperations (cx_cast cx) (cx_env cx) s seen), s)"
proof -
  let ?kvs = "list_query fl"
  let ?rq = "asked c [] ?kvs"
  note query = list_query_def map_of_given
  have after: "map_of ?kvs ''created_after'' = map_option format_seconds (fl_CreatedAfter fl)"
    by (cases "fl_CreatedAfter fl"; cases "fl_Limit fl > 0") (simp_all add: query del: map_of_append)
  have limit: "map_of ?kvs ''limit'' = (if fl_Limit fl > 0 then Some (itoa (fl_Limit fl)) else None)"
    by (cases "fl_CreatedAfter fl"; cases "fl_Limit fl > 0") (simp_all add: query del: map_of_append)
  have texts: "query ?rq ''cursor'' = fl_Cursor fl" "query ?rq ''state'' = fl_State fl"
    "query ?rq ''target_service'' = fl_TargetService fl" "query ?rq ''workflow_id'' = fl_WorkflowID fl"
    by (cases "fl_CreatedAfter fl"; cases "fl_Limit fl > 0"; simp add: query del: map_of_append)+
  have "parseLimit (query ?rq ''limit'') = Inr (effective_limit (fl_Limit fl))"
  proof (cases "fl_Limit fl > 0")
    case True
    then show ?thesis using assms(2) by (simp add: limit effective_limit_def parse_limit)
  next
    case False
    then show ?thesis by (simp add: limit effective_limit_def parseLimit_def)
  qed
  moreover have "(if query ?rq ''created_after'' = [] then Inr None
      else case parse_time (query ?rq ''created_after'') of
          None \<Rightarrow> Inl (validation ''invalid_created_after'' ''created_after must use RFC3339'')
        | Some t \<Rightarrow> Inr (Some t)) = Inr (fl_CreatedAfter seen)"
  proof (cases "fl_CreatedAfter fl")
    case (Some t)
    then have "parse_time (format_seconds t) = Some (t - t mod second)"
      using assms(4) by (simp add: format_seconds_def parse_format)
    moreover from this have "format_seconds t \<noteq> []" by (auto simp: parse_time_def read_int_def)
    ultimately show ?thesis using Some by (simp add: after assms(5))
  qed (simp add: after assms(5))
  ultimately have "list_filter cx ?rq = Inr seen"
    using assms(3) by (auto simp: list_filter_def texts assms(5) simp del: asked_simps(2))
  then have served: "listOperations cx s ?rq = respond cx ?rq 200 operations_body (ListOperations (cx_cast cx) (cx_env cx) s seen)"
    by (simp add: listOperations_def)
  have route: "routed ''GET'' [''v1'', ''operations''] = Some (entry ''GET'' [Lit ''v1'', Lit ''operations''] AuthToken ListOperationsRoute, [])"
    by code_simp
  from remote_get [OF disjI2 [OF refl] _ sample_routes(3) route, where kvs = ?kvs and c = c and sv = sv
      and decode = "decode_page decode_operation" and s = s and cx = cx] assms(1) served
    respond_read [of cx ?rq, OF operations_fit_fits [OF assms(6), folded asked_simps(3) [of cx c "[]" ?kvs]]]
  show ?thesis unfolding client_ListOperations_def by simp
qed


text \<open>The client keeps five members of an event; an error is read as for the other methods.\<close>

lemma remote_events:
  assumes "worker_client sv c" and "plain_id cx i" and "limit \<le> 200"
    and "events_fit (cx_stamp cx) (cx_new_id cx) (ListEvents (cx_env cx) s s s i (effective_limit limit) cursor)"
  shows "client_ListEvents (serve_http sv cx (ct_baseURL c)) c i limit cursor s
    = (response_of (cx_new_id cx) (map_sum id (page_view event_view) (ListEvents (cx_env cx) s s s i (effective_limit limit) cursor)), s)"
proof -
  let ?kvs = "given ''cursor'' cursor @ (if limit > 0 then [(''limit'', itoa limit)] else [])"
  let ?rq = "asked c i ?kvs"
  let ?r = "ListEvents (cx_env cx) s s s i (effective_limit limit) cursor"
  have limit: "parseLimit (query ?rq ''limit'') = Inr (effective_limit limit)"
  proof (cases "limit > 0")
    case True
    then show ?thesis using assms(3) by (simp add: given_def effective_limit_def parse_limit)
  next
    case False
    then show ?thesis by (simp add: given_def effective_limit_def parseLimit_def)
  qed
  have "query ?rq ''cursor'' = cursor" by (simp add: given_def)
  then have served: "listEvents cx s s s ?rq = respond cx ?rq 200 (events_body (cx_stamp cx)) ?r"
    using assms(2) limit by (simp add: listEvents_def check_id_def unplain del: asked_simps(2))
  have read: "read_answer (decode_page decode_event) (server_answer (respond cx ?rq 200 (events_body (cx_stamp cx)) ?r))
      = response_of (cx_new_id cx) (map_sum id (page_view event_view) ?r)"
  proof (cases ?r)
    case (Inl err)
    then show ?thesis using assms(4)
      by (simp add: respond_def writeError_def read_refusal events_fit_def response_of_def)
  next
    case (Inr p)
    then have wire: "list_all wire_event (pg_Items p)" and sendable: "sendable (page_json (event_json (cx_stamp cx)) p)"
      using assms(4) by (simp_all add: events_fit_def)
    have "events_body (cx_stamp cx) p = Some (page_json (event_json (cx_stamp cx)) p)"
      using wire by (auto simp: events_body_def list_all_iff wire_event_def)
    moreover have "decode_page decode_event (page_json (event_json (cx_stamp cx)) p) = Some (page_view event_view p)"
      by (rule page_round) (use wire in \<open>simp add: list_all_iff event_round\<close>)
    ultimately show ?thesis using Inr sendable by (simp add: respond_def read_success response_of_def)
  qed
  have path: "path_segments (operation_path i ''/events'') = Some [''v1'', ''operations'', i, ''events'']"
    "CHR ''?'' \<notin> set (operation_path i ''/events'')"
    using operation_path_segments [of i "''events''"] assms(2) by simp_all
  have "do_call (serve_http sv cx (ct_baseURL c)) c ''GET'' (operation_path i ''/events'' @ query_text ?kvs) None
      (decode_page decode_event) s = (read_answer (decode_page decode_event) (server_answer (listEvents cx s s s ?rq)), s)"
    using remote_get [OF disjI2 [OF refl] path(2,1) routed_operations(9), where kvs = ?kvs and c = c and sv = sv and cx = cx and s = s] assms(1,2)
    by (simp split del: if_split)
  then show ?thesis unfolding client_ListEvents_def served read .
qed

end
