(* ===== verification/Remote_Contract.thy ===== *)
theory Remote_Contract
  imports Remote
begin

text \<open>
  What the client promises over HTTP: the methods workers call, the methods coordinators and
  operators call, and listing, each equal to the call of the store, with sample exchanges.
\<close>

section \<open>The worker's methods\<close>

datatype worker_request =
    AskPrepare PrepareRequest | AskDispatch uuid int | AskConfirm uuid ConfirmRequest
  | AskRetry uuid int string | AskOperation uuid

text \<open>Asking through the client, and asking the store; the server fingerprints what is prepared.\<close>

fun worker_ask :: "db transport \<Rightarrow> client \<Rightarrow> worker_request \<Rightarrow> db \<Rightarrow> (failure + Operation) \<times> db" where
  "worker_ask tr c (AskPrepare p) = client_Prepare tr c p"
| "worker_ask tr c (AskDispatch i v) = client_AuthorizeDispatch tr c i v"
| "worker_ask tr c (AskConfirm i r) = client_Confirm tr c i r"
| "worker_ask tr c (AskRetry i v reason) = client_BeginRetry tr c i v reason"
| "worker_ask tr c (AskOperation i) = client_GetOperation tr c i"

definition fingerprinted :: "PrepareRequest \<Rightarrow> PrepareRequest" where
  "fingerprinted p = (case Fingerprint (pr_TargetService p) (pr_Action p) (pr_Request p) of
     Inl _ \<Rightarrow> p | Inr fp \<Rightarrow> p\<lparr>pr_RequestFingerprint := fp\<rparr>)"

fun worker_store :: "env \<Rightarrow> worker_request \<Rightarrow> db \<Rightarrow> (error + Operation) \<times> db" where
  "worker_store e (AskPrepare p) s = only_operation (Prepare e s (fingerprinted p))"
| "worker_store e (AskDispatch i v) s = AuthorizeDispatch e s i v"
| "worker_store e (AskConfirm i r) s = Confirm e s i r"
| "worker_store e (AskRetry i v reason) s = BeginRetry e s i v reason"
| "worker_store e (AskOperation i) s = (GetOperation e s s i, s)"

text \<open>What the server accepts by itself, of a size it reads.\<close>

fun worker_asks :: "api_context \<Rightarrow> worker_request \<Rightarrow> bool" where
  "worker_asks cx (AskPrepare p) \<longleftrightarrow> wire_request p \<and> run_plain cx p \<and> sends (request_members p)
     \<and> validatePrepare (cx_valid cx) p = Inr ()
     \<and> (case Fingerprint (pr_TargetService p) (pr_Action p) (pr_Request p) of
          Inl _ \<Rightarrow> False | Inr fp \<Rightarrow> pr_RequestFingerprint p = [] \<or> equal_fold (pr_RequestFingerprint p) fp)"
| "worker_asks cx (AskDispatch i v) \<longleftrightarrow> plain_id cx i \<and> 1 \<le> v \<and> int64_range v \<and> sends (version_members v)"
| "worker_asks cx (AskConfirm i r) \<longleftrightarrow> plain_id cx i \<and> 1 \<le> cr_ExpectedVersion r \<and> int64_range (cr_ExpectedVersion r)
     \<and> cr_ServiceReceiptID r \<noteq> [] \<and> printed (cr_Receipt r) \<and> writable (cr_ReceivedAt r)
     \<and> cr_ReceivedAt r \<noteq> zero_time \<and> sends (confirm_members r)"
| "worker_asks cx (AskRetry i v reason) \<longleftrightarrow> plain_id cx i \<and> 1 \<le> v \<and> int64_range v \<and> reason \<noteq> []
     \<and> sends [(''expected_version'', int_json v), (''reason'', JStr reason)]"
| "worker_asks cx (AskOperation i) \<longleftrightarrow> plain_id cx i"

section \<open>A sample exchange\<close>

definition sample_server :: api_server where
  "sample_server = New ''w'' ''a''"

definition sample_client :: "string \<Rightarrow> client" where
  "sample_client token = New_client ''http://watchkeeper/'' token"

definition sample_operation :: "bool \<Rightarrow> int \<Rightarrow> time \<Rightarrow> Operation" where
  "sample_operation authorized version updated = \<lparr>op_DispatchAuthorized = authorized, op_ID = ''aoperation'',
     op_WorkflowID = ''w'', op_LogicalKey = ''k'', op_TargetService = ''email'', op_Action = ''send'',
     op_RequestFingerprint = ''f'', op_ExpectedEffect = JObj [], op_CapabilityProfile = ''opaque'',
     op_State = StatePrepared, op_AttemptCount = 1, op_Version = version, op_PreparedAt = 0,
     op_ConfirmedAt = None, op_ResolvedAt = None, op_CreatedAt = 0, op_UpdatedAt = updated, op_Receipt = None\<rparr>"

text \<open>A bound on the length of what is printed, without printing it.\<close>

fun bulk :: "json \<Rightarrow> nat"
  and bulk_list :: "json list \<Rightarrow> nat"
  and bulk_members :: "(string \<times> json) list \<Rightarrow> nat" where
  "bulk JNull = 4"
| "bulk (JBool b) = 5"
| "bulk (JNum l) = length l"
| "bulk (JStr s) = 6 * length s + 2"
| "bulk (JArr vs) = bulk_list vs + 2"
| "bulk (JObj ms) = bulk_members ms + 2"
| "bulk_list [] = 0"
| "bulk_list (v # vs) = bulk v + 1 + bulk_list vs"
| "bulk_members [] = 0"
| "bulk_members ((k, v) # ms) = 6 * length k + 4 + bulk v + bulk_members ms"

lemma escape_byte_length: "length (escape_byte c) \<le> 6"
  by (simp add: escape_byte_def hex4_def)

lemma escape_length: "length (escape_string s) \<le> 6 * length s"
proof (induction s rule: escape_string.induct)
  case (2 c s)
  consider "byte c < 128" | "\<not> byte c < 128" "utf8_len (c # s) = 0"
    | n where "\<not> byte c < 128" "utf8_len (c # s) = Suc n"
    by (cases "utf8_len (c # s)") blast+
  then show ?case
  proof cases
    case 1
    then show ?thesis using 2(1) escape_byte_length [of c] by (simp add: escape_string.simps(2))
  next
    case 2
    then show ?thesis using "2.IH"(2) by (simp add: escape_string.simps(2))
  next
    case 3
    note len = utf8_len_bound [OF 3(2)]
    consider "take 3 (c # s) = encode_rune 8232" | "take 3 (c # s) \<noteq> encode_rune 8232" "take 3 (c # s) = encode_rune 8233"
      | "take 3 (c # s) \<noteq> encode_rune 8232" "take 3 (c # s) \<noteq> encode_rune 8233" by blast
    then show ?thesis
    proof cases
      case 1
      then show ?thesis using 3 "2.IH"(3) by (simp add: escape_string.simps(2))
    next
      case 2
      then show ?thesis using 3 "2.IH"(4) by (simp add: escape_string.simps(2))
    next
      case other: 3
      then show ?thesis using 3 "2.IH"(5) len by (simp add: escape_string.simps(2))
    qed
  qed
qed simp

lemma marshal_string_length: "length (marshal_string s) \<le> 6 * length s + 2"
  using escape_length [of s] by (simp add: marshal_string_def)

lemma marshal_length:
  "length (marshal v) \<le> bulk v"
  "length (marshal_list vs) \<le> bulk_list vs"
  "length (marshal_members ms) \<le> bulk_members ms"
proof (induction v and vs and ms rule: marshal_marshal_list_marshal_members.induct)
  case (10 k v ms)
  then show ?case using marshal_string_length [of k] by auto
qed (use marshal_string_length in auto)

lemma sample_plain: "plain_id (sample_context e) ''aoperation''"
proof -
  have "list_all unreserved ''aoperation''" by code_simp
  then show ?thesis by (simp add: plain_id_def sample_context_def del: unreserved_plain)
qed

lemma sample_clients: "worker_client sample_server (sample_client ''w'')" "admin_client sample_server (sample_client ''a'')"
  by (simp_all add: worker_client_def admin_client_def sample_server_def sample_client_def New_def New_client_def)

lemma sample_times: "writable 0" "writable 1" "writable 5"
  by code_simp+

lemma sample_wire: "0 \<le> v \<Longrightarrow> v < 9 \<Longrightarrow> writable t \<Longrightarrow> wire_operation (sample_operation b v t)"
  by (simp add: wire_operation_def sample_operation_def sample_times int64_range_def state_of_string_def)

lemma sample_printable: "printable (operation_json (sample_operation b v t))"
  by (simp add: operation_json_def operation_members_def sample_operation_def utf8_ascii time_json_def omit_empty_def)

lemma sample_depth: "depth (operation_json (sample_operation b v t)) = 2"
  by (simp add: operation_json_def operation_members_def sample_operation_def time_json_def omit_empty_def int_json_def)

lemma sample_bulk: "v \<in> {1, 2} \<Longrightarrow> t \<in> {0, 1, 5} \<Longrightarrow> bulk (operation_json (sample_operation b v t)) \<le> 10000"
proof -
  have "time_json 0 = JStr ''1970-01-01T00:00:00Z''" "time_json 1 = JStr ''1970-01-01T00:00:00.000000001Z''"
    "time_json 5 = JStr ''1970-01-01T00:00:00.000000005Z''" "int_json 1 = JNum ''1''" "int_json 2 = JNum ''2''" by code_simp+
  then show "v \<in> {1, 2} \<Longrightarrow> t \<in> {0, 1, 5} \<Longrightarrow> bulk (operation_json (sample_operation b v t)) \<le> 10000"
    by (auto simp: operation_json_def operation_members_def sample_operation_def omit_empty_def)
qed

lemma sample_sendable:
  assumes "v \<in> {1, 2}" and "t \<in> {0, 1, 5}"
  shows "sendable (operation_json (sample_operation b v t))"
    "sendable (page_json operation_json \<lparr>pg_Items = [sample_operation b v t], pg_NextCursor = []\<rparr>)"
proof -
  note small = marshal_length(1) [of "operation_json (sample_operation b v t)"] sample_bulk [OF assms, of b]
  then show "sendable (operation_json (sample_operation b v t))"
    by (simp add: sendable_def sample_printable sample_depth max_depth_def max_body_def)
  let ?page = "page_json operation_json \<lparr>pg_Items = [sample_operation b v t], pg_NextCursor = []\<rparr>"
  have "printable ?page" "depth ?page \<le> 4" "bulk ?page \<le> 20000"
    using small by (simp_all add: page_json_def omit_empty_def sample_printable sample_depth utf8_ascii)
  with marshal_length(1) [of ?page] show "sendable ?page"
    by (simp add: sendable_def max_depth_def max_body_def)
qed

lemma sample_number: "int_json 1 = JNum ''1''" "literal ''1''"
  by code_simp+

lemma sends_small:
  assumes "printable_members ms" and "depth_members ms = 0" and "bulk_members ms \<le> 10000"
  shows "sends ms"
  using assms marshal_length(3) [of ms] by (simp add: sends_def max_depth_def max_body_def)

text \<open>C35. The methods a worker calls - prepare, authorise a dispatch, confirm, begin a retry, read - over
  HTTP, through the server with its routes, token, checks and JSON: each answers what the call of the
  store answers and leaves the database that call leaves, and an error of the store arrives with its
  status, code, message and details. It holds for inputs the server does not reject by itself and
  answers that fit the wire.\<close>

theorem worker_over_http:
  assumes "worker_client sv c" and "worker_asks cx ask"
    and "operation_fits (cx_new_id cx) (fst (worker_store (cx_env cx) ask s))"
  shows "worker_ask (serve_http sv cx (ct_baseURL c)) c ask s = answered (cx_new_id cx) (worker_store (cx_env cx) ask s)"
proof (cases ask)
  case (AskPrepare p)
  then obtain fp where fp: "Fingerprint (pr_TargetService p) (pr_Action p) (pr_Request p) = Inr fp"
    and same: "pr_RequestFingerprint p = [] \<or> equal_fold (pr_RequestFingerprint p) fp"
    using assms(2) by (auto split: sum.splits)
  then show ?thesis using AskPrepare assms
    by (simp add: fingerprinted_def remote_prepare [OF assms(1) _ _ _ _ fp same])
next
  case (AskDispatch i v)
  then show ?thesis using assms by (simp add: remote_dispatch)
next
  case (AskConfirm i r)
  then show ?thesis using assms by (simp add: remote_confirm)
next
  case (AskRetry i v reason)
  then show ?thesis using assms by (simp add: remote_retry)
next
  case (AskOperation i)
  then show ?thesis using assms remote_get_operation [OF assms(1), of cx i s]
    by (simp add: answered_def response_of_def)
qed

theorem worker_over_http_witness:
  "worker_ask (serve_http sample_server (sample_context (env_at ''b'' 1)) (ct_baseURL (sample_client ''w'')))
     (sample_client ''w'') (AskDispatch ''aoperation'' 1) (sample_db 1) = (Inr (sample_operation True 2 1), sample_db 2)"
proof -
  have call: "AuthorizeDispatch (env_at ''b'' 1) (sample_db 1) ''aoperation'' 1 = (Inr (sample_operation True 2 1), sample_db 2)"
    by (simp add: sample_simps exec_simps sample_operation_def)
  have env: "cx_env (sample_context (env_at ''b'' 1)) = env_at ''b'' 1" by (simp add: sample_context_def)
  have "sends (version_members 1)" by (rule sends_small) (simp_all add: version_members_def utf8_ascii sample_number)
  then have "worker_asks (sample_context (env_at ''b'' 1)) (AskDispatch ''aoperation'' 1)"
    by (simp add: sample_plain int64_range_def)
  from worker_over_http [OF sample_clients(1) this, of "sample_db 1"] show ?thesis
    by (simp add: call [unfolded One_nat_def] env operation_fits_def sample_wire sample_times sample_sendable answered_def)
qed

section \<open>The methods of coordinators and operators\<close>

datatype admin_request =
    AskClaims string int duration | AskRenewal uuid string duration | AskResult uuid RecoveryClaim Observation
  | AskReconciliation uuid int string string | AskResolution uuid ManualResolution

datatype admin_answer = OperationAnswer Operation | ClaimsAnswer "RecoveryClaim list" | LeaseAnswer time

definition as_answer :: "('a \<Rightarrow> admin_answer) \<Rightarrow> ('e + 'a) \<times> db \<Rightarrow> ('e + admin_answer) \<times> db" where
  "as_answer f = map_prod (map_sum id f) id"

fun admin_ask :: "db transport \<Rightarrow> client \<Rightarrow> admin_request \<Rightarrow> db \<Rightarrow> (failure + admin_answer) \<times> db" where
  "admin_ask tr c (AskClaims worker limit lease) s = as_answer ClaimsAnswer (client_ClaimRecovery tr c worker limit lease s)"
| "admin_ask tr c (AskRenewal i token lease) s = as_answer LeaseAnswer (client_RenewClaim tr c i token lease s)"
| "admin_ask tr c (AskResult i cl ob) s = as_answer OperationAnswer (client_SubmitRecoveryResult tr c i cl ob s)"
| "admin_ask tr c (AskReconciliation i v actor reason) s =
     as_answer OperationAnswer (client_RequestReconciliation tr c i v actor reason s)"
| "admin_ask tr c (AskResolution i m) s = as_answer OperationAnswer (client_ManualResolve tr c i (mr_ExpectedVersion m)
     (mr_Actor m) (mr_Outcome m) (mr_Reason m) (mr_EvidenceReference m) s)"

fun admin_store :: "duration \<Rightarrow> env \<Rightarrow> admin_request \<Rightarrow> db \<Rightarrow> (error + admin_answer) \<times> db" where
  "admin_store grace e (AskClaims worker limit lease) s = as_answer ClaimsAnswer (ClaimRecovery e s worker limit lease grace)"
| "admin_store grace e (AskRenewal i token lease) s = as_answer LeaseAnswer (RenewClaim e s i token lease)"
| "admin_store grace e (AskResult i cl ob) s = as_answer OperationAnswer (SubmitRecoveryResult e s i (claim_result cl ob))"
| "admin_store grace e (AskReconciliation i v actor reason) s =
     as_answer OperationAnswer (RequestReconciliation e s i v actor reason)"
| "admin_store grace e (AskResolution i m) s = as_answer OperationAnswer (ManualResolve e s i m)"

definition lease_allowed :: "duration \<Rightarrow> bool" where
  "lease_allowed d \<longleftrightarrow> millisecond dvd d \<and> 5 * second \<le> d \<and> d \<le> 300 * second"

fun admin_asks :: "api_context \<Rightarrow> admin_request \<Rightarrow> bool" where
  "admin_asks cx (AskClaims worker limit lease) \<longleftrightarrow> worker \<noteq> [] \<and> 1 \<le> limit \<and> limit \<le> 100 \<and> lease_allowed lease
     \<and> sends [(''lease_duration_ms'', int_json (milliseconds lease)), (''limit'', int_json limit), (''worker_id'', JStr worker)]"
| "admin_asks cx (AskRenewal i token lease) \<longleftrightarrow> plain_id cx i \<and> token \<noteq> [] \<and> lease_allowed lease
     \<and> sends [(''claim_token'', JStr token), (''lease_duration_ms'', int_json (milliseconds lease))]"
| "admin_asks cx (AskResult i cl ob) \<longleftrightarrow> plain_id cx i \<and> plain_id cx (cl_AttemptID cl) \<and> cl_ClaimToken cl \<noteq> []
     \<and> 1 \<le> cl_Version cl \<and> int64_range (cl_Version cl) \<and> wire_observation ob \<and> sends (result_members cl ob)"
| "admin_asks cx (AskReconciliation i v actor reason) \<longleftrightarrow> plain_id cx i \<and> 1 \<le> v \<and> int64_range v \<and> actor \<noteq> [] \<and> reason \<noteq> []
     \<and> sends [(''actor'', JStr actor), (''expected_version'', int_json v), (''reason'', JStr reason)]"
| "admin_asks cx (AskResolution i m) \<longleftrightarrow> plain_id cx i \<and> 1 \<le> mr_ExpectedVersion m \<and> int64_range (mr_ExpectedVersion m)
     \<and> mr_Actor m \<noteq> [] \<and> mr_Outcome m \<noteq> [] \<and> mr_Reason m \<noteq> [] \<and> mr_EvidenceReference m \<noteq> []
     \<and> sends [(''actor'', JStr (mr_Actor m)), (''evidence_reference'', JStr (mr_EvidenceReference m)),
          (''expected_version'', int_json (mr_ExpectedVersion m)), (''outcome'', JStr (mr_Outcome m)), (''reason'', JStr (mr_Reason m))]"

definition admin_fits :: "string \<Rightarrow> error + admin_answer \<Rightarrow> bool" where
  "admin_fits rid r \<longleftrightarrow> (case r of
       Inl err \<Rightarrow> sendable (error_envelope rid err)
     | Inr (OperationAnswer op) \<Rightarrow> operation_fits rid (Inr op)
     | Inr (ClaimsAnswer cs) \<Rightarrow> claims_fit rid (Inr cs)
     | Inr (LeaseAnswer t) \<Rightarrow> lease_fits rid (Inr t))"

lemma admin_fits_of:
  "admin_fits rid (fst (as_answer OperationAnswer out)) = operation_fits rid (fst out)"
  "admin_fits rid (fst (as_answer ClaimsAnswer out2)) = claims_fit rid (fst out2)"
  "admin_fits rid (fst (as_answer LeaseAnswer out3)) = lease_fits rid (fst out3)"
  by (cases "fst out"; cases "fst out2"; cases "fst out3";
      simp add: admin_fits_def as_answer_def operation_fits_def claims_fit_def lease_fits_def)+

lemma answered_as: "as_answer f (answered rid out) = answered rid (as_answer f out)"
  by (cases out; cases "fst out") (simp_all add: answered_def as_answer_def)

text \<open>C36. The methods coordinators and operators call - claim, renew, submit a result, request a
  reconciliation, resolve by hand - over HTTP answer what the calls of the store answer and leave the
  database those calls leave, for whole milliseconds of lease within the server's bounds, inputs the
  server does not reject by itself and answers that fit the wire.\<close>

theorem recovery_over_http:
  assumes "admin_client sv c" and "admin_asks cx ask"
    and "admin_fits (cx_new_id cx) (fst (admin_store (sa_preparedGrace sv) (cx_env cx) ask s))"
  shows "admin_ask (serve_http sv cx (ct_baseURL c)) c ask s
    = answered (cx_new_id cx) (admin_store (sa_preparedGrace sv) (cx_env cx) ask s)"
proof (cases ask)
  case (AskClaims worker limit lease)
  then show ?thesis using assms by (simp add: remote_claim admin_fits_of answered_as lease_allowed_def)
next
  case (AskRenewal i token lease)
  then show ?thesis using assms by (simp add: remote_renew admin_fits_of answered_as lease_allowed_def)
next
  case (AskResult i cl ob)
  then show ?thesis using assms by (simp add: remote_submit admin_fits_of answered_as)
next
  case (AskReconciliation i v actor reason)
  then show ?thesis using assms by (simp add: remote_reconcile admin_fits_of answered_as)
next
  case (AskResolution i m)
  then show ?thesis using assms by (simp add: remote_manual admin_fits_of answered_as)
qed

theorem recovery_over_http_witness:
  "fst (admin_ask (serve_http sample_server (sample_context (env_at ''h'' 5)) (ct_baseURL (sample_client ''a'')))
     (sample_client ''a'') (AskReconciliation ''aoperation'' 1 ''op'' ''why'') (sample_db 1))
   = Inr (OperationAnswer (sample_operation False 2 5))"
proof -
  have call: "fst (RequestReconciliation (env_at ''h'' 5) (sample_db 1) ''aoperation'' 1 ''op'' ''why'') = Inr (sample_operation False 2 5)"
    by (simp add: sample_simps exec_simps sample_operation_def)
  have "sends [(''actor'', JStr ''op''), (''expected_version'', int_json 1), (''reason'', JStr ''why'')]"
    by (rule sends_small) (simp_all add: utf8_ascii sample_number)
  then have asks: "admin_asks (sample_context (env_at ''h'' 5)) (AskReconciliation ''aoperation'' 1 ''op'' ''why'')"
    by (simp add: sample_plain int64_range_def)
  have env: "cx_env (sample_context (env_at ''h'' 5)) = env_at ''h'' 5" by (simp add: sample_context_def)
  have "admin_fits rid (fst (admin_store g (env_at ''h'' 5) (AskReconciliation ''aoperation'' 1 ''op'' ''why'') (sample_db 1)))" for rid g
    by (simp add: admin_fits_of call [unfolded One_nat_def] operation_fits_def sample_wire sample_times sample_sendable)
  moreover obtain s' where "RequestReconciliation (env_at ''h'' 5) (sample_db 1) ''aoperation'' 1 ''op'' ''why''
      = (Inr (sample_operation False 2 5), s')" using call by (metis prod.collapse)
  ultimately show ?thesis using recovery_over_http [OF sample_clients(2) asks, of "sample_db 1"]
    by (simp add: env answered_def as_answer_def)
qed

section \<open>Listing over HTTP\<close>

text \<open>C37. Listing through the client is listing the store, with the server's limit of fifty where the
  client sets none, and with the instant of \<open>CreatedAfter\<close> cut to whole seconds: the client formats it
  without its fraction.\<close>

theorem list_over_http:
  assumes "worker_client sv c" and "fl_Limit fl \<le> 200"
    and "fl_State fl = [] \<or> ValidState (state_of_string (fl_State fl))"
    and "pred_option (\<lambda>t. writable (t - t mod second)) (fl_CreatedAfter fl)"
    and "seen = fl\<lparr>fl_Limit := effective_limit (fl_Limit fl),
           fl_CreatedAfter := map_option (\<lambda>t. t - t mod second) (fl_CreatedAfter fl)\<rparr>"
    and "operations_fit (cx_new_id cx) (ListOperations (cx_cast cx) (cx_env cx) s seen)"
  shows "client_ListOperations (serve_http sv cx (ct_baseURL c)) c fl s
    = (response_of (cx_new_id cx) (ListOperations (cx_cast cx) (cx_env cx) s seen), s)"
  by (rule remote_list [OF assms])

theorem list_over_http_witness:
  "client_ListOperations (serve_http sample_server (sample_context (env_at ''h'' 5)) (ct_baseURL (sample_client ''w'')))
     (sample_client ''w'') (every\<lparr>fl_Limit := 0, fl_CreatedAfter := Some (- 1)\<rparr>) (sample_db 1)
   = (Inr \<lparr>pg_Items = [sample_operation False 1 0], pg_NextCursor = []\<rparr>, sample_db 1)"
proof -
  let ?fl = "every\<lparr>fl_Limit := 0, fl_CreatedAfter := Some (- 1)\<rparr>"
  let ?seen = "every\<lparr>fl_Limit := 50, fl_CreatedAfter := Some (- second)\<rparr>"
  let ?op = "sample_operation False 1 0"
  have rows: "joined_operations (sample_db 1) = [?op]"
    by (simp add: joined_operations_def sample_simps exec_simps sample_operation_def map_filter_simps)
  have "(0, nil_uuid) < list_key ?op" by (simp add: list_key_def sample_operation_def nil_uuid_def less_prod_def)
  moreover have "selected ?seen ?op" by (simp add: selected_def every_def sample_operation_def second_def millisecond_def)
  ultimately have "operation_rows (sample_db 1) ?seen (0, nil_uuid) = [?op]"
    by (simp add: operation_rows_def rows [unfolded One_nat_def])
  then have call: "ListOperations (cx_cast (sample_context e)) (env_at ''h'' 5) (sample_db 1) ?seen
      = Inr \<lparr>pg_Items = [?op], pg_NextCursor = []\<rparr>" for e
    by (simp add: ListOperations_def decodeOperationCursor_def every_def stmtU_def env_at_def guardE_def
        sample_context_def nil_uuid_def)
  have "?seen = ?fl\<lparr>fl_Limit := effective_limit (fl_Limit ?fl),
      fl_CreatedAfter := map_option (\<lambda>t. t - t mod second) (fl_CreatedAfter ?fl)\<rparr>"
    by (simp add: effective_limit_def second_def millisecond_def)
  moreover have "writable (- second)" by code_simp
  moreover have "operations_fit rid (Inr \<lparr>pg_Items = [sample_operation False 1 0], pg_NextCursor = []\<rparr>)" for rid
    by (simp add: operations_fit_def sample_wire sample_times sample_sendable)
  moreover have "cx_env (sample_context (env_at ''h'' 5)) = env_at ''h'' 5" by (simp add: sample_context_def)
  ultimately show ?thesis
    using list_over_http [OF sample_clients(1), of ?fl ?seen "sample_context (env_at ''h'' 5)" "sample_db 1"] call
    by (simp add: every_def second_def millisecond_def response_of_def state_of_string_def)
qed

end
