(* ===== verification/Coordinator_Round.thy ===== *)
theory Coordinator_Round
  imports Coordinator Store_Recovery
begin

text \<open>
  One round of the coordinator over the store: it claims, asks its verifier about every claimed
  operation and submits what it learns. With a store that answers and leases that outlive the round,
  every claimed operation ends as the decision table says.
\<close>

section \<open>The coordinator over the store\<close>

text \<open>
  The claim runs in \<open>e\<close>, the result of operation \<open>i\<close> in \<open>es i\<close>. The verifier is any function of the
  operation; the hook of the experiments is not set.
\<close>

definition store_coordinator :: "env \<Rightarrow> (uuid \<Rightarrow> env) \<Rightarrow> duration \<Rightarrow> (Operation \<Rightarrow> error + Observation)
    \<Rightarrow> string \<Rightarrow> int \<Rightarrow> duration \<Rightarrow> db coordinator" where
  "store_coordinator e es grace verify worker limit d = \<lparr>co_Hook = (\<lambda>_ _ s. (None, s)),
     co_Claim = (\<lambda>worker limit d s. ClaimRecovery e s worker limit d grace),
     co_Verify = (\<lambda>op s. (verify op, s)), co_Submit = (\<lambda>i res s. SubmitRecoveryResult (es i) s i res),
     co_WorkerID = worker, co_BatchSize = limit, co_LeaseDuration = d\<rparr>"

definition usable :: "Observation \<Rightarrow> bool" where
  "usable ob \<longleftrightarrow> validObservation ob = Inr () \<and> jsonb (if ob_Evidence ob = [] then ''{}'' else ob_Evidence ob) \<noteq> None"

lemma usable_lookup_failed: "usable lookup_failed"
proof -
  have "jsonb ''{}'' \<noteq> None" by (simp add: jsonb_empty)
  then show ?thesis by (simp add: usable_def lookup_failed_def observe_def)
qed

abbreviation claimed_id :: "RecoveryClaim \<Rightarrow> uuid" where
  "claimed_id c \<equiv> op_ID (cl_Operation c)"

section \<open>What a claim holds\<close>

definition claim_held :: "db \<Rightarrow> (uuid \<Rightarrow> uuid) \<Rightarrow> time \<Rightarrow> RecoveryClaim \<Rightarrow> bool" where
  "claim_held s ids t c \<longleftrightarrow> (\<exists>r w a. op_at s (claimed_id c) = Some r
     \<and> lookup_by w_id (o_workflow r) (workflows s) = Some w \<and> cl_Operation c = scanOperation w r
     \<and> o_state r \<in> {StatePrepared, StateUncertain} \<and> o_version r = cl_Version c
     \<and> o_lease_hash r = Some (claimTokenHash (cl_ClaimToken c)) \<and> o_lease_expires r = Some t
     \<and> cl_AttemptID c = ids (claimed_id c)
     \<and> attempt_of s (cl_AttemptID c) (claimed_id c) = Some a \<and> a_finished a = None)"

lemma claim_held_onward:
  assumes "claim_held s ids t c" and "op_at s' (claimed_id c) = op_at s (claimed_id c)" and "workflows s' = workflows s"
    and "attempt_of s' (cl_AttemptID c) (claimed_id c) = attempt_of s (cl_AttemptID c) (claimed_id c)"
  shows "claim_held s' ids t c"
  using assms by (simp add: claim_held_def)

lemma find_append: "find P (xs @ ys) = (case find P xs of Some x \<Rightarrow> Some x | None \<Rightarrow> find P ys)"
  by (induction xs) auto

lemma claim_one_held:
  assumes "claim_one e worker d i s = Inr (c, s1)" and "fresh_id e (''attempt '' @ i) = Some (ids i)"
    and "\<exists>r. op_at s i = Some r \<and> (o_state r = StatePrepared \<or> o_state r = StateUncertain)"
  shows "claim_held s1 ids (now e + d) c" and "claimed_id c = i"
    and "\<exists>a. attempts s1 = attempts s @ [a] \<and> a_operation a = i" and "workflows s1 = workflows s"
    and "j \<noteq> i \<Longrightarrow> op_at s1 j = op_at s j"
proof -
  from assms(1) obtain r w raw aid s2 where r: "op_at s i = Some r"
    and w: "lookup_by w_id (o_workflow r) (workflows s) = Some w"
    and aid: "fresh_id e (''attempt '' @ i) = Some aid" "lookup_by a_id aid (attempts s) = None"
    and s2: "s2 = (update_op i (claim_row e worker (claimTokenHash (b64_encode raw)) d) s)\<lparr>attempts :=
       attempts s @ [\<lparr>a_id = aid, a_operation = i, a_number = next_attempt_number s i,
          a_owner = worker, a_started = now e, a_finished = None, a_result = None\<rparr>]\<rparr>"
    and s1: "s1 = append_event e i ''recovery_claimed'' (Some (o_state r)) (Some (o_state r)) (o_version r + 1)
       ''coordinator'' worker ''lease_acquired'' [(''attempt_id'', DetailText aid),
       (''lease_expires_at'', DetailTime (now e + d))] s2"
    and c: "c = \<lparr>cl_Operation = scanOperation w (claim_row e worker (claimTokenHash (b64_encode raw)) d r),
       cl_ClaimToken = b64_encode raw, cl_AttemptID = aid, cl_LeaseExpiresAt = now e + d,
       cl_Version = o_version r + 1\<rparr>"
    by (rule claim_one_ok)
  have id: "o_id r = i" using r by (rule op_at_id)
  then show ci: "claimed_id c = i" by (simp add: c scanOperation_def claim_row_def)
  have "find (\<lambda>a. a_id a = aid \<and> a_operation a = i) (attempts s) = None"
    using aid(2) by (auto simp: find_None_iff lookup_by_None)
  then show "claim_held s1 ids (now e + d) c"
    using assms(2,3) r w aid(1) id
    by (simp add: claim_held_def ci) (simp add: c s1 s2 store_simps update_op_def lookup_by_update claim_row_def
        attempt_of_def find_append)
  show "\<exists>a. attempts s1 = attempts s @ [a] \<and> a_operation a = i" by (simp add: s1 s2 store_simps)
  show "workflows s1 = workflows s" by (simp add: s1 s2 store_simps)
  show "j \<noteq> i \<Longrightarrow> op_at s1 j = op_at s j"
    by (simp add: s1 s2 store_simps update_op_def lookup_by_update claim_row_def)
qed

lemma claim_all_held:
  "claim_all e worker d is s = Inr (cs, s') \<Longrightarrow> distinct is \<Longrightarrow>
   \<forall>i \<in> set is. fresh_id e (''attempt '' @ i) = Some (ids i)
     \<and> (\<exists>r. op_at s i = Some r \<and> (o_state r = StatePrepared \<or> o_state r = StateUncertain)) \<Longrightarrow>
   (\<exists>more. attempts s' = attempts s @ more \<and> a_operation ` set more \<subseteq> set is)
     \<and> list_all (claim_held s' ids (now e + d)) cs"
proof (induction "is" arbitrary: s cs)
  case (Cons i js)
  from Cons.prems(1) obtain c s1 cs1 where c: "claim_one e worker d i s = Inr (c, s1)"
    and rest: "claim_all e worker d js s1 = Inr (cs1, s')" and cs: "cs = c # cs1"
    by (auto simp: bindE_Inr_iff)
  from Cons.prems(3) have i: "fresh_id e (''attempt '' @ i) = Some (ids i)"
    "\<exists>r. op_at s i = Some r \<and> (o_state r = StatePrepared \<or> o_state r = StateUncertain)" by auto
  note one = claim_one_held [where ids = ids, OF c i]
  have other: "op_at s1 j = op_at s j" if "j \<in> set js" for j
    using one(5) [of j] that Cons.prems(2) by auto
  have "(\<exists>more. attempts s' = attempts s1 @ more \<and> a_operation ` set more \<subseteq> set js)
      \<and> list_all (claim_held s' ids (now e + d)) cs1"
    by (rule Cons.IH [OF rest]) (use Cons.prems(2,3) other in auto)
  then obtain more where more: "attempts s' = attempts s1 @ more" "a_operation ` set more \<subseteq> set js"
    and held: "list_all (claim_held s' ids (now e + d)) cs1" by blast
  have "i \<notin> set js" using Cons.prems(2) by simp
  then have "find (\<lambda>a. a_id a = x \<and> a_operation a = i) more = None" for x
    using more(2) by (auto simp: find_None_iff)
  then have "claim_held s' ids (now e + d) c"
    using claim_all_other [OF rest \<open>i \<notin> set js\<close>] claim_all_tables [OF rest] more(1)
    by (intro claim_held_onward [OF one(1)]) (simp_all add: one(2) attempt_of_def find_append split: option.split)
  moreover have "\<exists>more. attempts s' = attempts s @ more \<and> a_operation ` set more \<subseteq> set (i # js)"
  proof -
    from one(3) obtain a where "attempts s1 = attempts s @ [a]" "a_operation a = i" by blast
    with more show ?thesis by (intro exI [of _ "a # more"]) auto
  qed
  ultimately show ?case using held cs by simp
qed simp

section \<open>Submitting what was learnt\<close>

text \<open>Identifiers for the results of a round: \<open>oid i\<close> and \<open>did i\<close> for the operation \<open>i\<close>, none in use.\<close>

definition fresh_results :: "(uuid \<Rightarrow> env) \<Rightarrow> (uuid \<Rightarrow> uuid) \<Rightarrow> (uuid \<Rightarrow> uuid) \<Rightarrow> uuid set \<Rightarrow> db \<Rightarrow> bool" where
  "fresh_results es oid did is s \<longleftrightarrow> inj oid \<and> inj did \<and> (\<forall>i \<in> is. fresh_id (es i) ''observation'' = Some (oid i)
     \<and> oid i \<notin> b_id ` set (observations s) \<and> fresh_id (es i) ''decision'' = Some (did i)
     \<and> did i \<notin> d_id ` set (decisions s))"

lemma submit_ids:
  assumes "submit_body e s i res = Inr (op, s')" and "fresh_id e ''observation'' = Some x" and "fresh_id e ''decision'' = Some y"
  shows "b_id ` set (observations s') \<subseteq> insert x (b_id ` set (observations s))"
    and "d_id ` set (decisions s') \<subseteq> insert y (d_id ` set (decisions s))"
  using assms
  by (auto simp: submit_body_def bindE_Inr_iff Let_def store_decision_def insert_observation_def insert_decision_def
      finish_attempt_def store_simps split: if_splits)

lemma fresh_onward:
  assumes "fresh_results es oid did is s"
    and "b_id ` set (observations s') \<subseteq> insert (oid i) (b_id ` set (observations s))"
    and "d_id ` set (decisions s') \<subseteq> insert (did i) (d_id ` set (decisions s))"
    and "js \<subseteq> is" and "i \<notin> js"
  shows "fresh_results es oid did js s'"
proof -
  have "oid j \<notin> b_id ` set (observations s')" "did j \<notin> d_id ` set (decisions s')" if j: "j \<in> js" for j
  proof -
    have "j \<noteq> i" "j \<in> is" using j assms(4,5) by auto
    then show "oid j \<notin> b_id ` set (observations s')" "did j \<notin> d_id ` set (decisions s')"
      using assms(1-3) unfolding fresh_results_def by (metis injD insertE subsetD)+
  qed
  then show ?thesis using assms(1,4) unfolding fresh_results_def by blast
qed

lemma find_update_other:
  "x \<noteq> k \<Longrightarrow> (\<And>a. a_id (f a) = a_id a) \<Longrightarrow>
   find (\<lambda>a. a_id a = x \<and> a_operation a = i) (update_by a_id k f t) = find (\<lambda>a. a_id a = x \<and> a_operation a = i) t"
  by (induction t) auto

lemma claim_result_sel [simp]: "rr_ClaimToken (claim_result c ob) = cl_ClaimToken c"
  "rr_ExpectedVersion (claim_result c ob) = cl_Version c" "rr_AttemptID (claim_result c ob) = cl_AttemptID c"
  "rr_Observation (claim_result c ob) = ob"
  by (simp_all add: claim_result_def)

text \<open>
  One result: the operation takes the row the decision gives it; every other claim still holds.
\<close>

lemma submit_held:
  assumes "reachable s" and "healthy e" and "claim_held s ids t c" and "now e < t" and "usable ob" and "fresh_result e s"
  shows "\<exists>op s' r n. SubmitRecoveryResult e s (claimed_id c) (claim_result c ob) = (Inr op, s')
    \<and> submit_body e s (claimed_id c) (claim_result c ob) = Inr (op, s') \<and> reachable s'
    \<and> op_at s (claimed_id c) = Some r
    \<and> op_at s' (claimed_id c) = Some (result_row e (decide (cl_Operation c) ob n) (cl_Version c + 1) r)"
proof -
  from assms(3) obtain r w a where r: "op_at s (claimed_id c) = Some r" and w: "lookup_by w_id (o_workflow r) (workflows s) = Some w"
    and op: "cl_Operation c = scanOperation w r" and st: "o_state r \<in> {StatePrepared, StateUncertain}"
    and v: "o_version r = cl_Version c" and lease: "o_lease_hash r = Some (claimTokenHash (cl_ClaimToken c))" "o_lease_expires r = Some t"
    and a: "attempt_of s (cl_AttemptID c) (claimed_id c) = Some a" "a_finished a = None"
    unfolding claim_held_def by blast
  let ?res = "claim_result c ob"
  have "lease_valid e r (rr_ClaimToken ?res)" using lease assms(4) by (simp add: lease_valid_def)
  moreover have "evidence_of ?res \<noteq> None"
    using assms(5) unfolding usable_def evidence_of_def claim_result_sel by (rule conjunct2)
  ultimately obtain op' s' where ok: "submit_body e s (claimed_id c) ?res = Inr (op', s')"
    and row: "op_at s' (claimed_id c) = Some (result_row e (decide (scanOperation w r) ob (a_number a)) (o_version r + 1) r)"
    using submit_accepted [OF assms(1,2) r st, of ?res a w] assms(6) a v w by auto
  have sub: "SubmitRecoveryResult e s (claimed_id c) ?res = (Inr op', s')"
    using assms(5) by (simp add: SubmitRecoveryResult_def usable_def ok healthy_tx [OF assms(2)])
  have "reachable (store_exec e (CallSubmit (claimed_id c) ?res) s)" by (rule reachable.step [OF assms(1)])
  then have "reachable s'" by (simp add: sub)
  with sub ok row r op v show ?thesis by auto
qed

lemma submit_others:
  assumes "submit_body e s i res = Inr (op, s')"
  shows "j \<noteq> i \<Longrightarrow> op_at s' j = op_at s j" and "workflows s' = workflows s"
    and "x \<noteq> rr_AttemptID res \<Longrightarrow> attempt_of s' x j = attempt_of s x j"
  using assms
  by (rule submit_ok; auto simp: store_simps lookup_by_update result_row_def attempt_of_def find_update_other)+

section \<open>The round\<close>

definition settled :: "(uuid \<Rightarrow> env) \<Rightarrow> (Operation \<Rightarrow> error + Observation) \<Rightarrow> db \<Rightarrow> db \<Rightarrow> RecoveryClaim \<Rightarrow> bool" where
  "settled es verify s s' c \<longleftrightarrow> (\<exists>r n. op_at s (claimed_id c) = Some r
     \<and> op_at s' (claimed_id c) = Some (result_row (es (claimed_id c))
          (decide (cl_Operation c) (settled_observation (verify (cl_Operation c))) n) (cl_Version c + 1) r))"

lemma process_settles:
  "reachable s \<Longrightarrow> list_all (claim_held s ids t) cs \<Longrightarrow> distinct (map claimed_id cs) \<Longrightarrow> inj ids \<Longrightarrow>
   \<forall>i. healthy (es i) \<and> now (es i) < t \<Longrightarrow> fresh_results es oid did (claimed_id ` set cs) s \<Longrightarrow>
   \<forall>op. usable (settled_observation (verify op)) \<Longrightarrow>
   \<exists>s'. process_claims (store_coordinator e es grace verify worker limit d) cs n s = ((n + int (length cs), None), s')
     \<and> list_all (settled es verify s s') cs \<and> (\<forall>j. j \<notin> claimed_id ` set cs \<longrightarrow> op_at s' j = op_at s j)"
proof (induction cs arbitrary: s n)
  case (Cons c cs)
  let ?i = "claimed_id c" and ?ob = "settled_observation (verify (cl_Operation c))"
  let ?co = "store_coordinator e es grace verify worker limit d"
  from Cons.prems(6) have fresh: "fresh_id (es ?i) ''observation'' = Some (oid ?i)" "fresh_id (es ?i) ''decision'' = Some (did ?i)"
    and "fresh_result (es ?i) s"
    by (auto simp: fresh_results_def fresh_result_def lookup_by_None)
  from submit_held [OF Cons.prems(1) _ _ _ _ this(3), of ids t c ?ob] Cons.prems(2,5,7)
  obtain op s1 r k where sub: "SubmitRecoveryResult (es ?i) s ?i (claim_result c ?ob) = (Inr op, s1)"
    and body: "submit_body (es ?i) s ?i (claim_result c ?ob) = Inr (op, s1)" and reach: "reachable s1"
    and row: "op_at s ?i = Some r" "op_at s1 ?i = Some (result_row (es ?i) (decide (cl_Operation c) ?ob k) (cl_Version c + 1) r)"
    by auto
  note others = submit_others [OF body] and ids = submit_ids [OF body fresh]
  have apart: "claimed_id x \<noteq> ?i" if "x \<in> set cs" for x using Cons.prems(3) imageI [OF that, of claimed_id] by auto
  have attempt: "cl_AttemptID x = ids (claimed_id x)" if "x \<in> set (c # cs)" for x
    using Cons.prems(2) that by (auto simp: list_all_iff claim_held_def)
  have "claim_held s1 ids t x" if x: "x \<in> set cs" for x
  proof (rule claim_held_onward)
    show "claim_held s ids t x" using Cons.prems(2) x by (simp add: list_all_iff)
    have "cl_AttemptID x \<noteq> cl_AttemptID c" using attempt [of x] attempt [of c] apart [OF x] x Cons.prems(4) by (auto dest: injD)
    then show "attempt_of s1 (cl_AttemptID x) (claimed_id x) = attempt_of s (cl_AttemptID x) (claimed_id x)"
      by (intro others(3)) simp
  qed (use others(1) [OF apart [OF x]] others(2) in simp_all)
  then have held: "list_all (claim_held s1 ids t) cs" by (simp add: list_all_iff)
  have "fresh_results es oid did (claimed_id ` set cs) s1"
    by (rule fresh_onward [OF Cons.prems(6) ids]) (use Cons.prems(3) in auto)
  from Cons.IH [OF reach held _ Cons.prems(4,5) this Cons.prems(7), of "n + 1"] Cons.prems(3)
  obtain s' where rest: "process_claims ?co cs (n + 1) s1 = ((n + 1 + int (length cs), None), s')"
    and finished: "list_all (settled es verify s1 s') cs" and same: "\<forall>j. j \<notin> claimed_id ` set cs \<longrightarrow> op_at s' j = op_at s1 j"
    by auto
  have "?i \<notin> claimed_id ` set cs" using Cons.prems(3) by simp
  then have "settled es verify s s' c" using row same by (auto simp: settled_def)
  moreover have "list_all (settled es verify s s') cs"
    using finished others(1) apart by (auto simp: list_all_iff settled_def)
  moreover have "\<forall>j. j \<notin> claimed_id ` set (c # cs) \<longrightarrow> op_at s' j = op_at s j" using same others(1) by auto
  moreover have "process_claims ?co (c # cs) n s = ((n + int (length (c # cs)), None), s')"
    using sub rest by (simp add: store_coordinator_def)
  ultimately show ?case by auto
qed (simp add: store_coordinator_def)

text \<open>C38. A round of the coordinator settles what it claims. In any reachable database, when the store
  answers, identifiers are new and the leases outlive the round, \<open>RunOnce\<close> returns without error and
  counts every claim, an abandoned operation is among them, and each claimed operation ends in the row
  that the decision table gives for what the verifier said of it (a failed verification counts as a
  transient error); no other operation changes.\<close>

theorem round_settles:
  assumes "reachable s" and "healthy e" and "fresh_claims e s ids" and "locked e = []"
    and "\<forall>j. healthy (es j) \<and> now (es j) < now e + d"
    and "fresh_results es oid did (set (recovery_work e s limit grace [])) s"
    and "\<forall>op. usable (settled_observation (verify op))"
    and "op_at s i = Some r" and "abandoned (now e) grace s r" and "length (operations s) \<le> nat limit"
  shows "\<exists>cs s1 s'. ClaimRecovery e s worker limit d grace = (Inr cs, s1)
    \<and> RunOnce (store_coordinator e es grace verify worker limit d) s = ((int (length cs), None), s')
    \<and> i \<in> claimed_id ` set cs \<and> list_all (settled es verify s1 s') cs
    \<and> (\<forall>j. j \<notin> claimed_id ` set cs \<longrightarrow> op_at s' j = op_at s j)"
proof -
  let ?work = "recovery_work e s limit grace []"
  obtain cs s1 where claim: "ClaimRecovery e s worker limit d grace = (Inr cs, s1)"
    and all: "claim_all e worker d ?work s = Inr (cs, s1)"
    using claim_succeeds [OF assms(1-3)] .
  have rows: "distinct (map o_id (operations s))" using reachable_inv [OF assms(1)] by (simp add: store_inv_def)
  note work = claim_all_ids [OF all]
  then have claimed: "claimed_id ` set cs = set ?work" by (metis set_map)
  have open_rows: "\<exists>r. op_at s j = Some r \<and> (o_state r = StatePrepared \<or> o_state r = StateUncertain)"
    if "j \<in> set ?work" for j
    by (rule recovery_work_rows [OF rows that]) (use claimable_open in blast)
  have held: "list_all (claim_held s1 ids (now e + d)) cs"
    using claim_all_held [OF all recovery_work_distinct [OF rows], of ids] open_rows assms(3)
    by (auto simp: fresh_claims_def)
  have "reachable (store_exec e (CallClaim worker limit d grace []) s)" by (rule reachable.step [OF assms(1)])
  then have reach: "reachable s1" using claim by (simp add: ClaimRecovery_def)
  have "fresh_results es oid did (claimed_id ` set cs) s1"
    using assms(6) claim_all_tables [OF all] unfolding claimed fresh_results_def by simp
  moreover have "distinct (map claimed_id cs)" unfolding work by (rule recovery_work_distinct [OF rows])
  moreover have "inj ids" using assms(3) by (simp add: fresh_claims_def)
  ultimately obtain s' where loop: "process_claims (store_coordinator e es grace verify worker limit d) cs 0 s1 = ((int (length cs), None), s')"
    and rest: "list_all (settled es verify s1 s') cs" "\<forall>j. j \<notin> claimed_id ` set cs \<longrightarrow> op_at s' j = op_at s1 j"
    using process_settles [OF reach held _ _ assms(5) _ assms(7), where e = e and grace = grace and worker = worker
        and limit = limit and d = d and n = 0 and oid = oid and did = did] by auto
  have "RunOnce (store_coordinator e es grace verify worker limit d) s = ((int (length cs), None), s')"
    using claim loop by (simp add: RunOnce_def store_coordinator_def)
  moreover have "\<forall>j. j \<notin> claimed_id ` set cs \<longrightarrow> op_at s' j = op_at s j"
    using rest(2) claim_all_other [OF all] unfolding claimed by simp
  moreover have "i \<in> claimed_id ` set cs" unfolding claimed by (rule abandoned_work [OF assms(4,8-10)])
  ultimately show ?thesis using claim rest(1) by blast
qed

theorem round_settles_witness:
  "\<exists>cs s1 s'. ClaimRecovery (env_at ''c'' 100) (sample_db 2) ''w'' 5 50 10 = (Inr cs, s1)
    \<and> RunOnce (store_coordinator (env_at ''c'' 100) (\<lambda>i. env_at i 110) 10 (\<lambda>_. Inr no_evidence) ''w'' 5 50) (sample_db 2)
        = ((int (length cs), None), s')
    \<and> ''aoperation'' \<in> claimed_id ` set cs \<and> list_all (settled (\<lambda>i. env_at i 110) (\<lambda>_. Inr no_evidence) s1 s') cs
    \<and> (\<forall>j. j \<notin> claimed_id ` set cs \<longrightarrow> op_at s' j = op_at (sample_db 2) j)"
proof -
  let ?r = "authorize_row (env_at ''b'' 1) (new_op_row (env_at ''a'' 0) ''aoperation'' ''aworkflow'' sample_request (JObj []) (JObj []))"
  have r: "op_at (sample_db 2) ''aoperation'' = Some ?r" and a: "abandoned (now (env_at ''c'' 100)) 10 (sample_db 2) ?r"
    and n: "length (operations (sample_db 2)) \<le> nat 5" and t: "attempts (sample_db 2) = []"
    "observations (sample_db 2) = []" "decisions (sample_db 2) = []"
    by (simp_all add: sample_simps exec_simps abandoned_def)
  have f: "fresh_claims (env_at ''c'' 100) (sample_db 2) (\<lambda>i. ''cattempt '' @ i)"
    by (simp add: fresh_claims_def env_at_def inj_def t)
  have l: "locked (env_at ''c'' 100) = []" and ms: "\<forall>j. healthy (env_at j 110) \<and> now (env_at j 110) < now (env_at ''c'' 100) + 50"
    by (simp_all add: healthy_def env_at_def)
  have g: "fresh_results (\<lambda>i. env_at i 110) (\<lambda>i. i @ ''observation'') (\<lambda>i. i @ ''decision'') js (sample_db 2)" for js
    by (simp add: fresh_results_def env_at_def inj_def t)
  have u: "\<forall>op :: Operation. usable (settled_observation (Inr no_evidence))"
    by (simp add: usable_def settled_observation_def no_evidence_def jsonb_empty)
  show ?thesis by (rule round_settles [OF reachable_sample healthy_env_at f l ms g u r a n])
qed

end
