(* ===== verification/Canonical.thy ===== *)
theory Canonical
  imports Json_Round Domain
begin

text \<open>
  The canonical form behind the fingerprints: what the decoder reads is printable, its normal form is
  a fixed point, and so the canonical text of a document is canonical, denotes the same value and
  depends on nothing else.
\<close>

section \<open>Numbers\<close>

lemma scan_digits1_again:
  assumes "scan_digits1 s = Some (ds, r)" and "t = [] \<or> \<not> is_digit (hd t)"
  shows "scan_digits1 (ds @ t) = Some (ds, t)" and "ds \<noteq> []" and "list_all is_digit ds" and "hd ds = hd s"
proof -
  have ds: "ds = takeWhile is_digit s" "ds \<noteq> []" using assms(1) by (auto simp: scan_digits1_def split: if_splits)
  then have all: "\<forall>x \<in> set ds. is_digit x" by (auto dest: set_takeWhileD)
  moreover have "takeWhile is_digit t = []" "dropWhile is_digit t = t" using assms(2) by (cases t; simp)+
  ultimately show "scan_digits1 (ds @ t) = Some (ds, t)" using ds(2) by (simp add: scan_digits1_def)
  show "ds \<noteq> []" "list_all is_digit ds" using ds(2) all by (simp_all add: list_all_iff)
  show "hd ds = hd s" using ds by (cases s) (auto split: if_splits)
qed

lemma scan_int_again:
  assumes "scan_int s = Some (i, r)" and "t = [] \<or> \<not> is_digit (hd t)"
  shows "scan_int (i @ t) = Some (i, t)" and "i \<noteq> []" and "is_digit (hd i)"
proof -
  obtain c s' where s: "s = c # s'" using assms(1) by (cases s) auto
  have "scan_int (i @ t) = Some (i, t) \<and> i \<noteq> [] \<and> is_digit (hd i)"
  proof (cases "c = CHR ''0''")
    case True
    then show ?thesis using assms(1) s by (auto simp: is_digit_def)
  next
    case False
    with assms(1) s have d: "scan_digits1 (c # s') = Some (i, r)" by simp
    note a = scan_digits1_again [OF d assms(2)]
    obtain x i' where i: "i = x # i'" using a(2) by (cases i) auto
    then show ?thesis using a False by simp
  qed
  then show "scan_int (i @ t) = Some (i, t)" "i \<noteq> []" "is_digit (hd i)" by auto
qed

lemma scan_exp_again:
  assumes "scan_exp s = Some (e, r)"
  shows "scan_exp e = Some (e, [])" and "e = [] \<or> hd e = CHR ''e'' \<or> hd e = CHR ''E''"
  using assms scan_digits1_again [where t = "[]"]
  by (cases s; fastforce split: if_splits list.splits)+

lemma scan_frac_again:
  assumes "scan_frac s = Some (f, r)" and "t = [] \<or> hd t = CHR ''e'' \<or> hd t = CHR ''E''"
  shows "scan_frac (f @ t) = Some (f, t)" and "f @ t = [] \<or> \<not> is_digit (hd (f @ t))"
proof -
  have nodigit: "t = [] \<or> \<not> is_digit (hd t)" using assms(2) by (auto simp: is_digit_def)
  have "scan_frac (f @ t) = Some (f, t) \<and> (f @ t = [] \<or> \<not> is_digit (hd (f @ t)))"
  proof (cases "f = []")
    case True
    then show ?thesis using assms(2) nodigit by (cases t) auto
  next
    case False
    then obtain ds s' where "f = CHR ''.'' # ds" "scan_digits1 s' = Some (ds, r)"
      using assms(1) by (cases s) (auto split: if_splits)
    then show ?thesis using scan_digits1_again(1) [OF _ nodigit] by (auto simp: is_digit_def)
  qed
  then show "scan_frac (f @ t) = Some (f, t)" "f @ t = [] \<or> \<not> is_digit (hd (f @ t))" by auto
qed

lemma scan_number_literal:
  assumes "scan_number s = Some (l, t)"
  shows "literal l"
proof -
  obtain sign s0 where s0: "(case s of c # r \<Rightarrow> if c = CHR ''-'' then ([c], r) else ([], s) | [] \<Rightarrow> ([], s)) = (sign, s0)"
    by fastforce
  from assms s0 obtain i s1 f s2 e where
    i: "scan_int s0 = Some (i, s1)" and f: "scan_frac s1 = Some (f, s2)" and e: "scan_exp s2 = Some (e, t)"
    and l: "l = sign @ i @ f @ e"
    by (auto simp: scan_number_def split: option.splits)
  note e' = scan_exp_again [OF e] and f' = scan_frac_again [OF f scan_exp_again(2) [OF e]]
  note i' = scan_int_again [OF i f'(2)]
  have "sign = [] \<or> sign = ''-''" using s0 by (auto split: list.splits if_splits)
  moreover obtain c i0 where c: "i = c # i0" "c \<noteq> CHR ''-''" using i'(2,3) digit_not_minus by (cases i) auto
  ultimately have front: "(case l of c # r \<Rightarrow> if c = CHR ''-'' then ([c], r) else ([], l) | [] \<Rightarrow> ([], l)) = (sign, i @ f @ e)"
    by (auto simp: l)
  show ?thesis unfolding literal_def scan_number_def Let_def front using i'(1) f'(1) e'(1) l by simp
qed

section \<open>Strings\<close>

lemma utf8_append: "utf8 x \<Longrightarrow> utf8 y \<Longrightarrow> utf8 (x @ y)"
proof (induction x rule: utf8.induct)
  case (2 c s)
  then obtain n where n: "utf8_len (c # s) = Suc n" by (cases "utf8_len (c # s)") (auto simp: utf8.simps(2))
  have "utf8_len (c # take n s @ drop n s @ y) = Suc n" by (rule utf8_len_front [OF n])
  then have "utf8_len (c # s @ y) = Suc n" by (metis append.assoc append_take_drop_id)
  moreover have "utf8 (drop n s @ y)" using 2 n by (simp add: utf8.simps(2))
  ultimately show ?case using utf8_len_bound [OF n] by (simp add: utf8.simps(2))
qed simp

lemma utf8_first:
  assumes "utf8_len (c # s) = Suc n"
  shows "utf8 (c # take n s)"
proof -
  have "utf8_len (c # take n s @ []) = Suc n" by (rule utf8_len_front [OF assms])
  then show ?thesis by (simp add: utf8.simps(2))
qed

lemma encode_rune_utf8:
  assumes "r < 55296 \<or> 57344 \<le> r \<and> r < 1114112"
  shows "utf8 (encode_rune r)"
proof -
  consider "r < 128" | "128 \<le> r" "r < 2048" | "2048 \<le> r" "r < 65536" | "65536 \<le> r" "r < 1114112"
    using assms by linarith
  then show ?thesis
  proof cases
    case 1
    then show ?thesis by (simp add: encode_rune_def utf8.simps(2) utf8_len.simps(2))
  next
    case 2
    then have "2 \<le> r div 64" "r div 64 < 32" by simp_all
    then show ?thesis using 2 by (simp add: encode_rune_def utf8.simps(2) utf8_len.simps(2) cont_def)
  next
    case 3
    define q where "q = r div 64"
    have q: "32 \<le> q" "q < 1024" "q < 864 \<or> 896 \<le> q" "r div 4096 = q div 64"
      using 3 assms by (auto simp: q_def div_mult2_eq [symmetric] less_eq_div_iff_mult_less_eq div_less_iff_less_mult)
    have bounds: "q div 64 < 16" "q div 64 = 0 \<Longrightarrow> 32 \<le> q mod 64" "q div 64 = 13 \<Longrightarrow> q mod 64 \<le> 31"
      using q(1-3) mult_div_mod_eq [of 64 q] by linarith+
    have e: "encode_rune r = [char_of (224 + q div 64), char_of (128 + q mod 64), char_of (128 + r mod 64)]"
      using 3 by (simp add: encode_rune_def q(4)) (simp add: q_def)
    have bytes: "byte (char_of (224 + q div 64)) = 224 + q div 64" "byte (char_of (128 + x mod 64)) = 128 + x mod 64" for x :: nat
      using bounds(1) by simp_all
    have "utf8_len (encode_rune r) = 3"
      unfolding e utf8_len.simps(2) Let_def cont_def list.case bytes using bounds by auto
    then show ?thesis unfolding e utf8.simps(2) by simp
  next
    case 4
    define q where "q = r div 4096"
    have q: "16 \<le> q" "q < 272" "r div 262144 = q div 64" using 4 by (simp_all add: q_def div_mult2_eq [symmetric])
    have bounds: "q div 64 < 5" "q div 64 = 0 \<Longrightarrow> 16 \<le> q mod 64" "q div 64 = 4 \<Longrightarrow> q mod 64 \<le> 15"
      using q(1,2) mult_div_mod_eq [of 64 q] by linarith+
    have e: "encode_rune r = [char_of (240 + q div 64), char_of (128 + q mod 64), char_of (128 + r div 64 mod 64), char_of (128 + r mod 64)]"
      using 4 by (simp add: encode_rune_def q(3)) (simp add: q_def)
    have bytes: "byte (char_of (240 + q div 64)) = 240 + q div 64" "byte (char_of (128 + x mod 64)) = 128 + x mod 64" for x :: nat
      using bounds(1) by simp_all
    have "utf8_len (encode_rune r) = 4"
      unfolding e utf8_len.simps(2) Let_def cont_def list.case bytes using bounds by auto
    then show ?thesis unfolding e utf8.simps(2) by simp
  qed
qed

text \<open>Every escape in the body of a scanned string is complete.\<close>

fun escapes_ok :: "string \<Rightarrow> bool" where
  "escapes_ok [] = True"
| "escapes_ok (c # s) =
     (if c = CHR 0x5C then
        (case s of
           [] \<Rightarrow> False
         | e # r \<Rightarrow>
             if e = CHR ''u'' then
               (case r of
                  a # b # x # y # r' \<Rightarrow> is_hex a \<and> is_hex b \<and> is_hex x \<and> is_hex y \<and> escapes_ok r'
                | _ \<Rightarrow> False)
             else e \<in> set (CHR 0x22 # CHR 0x5C # ''/bfnrt'') \<and> escapes_ok r)
      else escapes_ok s)"

lemma scan_escapes: "scan_string s = Some (raw, t) \<Longrightarrow> escapes_ok raw"
proof (induction s arbitrary: raw rule: scan_string.induct)
  case (2 c s)
  consider "c = CHR 0x22" | "c = CHR 0x5C" | "c \<noteq> CHR 0x22" "c \<noteq> CHR 0x5C" by blast
  then show ?case
  proof cases
    case 1
    then show ?thesis using "2.prems" by simp
  next
    case c: 2
    obtain e r where s: "s = e # r" using "2.prems" c by (cases s) auto
    show ?thesis
    proof (cases "e = CHR ''u''")
      case True
      then obtain a b x y r' where r: "r = a # b # x # y # r'" and hex: "is_hex a" "is_hex b" "is_hex x" "is_hex y"
        and raw: "map_option (\<lambda>(raw, t). (c # e # a # b # x # y # raw, t)) (scan_string r') = Some (raw, t)"
        using "2.prems" c s by (auto split: list.splits if_splits)
      then obtain raw' where raw': "scan_string r' = Some (raw', t)" "raw = c # e # a # b # x # y # raw'" by auto
      have "escapes_ok raw'"
        by (rule "2.IH"(1) [OF _ _ s True r refl refl refl _ raw'(1)]) (use c hex in simp_all)
      then show ?thesis using hex True c raw'(2) by simp
    next
      case False
      then have e: "e \<in> set (CHR 0x22 # CHR 0x5C # ''/bfnrt'')"
        and "map_option (\<lambda>(raw, t). (c # e # raw, t)) (scan_string r) = Some (raw, t)"
        using "2.prems" c s by (auto split: if_splits simp del: set_simps)
      then obtain raw' where raw': "scan_string r = Some (raw', t)" "raw = c # e # raw'" by auto
      have "escapes_ok raw'" by (rule "2.IH"(2) [OF _ _ s False e raw'(1)]) (use c in simp_all)
      then show ?thesis using e False c raw'(2) by simp
    qed
  next
    case 3
    then obtain raw' where raw': "scan_string s = Some (raw', t)" "raw = c # raw'" "\<not> byte c < 32"
      using "2.prems" by (auto split: if_splits)
    then show ?thesis using "2.IH"(3) [OF 3 raw'(3,1)] 3 by simp
  qed
qed simp

lemma escapes_plain: "list_all (\<lambda>c. 128 \<le> byte c) x \<Longrightarrow> escapes_ok (x @ y) \<longleftrightarrow> escapes_ok y"
  by (induction x) auto

lemma escapes_rest:
  assumes "escapes_ok (c # s)" and "c \<noteq> CHR 0x5C" and "utf8_len (c # s) = Suc n"
  shows "escapes_ok (drop n s)"
proof (cases "byte c < 128")
  case True
  then have "n = 0" using assms(3) by (simp add: utf8_len.simps(2))
  then show ?thesis using assms(1,2) by simp
next
  case False
  then have "\<forall>x \<in> set (c # take n s). 128 \<le> byte x" using utf8_front_bytes [OF _ assms(3)] by simp
  then have "list_all (\<lambda>c. 128 \<le> byte c) (take n s)" by (simp add: list_all_iff)
  then have "escapes_ok (take n s @ drop n s) \<longleftrightarrow> escapes_ok (drop n s)" by (rule escapes_plain)
  then show ?thesis using assms(1,2) by simp
qed

lemma u4_bound: "is_hex a \<Longrightarrow> is_hex b \<Longrightarrow> is_hex c \<Longrightarrow> is_hex d \<Longrightarrow> u4 a b c d < 65536"
proof -
  have digit: "is_hex c \<Longrightarrow> hex_val c \<le> 15" for c
    by (auto simp: is_hex_def hex_val_def is_digit_def)
  assume "is_hex a" "is_hex b" "is_hex c" "is_hex d"
  note this [THEN digit]
  then show "u4 a b c d < 65536" unfolding u4_def distrib_right mult.assoc by simp
qed

lemma low_surrogate_shape:
  assumes "low_surrogate r = Some lo"
  obtains a b c d r' where "r = CHR 0x5C # CHR ''u'' # a # b # c # d # r'" and "56320 \<le> lo" and "lo < 57344"
  using assms by (cases r rule: low_surrogate.cases) (auto split: if_splits)

lemma unescape_utf8: "e \<in> set (CHR 0x22 # CHR 0x5C # ''/bfnrt'') \<Longrightarrow> utf8 [unescape1 e]"
proof -
  have "list_all (\<lambda>e. byte (unescape1 e) < 128) (CHR 0x22 # CHR 0x5C # ''/bfnrt'')" by code_simp
  then show "e \<in> set (CHR 0x22 # CHR 0x5C # ''/bfnrt'') \<Longrightarrow> utf8 [unescape1 e]"
    unfolding list_all_iff by (auto intro!: utf8_ascii simp del: set_simps)
qed

lemma replacement_utf8: "utf8 replacement"
  unfolding replacement_def by (rule encode_rune_utf8) simp

lemma utf8_Cons: "utf8 [c] \<Longrightarrow> utf8 s \<Longrightarrow> utf8 (c # s)"
  using utf8_append [of "[c]" s] by simp

text \<open>What the decoder makes of a string literal is valid UTF-8.\<close>

lemma unquote_utf8: "escapes_ok raw \<Longrightarrow> utf8 (unquote raw)"
proof (induction "length raw" arbitrary: raw rule: less_induct)
  case less
  show ?case
  proof (cases raw)
    case raw: (Cons c s)
    show ?thesis
    proof (cases "c = CHR 0x5C")
      case c: True
      then obtain e r where s: "s = e # r" using less.prems raw by (cases s) auto
      show ?thesis
      proof (cases "e = CHR ''u''")
        case e: True
        then obtain a b x y r' where r: "r = a # b # x # y # r'" and hex: "is_hex a" "is_hex b" "is_hex x" "is_hex y"
          and ok: "escapes_ok r'"
          using less.prems raw c s by (auto split: list.splits)
        let ?u = "u4 a b x y"
        have rest: "utf8 (unquote r')" using less.hyps [OF _ ok] raw s r by simp
        consider (pair) lo where "55296 \<le> ?u" "?u < 56320" "low_surrogate r' = Some lo"
          | (lone) "55296 \<le> ?u" "?u < 57344" "(if ?u < 56320 then low_surrogate r' else None) = None"
          | (plain) "\<not> (55296 \<le> ?u \<and> ?u < 57344)"
          by (cases "?u < 56320"; cases "low_surrogate r'") (auto split: if_splits)
        then show ?thesis
        proof cases
          case pair
          from low_surrogate_shape [OF pair(3)] obtain a' b' c' d' r'' where
            r': "r' = CHR 0x5C # CHR ''u'' # a' # b' # c' # d' # r''" and lo: "56320 \<le> lo" "lo < 57344" .
          have "utf8 (unquote r'')" using less.hyps [of r''] ok raw s r r' by simp
          moreover have "utf8 (encode_rune (65536 + (?u - 55296) * 1024 + (lo - 56320)))"
            by (rule encode_rune_utf8) (use pair(1,2) lo in linarith)
          moreover have "unquote raw = encode_rune (65536 + (?u - 55296) * 1024 + (lo - 56320)) @ unquote r''"
            using pair raw c s e r r' by (simp add: unquote.simps(2) Let_def del: low_surrogate.simps)
          ultimately show ?thesis by (simp add: utf8_append)
        next
          case lone
          then have "unquote raw = replacement @ unquote r'"
            using raw c s e r by (simp add: unquote.simps(2) Let_def)
          then show ?thesis using rest replacement_utf8 by (simp add: utf8_append)
        next
          case plain
          then have "\<not> (55296 \<le> ?u \<and> ?u < 57344)" "\<not> (55296 \<le> ?u \<and> ?u < 56320)" by linarith+
          then have "unquote raw = encode_rune ?u @ unquote r'"
            using raw c s e r by (auto simp: unquote.simps(2) Let_def)
          moreover have "utf8 (encode_rune ?u)"
            by (rule encode_rune_utf8) (use plain u4_bound [OF hex] in linarith)
          ultimately show ?thesis using rest by (simp add: utf8_append)
        qed
      next
        case False
        then have e: "e \<in> set (CHR 0x22 # CHR 0x5C # ''/bfnrt'')" and ok: "escapes_ok r"
          using less.prems raw c s by (simp_all del: set_simps)
        have "utf8 (unquote r)" using less.hyps [OF _ ok] raw s by simp
        moreover have "unquote raw = unescape1 e # unquote r" using False raw c s by (simp add: unquote.simps(2))
        ultimately show ?thesis using utf8_Cons [OF unescape_utf8 [OF e]] by simp
      qed
    next
      case c: False
      show ?thesis
      proof (cases "utf8_len (c # s)")
        case 0
        have "utf8 (unquote s)" using less.hyps [of s] less.prems raw c by simp
        then show ?thesis using 0 raw c replacement_utf8 by (simp add: unquote.simps(2) utf8_append)
      next
        case (Suc n)
        have "escapes_ok (drop n s)" using escapes_rest [OF _ c Suc] less.prems raw by simp
        then have "utf8 (unquote (drop n s))" using less.hyps [of "drop n s"] raw by simp
        then show ?thesis using Suc raw c utf8_append [OF utf8_first [OF Suc]] by (simp add: unquote.simps(2))
      qed
    qed
  qed simp
qed

section \<open>Values\<close>

lemma scanned_utf8: "scan_string s = Some (raw, t) \<Longrightarrow> utf8 (unquote raw)"
  by (rule unquote_utf8 [OF scan_escapes])

text \<open>A parsed tree is printable and no deeper than the decoder allows.\<close>

abbreviation fits :: "nat \<Rightarrow> json \<Rightarrow> bool" where
  "fits d v \<equiv> printable v \<and> d + depth v \<le> max_depth"

lemma parse_fits:
  "parse_value n d s = Some (v, t) \<Longrightarrow> d \<le> max_depth \<Longrightarrow> fits d v"
  "parse_elems n d s = Some (vs, t) \<Longrightarrow> d \<le> max_depth \<Longrightarrow> printable_list vs \<and> d + depth_list vs \<le> max_depth"
  "parse_members n d s = Some (ms, t) \<Longrightarrow> d \<le> max_depth \<Longrightarrow> printable_members ms \<and> d + depth_members ms \<le> max_depth"
proof (induction n arbitrary: d s v vs ms t)
  case (Suc n)
  {
    case 1
    then obtain c r where s: "skip_ws s = c # r" by (cases "skip_ws s") auto
    consider (obj) "c = CHR ''{''" | (arr) "c = CHR ''[''" | (str) "c = CHR 0x22" | (tru) "c = CHR ''t''" | (fls) "c = CHR ''f''"
      | (nul) "c = CHR ''n''" | (num) "c \<notin> {CHR ''{'', CHR ''['', CHR 0x22, CHR ''t'', CHR ''f'', CHR ''n''}" by blast
    then show ?case
    proof cases
      case obj
      then show ?thesis using 1 s Suc.IH(3) [of "Suc d"] by (auto split: if_splits)
    next
      case arr
      then show ?thesis using 1 s Suc.IH(2) [of "Suc d"] by (auto split: if_splits)
    next
      case str
      then show ?thesis using 1 s scanned_utf8 by auto
    next
      case num
      then show ?thesis using 1 s scan_number_literal by auto
    qed (use 1 s in \<open>auto split: if_splits\<close>)
  next
    case 2
    then show ?case using Suc.IH(1,2) [of d]
      by (fastforce split: option.splits prod.splits list.splits if_splits)
  next
    case 3
    then show ?case using Suc.IH(1,3) [of d] scanned_utf8
      by (fastforce split: option.splits prod.splits list.splits if_splits)
  }
qed simp_all

section \<open>Normal forms\<close>

lemma put_key_fits:
  "printable_members acc \<and> depth_members acc \<le> k \<Longrightarrow> utf8 x \<Longrightarrow> printable v \<Longrightarrow> depth v \<le> k \<Longrightarrow>
   printable_members (put_key x v acc) \<and> depth_members (put_key x v acc) \<le> k"
  by (induction acc rule: put_key.induct) auto

lemma norm_fits:
  "printable v \<Longrightarrow> printable (norm v) \<and> depth (norm v) \<le> depth v"
  "printable_list vs \<Longrightarrow> printable_list (norm_list vs) \<and> depth_list (norm_list vs) \<le> depth_list vs"
  "printable_members ms \<Longrightarrow> printable_members acc \<Longrightarrow> printable_members (norm_members acc ms)
     \<and> depth_members (norm_members acc ms) \<le> max (depth_members acc) (depth_members ms)"
proof (induction v and vs and acc ms rule: norm_norm_list_norm_members.induct)
  case (7 acc k v ms)
  let ?m = "max (depth_members acc) (depth v)"
  have "printable_members (put_key k (norm v) acc) \<and> depth_members (put_key k (norm v) acc) \<le> ?m"
    by (rule put_key_fits) (use 7 in auto)
  with 7 show ?case by fastforce
qed auto

text \<open>Normal trees: keys in order, each once, all the way down.\<close>

fun normal :: "json \<Rightarrow> bool"
  and normal_list :: "json list \<Rightarrow> bool"
  and normal_members :: "(string \<times> json) list \<Rightarrow> bool" where
  "normal (JArr vs) = normal_list vs"
| "normal (JObj ms) = (sorted_wrt (<) (map fst ms) \<and> normal_members ms)"
| "normal v = True"
| "normal_list [] = True"
| "normal_list (v # vs) = (normal v \<and> normal_list vs)"
| "normal_members [] = True"
| "normal_members ((k, v) # ms) = (normal v \<and> normal_members ms)"

lemma put_key_fst: "fst ` set (put_key k v m) = insert k (fst ` set m)"
  by (induction k v m rule: put_key.induct) auto

lemma put_key_normal:
  "sorted_wrt (<) (map fst m) \<Longrightarrow> normal_members m \<Longrightarrow> normal v \<Longrightarrow>
   sorted_wrt (<) (map fst (put_key k v m)) \<and> normal_members (put_key k v m)"
proof (induction k v m rule: put_key.induct)
  case (2 k v j w m)
  have "\<forall>x \<in> fst ` set (put_key k v m). j < x" if "j < k" using 2(2) that by (simp add: put_key_fst)
  with 2 show ?case by auto
qed simp

lemma norm_normal:
  "normal (norm v)" "normal_list (norm_list vs)"
  "sorted_wrt (<) (map fst acc) \<Longrightarrow> normal_members acc \<Longrightarrow>
     sorted_wrt (<) (map fst (norm_members acc ms)) \<and> normal_members (norm_members acc ms)"
  by (induction v and vs and acc ms rule: norm_norm_list_norm_members.induct) (auto simp: put_key_normal)

lemma put_key_last: "\<forall>j \<in> fst ` set m. j < k \<Longrightarrow> put_key k v m = m @ [(k, v)]"
  by (induction k v m rule: put_key.induct) auto

lemma normal_norm:
  "normal v \<Longrightarrow> norm v = v" "normal_list vs \<Longrightarrow> norm_list vs = vs"
  "sorted_wrt (<) (map fst (acc @ ms)) \<Longrightarrow> normal_members ms \<Longrightarrow> norm_members acc ms = acc @ ms"
  by (induction v and vs and acc ms rule: norm_norm_list_norm_members.induct)
    (auto simp: put_key_last sorted_wrt_append)

section \<open>Content\<close>

text \<open>
  When two values have the same content, said without a normal form: the same scalars (numbers by the
  digits they are written with, no rounding), arrays element by element, and objects with the same
  names whose values correspond, the last of several members with one name counting and their order
  not.
\<close>

definition member_at :: "(string \<times> json) list \<Rightarrow> string \<Rightarrow> json option" where
  "member_at ms k = map_of (rev ms) k"

inductive same_content :: "json \<Rightarrow> json \<Rightarrow> bool" where
  Null: "same_content JNull JNull"
| Bool: "same_content (JBool b) (JBool b)"
| Number: "same_content (JNum l) (JNum l)"
| Text: "same_content (JStr x) (JStr x)"
| Array: "length vs = length ws \<Longrightarrow> (\<And>n. n < length vs \<Longrightarrow> same_content (vs ! n) (ws ! n)) \<Longrightarrow>
    same_content (JArr vs) (JArr ws)"
| Object: "(\<And>k. member_at ms k = None \<longleftrightarrow> member_at ns k = None) \<Longrightarrow>
    (\<And>k v w. member_at ms k = Some v \<Longrightarrow> member_at ns k = Some w \<Longrightarrow> same_content v w) \<Longrightarrow>
    same_content (JObj ms) (JObj ns)"

lemma norm_list_map: "norm_list vs = map norm vs"
  by (induction vs) simp_all

lemma map_of_put_key: "map_of (put_key k v m) = (map_of m)(k \<mapsto> v)"
  if "sorted_wrt (<) (map fst m)" for m :: "(string \<times> json) list"
  using that by (induction m) (auto simp: fun_eq_iff)

lemma map_of_norm_members:
  "sorted_wrt (<) (map fst acc) \<Longrightarrow> normal_members acc \<Longrightarrow>
     map_of (norm_members acc ms) = map_of acc ++ (map_option norm \<circ> member_at ms)"
proof (induction ms arbitrary: acc)
  case (Cons kv ms)
  obtain k v where kv: "kv = (k, v)" by (cases kv)
  have "sorted_wrt (<) (map fst (put_key k (norm v) acc)) \<and> normal_members (put_key k (norm v) acc)"
    by (rule put_key_normal [OF Cons.prems norm_normal(1)])
  with Cons.IH Cons.prems(1) show ?case
    by (auto simp: kv fun_eq_iff map_of_put_key member_at_def map_add_def split: option.splits)
qed (simp add: member_at_def fun_eq_iff map_add_def)

lemma norm_member: "map_of (norm_members [] ms) k = map_option norm (member_at ms k)"
  by (simp add: map_of_norm_members)

lemma keyed_list:
  assumes "distinct (map fst xs)"
  shows "map (\<lambda>k. (k, the (map_of xs k))) (map fst xs) = xs"
  unfolding map_map comp_def using assms by (intro map_idI) (auto simp: map_of_is_SomeI)

lemma sorted_members_eq:
  fixes xs ys :: "(string \<times> 'a) list"
  assumes "sorted_wrt (<) (map fst xs)" and "sorted_wrt (<) (map fst ys)" and "map_of xs = map_of ys"
  shows "xs = ys"
proof -
  have "set (map fst xs) = set (map fst ys)" using arg_cong [OF assms(3), of dom] by (simp add: dom_map_of_conv_image_fst)
  then have "map fst xs = map fst ys" using assms(1,2) by (simp only: strict_sorted_equal)
  moreover have "distinct (map fst xs)" "distinct (map fst ys)" using assms(1,2) by (simp_all add: strict_sorted_iff)
  ultimately show ?thesis using keyed_list [of xs] keyed_list [of ys] assms(3) by simp
qed

lemma norm_members_eq:
  "norm_members [] ms = norm_members [] ns \<longleftrightarrow>
     (\<forall>k. map_option norm (member_at ms k) = map_option norm (member_at ns k))"
proof
  assume "\<forall>k. map_option norm (member_at ms k) = map_option norm (member_at ns k)"
  then have "map_of (norm_members [] ms) = map_of (norm_members [] ns)" by (simp add: fun_eq_iff norm_member)
  moreover have "sorted_wrt (<) (map fst (norm_members [] xs))" for xs using norm_normal(3) [of "[]" xs] by simp
  ultimately show "norm_members [] ms = norm_members [] ns" by (intro sorted_members_eq)
qed (simp flip: norm_member)

lemma member_at_size: "member_at ms k = Some v \<Longrightarrow> size v < size (JObj ms)"
proof -
  assume "member_at ms k = Some v"
  then have "(k, v) \<in> set ms" unfolding member_at_def by (metis map_of_SomeD set_rev)
  then have "size_prod (\<lambda>_. 0) size (k, v) \<le> size_list (size_prod (\<lambda>_. 0) size) ms" by (rule size_list_estimation') simp
  then show ?thesis by simp
qed

text \<open>The normal form decides equality of content.\<close>

lemma same_content_norm: "same_content v w \<Longrightarrow> norm v = norm w"
proof (induction rule: same_content.induct)
  case (Array vs ws)
  then show ?case by (simp add: norm_list_map list_eq_iff_nth_eq)
next
  case (Object ms ns)
  have "map_option norm (member_at ms k) = map_option norm (member_at ns k)" for k
    using Object by (cases "member_at ms k"; cases "member_at ns k") (auto, metis option.distinct(1))
  then show ?case by (simp add: norm_members_eq)
qed simp_all

lemma norm_same_content: "norm v = norm w \<Longrightarrow> same_content v w"
proof (induction "size v" arbitrary: v w rule: less_induct)
  case less
  show ?case
  proof (cases v)
    case (JArr vs)
    then obtain ws where w: "w = JArr ws" using less.prems by (cases w) simp_all
    have eq: "map norm vs = map norm ws" using less.prems by (simp add: JArr w norm_list_map)
    have "same_content (vs ! n) (ws ! n)" if "n < length vs" for n
    proof (rule less.hyps)
      show "size (vs ! n) < size v" using that size_list_estimation' [of "vs ! n" vs _ size] by (force simp: JArr)
      show "norm (vs ! n) = norm (ws ! n)" using eq that by (metis length_map nth_map)
    qed
    with eq show ?thesis unfolding JArr w by (intro same_content.Array) (metis length_map)
  next
    case (JObj ms)
    then obtain ns where w: "w = JObj ns" using less.prems by (cases w) simp_all
    have eq: "map_option norm (member_at ms k) = map_option norm (member_at ns k)" for k
      using less.prems by (simp add: JObj w norm_members_eq)
    show ?thesis unfolding JObj w
    proof (rule same_content.Object)
      fix k
      show "member_at ms k = None \<longleftrightarrow> member_at ns k = None" using eq [of k] by (metis map_option_is_None)
      fix x y assume "member_at ms k = Some x" "member_at ns k = Some y"
      then show "same_content x y" using eq [of k] less.hyps member_at_size by (simp add: JObj)
    qed
  qed (use less.prems in \<open>cases w; simp add: same_content.intros\<close>)+
qed

lemma content_normal: "norm v = norm w \<longleftrightarrow> same_content v w"
  using same_content_norm norm_same_content by blast

section \<open>The canonical text\<close>

lemma canonical_of: "decode_all raw = Some v \<Longrightarrow> CanonicalJSON raw = Inr (marshal (norm v))"
proof -
  assume d: "decode_all raw = Some v"
  then have "raw \<noteq> []" by (auto simp: decode_all_def decode_one_def skip_ws_def)
  with d show ?thesis by (auto simp: CanonicalJSON_def decode_all_def split: option.splits if_splits)
qed

lemma canonical_tree: "CanonicalJSON raw = Inr c \<Longrightarrow> \<exists>v. decode_all raw = Some v \<and> c = marshal (norm v)"
  by (auto simp: CanonicalJSON_def decode_all_def split: option.splits if_splits)

lemma decoded_norm:
  assumes "decode_all raw = Some v"
  shows "decode_all (marshal (norm v)) = Some (norm v)"
proof -
  obtain t where "parse_value (Suc (length raw)) 0 raw = Some (v, t)"
    using assms by (auto simp: decode_all_def decode_one_def split: option.splits if_splits)
  from parse_fits(1) [OF this] have "printable v" "depth v \<le> max_depth" by simp_all
  with norm_fits(1) [of v] show ?thesis by (intro decode_all_marshal) auto
qed

text \<open>C39. The canonical form of a document is a JSON text with the same content, its members in ascending
  order of their names and each once, all the way down; it is its own canonical form and has the
  document's fingerprints. Two documents have the same canonical form exactly when they have the same
  content: the same scalars, with every digit of a number, arrays element by element, objects with
  corresponding values under the same names, whatever the order and the repetition of their members,
  at every depth, and whatever the spacing and the escapes of the texts.\<close>

theorem canonical_form:
  assumes "CanonicalJSON raw = Inr c"
  shows "\<exists>v v'. decode_all raw = Some v \<and> decode_all c = Some v' \<and> same_content v v' \<and> normal v'
    \<and> CanonicalJSON c = Inr c
    \<and> Fingerprint target action c = Fingerprint target action raw \<and> ReceiptFingerprint c = ReceiptFingerprint raw
    \<and> (\<forall>other w. decode_all other = Some w \<longrightarrow> (CanonicalJSON other = Inr c \<longleftrightarrow> same_content v w))"
proof -
  from canonical_tree [OF assms] obtain v where v: "decode_all raw = Some v" and c: "c = marshal (norm v)" by blast
  note again = decoded_norm [OF v]
  have idem: "norm (norm v) = norm v" using normal_norm(1) [OF norm_normal(1)] .
  have stable: "CanonicalJSON c = Inr c" using canonical_of [OF again] by (simp add: c idem)
  have fingerprints: "Fingerprint target action c = Fingerprint target action raw" "ReceiptFingerprint c = ReceiptFingerprint raw"
    by (simp_all add: Fingerprint_def ReceiptFingerprint_def stable assms)
  have "CanonicalJSON other = Inr c \<longleftrightarrow> same_content v w" if d: "decode_all other = Some w" for other w
    using canonical_of [OF d] decoded_norm [OF d] again c content_normal [of v w]
    by (metis option.inject sum.inject(2))
  then have same: "\<forall>other w. decode_all other = Some w \<longrightarrow> (CanonicalJSON other = Inr c \<longleftrightarrow> same_content v w)" by blast
  have content: "same_content v (norm v)" using content_normal [of v "norm v"] idem by simp
  show ?thesis
    by (rule exI [of _ v], rule exI [of _ "norm v"])
      (intro conjI v again [folded c] content norm_normal(1) stable fingerprints same)
qed

definition sample_document :: string where
  "sample_document = marshal (JObj [(''b'', JNum ''1''), (''a'', JBool True)]) @ '' ''"

text \<open>Two documents that differ in the sixteenth digit of a number have different canonical forms.\<close>

theorem canonical_form_witness:
  "CanonicalJSON sample_document = Inr (marshal (JObj [(''a'', JBool True), (''b'', JNum ''1'')]))
   \<and> CanonicalJSON ''9007199254740993'' \<noteq> CanonicalJSON ''9007199254740992''
   \<and> CanonicalJSON (marshal (JObj [(''a'', JBool True), (''b'', JNum ''1'')]))
       = Inr (marshal (JObj [(''a'', JBool True), (''b'', JNum ''1'')]))"
proof -
  have d: "decode_all sample_document = Some (JObj [(''b'', JNum ''1''), (''a'', JBool True)])" by code_simp
  have n: "norm (JObj [(''b'', JNum ''1''), (''a'', JBool True)]) = JObj [(''a'', JBool True), (''b'', JNum ''1'')]" by code_simp
  note c = canonical_of [OF d, unfolded n]
  have big: "decode_all ''9007199254740993'' = Some (JNum ''9007199254740993'')"
    "decode_all ''9007199254740992'' = Some (JNum ''9007199254740992'')" by code_simp+
  have "\<not> same_content (JNum ''9007199254740993'') (JNum ''9007199254740992'')" by (auto elim: same_content.cases)
  moreover have "\<forall>w. decode_all ''9007199254740992'' = Some w \<longrightarrow>
      (CanonicalJSON ''9007199254740992'' = Inr (marshal (norm (JNum ''9007199254740993'')))
         \<longleftrightarrow> same_content (JNum ''9007199254740993'') w)"
    using canonical_form [OF canonical_of [OF big(1)]] unfolding big(1) option.inject by blast
  ultimately have "CanonicalJSON ''9007199254740992'' \<noteq> Inr (marshal (norm (JNum ''9007199254740993'')))"
    using big(2) by blast
  then have "CanonicalJSON ''9007199254740993'' \<noteq> CanonicalJSON ''9007199254740992''"
    unfolding canonical_of [OF big(1)] by (rule not_sym)
  moreover have "CanonicalJSON (marshal (JObj [(''a'', JBool True), (''b'', JNum ''1'')]))
       = Inr (marshal (JObj [(''a'', JBool True), (''b'', JNum ''1'')]))"
    using canonical_form [OF c] by blast
  ultimately show ?thesis using c by (intro conjI)
qed

end
