(* ===== verification/Flags.thy ===== *)
theory Flags
  imports Prelude
begin

text \<open>
  Command lines as Go's \<open>flag\<close> package reads them: flags with one or two dashes, the value joined by
  an equals sign or in the next argument, until the first argument that is no flag. Every flag of
  the repository's programs takes a value. What a flag does with its value is a parameter.
\<close>

datatype flag_error = BadSyntax string | HelpRequested | NotDefined string | NeedsArgument string
  | InvalidValue string string

fun Parse :: "string list \<Rightarrow> (string \<Rightarrow> string \<Rightarrow> 'a \<Rightarrow> 'a option) \<Rightarrow> string list \<Rightarrow> 'a \<Rightarrow> flag_error + 'a" where
  "Parse names set_value [] fv = Inr fv"
| "Parse names set_value (s # args) fv =
     (if length s < 2 \<or> hd s \<noteq> CHR ''-'' \<or> s = ''--'' then Inr fv
      else let body = (if s ! 1 = CHR ''-'' then drop 2 s else drop 1 s) in
        if body = [] \<or> hd body = CHR ''-'' \<or> hd body = CHR ''='' then Inl (BadSyntax s)
        else let name = takeWhile (\<lambda>c. c \<noteq> CHR ''='') body in
          if name \<notin> set names then
            Inl (if name = ''help'' \<or> name = ''h'' then HelpRequested else NotDefined name)
          else if CHR ''='' \<in> set body then
            (case set_value name (drop (length name + 1) body) fv of
               None \<Rightarrow> Inl (InvalidValue name (drop (length name + 1) body))
             | Some fv' \<Rightarrow> Parse names set_value args fv')
          else (case args of
              [] \<Rightarrow> Inl (NeedsArgument name)
            | v # rest \<Rightarrow>
                (case set_value name v fv of
                   None \<Rightarrow> Inl (InvalidValue name v)
                 | Some fv' \<Rightarrow> Parse names set_value rest fv')))"

section \<open>What a command line sets\<close>

text \<open>A setting as an operator writes it.\<close>

record setting =
  set_Dashes :: nat
  set_Joined :: bool
  set_Name :: string
  set_Value :: string

definition written :: "setting \<Rightarrow> string list" where
  "written s =
     (let name = replicate (set_Dashes s) (CHR ''-'') @ set_Name s in
      if set_Joined s then [name @ ''='' @ set_Value s] else [name, set_Value s])"

definition plain_flag :: "string \<Rightarrow> bool" where
  "plain_flag name \<longleftrightarrow> name \<noteq> [] \<and> hd name \<noteq> CHR ''-'' \<and> CHR ''='' \<notin> set name"

definition well_written :: "string list \<Rightarrow> setting \<Rightarrow> bool" where
  "well_written names s \<longleftrightarrow> set_Dashes s \<in> {1, 2} \<and> set_Name s \<in> set names \<and> plain_flag (set_Name s)"

definition no_flag :: "string list \<Rightarrow> bool" where
  "no_flag args \<longleftrightarrow> args = [] \<or> length (hd args) < 2 \<or> hd (hd args) \<noteq> CHR ''-'' \<or> hd args = ''--''"

lemma parse_written:
  assumes "well_written names s"
  shows "Parse names set_value (written s @ args) fv =
    (case set_value (set_Name s) (set_Value s) fv of
       None \<Rightarrow> Inl (InvalidValue (set_Name s) (set_Value s)) | Some fv' \<Rightarrow> Parse names set_value args fv')"
proof -
  have d: "set_Dashes s = 1 \<or> set_Dashes s = 2" and n: "set_Name s \<in> set names"
    and plain: "CHR ''='' \<notin> set (set_Name s)" "set_Name s \<noteq> []" "hd (set_Name s) \<noteq> CHR ''-''"
    using assms by (auto simp: well_written_def plain_flag_def)
  have eq: "hd (set_Name s) \<noteq> CHR ''=''" using plain(1,2) hd_in_set by metis
  have cut: "takeWhile (\<lambda>c. c \<noteq> CHR ''='') (set_Name s) = set_Name s"
    unfolding takeWhile_eq_all_conv using plain(1) by blast
  have cut': "takeWhile (\<lambda>c. c \<noteq> CHR ''='') (set_Name s @ CHR ''='' # v) = set_Name s" for v
    by (subst takeWhile_append2) (use plain(1) in auto)
  define text' where "text' = (if set_Joined s then set_Name s @ CHR ''='' # set_Value s else set_Name s)"
  have tx: "text' \<noteq> []" "hd text' \<noteq> CHR ''-''" "hd text' \<noteq> CHR ''=''" "takeWhile (\<lambda>c. c \<noteq> CHR ''='') text' = set_Name s"
    "0 < length text'" "CHR ''='' \<in> set text' \<longleftrightarrow> set_Joined s"
    using plain eq cut cut' by (auto simp: text'_def)
  have value': "drop (Suc (length (set_Name s))) text' = set_Value s" if "set_Joined s"
    using that by (simp add: text'_def)
  have w: "written s = (replicate (set_Dashes s) (CHR ''-'') @ text') # (if set_Joined s then [] else [set_Value s])"
    by (simp add: written_def text'_def Let_def)
  have len: "\<not> length (replicate (set_Dashes s) (CHR ''-'') @ text') < 2" using tx(5) d by (cases text') auto
  have dashes: "hd (replicate (set_Dashes s) (CHR ''-'') @ text') = CHR ''-''"
    "replicate (set_Dashes s) (CHR ''-'') @ text' \<noteq> ''--''"
    "(if (replicate (set_Dashes s) (CHR ''-'') @ text') ! 1 = CHR ''-'' then drop 2 (replicate (set_Dashes s) (CHR ''-'') @ text')
      else drop 1 (replicate (set_Dashes s) (CHR ''-'') @ text')) = text'"
    using d tx(1,2,5) by (auto simp: numeral_2_eq_2 hd_conv_nth)
  show ?thesis
    unfolding w using len dashes tx n value' by (simp add: Let_def split: option.split)
qed

lemma parse_no_flag [simp]: "no_flag args \<Longrightarrow> Parse names set_value args fv = Inr fv"
  by (cases args) (auto simp: no_flag_def)

definition set_all :: "(string \<Rightarrow> string \<Rightarrow> 'a \<Rightarrow> 'a option) \<Rightarrow> setting list \<Rightarrow> 'a \<Rightarrow> 'a" where
  "set_all set_value ss fv = fold (\<lambda>s fv. the (set_value (set_Name s) (set_Value s) fv)) ss fv"

text \<open>A line of settings, each accepted by its flag, leaves what they set one after the other.\<close>

lemma parse_settings:
  assumes "list_all (\<lambda>s. well_written names s \<and> (\<forall>fv. set_value (set_Name s) (set_Value s) fv \<noteq> None)) ss"
    and "no_flag rest"
  shows "Parse names set_value (concat (map written ss) @ rest) fv = Inr (set_all set_value ss fv)"
  using assms
proof (induction ss arbitrary: fv)
  case (Cons s ss)
  then obtain fv' where "set_value (set_Name s) (set_Value s) fv = Some fv'" by fastforce
  with Cons show ?case by (simp add: parse_written set_all_def)
qed (simp add: set_all_def)

text \<open>The last value given to a flag, or what holds without one.\<close>

definition last_set :: "setting list \<Rightarrow> string \<Rightarrow> string option" where
  "last_set ss name = map_of (rev (map (\<lambda>s. (set_Name s, set_Value s)) ss)) name"

definition chosen :: "setting list \<Rightarrow> string \<Rightarrow> string \<Rightarrow> string" where
  "chosen ss name fallback = (case last_set ss name of None \<Rightarrow> fallback | Some v \<Rightarrow> v)"

lemma last_set_snoc [simp]:
  "last_set (ss @ [s]) name = (if set_Name s = name then Some (set_Value s) else last_set ss name)" "last_set [] name = None"
  by (auto simp: last_set_def)

lemma chosen_snoc [simp]:
  "chosen (ss @ [s]) name d = (if set_Name s = name then set_Value s else chosen ss name d)" "chosen [] name d = d"
  by (auto simp: chosen_def)

end
