(* ===== verification/Config.thy ===== *)
theory Config
  imports Json Schema Flags
begin

text \<open>
  \<open>internal/config\<close>: the configuration of the API server, read from the environment, the command
  line and secret files. The model takes the environment, \<open>os.ReadFile\<close>, \<open>time.ParseDuration\<close> and
  \<open>Duration.String\<close> as parameters; the errors are values that keep what their texts are made of.
\<close>

section \<open>The configuration\<close>

record Config =
  cfg_HTTPAddr :: string
  cfg_DatabaseURL :: string
  cfg_AuthToken :: string
  cfg_AdminToken :: string
  cfg_LogLevel :: string
  cfg_ShutdownTimeout :: duration

datatype config_problem =
    DatabaseURLRequired | AuthTokenRequired | AdminTokenRequired | InvalidLogLevel string | TimeoutNotPositive

text \<open>
  \<open>strings.ToLower\<close> as far as a comparison with ASCII words sees it: apart from the ASCII letters only
  the dotted capital I and the Kelvin sign have an ASCII lower case.
\<close>

fun lower_text :: "string \<Rightarrow> string" where
  "lower_text [] = []"
| "lower_text (c # s) =
     (if 65 \<le> byte c \<and> byte c \<le> 90 then char_of (byte c + 32) # lower_text s
      else if c = CHR 0xC4 \<and> s \<noteq> [] \<and> hd s = CHR 0xB0 then CHR ''i'' # lower_text (tl s)
      else if c = CHR 0xE2 \<and> take 2 s = [CHR 0x84, CHR 0xAA] then CHR ''k'' # lower_text (drop 2 s)
      else c # lower_text s)"

definition log_levels :: "string list" where
  "log_levels = [''debug'', ''info'', ''warn'', ''error'']"

definition Validate :: "Config \<Rightarrow> config_problem list" where
  "Validate c =
     (if cfg_DatabaseURL c = [] then [DatabaseURLRequired] else [])
     @ (if cfg_AuthToken c = [] then [AuthTokenRequired] else [])
     @ (if cfg_AdminToken c = [] then [AdminTokenRequired] else [])
     @ (if lower_text (cfg_LogLevel c) \<in> set log_levels then [] else [InvalidLogLevel (cfg_LogLevel c)])
     @ (if cfg_ShutdownTimeout c \<le> 0 then [TimeoutNotPositive] else [])"

definition String :: "(duration \<Rightarrow> string) \<Rightarrow> Config \<Rightarrow> string" where
  "String show_duration c = ''http_addr='' @ cfg_HTTPAddr c
     @ '' database_url=[redacted] auth_token=[redacted] admin_token=[redacted] log_level='' @ cfg_LogLevel c
     @ '' shutdown_timeout='' @ show_duration (cfg_ShutdownTimeout c)"

definition envOr :: "(string \<Rightarrow> string) \<Rightarrow> string \<Rightarrow> string \<Rightarrow> string" where
  "envOr getenv key fallback = (if getenv key \<noteq> [] then getenv key else fallback)"

section \<open>Secrets\<close>

text \<open>\<open>strings.TrimSpace\<close>: the white space of \<open>unicode.IsSpace\<close>, in UTF-8, off both ends.\<close>

definition spaces :: "string list" where
  "spaces =
    [[CHR 0x09], [CHR 0x0A], [CHR 0x0B], [CHR 0x0C], [CHR 0x0D], [CHR 0x20], [CHR 0xC2, CHR 0x85],
     [CHR 0xC2, CHR 0xA0], [CHR 0xE1, CHR 0x9A, CHR 0x80], [CHR 0xE2, CHR 0x80, CHR 0x80],
     [CHR 0xE2, CHR 0x80, CHR 0x81], [CHR 0xE2, CHR 0x80, CHR 0x82], [CHR 0xE2, CHR 0x80, CHR 0x83],
     [CHR 0xE2, CHR 0x80, CHR 0x84], [CHR 0xE2, CHR 0x80, CHR 0x85], [CHR 0xE2, CHR 0x80, CHR 0x86],
     [CHR 0xE2, CHR 0x80, CHR 0x87], [CHR 0xE2, CHR 0x80, CHR 0x88], [CHR 0xE2, CHR 0x80, CHR 0x89],
     [CHR 0xE2, CHR 0x80, CHR 0x8A], [CHR 0xE2, CHR 0x80, CHR 0xA8], [CHR 0xE2, CHR 0x80, CHR 0xA9],
     [CHR 0xE2, CHR 0x80, CHR 0xAF], [CHR 0xE2, CHR 0x81, CHR 0x9F], [CHR 0xE3, CHR 0x80, CHR 0x80]]"

definition space_front :: "string list \<Rightarrow> string \<Rightarrow> nat" where
  "space_front ws s = (case find (\<lambda>w. take (length w) s = w) ws of Some w \<Rightarrow> length w | None \<Rightarrow> 0)"

function trim_front :: "string list \<Rightarrow> string \<Rightarrow> string" where
  "trim_front ws s = (if s = [] \<or> space_front ws s = 0 then s else trim_front ws (drop (space_front ws s) s))"
  by pat_completeness auto
termination by (relation "measure (\<lambda>(ws, s). length s)") auto

declare trim_front.simps [simp del]

definition TrimSpace :: "string \<Rightarrow> string" where
  "TrimSpace s = rev (trim_front (map rev spaces) (rev (trim_front spaces s)))"

datatype secret_error = ReadFailed string | EmptySecret

definition readSecret :: "(string \<Rightarrow> string + string) \<Rightarrow> string \<Rightarrow> secret_error + string" where
  "readSecret read_file path =
     (case read_file path of
        Inl err \<Rightarrow> Inl (ReadFailed err)
      | Inr value \<Rightarrow> if TrimSpace value = [] then Inl EmptySecret else Inr (TrimSpace value))"

section \<open>The command line\<close>

text \<open>The flags of \<open>Load\<close>, as Go's \<open>flag\<close> package parses them.\<close>

record flag_values =
  fv_Config :: Config
  fv_AuthFile :: string
  fv_AdminFile :: string

definition flag_names :: "string list" where
  "flag_names = [''http-addr'', ''database-url'', ''log-level'', ''auth-token-file'', ''admin-token-file'',
     ''shutdown-timeout'']"

definition set_flag :: "(string \<Rightarrow> duration option) \<Rightarrow> string \<Rightarrow> string \<Rightarrow> flag_values \<Rightarrow> flag_values option" where
  "set_flag parse_duration name value fv =
     (if name = ''http-addr'' then Some (fv\<lparr>fv_Config := (fv_Config fv)\<lparr>cfg_HTTPAddr := value\<rparr>\<rparr>)
      else if name = ''database-url'' then Some (fv\<lparr>fv_Config := (fv_Config fv)\<lparr>cfg_DatabaseURL := value\<rparr>\<rparr>)
      else if name = ''log-level'' then Some (fv\<lparr>fv_Config := (fv_Config fv)\<lparr>cfg_LogLevel := value\<rparr>\<rparr>)
      else if name = ''auth-token-file'' then Some (fv\<lparr>fv_AuthFile := value\<rparr>)
      else if name = ''admin-token-file'' then Some (fv\<lparr>fv_AdminFile := value\<rparr>)
      else map_option (\<lambda>d. fv\<lparr>fv_Config := (fv_Config fv)\<lparr>cfg_ShutdownTimeout := d\<rparr>\<rparr>) (parse_duration value))"

section \<open>Load\<close>

datatype load_error = FlagError flag_error | AuthTokenError secret_error | AdminTokenError secret_error
  | InvalidConfig "config_problem list"

definition default_flags :: "(string \<Rightarrow> string) \<Rightarrow> flag_values" where
  "default_flags getenv = \<lparr>fv_Config = \<lparr>cfg_HTTPAddr = envOr getenv ''WK_HTTP_ADDR'' '':8080'',
       cfg_DatabaseURL = getenv ''WK_DATABASE_URL'', cfg_AuthToken = getenv ''WK_AUTH_TOKEN'',
       cfg_AdminToken = getenv ''WK_ADMIN_TOKEN'', cfg_LogLevel = envOr getenv ''WK_LOG_LEVEL'' ''info'',
       cfg_ShutdownTimeout = 10 * second\<rparr>,
     fv_AuthFile = getenv ''WK_AUTH_TOKEN_FILE'', fv_AdminFile = getenv ''WK_ADMIN_TOKEN_FILE''\<rparr>"

definition token_of :: "(string \<Rightarrow> string + string) \<Rightarrow> (secret_error \<Rightarrow> load_error) \<Rightarrow> string \<Rightarrow> string \<Rightarrow> load_error + string" where
  "token_of read_file wrap file current =
     (if file = [] then Inr current
      else case readSecret read_file file of Inl err \<Rightarrow> Inl (wrap err) | Inr secret \<Rightarrow> Inr secret)"

definition Load :: "(string \<Rightarrow> duration option) \<Rightarrow> (string \<Rightarrow> string + string) \<Rightarrow> string list \<Rightarrow> (string \<Rightarrow> string)
    \<Rightarrow> load_error + Config" where
  "Load parse_duration read_file args getenv =
     (case Parse flag_names (set_flag parse_duration) args (default_flags getenv) of
        Inl err \<Rightarrow> Inl (FlagError err)
      | Inr fv \<Rightarrow>
          let c = fv_Config fv in
          bindE (token_of read_file AuthTokenError (fv_AuthFile fv) (cfg_AuthToken c)) (\<lambda>auth.
          bindE (token_of read_file AdminTokenError (fv_AdminFile fv) (cfg_AdminToken c)) (\<lambda>admin.
          let c' = c\<lparr>cfg_AuthToken := auth, cfg_AdminToken := (if admin = [] then auth else admin)\<rparr> in
          if Validate c' = [] then Inr c' else Inl (InvalidConfig (Validate c')))))"

section \<open>What a command line sets\<close>

definition valid_setting :: "(string \<Rightarrow> duration option) \<Rightarrow> setting \<Rightarrow> bool" where
  "valid_setting parse_duration s \<longleftrightarrow> set_Dashes s \<in> {1, 2} \<and> set_Name s \<in> set flag_names
     \<and> (set_Name s = ''shutdown-timeout'' \<longrightarrow> parse_duration (set_Value s) \<noteq> None)"

definition chosen_timeout :: "(string \<Rightarrow> duration option) \<Rightarrow> setting list \<Rightarrow> duration" where
  "chosen_timeout parse_duration ss =
     (case last_set ss ''shutdown-timeout'' of None \<Rightarrow> 10 * second | Some v \<Rightarrow> the (parse_duration v))"

text \<open>The token a server ends up with: the trimmed text of the file where one is named, else the environment's.\<close>

definition token_read :: "(string \<Rightarrow> string + string) \<Rightarrow> string \<Rightarrow> string \<Rightarrow> string \<Rightarrow> bool" where
  "token_read read_file file current token \<longleftrightarrow>
     (if file = [] then token = current
      else \<exists>content. read_file file = Inr content \<and> token = TrimSpace content \<and> token \<noteq> [])"

lemma valid_settings:
  assumes "list_all (valid_setting pd) ss"
  shows "list_all (\<lambda>s. well_written flag_names s \<and> (\<forall>fv. set_flag pd (set_Name s) (set_Value s) fv \<noteq> None)) ss"
  using assms by (rule list.pred_mono_strong)
    (auto simp: valid_setting_def well_written_def plain_flag_def set_flag_def flag_names_def)

lemma settings_chosen:
  assumes "list_all (valid_setting pd) ss"
  shows "set_all (set_flag pd) ss (default_flags getenv) =
    \<lparr>fv_Config = \<lparr>cfg_HTTPAddr = chosen ss ''http-addr'' (envOr getenv ''WK_HTTP_ADDR'' '':8080''),
       cfg_DatabaseURL = chosen ss ''database-url'' (getenv ''WK_DATABASE_URL''),
       cfg_AuthToken = getenv ''WK_AUTH_TOKEN'', cfg_AdminToken = getenv ''WK_ADMIN_TOKEN'',
       cfg_LogLevel = chosen ss ''log-level'' (envOr getenv ''WK_LOG_LEVEL'' ''info''),
       cfg_ShutdownTimeout = chosen_timeout pd ss\<rparr>,
     fv_AuthFile = chosen ss ''auth-token-file'' (getenv ''WK_AUTH_TOKEN_FILE''),
     fv_AdminFile = chosen ss ''admin-token-file'' (getenv ''WK_ADMIN_TOKEN_FILE'')\<rparr>"
  using assms
proof (induction ss rule: rev_induct)
  case Nil
  show ?case by (simp add: set_all_def chosen_timeout_def default_flags_def)
next
  case (snoc s ss)
  then have "set_Name s \<in> set flag_names" "set_Name s = ''shutdown-timeout'' \<longrightarrow> pd (set_Value s) \<noteq> None"
    by (auto simp: valid_setting_def)
  with snoc show ?case
    by (auto simp: set_all_def chosen_timeout_def flag_names_def set_flag_def)
qed

lemma token_of_read: "token_of read_file wrap file current = Inr token \<longleftrightarrow> token_read read_file file current token"
  by (auto simp: token_of_def token_read_def readSecret_def split: sum.splits)

lemma Validate_ok: "Validate c = [] \<longleftrightarrow> cfg_DatabaseURL c \<noteq> [] \<and> cfg_AuthToken c \<noteq> [] \<and> cfg_AdminToken c \<noteq> []
    \<and> lower_text (cfg_LogLevel c) \<in> set log_levels \<and> 0 < cfg_ShutdownTimeout c"
  by (auto simp: Validate_def)

lemma load_Inr:
  assumes parsed: "Parse flag_names (set_flag pd) args (default_flags getenv) =
    Inr \<lparr>fv_Config = \<lparr>cfg_HTTPAddr = addr, cfg_DatabaseURL = url, cfg_AuthToken = t1, cfg_AdminToken = t2,
        cfg_LogLevel = level, cfg_ShutdownTimeout = timeout\<rparr>, fv_AuthFile = f1, fv_AdminFile = f2\<rparr>"
  shows "Load pd read_file args getenv = Inr c \<longleftrightarrow>
    (\<exists>auth admin. token_read read_file f1 t1 auth \<and> token_read read_file f2 t2 admin
       \<and> c = \<lparr>cfg_HTTPAddr = addr, cfg_DatabaseURL = url, cfg_AuthToken = auth,
           cfg_AdminToken = (if admin = [] then auth else admin), cfg_LogLevel = level, cfg_ShutdownTimeout = timeout\<rparr>
       \<and> auth \<noteq> [] \<and> url \<noteq> [] \<and> lower_text level \<in> set log_levels \<and> 0 < timeout)"
proof -
  have check: "(if P then Inr x else Inl e) = Inr c \<longleftrightarrow> P \<and> c = x" for P x and e :: load_error by auto
  have either: "(if admin = [] then auth else admin) = [] \<longleftrightarrow> admin = [] \<and> auth = []" for admin auth :: string
    by auto
  show ?thesis
    unfolding Load_def parsed
    by (simp add: Let_def bindE_Inr_iff token_of_read check Validate_ok either split del: if_split) blast
qed

lemma envOr_alt: "envOr getenv key d = (if getenv key = [] then d else getenv key)"
  by (simp add: envOr_def)

text \<open>C40. What \<open>Load\<close> makes of a command line of settings, whichever way they are written, followed by
  nothing or by something that is no flag: it returns a configuration exactly when both tokens can be
  read, the public one and the database URL are not empty, the level is one of the four in any letter
  case and the timeout is positive; each field is then the last value set for it, else the
  environment's, else the default; a token file outweighs the environment's token, and an
  administrator's token nobody set is the public one.
\<close>

theorem load_spec:
  assumes "list_all (valid_setting pd) ss" and "no_flag rest"
  shows "Load pd read_file (concat (map written ss) @ rest) getenv = Inr c \<longleftrightarrow>
    (\<exists>auth admin.
       token_read read_file (chosen ss ''auth-token-file'' (getenv ''WK_AUTH_TOKEN_FILE'')) (getenv ''WK_AUTH_TOKEN'') auth
       \<and> token_read read_file (chosen ss ''admin-token-file'' (getenv ''WK_ADMIN_TOKEN_FILE'')) (getenv ''WK_ADMIN_TOKEN'') admin
       \<and> c = \<lparr>cfg_HTTPAddr = chosen ss ''http-addr'' (if getenv ''WK_HTTP_ADDR'' = [] then '':8080'' else getenv ''WK_HTTP_ADDR''),
              cfg_DatabaseURL = chosen ss ''database-url'' (getenv ''WK_DATABASE_URL''),
              cfg_AuthToken = auth, cfg_AdminToken = (if admin = [] then auth else admin),
              cfg_LogLevel = chosen ss ''log-level'' (if getenv ''WK_LOG_LEVEL'' = [] then ''info'' else getenv ''WK_LOG_LEVEL''),
              cfg_ShutdownTimeout = chosen_timeout pd ss\<rparr>
       \<and> auth \<noteq> [] \<and> cfg_DatabaseURL c \<noteq> [] \<and> lower_text (cfg_LogLevel c) \<in> set log_levels
       \<and> 0 < chosen_timeout pd ss)"
  unfolding load_Inr [OF trans [OF parse_settings [OF valid_settings [OF assms(1)] assms(2)] arg_cong [OF settings_chosen [OF assms(1)], of Inr]]] envOr_alt
  by (rule iff_exI, rule iff_exI, rule conj_cong [OF refl], rule conj_cong [OF refl], rule conj_cong [OF refl]) simp

definition demo_settings :: "setting list" where
  "demo_settings = [\<lparr>set_Dashes = 2, set_Joined = True, set_Name = ''log-level'', set_Value = ''loud''\<rparr>,
     \<lparr>set_Dashes = 1, set_Joined = False, set_Name = ''log-level'', set_Value = ''WARN''\<rparr>,
     \<lparr>set_Dashes = 1, set_Joined = True, set_Name = ''shutdown-timeout'', set_Value = ''3s''\<rparr>,
     \<lparr>set_Dashes = 2, set_Joined = False, set_Name = ''auth-token-file'', set_Value = ''/run/token''\<rparr>]"

definition demo_env :: "string \<Rightarrow> string" where
  "demo_env key = (if key = ''WK_DATABASE_URL'' then ''postgres://db'' else [])"

definition demo_durations :: "string \<Rightarrow> duration option" where
  "demo_durations s = (if s = ''3s'' then Some (3 * second) else None)"

definition demo_files :: "string \<Rightarrow> string + string" where
  "demo_files path = (if path = ''/run/token'' then Inr '' secret'' else Inl ''no such file'')"

lemma demo_spaces: "space_front spaces '' secret'' = 1" "space_front spaces ''secret'' = 0"
  "space_front (map rev spaces) ''terces'' = 0"
  by code_simp+

lemma trim_front_none: "space_front ws s = 0 \<Longrightarrow> trim_front ws s = s"
  by (simp add: trim_front.simps)

lemma trim_front_space: "space_front ws s = Suc n \<Longrightarrow> s \<noteq> [] \<Longrightarrow> trim_front ws s = trim_front ws (drop (Suc n) s)"
  by (subst trim_front.simps) simp

lemma demo_trim: "TrimSpace '' secret'' = ''secret''"
  using trim_front_space [OF demo_spaces(1) [unfolded One_nat_def]] trim_front_none [OF demo_spaces(2)] trim_front_none [OF demo_spaces(3)]
  by (simp add: TrimSpace_def)

lemma demo_chosen:
  "chosen demo_settings ''auth-token-file'' [] = ''/run/token''" "chosen demo_settings ''admin-token-file'' [] = []"
  "chosen demo_settings ''log-level'' ''info'' = ''WARN''" "chosen demo_settings ''http-addr'' '':8080'' = '':8080''"
  "chosen demo_settings ''database-url'' ''postgres://db'' = ''postgres://db''"
  "chosen_timeout demo_durations demo_settings = 3 * second"
  by (simp_all add: demo_settings_def last_set_def chosen_def chosen_timeout_def demo_durations_def)

lemma demo_tokens: "token_read demo_files ''/run/token'' [] ''secret''" "token_read demo_files [] [] []"
  by (simp_all add: token_read_def demo_files_def demo_trim)

lemma load_spec_witness:
  "Load demo_durations demo_files (concat (map written demo_settings) @ [''--'', ''-x'']) demo_env =
     Inr \<lparr>cfg_HTTPAddr = '':8080'', cfg_DatabaseURL = ''postgres://db'', cfg_AuthToken = ''secret'',
          cfg_AdminToken = ''secret'', cfg_LogLevel = ''WARN'', cfg_ShutdownTimeout = 3 * second\<rparr>"
proof -
  have valid: "list_all (valid_setting demo_durations) demo_settings" by code_simp
  have rest: "no_flag [''--'', ''-x'']" by (simp add: no_flag_def)
  have level: "lower_text ''WARN'' \<in> set log_levels" by code_simp
  have env: "demo_env ''WK_DATABASE_URL'' = ''postgres://db''" "demo_env ''WK_AUTH_TOKEN_FILE'' = []"
    "demo_env ''WK_AUTH_TOKEN'' = []" "demo_env ''WK_ADMIN_TOKEN_FILE'' = []" "demo_env ''WK_ADMIN_TOKEN'' = []"
    "demo_env ''WK_HTTP_ADDR'' = []" "demo_env ''WK_LOG_LEVEL'' = []"
    by (simp_all add: demo_env_def)
  show ?thesis
    unfolding load_spec [OF valid rest] env simp_thms if_True demo_chosen
    by (rule exI [of _ "''secret''"], rule exI [of _ "[]"])
      (simp add: demo_tokens level [simplified] second_def millisecond_def)
qed

end
