(* ===== verification/Programs.thy ===== *)
theory Programs
  imports Client Worker Config Simulator
begin

text \<open>
  The programs of \<open>cmd/\<close> that wire the modelled parts together: the recovery coordinator, the
  workflow worker, the recovery smoke test, the health check, and the settings of the two servers. A program is a function on the state of the world
  \<open>'w\<close>; its machine gives it the environment, HTTP, fresh identifiers, and time, which passes in
  pauses that end early when the program's context does.
\<close>

section \<open>The machine\<close>

record 'w machine =
  mc_getenv :: "string \<Rightarrow> string"
  mc_http :: "'w transport"
  mc_newID :: "'w \<Rightarrow> string \<times> 'w"
  mc_pause :: "duration \<Rightarrow> 'w \<Rightarrow> error option \<times> 'w"   \<comment> \<open>that long, or the error of the ended context\<close>
  mc_Err :: "'w \<Rightarrow> error option"                          \<comment> \<open>\<open>ctx.Err()\<close>\<close>
  mc_now :: "'w \<Rightarrow> time"                                   \<comment> \<open>\<open>time.Now()\<close>\<close>

text \<open>\<open>env\<close> and \<open>envInt\<close>, which each program has a copy of.\<close>

definition env_text :: "(string \<Rightarrow> string) \<Rightarrow> string \<Rightarrow> string \<Rightarrow> string" where
  "env_text getenv key fallback = (if getenv key \<noteq> [] then getenv key else fallback)"

definition envInt :: "(string \<Rightarrow> string) \<Rightarrow> string \<Rightarrow> int \<Rightarrow> int" where
  "envInt getenv key fallback =
     (if getenv key \<noteq> [] then (case atoi (getenv key) of Some parsed \<Rightarrow> parsed | None \<Rightarrow> fallback) else fallback)"

text \<open>\<open>time.Duration(n) * time.Millisecond\<close> wraps around at 64 bits.\<close>

definition in_milliseconds :: "int \<Rightarrow> duration" where
  "in_milliseconds n = (n * millisecond + 2 ^ 63) mod 2 ^ 64 - 2 ^ 63"

definition failure_text :: "failure \<Rightarrow> string" where
  "failure_text f = (case f of Refused e \<Rightarrow> Error_text e | Failed s \<Rightarrow> s)"

definition as_error :: "(failure + 'a) \<times> 'w \<Rightarrow> (error + 'a) \<times> 'w" where
  "as_error r = map_prod (map_sum (PlainError \<circ> failure_text) id) id r"

section \<open>HTTP to the email service\<close>

definition bearer_get :: "string \<Rightarrow> string \<Rightarrow> http_call" where
  "bearer_get url token = \<lparr>hc_method = ''GET'', hc_url = url, hc_headers = [(''Authorization'', ''Bearer '' @ token)], hc_body = []\<rparr>"

text \<open>\<open>json.NewDecoder\<close> reads the first value of a body.\<close>

definition http_result_of :: "http_answer \<Rightarrow> http_result" where
  "http_result_of answer =
     (case answer of NoAnswer e \<Rightarrow> TransportError e | Answer code text \<Rightarrow> Response code (map_option fst (decode_one text)))"

definition post_call :: "post_request \<Rightarrow> http_call" where
  "post_call po = \<lparr>hc_method = ''POST'', hc_url = po_url po, hc_headers = po_headers po, hc_body = po_body po\<rparr>"

definition message_headers :: "string \<Rightarrow> string \<Rightarrow> (string \<times> string) list" where
  "message_headers token i = [(''Authorization'', ''Bearer '' @ token), (''Content-Type'', ''application/json''),
     (''X-Watchkeeper-Operation-ID'', i)]"

definition message_call :: "string \<Rightarrow> string \<Rightarrow> string \<Rightarrow> string \<Rightarrow> http_call" where
  "message_call baseURL token i payload = \<lparr>hc_method = ''POST'', hc_url = baseURL @ ''/email/messages'',
     hc_headers = message_headers token i, hc_body = payload\<rparr>"

text \<open>The verifier asks at most one question, and which one depends on the operation alone.\<close>

definition verify_url :: "string \<Rightarrow> Operation \<Rightarrow> string option" where
  "verify_url baseURL op =
     (if op_CapabilityProfile op = ''none'' then None
      else if op_CapabilityProfile op = ''idempotency_only'' then Some (trim_right_slash baseURL @ ''/email/capabilities'')
      else (case verify_endpoint baseURL op of Inl _ \<Rightarrow> None | Inr endpoint \<Rightarrow> Some endpoint))"

definition verify_over :: "'w machine \<Rightarrow> string \<Rightarrow> string \<Rightarrow> Operation \<Rightarrow> 'w \<Rightarrow> (error + Observation) \<times> 'w" where
  "verify_over mc baseURL token op w =
     (case verify_url baseURL op of
        None \<Rightarrow> (Verify (\<lambda>_ _. TransportError []) baseURL token op, w)
      | Some url \<Rightarrow> (case mc_http mc (bearer_get url token) w of
          (answer, w') \<Rightarrow> (Verify (\<lambda>_ _. http_result_of answer) baseURL token op, w')))"

lemma verify_asks_once:
  "Verify get baseURL token op =
     (case verify_url baseURL op of
        None \<Rightarrow> Verify (\<lambda>_ _. TransportError []) baseURL token op
      | Some url \<Rightarrow> Verify (\<lambda>_ _. get url token) baseURL token op)"
  by (auto simp: Verify_def verify_url_def verify_repeat_def split: sum.split)

section \<open>The recovery coordinator\<close>

record coordinator_settings =
  cs_apiURL :: string
  cs_adminToken :: string
  cs_simulatorURL :: string
  cs_simulatorToken :: string
  cs_workerID :: string
  cs_batch :: int
  cs_lease :: duration
  cs_poll :: duration

definition coordinator_setup :: "(string \<Rightarrow> string) \<Rightarrow> string \<Rightarrow> coordinator_settings" where
  "coordinator_setup getenv fresh = \<lparr>cs_apiURL = env_text getenv ''WK_API_URL'' ''http://localhost:8080'',
     cs_adminToken = getenv ''WK_ADMIN_TOKEN'',
     cs_simulatorURL = env_text getenv ''SIMULATOR_URL'' ''http://localhost:8090'',
     cs_simulatorToken = getenv ''SIM_AUTH_TOKEN'',
     cs_workerID = env_text getenv ''WK_COORDINATOR_ID'' (''coordinator-'' @ fresh),
     cs_batch = envInt getenv ''WK_CLAIM_BATCH_SIZE'' 20,
     cs_lease = in_milliseconds (envInt getenv ''WK_LEASE_DURATION_MS'' 30000),
     cs_poll = in_milliseconds (envInt getenv ''WK_COORDINATOR_POLL_MS'' 1000)\<rparr>"

definition remote_coordinator :: "'w machine \<Rightarrow> coordinator_settings \<Rightarrow> 'w coordinator" where
  "remote_coordinator mc cs =
     (let c = New_client (cs_apiURL cs) (cs_adminToken cs) in
      \<lparr>co_Hook = (\<lambda>_ _ w. (None, w)),
       co_Claim = (\<lambda>worker limit lease w. as_error (client_ClaimRecovery (mc_http mc) c worker limit lease w)),
       co_Verify = verify_over mc (cs_simulatorURL cs) (cs_simulatorToken cs),
       co_Submit = (\<lambda>i rr w. as_error (client_SubmitRecoveryResult (mc_http mc) c i
         \<lparr>cl_Operation = zero_operation, cl_ClaimToken = rr_ClaimToken rr, cl_AttemptID = rr_AttemptID rr,
          cl_LeaseExpiresAt = zero_time, cl_Version = rr_ExpectedVersion rr\<rparr> (rr_Observation rr) w)),
       co_WorkerID = cs_workerID cs, co_BatchSize = cs_batch cs, co_LeaseDuration = cs_lease cs\<rparr>)"

text \<open>
  The loop: a round, its error in the log unless the context is over, and a wait for the next tick.
  \<open>None\<close> is a coordinator still running after \<open>n\<close> rounds.
\<close>

fun coordinator_cycles :: "nat \<Rightarrow> 'w machine \<Rightarrow> 'w coordinator \<Rightarrow> duration \<Rightarrow> error list \<Rightarrow> 'w \<Rightarrow> error list option \<times> 'w" where
  "coordinator_cycles 0 mc co period logged w = (None, w)"
| "coordinator_cycles (Suc n) mc co period logged w =
     (case RunOnce co w of
        ((_, err), w1) \<Rightarrow>
          (let logged' = (case err of Some e \<Rightarrow> if mc_Err mc w1 = None then logged @ [e] else logged | None \<Rightarrow> logged) in
           case mc_pause mc period w1 of
             (Some _, w2) \<Rightarrow> (Some logged', w2)
           | (None, w2) \<Rightarrow> coordinator_cycles n mc co period logged' w2))"

datatype coordinator_exit = CoordinatorTokensRequired | NonPositiveTicker | Stopped "error list"

definition recovery_coordinator :: "nat \<Rightarrow> 'w machine \<Rightarrow> 'w \<Rightarrow> coordinator_exit option \<times> 'w" where
  "recovery_coordinator n mc w =
     (if mc_getenv mc ''WK_ADMIN_TOKEN'' = [] \<or> mc_getenv mc ''SIM_AUTH_TOKEN'' = []
      then (Some CoordinatorTokensRequired, w)
      else case mc_newID mc w of (fresh, w1) \<Rightarrow>
        (let cs = coordinator_setup (mc_getenv mc) fresh in
         if cs_poll cs \<le> 0 then (Some NonPositiveTicker, w1)
         else case coordinator_cycles n mc (remote_coordinator mc cs) (cs_poll cs) [] w1 of
           (out, w2) \<Rightarrow> (map_option Stopped out, w2)))"

section \<open>Requests of the programs\<close>

text \<open>\<open>json.Marshal\<close> of a map sorts its keys.\<close>

definition email_payload :: "string \<Rightarrow> string \<Rightarrow> string \<Rightarrow> string" where
  "email_payload recipient template key = marshal (JObj [(''logical_message_key'', JStr key),
     (''recipient'', JStr recipient), (''template'', JStr template)])"

definition email_intent :: "string \<Rightarrow> string \<Rightarrow> string \<Rightarrow> string \<Rightarrow> PrepareRequest" where
  "email_intent workflow key payload profile = \<lparr>pr_WorkflowID = workflow, pr_Strategy = StrategyWatchkeeper,
     pr_ExperimentRunID = None, pr_LogicalKey = key, pr_TargetService = ''email'', pr_Action = ''send'',
     pr_Request = payload, pr_RequestFingerprint = [], pr_ExpectedEffect = payload, pr_CapabilityProfile = profile,
     pr_TraceContext = []\<rparr>"

section \<open>The workflow worker\<close>

record worker_flags =
  wf_apiURL :: string
  wf_apiToken :: string
  wf_simulatorURL :: string
  wf_simulatorToken :: string
  wf_workflowID :: string
  wf_recipient :: string
  wf_template :: string

definition worker_flag_names :: "string list" where
  "worker_flag_names = [''api-url'', ''api-token'', ''simulator-url'', ''simulator-token'', ''workflow-id'', ''recipient'', ''template'']"

definition worker_defaults :: "(string \<Rightarrow> string) \<Rightarrow> string \<Rightarrow> worker_flags" where
  "worker_defaults getenv fresh = \<lparr>wf_apiURL = env_text getenv ''WK_API_URL'' ''http://localhost:8080'',
     wf_apiToken = getenv ''WK_AUTH_TOKEN'', wf_simulatorURL = env_text getenv ''SIMULATOR_URL'' ''http://localhost:8090'',
     wf_simulatorToken = getenv ''SIM_AUTH_TOKEN'', wf_workflowID = fresh, wf_recipient = ''researcher@example.invalid'',
     wf_template = ''confirmation''\<rparr>"

definition set_worker_flag :: "string \<Rightarrow> string \<Rightarrow> worker_flags \<Rightarrow> worker_flags option" where
  "set_worker_flag name v ws = Some
     (if name = ''api-url'' then ws\<lparr>wf_apiURL := v\<rparr>
      else if name = ''api-token'' then ws\<lparr>wf_apiToken := v\<rparr>
      else if name = ''simulator-url'' then ws\<lparr>wf_simulatorURL := v\<rparr>
      else if name = ''simulator-token'' then ws\<lparr>wf_simulatorToken := v\<rparr>
      else if name = ''workflow-id'' then ws\<lparr>wf_workflowID := v\<rparr>
      else if name = ''recipient'' then ws\<lparr>wf_recipient := v\<rparr>
      else ws\<lparr>wf_template := v\<rparr>)"

text \<open>The worker over the client; it has no hook and waits a tenth of a second between rounds.\<close>

definition remote_worker :: "'w machine \<Rightarrow> client \<Rightarrow> string \<Rightarrow> string \<Rightarrow> 'w worker" where
  "remote_worker mc c simulatorURL token = \<lparr>
     wk_Prepare = (\<lambda>req w. as_error (client_Prepare (mc_http mc) c req w)),
     wk_BeginRetry = (\<lambda>i v reason w. as_error (client_BeginRetry (mc_http mc) c i v reason w)),
     wk_AuthorizeDispatch = (\<lambda>i v w. as_error (client_AuthorizeDispatch (mc_http mc) c i v w)),
     wk_Confirm = (\<lambda>i req w. as_error (client_Confirm (mc_http mc) c i req w)),
     wk_GetOperation = (\<lambda>i w. as_error (client_GetOperation (mc_http mc) c i w)),
     wk_Post = (\<lambda>po w. map_prod http_result_of id (mc_http mc (post_call po) w)),
     wk_Hook = None, wk_Wait = mc_pause mc (100 * millisecond), wk_Err = mc_Err mc,
     wk_SimulatorURL = simulatorURL, wk_SimulatorToken = token\<rparr>"

text \<open>
  \<open>json.Unmarshal\<close> of the stored receipt into one that holds the time of preparation, its error
  ignored: a member that does not decode is left, the others are read.
\<close>

definition committed_at :: "json \<Rightarrow> time \<Rightarrow> time" where
  "committed_at payload prepared =
     (case payload of
        JObj ms \<Rightarrow> foldl (\<lambda>t (k, v). if equal_fold k ''committed_at'' then (case as_time v of Some t' \<Rightarrow> t' | None \<Rightarrow> t) else t)
          prepared ms
      | _ \<Rightarrow> prepared)"

record simulator_status =
  ss_CommittedCount :: int
  ss_Authoritative :: bool

definition decode_simulator_status :: "json \<Rightarrow> simulator_status option" where
  "decode_simulator_status v =
     (case members_of v of
        None \<Rightarrow> None
      | Some ms \<Rightarrow>
          (case (field as_string ''operation_id'' [] ms, field as_int64 ''committed_count'' 0 ms,
                 field as_bool ''authoritative'' False ms) of
             (Some _, Some n, Some a) \<Rightarrow> Some \<lparr>ss_CommittedCount = n, ss_Authoritative = a\<rparr>
           | _ \<Rightarrow> None))"

definition fetchStatus :: "'w machine \<Rightarrow> string \<Rightarrow> string \<Rightarrow> string \<Rightarrow> 'w \<Rightarrow> (string + simulator_status) \<times> 'w" where
  "fetchStatus mc baseURL token i w =
     (case mc_http mc (bearer_get (baseURL @ ''/email/operations/'' @ i) token) w of
        (NoAnswer e, w') \<Rightarrow> (Inl e, w')
      | (Answer code text, w') \<Rightarrow>
          (if code \<noteq> 200 then Inl (''status endpoint returned '' @ itoa code)
           else of_opt ''decode status'' (Option.bind (map_option fst (decode_one text)) decode_simulator_status), w'))"

record worker_result =
  wr_WorkflowID :: string
  wr_OperationID :: string
  wr_State :: OperationState
  wr_EffectCommittedAt :: time
  wr_ConfirmedAt :: "time option"
  wr_AuditEvents :: int
  wr_GroundTruthCount :: int

datatype worker_failure = BadFlags flag_error | WorkerTokensRequired | ExecuteFailed error
  | AuditUnreadable failure | TruthUnreadable string | InvariantsFailed OperationState nat int

definition smoke_invariants :: "Operation \<Rightarrow> client_event list \<Rightarrow> simulator_status \<Rightarrow> bool" where
  "smoke_invariants op evs st \<longleftrightarrow> (op_State op = StateConfirmed \<or> op_State op = StateReconciled) \<and> 2 \<le> length evs
     \<and> ev_type (hd evs) = ''intent_prepared'' \<and> ss_CommittedCount st = 1 \<and> ss_Authoritative st"

definition worker_report :: "string \<Rightarrow> Operation \<Rightarrow> client_event list \<Rightarrow> simulator_status \<Rightarrow> worker_result" where
  "worker_report workflow op evs st = \<lparr>wr_WorkflowID = workflow, wr_OperationID = op_ID op, wr_State = op_State op,
     wr_EffectCommittedAt = (case op_Receipt op of None \<Rightarrow> op_PreparedAt op | Some rc \<Rightarrow> committed_at (rc_Payload rc) (op_PreparedAt op)),
     wr_ConfirmedAt = op_ConfirmedAt op, wr_AuditEvents = int (length evs), wr_GroundTruthCount = ss_CommittedCount st\<rparr>"

definition workflow_worker :: "nat \<Rightarrow> 'w machine \<Rightarrow> string list \<Rightarrow> 'w \<Rightarrow> (worker_failure + worker_result) option \<times> 'w" where
  "workflow_worker n mc args w =
     (case mc_newID mc w of (fresh, w1) \<Rightarrow>
      (case Parse worker_flag_names set_worker_flag args (worker_defaults (mc_getenv mc) fresh) of
         Inl err \<Rightarrow> (Some (Inl (BadFlags err)), w1)
       | Inr ws \<Rightarrow>
          if wf_apiToken ws = [] \<or> wf_simulatorToken ws = [] then (Some (Inl WorkerTokensRequired), w1)
          else
           (let c = New_client (wf_apiURL ws) (wf_apiToken ws);
                payload = email_payload (wf_recipient ws) (wf_template ws) ''confirmation'' in
            case Execute n (remote_worker mc c (wf_simulatorURL ws) (wf_simulatorToken ws))
                   (email_intent (wf_workflowID ws) ''send-confirmation'' payload ''receipt_status'') w1 of
              (None, w2) \<Rightarrow> (None, w2)
            | (Some (op, Some err), w2) \<Rightarrow> (Some (Inl (ExecuteFailed err)), w2)
            | (Some (op, None), w2) \<Rightarrow>
                (case client_ListEvents (mc_http mc) c (op_ID op) 10 [] w2 of
                   (Inl err, w3) \<Rightarrow> (Some (Inl (AuditUnreadable err)), w3)
                 | (Inr page, w3) \<Rightarrow>
                     (case fetchStatus mc (wf_simulatorURL ws) (wf_simulatorToken ws) (op_ID op) w3 of
                        (Inl err, w4) \<Rightarrow> (Some (Inl (TruthUnreadable err)), w4)
                      | (Inr st, w4) \<Rightarrow>
                          (Some (if smoke_invariants op (pg_Items page) st
                             then Inr (worker_report (wf_workflowID ws) op (pg_Items page) st)
                             else Inl (InvariantsFailed (op_State op) (length (pg_Items page)) (ss_CommittedCount st))), w4))))))"

section \<open>The recovery smoke test\<close>

text \<open>
  It prepares an operation, sends its message and reads no receipt, asks for reconciliation and waits
  until the coordinator has reconciled the operation; then it checks the log and the service.
\<close>

datatype smoke_failure = SmokeTokensRequired | PrepareFailed failure | AuthorizeFailed failure | DispatchFailed string
  | QueueFailed failure | TimedOut | GetFailed failure | UnexpectedState OperationState | EventsFailed failure
  | UnexpectedEvents "client_event list" | TruthFailed string | TruthMismatch

record smoke_report =
  sm_WorkflowID :: string
  sm_OperationID :: string
  sm_State :: OperationState
  sm_AuditEvents :: int
  sm_GroundTruthCount :: int
  sm_DispatchCount :: int
  sm_Redispatched :: bool

definition dispatch_message :: "'w machine \<Rightarrow> string \<Rightarrow> string \<Rightarrow> string \<Rightarrow> string \<Rightarrow> 'w \<Rightarrow> string option \<times> 'w" where
  "dispatch_message mc baseURL token i payload w =
     (case mc_http mc (message_call baseURL token i payload) w of
        (NoAnswer e, w') \<Rightarrow> (Some e, w')
      | (Answer code text, w') \<Rightarrow>
          (if code \<noteq> 201 then Some (''simulator returned '' @ itoa code @ '': '' @ take 4096 text) else None, w'))"

text \<open>The wait for \<open>StateReconciled\<close>; \<open>None\<close> is a test still waiting after \<open>n\<close> reads.\<close>

fun await_reconciled :: "nat \<Rightarrow> 'w machine \<Rightarrow> client \<Rightarrow> string \<Rightarrow> Operation \<Rightarrow> 'w
    \<Rightarrow> (smoke_failure + Operation) option \<times> 'w" where
  "await_reconciled 0 mc c i current w = (None, w)"
| "await_reconciled (Suc n) mc c i current w =
     (if op_State current = StateReconciled then (Some (Inr current), w)
      else case mc_pause mc (200 * millisecond) w of
        (Some _, w1) \<Rightarrow> (Some (Inl TimedOut), w1)
      | (None, w1) \<Rightarrow>
          (case client_GetOperation (mc_http mc) c i w1 of
             (Inl err, w2) \<Rightarrow> (Some (Inl (GetFailed err)), w2)
           | (Inr op, w2) \<Rightarrow>
               if op_State op = StateRetryable \<or> op_State op = StateUncertain
               then (Some (Inl (UnexpectedState (op_State op))), w2)
               else await_reconciled n mc c i op w2))"

definition smoke_events :: "string list" where
  "smoke_events = [''intent_prepared'', ''dispatch_authorized'', ''reconciliation_requested'', ''recovery_claimed'', ''recovery_result'']"

record ground_truth =
  gt_Count :: int
  gt_Dispatches :: int

definition decode_truth :: "json \<Rightarrow> ground_truth option" where
  "decode_truth v =
     (case members_of v of
        None \<Rightarrow> None
      | Some ms \<Rightarrow>
          (case (field as_int64 ''committed_count'' 0 ms, field as_int64 ''dispatch_count'' 0 ms) of
             (Some n, Some d) \<Rightarrow> Some \<lparr>gt_Count = n, gt_Dispatches = d\<rparr>
           | _ \<Rightarrow> None))"

definition smoke_check :: "'w machine \<Rightarrow> client \<Rightarrow> string \<Rightarrow> string \<Rightarrow> string \<Rightarrow> Operation \<Rightarrow> 'w
    \<Rightarrow> (smoke_failure + smoke_report) \<times> 'w" where
  "smoke_check mc public simURL workflow i current w =
     (case client_ListEvents (mc_http mc) public (i) 20 [] w of
        (Inl err, w1) \<Rightarrow> (Inl (EventsFailed err), w1)
      | (Inr page, w1) \<Rightarrow>
          if map ev_type (pg_Items page) \<noteq> smoke_events then (Inl (UnexpectedEvents (pg_Items page)), w1)
          else
            (case mc_http mc (bearer_get (simURL @ ''/admin/email/operations/'' @ i) (mc_getenv mc ''SIM_ADMIN_TOKEN'')) w1 of
               (NoAnswer e, w2) \<Rightarrow> (Inl (TruthFailed e), w2)
             | (Answer code text, w2) \<Rightarrow>
                 (case (if code \<noteq> 200 then None else Option.bind (map_option fst (decode_one text)) decode_truth) of
                    None \<Rightarrow> (Inl TruthMismatch, w2)
                  | Some gt \<Rightarrow>
                      (if gt_Count gt \<noteq> 1 \<or> gt_Dispatches gt \<noteq> 1 then Inl TruthMismatch
                       else Inr \<lparr>sm_WorkflowID = workflow, sm_OperationID = i, sm_State = op_State current,
                              sm_AuditEvents = int (length (pg_Items page)), sm_GroundTruthCount = gt_Count gt,
                              sm_DispatchCount = gt_Dispatches gt, sm_Redispatched = gt_Dispatches gt > 1\<rparr>, w2))))"

definition smoke_run :: "nat \<Rightarrow> 'w machine \<Rightarrow> client \<Rightarrow> client \<Rightarrow> string \<Rightarrow> string \<Rightarrow> string \<Rightarrow> 'w
    \<Rightarrow> (smoke_failure + smoke_report) option \<times> 'w" where
  "smoke_run n mc public admin simURL simToken workflow w =
     (let payload = email_payload ''recovery@example.invalid'' ''confirmation'' ''recovery-smoke'';
          intent = email_intent workflow ''send-confirmation'' payload ''receipt_status'' in
      case client_Prepare (mc_http mc) public intent w of
        (Inl err, w1) \<Rightarrow> (Some (Inl (PrepareFailed err)), w1)
      | (Inr prepared, w1) \<Rightarrow>
      (case client_AuthorizeDispatch (mc_http mc) public (op_ID prepared) (op_Version prepared) w1 of
        (Inl err, w2) \<Rightarrow> (Some (Inl (AuthorizeFailed err)), w2)
      | (Inr op, w2) \<Rightarrow>
      (case dispatch_message mc simURL simToken (op_ID op) payload w2 of
        (Some err, w3) \<Rightarrow> (Some (Inl (DispatchFailed err)), w3)
      | (None, w3) \<Rightarrow>
      (case client_RequestReconciliation (mc_http mc) admin (op_ID op) (op_Version op) ''recovery-smoke''
              ''simulate lost receipt'' w3 of
        (Inl err, w4) \<Rightarrow> (Some (Inl (QueueFailed err)), w4)
      | (Inr queued, w4) \<Rightarrow>
      (case await_reconciled n mc public (op_ID op) queued w4 of
        (None, w5) \<Rightarrow> (None, w5)
      | (Some (Inl err), w5) \<Rightarrow> (Some (Inl err), w5)
      | (Some (Inr current), w5) \<Rightarrow> map_prod Some id (smoke_check mc public simURL workflow (op_ID op) current w5))))))"

definition recovery_smoke :: "nat \<Rightarrow> 'w machine \<Rightarrow> 'w \<Rightarrow> (smoke_failure + smoke_report) option \<times> 'w" where
  "recovery_smoke n mc w =
     (let getenv = mc_getenv mc; apiURL = env_text getenv ''WK_API_URL'' ''http://localhost:8080'';
          simURL = env_text getenv ''SIMULATOR_URL'' ''http://localhost:8090'' in
      if getenv ''WK_AUTH_TOKEN'' = [] \<or> getenv ''WK_ADMIN_TOKEN'' = [] \<or> getenv ''SIM_AUTH_TOKEN'' = []
      then (Some (Inl SmokeTokensRequired), w)
      else case mc_newID mc w of (workflow, w1) \<Rightarrow>
        smoke_run n mc (New_client apiURL (getenv ''WK_AUTH_TOKEN'')) (New_client apiURL (getenv ''WK_ADMIN_TOKEN''))
          simURL (getenv ''SIM_AUTH_TOKEN'') workflow w1)"

section \<open>The servers and the health check\<close>

text \<open>The API server: its configuration, the level of its log and its handler.\<close>

datatype log_level = LevelDebug | LevelInfo | LevelWarn | LevelError

definition log_level_of :: "string \<Rightarrow> log_level" where
  "log_level_of level =
     (if lower_text level = ''debug'' then LevelDebug else if lower_text level = ''warn'' then LevelWarn
      else if lower_text level = ''error'' then LevelError else LevelInfo)"

definition api_setup :: "(string \<Rightarrow> duration option) \<Rightarrow> (string \<Rightarrow> string + string) \<Rightarrow> string list \<Rightarrow> (string \<Rightarrow> string)
    \<Rightarrow> load_error + (string \<times> log_level \<times> api_server)" where
  "api_setup parse_duration read_file args getenv =
     bindE (Load parse_duration read_file args getenv) (\<lambda>cfg.
       Inr (cfg_HTTPAddr cfg, log_level_of (cfg_LogLevel cfg), New (cfg_AuthToken cfg) (cfg_AdminToken cfg)))"

text \<open>The email service: its address and server, unless the database or the token is missing.\<close>

definition simulator_server :: "(string \<Rightarrow> string) \<Rightarrow> string \<Rightarrow> string \<Rightarrow> sim_server" where
  "simulator_server getenv token adminToken =
     (NewServer token adminToken)\<lparr>sv_Profile := env_text getenv ''SIM_CAPABILITY_PROFILE'' ''receipt_status''\<rparr>"

definition simulator_setup :: "(string \<Rightarrow> string) \<Rightarrow> (string \<times> sim_server) option" where
  "simulator_setup getenv =
     (let token = getenv ''SIM_AUTH_TOKEN'' in
      if getenv ''SIM_DATABASE_URL'' = [] \<or> token = [] then None
      else Some (env_text getenv ''SIM_HTTP_ADDR'' '':8090'', simulator_server getenv token (env_text getenv ''SIM_ADMIN_TOKEN'' token)))"

text \<open>The health check exits with 2 without its one argument, with 1 unless the answer is a success.\<close>

definition healthcheck :: "'w machine \<Rightarrow> string list \<Rightarrow> 'w \<Rightarrow> int \<times> 'w" where
  "healthcheck mc args w =
     (case args of
        [_, url] \<Rightarrow>
          (case mc_http mc \<lparr>hc_method = ''GET'', hc_url = url, hc_headers = [], hc_body = []\<rparr> w of
             (NoAnswer _, w') \<Rightarrow> (1, w')
           | (Answer code _, w') \<Rightarrow> (if code < 200 \<or> code \<ge> 300 then 1 else 0, w'))
      | _ \<Rightarrow> (2, w))"

text \<open>A server that starts has both tokens, so that no route of it is open for want of one.\<close>

lemma api_setup_tokens:
  assumes "api_setup pd rf args getenv = Inr (addr, level, sv)"
  shows "sa_authToken sv \<noteq> []" and "sa_adminToken sv \<noteq> []"
  using assms by (auto simp: api_setup_def New_def Load_def Let_def Validate_ok split: sum.splits if_splits)

lemma simulator_setup_tokens:
  assumes "simulator_setup getenv = Some (addr, sv)"
  shows "sv_token sv \<noteq> []" and "sv_adminToken sv \<noteq> []"
  using assms by (auto simp: simulator_setup_def simulator_server_def NewServer_def Let_def env_text_def split: if_splits)

end
