(* ===== verification/Console.thy ===== *)
theory Console
  imports Programs
begin

text \<open>
  \<open>cmd/watchkeeper-demo\<close>: the console that runs a scenario against the real interface and the email
  service. Its memory (the runs, their order, whether one is active) is shared by the handlers and
  the one goroutine that executes a run, each access under a mutex; it is a part of the world \<open>'w\<close>,
  so that whatever the other parties do within a call may include requests to the console. A run is
  named by its identifier, which stands for the pointer the code holds. The answers are the values
  their JSON is made of; the files of the page are not modelled.
\<close>

section \<open>The console\<close>

record ledger =
  lg_Effects :: int
  lg_Dispatches :: int

record beat =
  bt_At :: time
  bt_Title :: string
  bt_Detail :: string
  bt_Kind :: string

record demo_run =
  ru_ID :: string
  ru_Scenario :: string
  ru_Phase :: string
  ru_Started :: time
  ru_Done :: bool
  ru_Error :: string
  ru_Operation :: "Operation option"
  ru_BaselineID :: string
  ru_Protected :: ledger
  ru_Baseline :: ledger
  ru_Events :: "client_event list"
  ru_Timeline :: "beat list"

record console =
  cn_runs :: "(string \<times> demo_run) list"
  cn_order :: "string list"
  cn_active :: bool

record 'w console_machine = "'w machine" +
  cm_console :: "'w \<Rightarrow> console"
  cm_set :: "console \<Rightarrow> 'w \<Rightarrow> 'w"
  cm_host :: "string \<Rightarrow> string option"      \<comment> \<open>the host of \<open>url.Parse\<close>, if it accepts\<close>
  cm_public :: client
  cm_apiURL :: string
  cm_simURL :: string
  cm_simToken :: string
  cm_simAdmin :: string

definition no_ledger :: ledger where
  "no_ledger = \<lparr>lg_Effects = 0, lg_Dispatches = 0\<rparr>"

definition console_setup :: "(string \<Rightarrow> string) \<Rightarrow> 'w machine \<Rightarrow> ('w \<Rightarrow> console) \<Rightarrow> (console \<Rightarrow> 'w \<Rightarrow> 'w)
    \<Rightarrow> (string \<Rightarrow> string option) \<Rightarrow> 'w console_machine" where
  "console_setup getenv mc view set_view host = machine.extend mc
     \<lparr>cm_console = view, cm_set = set_view, cm_host = host,
      cm_public = New_client (env_text getenv ''WK_API_URL'' ''http://localhost:8080'') (env_text getenv ''WK_AUTH_TOKEN'' ''watchkeeper-dev-token''),
      cm_apiURL = env_text getenv ''WK_API_URL'' ''http://localhost:8080'',
      cm_simURL = env_text getenv ''SIMULATOR_URL'' ''http://localhost:8090'',
      cm_simToken = env_text getenv ''SIM_AUTH_TOKEN'' ''simulator-dev-token'',
      cm_simAdmin = env_text getenv ''SIM_ADMIN_TOKEN'' ''simulator-admin-dev-token''\<rparr>"

definition with_console :: "'w console_machine \<Rightarrow> (console \<Rightarrow> console) \<Rightarrow> 'w \<Rightarrow> 'w" where
  "with_console cm f w = cm_set cm (f (cm_console cm w)) w"

section \<open>The handlers\<close>

datatype console_reply =
    StatusReply bool bool bool | StartedReply string | RunReply demo_run | MessageReply int string

definition ready_at :: "'w console_machine \<Rightarrow> string \<Rightarrow> 'w \<Rightarrow> bool \<times> 'w" where
  "ready_at cm base w =
     (case mc_http cm \<lparr>hc_method = ''GET'', hc_url = base @ ''/health/ready'', hc_headers = [], hc_body = []\<rparr> w of
        (NoAnswer _, w') \<Rightarrow> (False, w')
      | (Answer code _, w') \<Rightarrow> (code = 200, w'))"

definition console_status :: "'w console_machine \<Rightarrow> 'w \<Rightarrow> console_reply \<times> 'w" where
  "console_status cm w =
     (case ready_at cm (cm_apiURL cm) w of (api, w1) \<Rightarrow>
      case ready_at cm (cm_simURL cm) w1 of (sim, w2) \<Rightarrow>
        (StatusReply api sim (cn_active (cm_console cm w2)), w2))"

definition console_get :: "string \<Rightarrow> console \<Rightarrow> console_reply" where
  "console_get i cn =
     (case map_of (cn_runs cn) i of
        None \<Rightarrow> MessageReply 404 ''Demo run not found. Start a new run.''
      | Some x \<Rightarrow> RunReply x)"

definition new_run :: "string \<Rightarrow> string \<Rightarrow> string \<Rightarrow> time \<Rightarrow> demo_run" where
  "new_run i scenario baseline t = \<lparr>ru_ID = i, ru_Scenario = scenario, ru_Phase = ''preparing'', ru_Started = t,
     ru_Done = False, ru_Error = [], ru_Operation = None, ru_BaselineID = baseline, ru_Protected = no_ledger,
     ru_Baseline = no_ledger, ru_Events = [], ru_Timeline = []\<rparr>"

text \<open>The console keeps twenty runs; the oldest goes when one more is added.\<close>

definition put_run :: "string \<Rightarrow> 'a \<Rightarrow> (string \<times> 'a) list \<Rightarrow> (string \<times> 'a) list" where
  "put_run i x rs = filter (\<lambda>(j, _). j \<noteq> i) rs @ [(i, x)]"

definition add_run :: "demo_run \<Rightarrow> console \<Rightarrow> console" where
  "add_run x cn =
     (let runs = put_run (ru_ID x) x (cn_runs cn); order = cn_order cn @ [ru_ID x] in
      if length order > 20
      then \<lparr>cn_runs = filter (\<lambda>(j, _). j \<noteq> hd order) runs, cn_order = tl order, cn_active = True\<rparr>
      else \<lparr>cn_runs = runs, cn_order = order, cn_active = True\<rparr>)"

definition demo_scenarios :: "string list" where
  "demo_scenarios = [''normal'', ''lost_confirmation'', ''no_evidence'']"

definition decode_scenario :: "string \<Rightarrow> string option" where
  "decode_scenario body =
     Option.bind (map_option fst (decode_one (take 2048 body))) (\<lambda>v.
     Option.bind (members_of v) (field as_string ''scenario'' []))"

text \<open>\<open>start\<close>: a page of another origin is refused, as is a second run while one is active.\<close>

definition console_start :: "'w console_machine \<Rightarrow> string \<Rightarrow> string \<Rightarrow> string \<Rightarrow> 'w \<Rightarrow> console_reply \<times> 'w" where
  "console_start cm host origin body w =
     (if origin \<noteq> [] \<and> cm_host cm origin \<noteq> Some host
      then (MessageReply 403 ''Use the local demo page to start a run.'', w)
      else case decode_scenario body of
        None \<Rightarrow> (MessageReply 400 ''Choose a demo scenario.'', w)
      | Some scenario \<Rightarrow>
          if scenario \<notin> set demo_scenarios then (MessageReply 400 ''Unknown scenario.'', w)
          else if cn_active (cm_console cm w)
          then (MessageReply 409 ''A demo is already running. Wait for it to finish.'', w)
          else
            (case mc_newID cm w of (i, w1) \<Rightarrow>
             case mc_newID cm w1 of (baseline, w2) \<Rightarrow>
               (StartedReply i, with_console cm (add_run (new_run i scenario baseline (mc_now cm w1))) w2)))"

section \<open>Executing a run\<close>

definition map_run :: "string \<Rightarrow> (demo_run \<Rightarrow> demo_run) \<Rightarrow> console \<Rightarrow> console" where
  "map_run i f cn = cn\<lparr>cn_runs := map (\<lambda>(j, x). if j = i then (j, f x) else (j, x)) (cn_runs cn)\<rparr>"

text \<open>A step of \<open>execute\<close>: it fails with an error's text, or hands its result on.\<close>

definition and_then :: "('w \<Rightarrow> (string + 'a) \<times> 'w) \<Rightarrow> ('a \<Rightarrow> 'w \<Rightarrow> (string + 'b) \<times> 'w) \<Rightarrow> 'w \<Rightarrow> (string + 'b) \<times> 'w" where
  "and_then m f w = (case m w of (Inl e, w') \<Rightarrow> (Inl e, w') | (Inr x, w') \<Rightarrow> f x w')"

definition as_text :: "(failure + 'a) \<times> 'w \<Rightarrow> (string + 'a) \<times> 'w" where
  "as_text r = map_prod (map_sum failure_text id) id r"

definition note_beat :: "'w console_machine \<Rightarrow> string \<Rightarrow> string \<Rightarrow> string \<Rightarrow> string \<Rightarrow> string \<Rightarrow> 'w \<Rightarrow> (string + unit) \<times> 'w" where
  "note_beat cm i phase title detail kind w =
     (Inr (), with_console cm (map_run i (\<lambda>x. x\<lparr>ru_Phase := phase, ru_Timeline := ru_Timeline x
        @ [\<lparr>bt_At = mc_now cm w, bt_Title = title, bt_Detail = detail, bt_Kind = kind\<rparr>]\<rparr>)) w)"

definition decode_ledger :: "json \<Rightarrow> ledger option" where
  "decode_ledger v =
     Option.bind (members_of v) (\<lambda>ms.
     (case (field as_int64 ''committed_count'' 0 ms, field as_int64 ''dispatch_count'' 0 ms) of
        (Some n, Some d) \<Rightarrow> Some \<lparr>lg_Effects = n, lg_Dispatches = d\<rparr>
      | _ \<Rightarrow> None))"

definition truth :: "'w console_machine \<Rightarrow> string \<Rightarrow> 'w \<Rightarrow> (string + ledger) \<times> 'w" where
  "truth cm i w =
     (case mc_http cm (bearer_get (cm_simURL cm @ ''/admin/email/operations/'' @ i) (cm_simAdmin cm)) w of
        (NoAnswer e, w') \<Rightarrow> (Inl e, w')
      | (Answer code text, w') \<Rightarrow>
          (if code \<noteq> 200 then Inl (''email ledger returned '' @ itoa code)
           else of_opt ''decode ledger'' (Option.bind (first_value text) decode_ledger), w'))"

definition capture :: "'w console_machine \<Rightarrow> string \<Rightarrow> string \<Rightarrow> string \<Rightarrow> 'w \<Rightarrow> (string + unit) \<times> 'w" where
  "capture cm x baseline i =
     and_then (\<lambda>w. as_text (client_GetOperation (mc_http cm) (cm_public cm) i w)) (\<lambda>op.
     and_then (\<lambda>w. as_text (client_ListEvents (mc_http cm) (cm_public cm) i 100 [] w)) (\<lambda>page.
     and_then (truth cm i) (\<lambda>protected.
     and_then (truth cm baseline) (\<lambda>other w.
       (Inr (), with_console cm (map_run x (\<lambda>r. r\<lparr>ru_Operation := Some op, ru_Events := pg_Items page,
          ru_Protected := protected, ru_Baseline := other\<rparr>)) w)))))"

text \<open>\<open>send\<close> hands the text of a receipt on whose identity it has checked.\<close>

definition check_receipt :: "string \<Rightarrow> string \<Rightarrow> string + string" where
  "check_receipt i raw =
     (case Option.bind (decode_all raw) members_of of
        None \<Rightarrow> Inl ''decode receipt''
      | Some ms \<Rightarrow>
          (case (field as_string ''receipt_id'' [] ms, field as_string ''operation_id'' [] ms, field as_string ''status'' [] ms) of
             (Some r, Some op, Some st) \<Rightarrow>
               if r = [] \<or> op \<noteq> i \<or> st \<noteq> ''committed'' then Inl ''email service returned an invalid receipt'' else Inr raw
           | _ \<Rightarrow> Inl ''decode receipt''))"

definition console_send :: "'w console_machine \<Rightarrow> string \<Rightarrow> string \<Rightarrow> 'w \<Rightarrow> (string + string) \<times> 'w" where
  "console_send cm i payload w =
     (case mc_http cm (message_call (cm_simURL cm) (cm_simToken cm) i payload) w of
        (NoAnswer e, w') \<Rightarrow> (Inl e, w')
      | (Answer code text, w') \<Rightarrow>
          (if code \<noteq> 201 then Inl (''email send returned '' @ itoa code) else check_receipt i (take max_body text), w'))"

definition pause_for :: "'w console_machine \<Rightarrow> duration \<Rightarrow> 'w \<Rightarrow> (string + unit) \<times> 'w" where
  "pause_for cm d w = (case mc_pause cm d w of (Some e, w') \<Rightarrow> (Inl (error_string e), w') | (None, w') \<Rightarrow> (Inr (), w'))"

text \<open>Up to the pause after both messages were sent: the operation as granted, and the receipt.\<close>

definition execute_sends :: "'w console_machine \<Rightarrow> string \<Rightarrow> string \<Rightarrow> string \<Rightarrow> 'w \<Rightarrow> (string + Operation \<times> string) \<times> 'w" where
  "execute_sends cm x scenario baseline =
     (let profile = (if scenario = ''no_evidence'' then ''none'' else ''receipt_status'');
          payload = email_payload ''alex@example.invalid'' ''order-confirmation'' (''demo-'' @ x);
          baselinePayload = email_payload ''alex@example.invalid'' ''order-confirmation'' (''baseline-'' @ x) in
      and_then (\<lambda>w. as_text (client_Prepare (mc_http cm) (cm_public cm)
          (email_intent (''demo-'' @ x) ''order-confirmation'' payload profile) w)) (\<lambda>prepared.
      and_then (note_beat cm x ''prepared'' ''Intent saved before sending''
          ''Watchkeeper stores the request and its stable operation identity in PostgreSQL.'' ''info'') (\<lambda>_.
      and_then (capture cm x baseline (op_ID prepared)) (\<lambda>_.
      and_then (pause_for cm (1200 * millisecond)) (\<lambda>_.
      and_then (\<lambda>w. as_text (client_AuthorizeDispatch (mc_http cm) (cm_public cm) (op_ID prepared) (op_Version prepared) w)) (\<lambda>op.
      and_then (console_send cm (op_ID op) payload) (\<lambda>receipt.
      and_then (console_send cm baseline baselinePayload) (\<lambda>_.
      and_then (note_beat cm x ''sent'' ''The email service commits both sends''
          ''Each approach has produced one email effect in the independent service ledger.'' ''info'') (\<lambda>_.
      and_then (capture cm x baseline (op_ID op)) (\<lambda>_.
      and_then (pause_for cm (1000 * millisecond)) (\<lambda>_ w. (Inr (op, receipt), w))))))))))))"

definition receipt_text_id :: "string \<Rightarrow> string" where
  "receipt_text_id raw = (case Option.bind (Option.bind (decode_all raw) members_of) (field as_string ''receipt_id'' []) of
     None \<Rightarrow> [] | Some r \<Rightarrow> r)"

definition receipt_text_time :: "string \<Rightarrow> time" where
  "receipt_text_time raw = (case decode_all raw of None \<Rightarrow> zero_time | Some v \<Rightarrow> committed_at v zero_time)"

text \<open>The scenario without a failure: confirm, and complete.\<close>

definition execute_normal :: "'w console_machine \<Rightarrow> string \<Rightarrow> string \<Rightarrow> Operation \<Rightarrow> string \<Rightarrow> 'w \<Rightarrow> (string + unit) \<times> 'w" where
  "execute_normal cm x baseline op receipt =
     and_then (\<lambda>w. as_text (client_Confirm (mc_http cm) (cm_public cm) (op_ID op)
       \<lparr>cr_ExpectedVersion = op_Version op, cr_ServiceReceiptID = receipt_text_id receipt, cr_Receipt = receipt,
        cr_ReceivedAt = receipt_text_time receipt\<rparr> w)) (\<lambda>_.
     and_then (capture cm x baseline (op_ID op)) (\<lambda>_.
     note_beat cm x ''complete'' ''Confirmation stored. Workflow complete.''
       ''With no failure, both approaches produce one email effect.'' ''success''))"

text \<open>Otherwise the confirmation is omitted, the baseline sends again, and the run waits for recovery.\<close>

definition execute_lost :: "'w console_machine \<Rightarrow> string \<Rightarrow> string \<Rightarrow> Operation \<Rightarrow> 'w \<Rightarrow> (string + unit) \<times> 'w" where
  "execute_lost cm x baseline op =
     and_then (note_beat cm x ''lost'' ''Confirmation is deliberately lost''
       ''The demo omits the local confirmation after the service commits. This reproduces the recovery gap; no process is killed.'' ''warning'') (\<lambda>_.
     and_then (pause_for cm (1200 * millisecond)) (\<lambda>_.
     and_then (console_send cm baseline (email_payload ''alex@example.invalid'' ''order-confirmation'' (''baseline-'' @ x))) (\<lambda>_.
     and_then (capture cm x baseline (op_ID op)) (\<lambda>_.
     note_beat cm x ''verifying'' ''Blind retry sends again. Watchkeeper waits for evidence.''
       ''The baseline creates a second email effect. The real recovery coordinator resolves the unfinished Watchkeeper operation.'' ''warning''))))"

definition captured_state :: "'w console_machine \<Rightarrow> string \<Rightarrow> 'w \<Rightarrow> OperationState option" where
  "captured_state cm x w = Option.bind (map_of (cn_runs (cm_console cm w)) x) (\<lambda>r. map_option op_State (ru_Operation r))"

text \<open>\<open>None\<close> is a run still waiting after \<open>n\<close> rounds.\<close>

fun watch :: "nat \<Rightarrow> 'w console_machine \<Rightarrow> string \<Rightarrow> string \<Rightarrow> string \<Rightarrow> 'w \<Rightarrow> (string + unit) option \<times> 'w" where
  "watch 0 cm x baseline i w = (None, w)"
| "watch (Suc n) cm x baseline i w =
     (case capture cm x baseline i w of
        (Inl e, w1) \<Rightarrow> (Some (Inl e), w1)
      | (Inr _, w1) \<Rightarrow>
          (let state = captured_state cm x w1 in
           if state = Some StateReconciled then
             map_prod Some id (note_beat cm x ''complete'' ''Recovered without sending again''
               ''The coordinator found authoritative completion evidence and reconciled the original operation.'' ''success'' w1)
           else if state = Some StateUncertain then
             map_prod Some id (note_beat cm x ''complete'' ''Evidence unavailable. Automatic sending stopped.''
               ''Watchkeeper preserves uncertainty instead of risking a duplicate. The ledger is visible to this demo, but not used by recovery.'' ''warning'' w1)
           else if state \<noteq> Some StatePrepared then
             (Some (Inl (''unexpected recovery state: '' @ (case state of Some st \<Rightarrow> state_string st | None \<Rightarrow> []))), w1)
           else (case pause_for cm (250 * millisecond) w1 of
               (Inl e, w2) \<Rightarrow> (Some (Inl (''recovery did not finish: check that the coordinator is running: '' @ e)), w2)
             | (Inr _, w2) \<Rightarrow> watch n cm x baseline i w2)))"

definition fail_run :: "string \<Rightarrow> string \<Rightarrow> console \<Rightarrow> console" where
  "fail_run x e = map_run x (\<lambda>r. r\<lparr>ru_Error := e, ru_Phase := ''error''\<rparr>)"

definition finish_run :: "string \<Rightarrow> console \<Rightarrow> console" where
  "finish_run x cn = (map_run x (\<lambda>r. r\<lparr>ru_Done := True\<rparr>) cn)\<lparr>cn_active := False\<rparr>"

definition execute_run :: "nat \<Rightarrow> 'w console_machine \<Rightarrow> string \<Rightarrow> string \<Rightarrow> string \<Rightarrow> 'w \<Rightarrow> (string + unit) option \<times> 'w" where
  "execute_run n cm x scenario baseline w =
     (case execute_sends cm x scenario baseline w of
        (Inl e, w1) \<Rightarrow> (Some (Inl e), w1)
      | (Inr (op, receipt), w1) \<Rightarrow>
          if scenario = ''normal'' then map_prod Some id (execute_normal cm x baseline op receipt w1)
          else (case execute_lost cm x baseline op w1 of
              (Inl e, w2) \<Rightarrow> (Some (Inl e), w2)
            | (Inr _, w2) \<Rightarrow> watch n cm x baseline (op_ID op) w2))"

text \<open>\<open>execute\<close>: a failure is recorded in the run, and the deferred call finishes it either way.\<close>

definition execute :: "nat \<Rightarrow> 'w console_machine \<Rightarrow> demo_run \<Rightarrow> 'w \<Rightarrow> bool \<times> 'w" where
  "execute n cm x w =
     (case execute_run n cm (ru_ID x) (ru_Scenario x) (ru_BaselineID x) w of
        (None, w1) \<Rightarrow> (False, w1)
      | (Some (Inl e), w1) \<Rightarrow> (True, with_console cm (finish_run (ru_ID x)) (with_console cm (fail_run (ru_ID x) e) w1))
      | (Some (Inr _), w1) \<Rightarrow> (True, with_console cm (finish_run (ru_ID x)) w1))"

end
