(* ===== verification/Programs_Contract.thy ===== *)
theory Programs_Contract
  imports Console Demo
begin

text \<open>
  What the programs rely on and what they promise: a machine whose clock runs and whose pauses end
  when the context does, and which keeps the list of the messages sent to the email service. Every
  program then ends within a fixed number of rounds, and sends as many messages as it says.
\<close>

section \<open>Machines\<close>

definition message_of :: "http_call \<Rightarrow> string list" where
  "message_of call = (case map_of (hc_headers call) ''X-Watchkeeper-Operation-ID'' of None \<Rightarrow> [] | Some i \<Rightarrow> [i])"

locale metered =
  fixes mc :: "'w machine"
    and sent :: "'w \<Rightarrow> string list"
    and over :: "time \<Rightarrow> bool"
  assumes http_sent: "sent (snd (mc_http mc call w)) = sent w @ message_of call"
    and http_time: "mc_now mc w \<le> mc_now mc (snd (mc_http mc call w))"
    and newID_sent: "sent (snd (mc_newID mc w)) = sent w"
    and newID_time: "mc_now mc w \<le> mc_now mc (snd (mc_newID mc w))"
    and pause_sent: "sent (snd (mc_pause mc d w)) = sent w"
    and pause_time: "0 \<le> d \<Longrightarrow> mc_now mc w + d \<le> mc_now mc (snd (mc_pause mc d w)) \<or> fst (mc_pause mc d w) \<noteq> None"
    and pause_ends: "fst (mc_pause mc d w) \<noteq> None \<Longrightarrow> over (mc_now mc (snd (mc_pause mc d w)))"
    and pause_over: "over (mc_now mc w) \<Longrightarrow> fst (mc_pause mc d w) \<noteq> None"
begin

text \<open>A call of the client is no message, and takes time.\<close>

lemma headers_plain [simp]: "map_of (call_headers c b) ''X-Watchkeeper-Operation-ID'' = None"
  by (simp add: call_headers_def)

lemma do_call_effects:
  "sent (snd (do_call (mc_http mc) c m p b dec w)) = sent w" "mc_now mc w \<le> mc_now mc (snd (do_call (mc_http mc) c m p b dec w))"
  using http_sent [of "\<lparr>hc_method = m, hc_url = ct_baseURL c @ p, hc_headers = call_headers c (b \<noteq> None),
      hc_body = (case b of Some (Some t) \<Rightarrow> t | _ \<Rightarrow> [])\<rparr>" w]
    http_time [of w "\<lparr>hc_method = m, hc_url = ct_baseURL c @ p, hc_headers = call_headers c (b \<noteq> None),
      hc_body = (case b of Some (Some t) \<Rightarrow> t | _ \<Rightarrow> [])\<rparr>"]
  by (auto simp: do_call_def Let_def message_of_def split: option.splits prod.splits)

lemma get_effects: "sent (snd (mc_http mc (bearer_get url token) w)) = sent w"
  by (simp add: http_sent message_of_def bearer_get_def)

lemma message_effects: "sent (snd (mc_http mc (message_call url token i payload) w)) = sent w @ [i]"
  by (simp add: http_sent message_of_def message_call_def message_headers_def)

lemmas client_calls = client_Prepare_def client_Confirm_def client_GetOperation_def client_AuthorizeDispatch_def
  client_BeginRetry_def client_RequestReconciliation_def client_ClaimRecovery_def client_SubmitRecoveryResult_def
  client_ListEvents_def

lemma client_sent [simp]:
  "sent (snd (client_Prepare (mc_http mc) c req w)) = sent w"
  "sent (snd (client_Confirm (mc_http mc) c i cr w)) = sent w"
  "sent (snd (client_GetOperation (mc_http mc) c i w)) = sent w"
  "sent (snd (client_AuthorizeDispatch (mc_http mc) c i v w)) = sent w"
  "sent (snd (client_RequestReconciliation (mc_http mc) c i v actor reason w)) = sent w"
  "sent (snd (client_ListEvents (mc_http mc) c i limit cursor w)) = sent w"
  by (simp_all add: client_calls do_call_effects)

lemma client_time:
  "mc_now mc w \<le> mc_now mc (snd (client_Prepare (mc_http mc) c req w))"
  "mc_now mc w \<le> mc_now mc (snd (client_AuthorizeDispatch (mc_http mc) c i v w))"
  "mc_now mc w \<le> mc_now mc (snd (client_RequestReconciliation (mc_http mc) c i v actor reason w))"
  "mc_now mc w \<le> mc_now mc (snd (client_GetOperation (mc_http mc) c i w))"
  "mc_now mc w \<le> mc_now mc (snd (client_ListEvents (mc_http mc) c i limit cursor w))"
  by (simp_all add: client_calls do_call_effects)

text \<open>The same for a call whose result has been named.\<close>

lemma named: "p = (x, w') \<Longrightarrow> sent (snd p) = s \<Longrightarrow> sent w' = s" "p = (x, w') \<Longrightarrow> t \<le> mc_now mc (snd p) \<Longrightarrow> t \<le> mc_now mc w'"
  by simp_all

section \<open>The smoke test\<close>

text \<open>It waits at most as long as its context lives, two tenths of a second per read.\<close>

lemma await_reconciled_ends:
  assumes over: "\<forall>t \<ge> deadline. over t"
  shows "deadline - mc_now mc w < int n * (200 * millisecond) \<Longrightarrow>
    \<exists>out w'. await_reconciled (Suc n) mc c i current w = (Some out, w')"
proof (induction n arbitrary: current w)
  case 0
  then have "over (mc_now mc w)" using over by simp
  from pause_over [OF this] obtain e where "fst (mc_pause mc (200 * millisecond) w) = Some e" by blast
  then show ?case by (cases "mc_pause mc (200 * millisecond) w") simp
next
  case (Suc n)
  obtain z w1 where z: "mc_pause mc (200 * millisecond) w = (z, w1)" by fastforce
  obtain g w2 where g: "client_GetOperation (mc_http mc) c i w1 = (g, w2)" by fastforce
  show ?case
  proof (cases "op_State current = StateReconciled \<or> z \<noteq> None \<or> (\<exists>e. g = Inl e)")
    case True
    then show ?thesis using z g by (auto split: option.splits)
  next
    case False
    have "mc_now mc w + 200 * millisecond \<le> mc_now mc w1"
      using pause_time [of "200 * millisecond" w] z False by (simp add: millisecond_def)
    then have "deadline - mc_now mc w2 < int n * (200 * millisecond)"
      using named(2) [OF g client_time(4)] Suc.prems by (simp add: algebra_simps)
    from Suc.IH [OF this] show ?thesis using z g False by (cases g) auto
  qed
qed

lemma await_reconciled_sent [simp]: "sent (snd (await_reconciled n mc c i current w)) = sent w"
proof (induction n arbitrary: current w)
  case (Suc n)
  obtain z w1 where z: "mc_pause mc (200 * millisecond) w = (z, w1)" by fastforce
  obtain g w2 where g: "client_GetOperation (mc_http mc) c i w1 = (g, w2)" by fastforce
  have "sent w1 = sent w" "sent w2 = sent w1"
    using named(1) [OF z pause_sent] named(1) [OF g client_sent(3)] by simp_all
  with Suc.IH show ?case using z g by (cases z; cases g) simp_all
qed simp

lemma smoke_check_sent [simp]: "sent (snd (smoke_check mc c url workflow i current w)) = sent w"
proof -
  obtain e w1 where e: "client_ListEvents (mc_http mc) c i 20 [] w = (e, w1)" by fastforce
  obtain a w2 where a: "mc_http mc (bearer_get (url @ ''/admin/email/operations/'' @ i) (mc_getenv mc ''SIM_ADMIN_TOKEN'')) w1 = (a, w2)"
    by fastforce
  have "sent w1 = sent w" "sent w2 = sent w1"
    using named(1) [OF e client_sent(6)] named(1) [OF a get_effects] by simp_all
  then show ?thesis using e a by (cases e; cases a) (simp_all add: smoke_check_def split: option.split)
qed

lemma dispatch_message_sent: "sent (snd (dispatch_message mc url token i payload w)) = sent w @ [i]"
  using message_effects [of url token i payload w]
  by (auto simp: dispatch_message_def split: prod.splits http_answer.splits)

lemma await_reconciled_state: "await_reconciled n mc c i current w = (Some (Inr op), w') \<Longrightarrow> op_State op = StateReconciled"
  by (induction n arbitrary: current w) (auto split: if_splits prod.splits option.splits sum.splits)

lemma smoke_check_report:
  assumes "smoke_check mc c url workflow i current w = (Inr r, w')"
  shows "sm_OperationID r = i" "sm_State r = op_State current" "sm_AuditEvents r = 5" "sm_GroundTruthCount r = 1"
    "sm_DispatchCount r = 1" "\<not> sm_Redispatched r"
proof -
  obtain page w1 where e: "client_ListEvents (mc_http mc) c i 20 [] w = (Inr page, w1)" "map ev_type (pg_Items page) = smoke_events"
    using assms by (auto simp: smoke_check_def split: prod.splits sum.splits if_splits)
  have "length (pg_Items page) = 5" using arg_cong [OF e(2), of length] by (simp add: smoke_events_def)
  with assms e show "sm_OperationID r = i" "sm_State r = op_State current" "sm_AuditEvents r = 5" "sm_GroundTruthCount r = 1"
    "sm_DispatchCount r = 1" "\<not> sm_Redispatched r"
    by (auto simp: smoke_check_def split: prod.splits http_answer.splits option.splits if_splits)
qed

text \<open>The smoke test sends one message at most, and when it passes exactly the one it reports.\<close>

lemma smoke_sends:
  assumes "smoke_run n mc public admin simURL simToken workflow w = (out, w')"
  shows "(\<exists>i. sent w' = sent w @ [i]) \<or> sent w' = sent w"
    and "out = Some (Inr r) \<Longrightarrow> sent w' = sent w @ [sm_OperationID r] \<and> sm_GroundTruthCount r = 1 \<and> sm_DispatchCount r = 1
      \<and> sm_State r = StateReconciled \<and> sm_AuditEvents r = 5 \<and> \<not> sm_Redispatched r"
proof -
  let ?payload = "email_payload ''recovery@example.invalid'' ''confirmation'' ''recovery-smoke''"
  obtain p w1 where p: "client_Prepare (mc_http mc) public (email_intent workflow ''send-confirmation'' ?payload ''receipt_status'') w = (p, w1)"
    by fastforce
  note s1 = named(1) [OF p client_sent(1)]
  have "((\<exists>i. sent w' = sent w @ [i]) \<or> sent w' = sent w) \<and> (out = Some (Inr r) \<longrightarrow> sent w' = sent w @ [sm_OperationID r]
    \<and> sm_GroundTruthCount r = 1 \<and> sm_DispatchCount r = 1 \<and> sm_State r = StateReconciled \<and> sm_AuditEvents r = 5 \<and> \<not> sm_Redispatched r)"
  proof (cases p)
    case (Inr prepared)
    obtain g w2 where g: "client_AuthorizeDispatch (mc_http mc) public (op_ID prepared) (op_Version prepared) w1 = (g, w2)" by fastforce
    note s2 = named(1) [OF g client_sent(4)]
    show ?thesis
    proof (cases g)
      case granted: (Inr op)
      obtain d w3 where d: "dispatch_message mc simURL simToken (op_ID op) ?payload w2 = (d, w3)" by fastforce
      note s3 = named(1) [OF d dispatch_message_sent]
      obtain q w4 where q: "client_RequestReconciliation (mc_http mc) admin (op_ID op) (op_Version op) ''recovery-smoke''
          ''simulate lost receipt'' w3 = (q, w4)" by fastforce
      note s4 = named(1) [OF q client_sent(5)]
      show ?thesis
      proof (cases "d = None \<and> is_ok q")
        case True
        then obtain queued where ok: "d = None" "q = Inr queued" by (auto simp: is_ok_iff)
        obtain a w5 where a: "await_reconciled n mc public (op_ID op) queued w4 = (a, w5)" by fastforce
        note s5 = named(1) [OF a await_reconciled_sent]
        show ?thesis
        proof (cases "\<exists>current. a = Some (Inr current)")
          case True
          then obtain current where c: "a = Some (Inr current)" by blast
          obtain k w6 where k: "smoke_check mc public simURL workflow (op_ID op) current w5 = (k, w6)" by fastforce
          note s6 = named(1) [OF k smoke_check_sent]
          have "out = Some k" "w' = w6"
            using assms p Inr g granted d ok q a c k by (simp_all add: smoke_run_def Let_def)
          then show ?thesis
            using smoke_check_report [of public simURL workflow "op_ID op" current w5 r w6] await_reconciled_state [OF a [unfolded c]]
              k s1 s2 s3 s4 s5 s6 by simp
        next
          case False
          then have "w' = w5" "out = None \<or> (\<exists>e. out = Some (Inl e))"
            using assms p Inr g granted d ok q a
            by (auto simp: smoke_run_def Let_def split: option.splits sum.splits)
          then show ?thesis using s1 s2 s3 s4 s5 by auto
        qed
      next
        case False
        then have "w' = w3 \<or> w' = w4" "\<exists>e. out = Some (Inl e)"
          using assms p Inr g granted d q
          by (auto simp: smoke_run_def Let_def split: option.splits sum.splits)
        then show ?thesis using s1 s2 s3 s4 by auto
      qed
    qed (use assms p Inr g s1 s2 in \<open>auto simp: smoke_run_def Let_def\<close>)
  qed (use assms p s1 in \<open>auto simp: smoke_run_def Let_def\<close>)
  then show "(\<exists>i. sent w' = sent w @ [i]) \<or> sent w' = sent w"
    and "out = Some (Inr r) \<Longrightarrow> sent w' = sent w @ [sm_OperationID r] \<and> sm_GroundTruthCount r = 1 \<and> sm_DispatchCount r = 1
      \<and> sm_State r = StateReconciled \<and> sm_AuditEvents r = 5 \<and> \<not> sm_Redispatched r" by blast+
qed

section \<open>The demo's worker\<close>

lemma report_sent [simp]: "sent (report mc url phase w) = sent w"
  by (simp add: report_def http_sent message_of_def)

lemma report_time: "mc_now mc w \<le> mc_now mc (report mc url phase w)"
  by (simp add: report_def http_time)

lemma audit_sent [simp]: "sent (audit mc c ctrl i w) = sent w"
proof -
  obtain e w1 where e: "client_ListEvents (mc_http mc) c i 50 [] w = (e, w1)" by fastforce
  then show ?thesis using named(1) [OF e client_sent(6)] by (cases e) (simp_all add: audit_def)
qed

lemma demo_send_sent: "sent (snd (demo_send mc cfg i payload w)) = sent w @ [i]"
  using message_effects [of "dc_simURL cfg" "dc_simToken cfg" i payload w]
  by (auto simp: demo_send_def split: prod.splits http_answer.splits)

lemma await_recovery_sent [simp]: "sent (snd (await_recovery n mc public ctrl profile i deadline seen w)) = sent w"
proof (induction n arbitrary: profile seen w)
  case (Suc n)
  obtain g w1 where g: "client_GetOperation (mc_http mc) public i (snd (mc_pause mc (100 * millisecond) w)) = (g, w1)" by fastforce
  have "sent w1 = sent w" using named(1) [OF g client_sent(3)] pause_sent [of "100 * millisecond" w] by simp
  with Suc.IH g show ?case by (cases g) (simp_all add: Let_def)
qed simp

text \<open>Four hundred reads are enough for its forty seconds.\<close>

lemma await_recovery_ends:
  assumes never: "\<forall>t. \<not> over t"
  shows "deadline - mc_now mc w < int n * (100 * millisecond) \<Longrightarrow>
    \<exists>out w'. await_recovery (Suc n) mc public ctrl profile i deadline seen w = (Some out, w')"
proof (induction n arbitrary: profile seen w)
  case (Suc n)
  let ?p = "mc_pause mc (100 * millisecond) w"
  obtain g w1 where g: "client_GetOperation (mc_http mc) public i (snd ?p) = (g, w1)" by fastforce
  have "fst ?p = None" using pause_ends [of "100 * millisecond" w] never by blast
  then have "mc_now mc w + 100 * millisecond \<le> mc_now mc (snd ?p)"
    using pause_time [of "100 * millisecond" w] by (simp add: millisecond_def)
  then have "deadline - mc_now mc w1 < int n * (100 * millisecond)"
    using named(2) [OF g client_time(4)] Suc.prems by (simp add: algebra_simps)
  note soon = this
  define m where "m = Suc n"
  have later: "\<exists>out w'. await_recovery m mc public ctrl profile i deadline seen' w2 = (Some out, w')"
    if "mc_now mc w1 \<le> mc_now mc w2" for seen' w2
    unfolding m_def by (rule Suc.IH) (use soon that in linarith)
  have reports: "mc_now mc w1 \<le> mc_now mc (report mc ctrl p w1)" "mc_now mc w1 \<le> mc_now mc (report mc ctrl p (report mc ctrl q w1))" for p q
    using report_time [of w1 ctrl q] report_time [of "report mc ctrl q w1" ctrl p] report_time [of w1 ctrl p] by simp_all
  show ?case
    unfolding m_def [symmetric]
    using g later [OF order_refl] later [OF reports(1)] later [OF reports(2)]
    by (cases g; cases "profile = ''none''") (simp_all add: Let_def)
qed simp

text \<open>
  A start of the worker sends at most one message: the baseline always one, the others only on a
  permission the server has just granted.
\<close>

lemma blind_worker_sends: "\<exists>i. sent (snd (blind_worker mc cfg key ctrl first w)) = sent w @ [i]"
proof -
  obtain i w1 where i: "mc_newID mc w = (i, w1)" by fastforce
  obtain d w2 where d: "demo_send mc cfg i (demo_payload key) (report mc ctrl (message_line i) w1) = (d, w2)" by fastforce
  have "sent w2 = sent w @ [i]" using named(1) [OF d demo_send_sent] named(1) [OF i newID_sent] by simp
  then show ?thesis using i d by (cases d) (auto simp: blind_worker_def)
qed

lemma first_worker_sends:
  "sent (snd (first_worker mc cfg public key ctrl op w)) = sent w
    \<or> (\<exists>v granted w1 w2. client_AuthorizeDispatch (mc_http mc) public (op_ID op) v w1 = (Inr granted, w2)
        \<and> sent (snd (first_worker mc cfg public key ctrl op w)) = sent w @ [op_ID granted])"
proof -
  let ?w2 = "report mc ctrl (authorize_line (op_ID op)) (report mc ctrl ''prepared''
    (report mc ctrl (''wire: '' @ arrow_in @ '' '' @ version_text op) w))"
  obtain g w3 where g: "client_AuthorizeDispatch (mc_http mc) public (op_ID op) (op_Version op) ?w2 = (g, w3)" by fastforce
  have s3: "sent w3 = sent w" using named(1) [OF g client_sent(4)] by simp
  show ?thesis
  proof (cases g)
    case (Inr granted)
    let ?w5 = "report mc ctrl (message_line (op_ID granted)) (report mc ctrl ''authorized''
      (report mc ctrl (''wire: '' @ arrow_in @ '' 200 OK   dispatch granted once'') w3))"
    obtain d w6 where d: "demo_send mc cfg (op_ID granted) (demo_payload key) ?w5 = (d, w6)" by fastforce
    have "sent w6 = sent w @ [op_ID granted]" using named(1) [OF d demo_send_sent] s3 by simp
    then have "sent (snd (first_worker mc cfg public key ctrl op w)) = sent w @ [op_ID granted]"
      using g Inr d by (cases d) (simp_all add: first_worker_def Let_def)
    then show ?thesis using g Inr by blast
  qed (use g s3 in \<open>simp add: first_worker_def Let_def\<close>)
qed

lemma restarted_worker_sends:
  "sent (snd (restarted_worker n mc cfg public admin key ctrl profile op w)) = sent w
    \<or> (\<exists>w1 granted w2 i. client_AuthorizeDispatch (mc_http mc) public (op_ID op) (op_Version op) w1 = (Inr granted, w2)
        \<and> i \<in> {op_ID op, op_ID granted}
        \<and> sent (snd (restarted_worker n mc cfg public admin key ctrl profile op w)) = sent w @ [i])"
proof (cases "op_State op = StatePrepared \<or> op_State op = StateRetryable")
  case False
  then show ?thesis by (cases "op_State op") (simp_all add: restarted_worker_def Let_def)
next
  case True
  let ?v = "report mc ctrl (''wire: '' @ arrow_in @ '' existing '' @ version_text op) w"
  define w1 where "w1 = (if op_State op = StatePrepared then report mc ctrl (authorize_line (op_ID op)) ?v else ?v)"
  obtain g w2 where g: "client_AuthorizeDispatch (mc_http mc) public (op_ID op) (op_Version op) w1 = (g, w2)" by fastforce
  have s2: "sent w2 = sent w" using named(1) [OF g client_sent(4)] by (simp add: w1_def)
  show ?thesis
  proof (cases g)
    case (Inl err)
    obtain q w3 where q: "client_RequestReconciliation (mc_http mc) admin (op_ID op) (op_Version op) ''demo''
        ''worker restarted after dispatch'' (report mc ctrl (''refused: '' @ oneLine err) w2) = (q, w3)" by fastforce
    have "sent w3 = sent w" using named(1) [OF q client_sent(5)] s2 by simp
    then show ?thesis
      using True g Inl q s2 by (cases q) (auto simp: restarted_worker_def Let_def w1_def)
  next
    case (Inr granted)
    define i where "i = (if op_State op = StatePrepared then op_ID op else op_ID granted)"
    obtain d w3 where d: "demo_send mc cfg i (demo_payload key) w2 = (d, w3)" by fastforce
    have "sent w3 = sent w @ [i]" using named(1) [OF d demo_send_sent] s2 by simp
    then have "sent (snd (restarted_worker n mc cfg public admin key ctrl profile op w)) = sent w @ [i]"
      using True g Inr d by (cases d) (auto simp: restarted_worker_def Let_def w1_def i_def)
    moreover have "i \<in> {op_ID op, op_ID granted}" by (simp add: i_def)
    ultimately show ?thesis using g Inr by blast
  qed
qed

lemma restarted_worker_ends:
  assumes "\<forall>t. \<not> over t"
  shows "\<exists>out w'. restarted_worker 402 mc cfg public admin key ctrl profile op w = (Some out, w')"
proof -
  have ends: "\<exists>out w'. await_recovery 402 mc public ctrl profile i (mc_now mc v + 40 * second) seen v = (Some out, w')" for i seen v
    using await_recovery_ends [OF assms, of "mc_now mc v + 40 * second" v 401 public ctrl profile i seen]
    by (simp add: second_def millisecond_def)
  show ?thesis
    using ends by (auto simp: restarted_worker_def Let_def split: OperationState.split prod.split sum.split option.split)
qed

lemma demo_worker_ends:
  assumes "\<forall>t. \<not> over t"
  shows "\<exists>out w'. demo_worker 402 mc w = (Some out, w')"
proof -
  let ?cfg = "demo_load (mc_getenv mc)" and ?e = "mc_getenv mc"
  let ?public = "New_client (dc_apiURL ?cfg) (dc_token ?cfg)"
  define line where "line = (if ?e ''DEMO_ATTEMPT'' = ''1''
    then ''wire: '' @ arrow_out @ '' POST /v1/operations   intent + expected effect, profile='' @ ?e ''DEMO_PROFILE''
    else ''wire: '' @ arrow_out @ '' POST /v1/operations   same workflow and key as before'')"
  obtain p w2 where p: "client_Prepare (mc_http mc) ?public (email_intent (?e ''DEMO_KEY'') ''send-confirmation''
      (demo_payload (?e ''DEMO_KEY'')) (?e ''DEMO_PROFILE'')) (report mc (?e ''DEMO_CONTROL'') line w) = (p, w2)" by fastforce
  have unfolded: "demo_worker 402 mc w =
     (if ?e ''DEMO_STRATEGY'' = ''blind_retry''
      then map_prod Some id (blind_worker mc ?cfg (?e ''DEMO_KEY'') (?e ''DEMO_CONTROL'') (?e ''DEMO_ATTEMPT'' = ''1'') w)
      else case p of
        Inl err \<Rightarrow> (Some (Ended (Some (''prepare: '' @ failure_text err))), w2)
      | Inr op \<Rightarrow> if ?e ''DEMO_ATTEMPT'' = ''1''
          then map_prod Some id (first_worker mc ?cfg ?public (?e ''DEMO_KEY'') (?e ''DEMO_CONTROL'') op w2)
          else restarted_worker 402 mc ?cfg ?public (New_client (dc_apiURL ?cfg) (dc_adminToken ?cfg)) (?e ''DEMO_KEY'')
            (?e ''DEMO_CONTROL'') (?e ''DEMO_PROFILE'') op w2)"
    unfolding demo_worker_def Let_def line_def [symmetric] p by simp
  show ?thesis
    unfolding unfolded using restarted_worker_ends [OF assms]
    by (cases p) (simp_all add: map_prod_def split: prod.split)
qed

lemma dispatch_message_time: "mc_now mc w \<le> mc_now mc (snd (dispatch_message mc url token i payload w))"
  using http_time [of w "message_call url token i payload"]
  by (auto simp: dispatch_message_def split: prod.splits http_answer.splits)

text \<open>The smoke test's context lives twenty seconds, a hundred reads.\<close>

lemma smoke_run_ends:
  assumes "\<forall>t \<ge> mc_now mc w + 20 * second. over t"
  shows "\<exists>out w'. smoke_run 102 mc public admin simURL simToken workflow w = (Some out, w')"
proof -
  let ?payload = "email_payload ''recovery@example.invalid'' ''confirmation'' ''recovery-smoke''"
  obtain p w1 where p: "client_Prepare (mc_http mc) public (email_intent workflow ''send-confirmation'' ?payload ''receipt_status'') w = (p, w1)"
    by fastforce
  show ?thesis
  proof (cases p)
    case (Inr prepared)
    obtain g w2 where g: "client_AuthorizeDispatch (mc_http mc) public (op_ID prepared) (op_Version prepared) w1 = (g, w2)" by fastforce
    show ?thesis
    proof (cases g)
      case granted: (Inr op)
      obtain d w3 where d: "dispatch_message mc simURL simToken (op_ID op) ?payload w2 = (d, w3)" by fastforce
      obtain q w4 where q: "client_RequestReconciliation (mc_http mc) admin (op_ID op) (op_Version op) ''recovery-smoke''
          ''simulate lost receipt'' w3 = (q, w4)" by fastforce
      have "mc_now mc w \<le> mc_now mc w4"
        using named(2) [OF p client_time(1)] named(2) [OF g client_time(2)] named(2) [OF d dispatch_message_time]
          named(2) [OF q client_time(3)] by linarith
      then have "(mc_now mc w + 20 * second) - mc_now mc w4 < int 101 * (200 * millisecond)"
        by (simp add: second_def millisecond_def)
      from await_reconciled_ends [OF assms this, of public "op_ID op"]
      have ends: "\<exists>out w'. await_reconciled 102 mc public (op_ID op) queued w4 = (Some out, w')" for queued by simp
      show ?thesis
      proof (cases "d = None \<and> is_ok q")
        case True
        then obtain queued where ok: "d = None" "q = Inr queued" by (auto simp: is_ok_iff)
        obtain out w5 where a: "await_reconciled 102 mc public (op_ID op) queued w4 = (Some out, w5)" using ends by blast
        then show ?thesis using p Inr g granted d ok q a by (cases out) (simp_all add: smoke_run_def Let_def map_prod_def split: prod.split)
      next
        case False
        then show ?thesis using p Inr g granted d q by (cases d; cases q) (simp_all add: smoke_run_def Let_def)
      qed
    qed (use p Inr g in \<open>simp add: smoke_run_def Let_def\<close>)
  qed (use p in \<open>simp add: smoke_run_def Let_def\<close>)
qed

end

end
