(* ===== verification/Console_Contract.thy ===== *)
theory Console_Contract
  imports Programs_Contract
begin

text \<open>
  What the console keeps and promises: at most twenty runs, the listed ones, at most one of them
  unfinished and that one the last; and over a metered machine, that a run sends the operation's
  message once and the baseline's twice at most, and ends.
\<close>

section \<open>The invariant of the console\<close>

definition console_ok :: "console \<Rightarrow> bool" where
  "console_ok cn \<longleftrightarrow> map fst (cn_runs cn) = cn_order cn \<and> distinct (cn_order cn) \<and> length (cn_order cn) \<le> 20
     \<and> (\<forall>(i, x) \<in> set (cn_runs cn). ru_ID x = i \<and> (\<not> ru_Done x \<longrightarrow> cn_active cn \<and> i = last (cn_order cn)))"

definition empty_console :: console where
  "empty_console = \<lparr>cn_runs = [], cn_order = [], cn_active = False\<rparr>"

lemma console_ok_empty: "console_ok empty_console"
  by (simp add: console_ok_def empty_console_def)

lemma put_run_new: "i \<notin> fst ` set rs \<Longrightarrow> put_run i x rs = rs @ [(i, x)]"
  by (force simp: put_run_def filter_id_conv)

lemma filter_head:
  assumes "map fst rs = order" and "distinct order" and "order \<noteq> []"
  shows "filter (\<lambda>(j, _). j \<noteq> hd order) rs = tl rs"
  using assms by (cases rs) (force simp: filter_id_conv)+

text \<open>A new run is added when none is active; the one that leaves is finished.\<close>

lemma add_run_ok:
  assumes "console_ok cn" and "\<not> cn_active cn" and "ru_ID x \<notin> set (cn_order cn)"
  shows "console_ok (add_run x cn)" and "map_of (cn_runs (add_run x cn)) (ru_ID x) = Some x"
    and "(i, y) \<in> set (cn_runs cn) \<Longrightarrow> (i, y) \<notin> set (cn_runs (add_run x cn)) \<Longrightarrow> ru_Done y"
proof -
  let ?runs = "cn_runs cn @ [(ru_ID x, x)]" and ?order = "cn_order cn @ [ru_ID x]"
  have names: "map fst (cn_runs cn) = cn_order cn" using assms(1) by (simp add: console_ok_def)
  then have keys: "fst ` set (cn_runs cn) = set (cn_order cn)" by (metis list.set_map)
  then have put: "put_run (ru_ID x) x (cn_runs cn) = ?runs" using assms(3) put_run_new by metis
  have cut: "filter (\<lambda>(j, _). j \<noteq> hd ?order) ?runs = tl ?runs"
    by (rule filter_head) (use assms names in \<open>auto simp: console_ok_def\<close>)
  have fin: "\<forall>(i, x) \<in> set (cn_runs cn). ru_ID x = i \<and> ru_Done x" using assms(1,2) by (fastforce simp: console_ok_def)
  have add: "add_run x cn = (if length ?order > 20 then \<lparr>cn_runs = tl ?runs, cn_order = tl ?order, cn_active = True\<rparr>
      else \<lparr>cn_runs = ?runs, cn_order = ?order, cn_active = True\<rparr>)"
    unfolding add_run_def put Let_def using cut by simp
  show "console_ok (add_run x cn)"
  proof (cases "length ?order > 20")
    case True
    then obtain a rest where o: "cn_order cn = a # rest" by (cases "cn_order cn") auto
    with names obtain r rs where r: "cn_runs cn = r # rs" "map fst rs = rest" by (cases "cn_runs cn") auto
    show ?thesis
      using assms True fin o r by (auto simp: add console_ok_def)
  next
    case False
    then show ?thesis using assms fin names by (auto simp: add console_ok_def)
  qed
  have fresh: "map_of (cn_runs cn) (ru_ID x) = None" using keys assms(3) by (simp add: map_of_eq_None_iff)
  then have "map_of (tl (cn_runs cn)) (ru_ID x) = None" by (cases "cn_runs cn") (auto split: if_splits)
  with fresh show "map_of (cn_runs (add_run x cn)) (ru_ID x) = Some x"
    using arg_cong [OF names, of length] by (cases "cn_runs cn") (auto simp: add map_add_def split: if_splits)
  show "ru_Done y" if "(i, y) \<in> set (cn_runs cn)" using fin that by auto
qed

lemma map_run_names [simp]: "map fst (cn_runs (map_run i f cn)) = map fst (cn_runs cn)"
  by (auto simp: map_run_def)

lemma map_run_fields [simp]: "cn_order (map_run i f cn) = cn_order cn" "cn_active (map_run i f cn) = cn_active cn"
  by (simp_all add: map_run_def)

lemma map_run_member: "(j, y) \<in> set (cn_runs (map_run i f cn)) \<longleftrightarrow> (\<exists>x. (j, x) \<in> set (cn_runs cn) \<and> y = (if j = i then f x else x))"
  by (force simp: map_run_def split: if_splits)

lemma map_run_ok:
  assumes "console_ok cn" and "\<And>x. ru_ID (f x) = ru_ID x" and "\<And>x. ru_Done x \<Longrightarrow> ru_Done (f x)"
  shows "console_ok (map_run i f cn)"
proof -
  have "ru_ID y = j \<and> (\<not> ru_Done y \<longrightarrow> cn_active cn \<and> j = last (cn_order cn))"
    if "(j, y) \<in> set (cn_runs (map_run i f cn))" for j y
  proof -
    from that obtain x where x: "(j, x) \<in> set (cn_runs cn)" and y: "y = (if j = i then f x else x)"
      unfolding map_run_member by blast
    from assms(1) x have "ru_ID x = j" "\<not> ru_Done x \<longrightarrow> cn_active cn \<and> j = last (cn_order cn)"
      by (auto simp: console_ok_def)
    then show ?thesis using assms(2) assms(3) [of x] by (cases "j = i") (auto simp: y)
  qed
  then have "\<forall>(j, y) \<in> set (cn_runs (map_run i f cn)). ru_ID y = j \<and> (\<not> ru_Done y \<longrightarrow> cn_active cn \<and> j = last (cn_order cn))"
    by blast
  then show ?thesis using assms(1) unfolding console_ok_def by simp
qed

text \<open>Finishing the active run leaves no unfinished one.\<close>

lemma finish_run_fields [simp]: "cn_runs (finish_run i cn) = cn_runs (map_run i (\<lambda>r. r\<lparr>ru_Done := True\<rparr>) cn)"
  "cn_order (finish_run i cn) = cn_order cn" "\<not> cn_active (finish_run i cn)"
  by (simp_all add: finish_run_def)

lemma finish_run_ok:
  assumes "console_ok cn" and "i = last (cn_order cn)"
  shows "console_ok (finish_run i cn)"
proof -
  have "ru_ID y = j \<and> ru_Done y" if "(j, y) \<in> set (cn_runs (map_run i (\<lambda>r. r\<lparr>ru_Done := True\<rparr>) cn))" for j y
  proof -
    from that obtain x where x: "(j, x) \<in> set (cn_runs cn)" and y: "y = (if j = i then x\<lparr>ru_Done := True\<rparr> else x)"
      unfolding map_run_member by blast
    from assms(1) x have "ru_ID x = j" "\<not> ru_Done x \<longrightarrow> j = last (cn_order cn)" by (auto simp: console_ok_def)
    then show ?thesis using assms(2) by (cases "j = i") (auto simp: y)
  qed
  then have "\<forall>(j, y) \<in> set (cn_runs (finish_run i cn)). ru_ID y = j \<and> (\<not> ru_Done y \<longrightarrow> cn_active (finish_run i cn) \<and> j = last (cn_order cn))"
    unfolding finish_run_fields by blast
  then show ?thesis using assms(1) unfolding console_ok_def by simp
qed

section \<open>What a run sends\<close>

locale metered_console = machine: metered "machine.truncate cm" sent over
  for cm :: "'w console_machine" and sent :: "'w \<Rightarrow> string list" and over :: "time \<Rightarrow> bool" +
  assumes set_sent: "sent (cm_set cm cn w) = sent w"
    and set_time: "mc_now cm (cm_set cm cn w) = mc_now cm w"
begin

lemma truncated [simp]: "mc_http (machine.truncate cm) = mc_http cm" "mc_now (machine.truncate cm) = mc_now cm"
  "mc_pause (machine.truncate cm) = mc_pause cm" "mc_newID (machine.truncate cm) = mc_newID cm"
  by (simp_all add: machine.defs)

lemmas facts = machine.http_sent [simplified] machine.client_sent [simplified] machine.get_effects [simplified]
  machine.message_effects [simplified] machine.pause_sent [simplified]

text \<open>
  A step sends the messages \<open>S\<close> allows for its result. Steps compose: what the first sends comes
  before what the second sends.
\<close>

definition sends_within :: "('w \<Rightarrow> (string + 'a) \<times> 'w) \<Rightarrow> (string + 'a \<Rightarrow> string list \<Rightarrow> bool) \<Rightarrow> bool" where
  "sends_within m S \<longleftrightarrow> (\<forall>w. \<exists>ms. sent (snd (m w)) = sent w @ ms \<and> S (fst (m w)) ms)"

lemma sends_withinD: "sends_within m S \<Longrightarrow> m w = (x, w') \<Longrightarrow> \<exists>ms. sent w' = sent w @ ms \<and> S x ms"
  by (auto simp: sends_within_def split_paired_all) (metis fst_conv snd_conv)

lemma sends_then:
  assumes "sends_within m S" and "\<And>x ms. S (Inr x) ms \<Longrightarrow> sends_within (f x) (\<lambda>y ns. T y (ms @ ns))"
    and "\<And>e ms. S (Inl e) ms \<Longrightarrow> T (Inl e) ms"
  shows "sends_within (and_then m f) T"
  unfolding sends_within_def
proof
  fix w
  obtain x w1 where m: "m w = (x, w1)" by fastforce
  obtain ms where ms: "sent w1 = sent w @ ms" "S x ms" using sends_withinD [of m S w x w1] assms(1) m by blast
  show "\<exists>ms. sent (snd (and_then m f w)) = sent w @ ms \<and> T (fst (and_then m f w)) ms"
  proof (cases x)
    case (Inl e)
    then show ?thesis using m ms assms(3) by (auto simp: and_then_def)
  next
    case (Inr y)
    then obtain ns where "sent (snd (f y w1)) = sent w1 @ ns" "T (fst (f y w1)) (ms @ ns)"
      using assms(2) [of y ms] ms(2) by (auto simp: sends_within_def)
    then show ?thesis using m ms Inr by (auto simp: and_then_def)
  qed
qed

definition silent :: "('w \<Rightarrow> (string + 'a) \<times> 'w) \<Rightarrow> bool" where
  "silent m \<longleftrightarrow> (\<forall>w. sent (snd (m w)) = sent w)"

lemma silent_sends: "silent m \<Longrightarrow> (\<And>x. S x []) \<Longrightarrow> sends_within m S"
  by (auto simp: silent_def sends_within_def)

lemma silent_then: "silent m \<Longrightarrow> (\<And>x. silent (f x)) \<Longrightarrow> silent (and_then m f)"
  by (auto simp: silent_def and_then_def split: prod.splits sum.splits) (metis snd_conv)+

lemma silent_first: "silent m \<Longrightarrow> (\<And>x. sends_within (f x) T) \<Longrightarrow> (\<And>e. T (Inl e) []) \<Longrightarrow> sends_within (and_then m f) T"
  by (rule sends_then [where S = "\<lambda>_ ms. ms = []"]) (auto intro: silent_sends)

lemma silent_client [simp]:
  "silent (\<lambda>w. as_text (client_Prepare (mc_http cm) c req w))" "silent (\<lambda>w. as_text (client_Confirm (mc_http cm) c i cr w))"
  "silent (\<lambda>w. as_text (client_GetOperation (mc_http cm) c i w))" "silent (\<lambda>w. as_text (client_ListEvents (mc_http cm) c i limit cursor w))"
  "silent (\<lambda>w. as_text (client_AuthorizeDispatch (mc_http cm) c i v w))"
  by (simp_all add: silent_def as_text_def facts)

lemma silent_note [simp]: "silent (note_beat cm x phase title detail kind)"
  by (simp add: silent_def note_beat_def with_console_def set_sent)

lemma silent_update [simp]: "silent (\<lambda>w. (Inr y, with_console cm f w))"
  by (simp add: silent_def with_console_def set_sent)

lemma silent_truth [simp]: "silent (truth cm i)"
  unfolding silent_def
proof
  fix w
  show "sent (snd (truth cm i w)) = sent w"
    using facts(8) [of "cm_simURL cm @ ''/admin/email/operations/'' @ i" "cm_simAdmin cm" w]
    by (auto simp: truth_def split: prod.splits http_answer.splits)
qed

lemma silent_capture [simp]: "silent (capture cm x baseline i)"
  unfolding capture_def by (intro silent_then) simp_all

lemma silent_pause [simp]: "silent (pause_for cm d)"
  unfolding silent_def
proof
  fix w
  show "sent (snd (pause_for cm d w)) = sent w"
    using facts(10) [of d w] by (auto simp: pause_for_def split: prod.splits option.splits)
qed

lemma send_sends: "sends_within (console_send cm i payload) (\<lambda>_ ms. ms = [i])"
  unfolding sends_within_def
proof
  fix w
  show "\<exists>ms. sent (snd (console_send cm i payload w)) = sent w @ ms \<and> ms = [i]"
    using facts(9) [of "cm_simURL cm" "cm_simToken cm" i payload w]
    by (auto simp: console_send_def split: prod.splits http_answer.splits)
qed

text \<open>Up to the second pause: the operation's message, then the baseline's.\<close>

definition first_sends :: "string \<Rightarrow> string + Operation \<times> string \<Rightarrow> string list \<Rightarrow> bool" where
  "first_sends baseline r ms \<longleftrightarrow> (case r of
      Inr (op, _) \<Rightarrow> ms = [op_ID op, baseline]
    | Inl _ \<Rightarrow> ms = [] \<or> (\<exists>i. ms = [i] \<or> ms = [i, baseline]))"

lemma execute_sends_sends: "sends_within (execute_sends cm x scenario baseline) (first_sends baseline)"
proof -
  have rest: "sends_within (and_then (note_beat cm x ph ti de ki) (\<lambda>_. and_then (capture cm x baseline (op_ID op)) (\<lambda>_.
      and_then (pause_for cm d) (\<lambda>_ w. (Inr (op, receipt), w))))) (\<lambda>y ns. first_sends baseline y ([op_ID op, baseline] @ ns))"
    for ph ti de ki op d receipt
    by (intro silent_first) (auto simp: first_sends_def sends_within_def)
  have baseline: "sends_within (and_then (console_send cm baseline p) (\<lambda>_. and_then (note_beat cm x ph ti de ki) (\<lambda>_.
      and_then (capture cm x baseline (op_ID op)) (\<lambda>_. and_then (pause_for cm d) (\<lambda>_ w. (Inr (op, receipt), w))))))
      (\<lambda>y ns. first_sends baseline y ([op_ID op] @ ns))" for p ph ti de ki op d receipt
    by (rule sends_then [OF send_sends]) (use rest in \<open>simp_all add: first_sends_def\<close>)
  have both: "sends_within (and_then (console_send cm (op_ID op) q) (\<lambda>receipt. and_then (console_send cm baseline p) (\<lambda>_.
      and_then (note_beat cm x ph ti de ki) (\<lambda>_. and_then (capture cm x baseline (op_ID op)) (\<lambda>_.
      and_then (pause_for cm d) (\<lambda>_ w. (Inr (op, receipt), w))))))) (first_sends baseline)" for p q ph ti de ki op d
    by (rule sends_then [OF send_sends]) (use baseline in \<open>simp_all add: first_sends_def\<close>)
  show ?thesis
    unfolding execute_sends_def Let_def
    by (rule silent_first, simp, rule silent_first, simp, rule silent_first, simp, rule silent_first, simp,
        rule silent_first, simp, rule both) (simp_all add: first_sends_def)
qed

lemma execute_normal_silent [simp]: "silent (execute_normal cm x baseline op receipt)"
  unfolding execute_normal_def by (intro silent_then) simp_all

lemma execute_lost_sends: "sends_within (execute_lost cm x baseline op) (\<lambda>r ms. ms = [baseline] \<or> ms = [])"
proof -
  have rest: "sends_within (and_then (capture cm x baseline i) (\<lambda>_. note_beat cm x ph ti de ki)) (\<lambda>_ ns. ns = [])" for i ph ti de ki
    by (rule silent_sends [OF silent_then]) simp_all
  have "sends_within (and_then (console_send cm baseline p) (\<lambda>_. and_then (capture cm x baseline i) (\<lambda>_. note_beat cm x ph ti de ki)))
      (\<lambda>_ ms. ms = [baseline] \<or> ms = [])" for p i ph ti de ki
    by (rule sends_then [OF send_sends]) (use rest in \<open>simp_all\<close>)
  note both = this
  show ?thesis
    unfolding execute_lost_def by (rule silent_first, simp, rule silent_first, simp, rule both) simp_all
qed

lemma watch_silent: "sent (snd (watch n cm x baseline i w)) = sent w"
proof (induction n arbitrary: w)
  case (Suc n)
  obtain c w1 where c: "capture cm x baseline i w = (c, w1)" by fastforce
  obtain p w2 where p: "pause_for cm (250 * millisecond) w1 = (p, w2)" by fastforce
  have "sent w1 = sent w" "sent w2 = sent w1"
    using silent_capture [of x baseline i] silent_pause [of "250 * millisecond"] c p by (metis silent_def snd_conv)+
  moreover have "sent (snd (note_beat cm x ph ti de ki w1)) = sent w1" for ph ti de ki
    using silent_note [of x ph ti de ki] by (simp add: silent_def)
  ultimately show ?case using Suc.IH [of w2] c p by (cases c; cases p) (simp_all add: Let_def)
qed simp

text \<open>
  A run sends the message of its operation once at most, and the baseline's twice at most, once at
  most in the scenario without a failure.
\<close>

lemma execute_messages:
  "\<exists>i ms. sent (snd (execute n cm x w)) = sent w @ ms \<and> ms \<in> {[], [i], [i, ru_BaselineID x], [i, ru_BaselineID x, ru_BaselineID x]}
     \<and> (ru_Scenario x = ''normal'' \<longrightarrow> length ms \<le> 2)"
proof -
  let ?b = "ru_BaselineID x"
  obtain r w1 where r: "execute_sends cm (ru_ID x) (ru_Scenario x) ?b w = (r, w1)" by fastforce
  obtain ms where ms: "sent w1 = sent w @ ms" "first_sends ?b r ms"
    using sends_withinD [OF execute_sends_sends r] by blast
  have fin: "sent (snd (execute n cm x w)) = sent (snd (execute_run n cm (ru_ID x) (ru_Scenario x) ?b w))"
    by (auto simp: execute_def with_console_def set_sent split: prod.split option.split sum.split)
  show ?thesis
  proof (cases r)
    case (Inl e)
    then show ?thesis using fin r ms by (auto simp: execute_run_def first_sends_def)
  next
    case (Inr p)
    then obtain op receipt where op: "r = Inr (op, receipt)" by (cases p) auto
    have m: "ms = [op_ID op, ?b]" using ms(2) op by (simp add: first_sends_def)
    show ?thesis
    proof (cases "ru_Scenario x = ''normal''")
      case True
      have "sent (snd (execute_normal cm (ru_ID x) ?b op receipt w1)) = sent w1"
        using execute_normal_silent by (simp add: silent_def)
      then have "sent (snd (execute n cm x w)) = sent w @ [op_ID op, ?b]"
        using fin r op ms(1) m True by (simp add: execute_run_def)
      then show ?thesis using True by auto
    next
      case False
      obtain l w2 where l: "execute_lost cm (ru_ID x) ?b op w1 = (l, w2)" by fastforce
      obtain ns where ns: "sent w2 = sent w1 @ ns" "ns = [?b] \<or> ns = []"
        using sends_withinD [OF execute_lost_sends l] by blast
      have "sent (snd (execute n cm x w)) = sent w @ [op_ID op, ?b] @ ns"
        using fin r op ms(1) m False l ns(1) watch_silent by (cases l) (simp_all add: execute_run_def)
      then show ?thesis using ns(2) False by auto
    qed
  qed
qed

section \<open>A run ends\<close>

definition passes :: "('w \<Rightarrow> (string + 'a) \<times> 'w) \<Rightarrow> bool" where
  "passes m \<longleftrightarrow> (\<forall>w. mc_now cm w \<le> mc_now cm (snd (m w)))"

lemma passesD: "passes m \<Longrightarrow> m w = (x, w') \<Longrightarrow> mc_now cm w \<le> mc_now cm w'"
  by (metis passes_def snd_conv)

lemma passes_then: "passes m \<Longrightarrow> (\<And>x. passes (f x)) \<Longrightarrow> passes (and_then m f)"
  unfolding passes_def and_then_def by (auto split: prod.splits sum.splits) (metis order_trans snd_conv)+

lemma passes_client: "passes (\<lambda>w. as_text (client_GetOperation (mc_http cm) c i w))"
  "passes (\<lambda>w. as_text (client_ListEvents (mc_http cm) c i limit cursor w))"
  using machine.client_time(4,5) by (simp_all add: passes_def as_text_def)

lemma passes_truth: "passes (truth cm i)"
  unfolding passes_def
proof
  fix w
  show "mc_now cm w \<le> mc_now cm (snd (truth cm i w))"
    using machine.http_time [of w "bearer_get (cm_simURL cm @ ''/admin/email/operations/'' @ i) (cm_simAdmin cm)"]
    by (auto simp: truth_def split: prod.splits http_answer.splits)
qed

lemma passes_capture: "passes (capture cm x baseline i)"
  unfolding capture_def
  by (intro passes_then passes_client passes_truth) (simp add: passes_def with_console_def set_time)

text \<open>The context of a run lives forty seconds, a hundred and sixty rounds.\<close>

lemma watch_ends:
  assumes over: "\<forall>t \<ge> deadline. over t"
  shows "deadline - mc_now cm w < int n * (250 * millisecond) \<Longrightarrow>
    \<exists>out w'. watch (Suc n) cm x baseline i w = (Some out, w')"
proof (induction n arbitrary: w)
  case 0
  obtain c w1 where c: "capture cm x baseline i w = (c, w1)" by fastforce
  have "deadline \<le> mc_now cm w1" using 0 passesD [OF passes_capture c] by simp
  then have "fst (mc_pause cm (250 * millisecond) w1) \<noteq> None"
    using machine.pause_over [of w1 "250 * millisecond"] over by simp
  then have p: "\<exists>e w2. pause_for cm (250 * millisecond) w1 = (Inl e, w2)"
    by (auto simp: pause_for_def split: prod.splits)
  then show ?case using c by (cases c) (auto simp: Let_def note_beat_def)
next
  case (Suc n)
  obtain c w1 where c: "capture cm x baseline i w = (c, w1)" by fastforce
  obtain p w2 where p: "pause_for cm (250 * millisecond) w1 = (p, w2)" by fastforce
  define m where "m = Suc n"
  have later: "\<exists>out w'. watch m cm x baseline i w2 = (Some out, w')" if "p = Inr ()"
  proof -
    have "mc_now cm w1 + 250 * millisecond \<le> mc_now cm w2"
      using machine.pause_time [of "250 * millisecond" w1] p that
      by (auto simp: pause_for_def millisecond_def split: prod.splits option.splits)
    then have "deadline - mc_now cm w2 < int n * (250 * millisecond)"
      using passesD [OF passes_capture c] Suc.prems by (simp add: algebra_simps)
    from Suc.IH [OF this] show ?thesis by (simp only: m_def)
  qed
  show ?case
    unfolding m_def [symmetric] using c p later by (cases c; cases p) (auto simp: Let_def note_beat_def)
qed

end

end
