(* ===== verification/Site.thy ===== *)
theory Site
  imports Console_Contract Remote
begin

text \<open>
  A site: the API server over its store and the email service over its own, reached by their URLs,
  with a clock, and the programs on it. Requests take time, pauses take what they are asked for.
\<close>

section \<open>The machine\<close>

record site =
  st_store :: db
  st_email :: email_db
  st_tick :: nat
  st_clock :: time
  st_sent :: "string list"
  st_console :: console

record site_settings =
  si_api :: api_server
  si_sim :: sim_server
  si_parse :: uuid_parser
  si_apiURL :: string
  si_simURL :: string
  si_context :: "nat \<Rightarrow> api_context"
  si_env :: "nat \<Rightarrow> env"
  si_delay :: "nat \<Rightarrow> nat"
  si_ids :: "nat \<Rightarrow> string"
  si_over :: "time \<Rightarrow> bool"
  si_getenv :: "string \<Rightarrow> string"

text \<open>The routes of the email service.\<close>

definition sim_routed :: "string \<Rightarrow> string list \<Rightarrow> (sim_route \<times> string) option" where
  "sim_routed m segs =
     (case segs of
        [a, b] \<Rightarrow>
          if m = ''POST'' \<and> a = ''email'' \<and> b = ''messages'' then Some (SendRoute, [])
          else if m = ''GET'' \<and> a = ''email'' \<and> b = ''inspect'' then Some (InspectRoute, [])
          else if m = ''GET'' \<and> a = ''email'' \<and> b = ''capabilities'' then Some (CapabilitiesRoute, [])
          else None
      | [a, b, i] \<Rightarrow>
          if m = ''GET'' \<and> a = ''email'' \<and> b = ''operations'' \<and> i \<noteq> [] then Some (StatusRoute, i) else None
      | [a, b, c, i] \<Rightarrow>
          if m = ''GET'' \<and> a = ''admin'' \<and> b = ''email'' \<and> c = ''operations'' \<and> i \<noteq> [] then Some (AdminStatusRoute, i) else None
      | _ \<Rightarrow> None)"

definition serve_email :: "uuid_parser \<Rightarrow> sim_server \<Rightarrow> env \<Rightarrow> http_message \<Rightarrow> email_db \<Rightarrow> http_answer \<times> email_db" where
  "serve_email parse sv e hm s =
     (case Option.bind (path_segments (hm_path hm)) (sim_routed (hm_method hm)) of
        None \<Rightarrow> (Answer 404 [], s)
      | Some (route, i) \<Rightarrow>
          (case Handler parse sv e s route (to_request hm i) of
             (r, s') \<Rightarrow> (Answer (rs_status r) (marshal (rs_body r) @ [CHR 0x0A]), s')))"

definition site_http :: "site_settings \<Rightarrow> site transport" where
  "site_http si call st =
     (let t = st_tick st; target = (\<lambda>base. drop (length base) (hc_url call));
          st' = st\<lparr>st_tick := Suc t, st_clock := st_clock st + int (si_delay si t), st_sent := st_sent st @ message_of call\<rparr> in
      if take (length (si_simURL si)) (hc_url call) = si_simURL si
      then (case serve_email (si_parse si) (si_sim si) (si_env si t) (to_message (target (si_simURL si)) call) (st_email st) of
              (a, s') \<Rightarrow> (a, st'\<lparr>st_email := s'\<rparr>))
      else (case serve_http (si_api si) (si_context si t) (si_apiURL si) call (st_store st) of
              (a, s') \<Rightarrow> (a, st'\<lparr>st_store := s'\<rparr>)))"

definition site_pause :: "site_settings \<Rightarrow> duration \<Rightarrow> site \<Rightarrow> error option \<times> site" where
  "site_pause si d st =
     (let st' = (if si_over si (st_clock st) then st else st\<lparr>st_clock := st_clock st + max 0 d\<rparr>) in
      (if si_over si (st_clock st') then Some (PlainError ''context deadline exceeded'') else None, st'\<lparr>st_tick := Suc (st_tick st)\<rparr>))"

definition site_machine :: "site_settings \<Rightarrow> site machine" where
  "site_machine si = \<lparr>mc_getenv = si_getenv si, mc_http = site_http si,
     mc_newID = (\<lambda>st. (si_ids si (st_tick st), st\<lparr>st_tick := Suc (st_tick st)\<rparr>)),
     mc_pause = site_pause si,
     mc_Err = (\<lambda>st. if si_over si (st_clock st) then Some (PlainError ''context deadline exceeded'') else None),
     mc_now = st_clock\<rparr>"

definition site_console :: "site_settings \<Rightarrow> (string \<Rightarrow> string option) \<Rightarrow> site console_machine" where
  "site_console si host = console_setup (si_getenv si) (site_machine si) st_console (\<lambda>cn st. st\<lparr>st_console := cn\<rparr>) host"

lemma site_http_fields:
  "st_sent (snd (site_http si call st)) = st_sent st @ message_of call"
  "st_clock st \<le> st_clock (snd (site_http si call st))"
  by (simp_all add: site_http_def Let_def split: prod.split)

interpretation site: metered "site_machine si" st_sent "si_over si" for si
  by unfold_locales (auto simp: site_machine_def site_http_fields site_pause_def Let_def split: if_splits)

lemma site_console_machine: "machine.truncate (site_console si host) = site_machine si"
  by (simp add: site_console_def console_setup_def machine.defs)

interpretation site_console: metered_console "site_console si host" st_sent "si_over si" for si host
proof -
  have "metered (machine.truncate (site_console si host)) st_sent (si_over si)"
    unfolding site_console_machine by (rule site.metered_axioms)
  then show "metered_console (site_console si host) st_sent (si_over si)"
    by (rule metered_console.intro)
      (unfold_locales, simp_all add: site_console_def console_setup_def machine.defs site_machine_def)
qed

text \<open>On a site the smoke test ends and passes only with the one message it sent.\<close>

lemma smoke_on_site:
  assumes "\<forall>t \<ge> st_clock st + 20 * second. si_over si t"
  shows "\<exists>out st'. smoke_run 102 (site_machine si) public admin simURL simToken workflow st = (Some out, st')
    \<and> (\<forall>r. out = Inr r \<longrightarrow> st_sent st' = st_sent st @ [sm_OperationID r] \<and> sm_State r = StateReconciled \<and> sm_GroundTruthCount r = 1)"
proof -
  have "mc_now (site_machine si) = st_clock" by (simp add: site_machine_def)
  then obtain out st' where r: "smoke_run 102 (site_machine si) public admin simURL simToken workflow st = (Some out, st')"
    using site.smoke_run_ends [of si st public admin simURL simToken workflow] assms by auto
  with site.smoke_sends(2) [OF r] show ?thesis by auto
qed

section \<open>Settings the server refuses\<close>

text \<open>
  The coordinator takes its batch size and lease from the environment as they are. Out of the bounds
  of the server, every round of it fails: the answer is 422 and no operation is claimed.
\<close>

lemma claim_refused:
  assumes "decodeJSON cx claim_names read_claim rq = Inr \<lparr>cp_WorkerID = worker, cp_Limit = limit, cp_LeaseDurationMS = ms\<rparr>"
    and "worker \<noteq> []" and "limit < 0 \<or> 100 < limit \<or> ms < 0 \<or> 0 < ms \<and> ms < 5000 \<or> 300000 < ms"
  shows "\<exists>m. claimRecovery sv cx s rq = (writeError cx rq (validation ''invalid_claim'' m), s)"
proof (cases "limit < 0 \<or> 100 < limit")
  case True
  then show ?thesis using assms(1,2) by (auto simp: claimRecovery_def Let_def handle_def reject_def guardE_def)
next
  case False
  then have "ms \<noteq> 0" "ms < 5000 \<or> 300000 < ms" "\<not> (if limit = 0 then 20 else limit) < 1" "\<not> 100 < (if limit = 0 then 20 else limit)"
    using assms(3) by auto
  then show ?thesis using assms(1,2) by (auto simp: claimRecovery_def Let_def handle_def reject_def guardE_def)
qed

lemma refused_claim:
  assumes "admin_client sv c" and "worker \<noteq> []" and "int64_range limit" and "int64_range (milliseconds lease)"
    and "sends [(''lease_duration_ms'', int_json (milliseconds lease)), (''limit'', int_json limit), (''worker_id'', JStr worker)]"
    and "limit < 0 \<or> 100 < limit \<or> milliseconds lease < 0 \<or> 0 < milliseconds lease \<and> milliseconds lease < 5000 \<or> 300000 < milliseconds lease"
  shows "\<exists>e. client_ClaimRecovery (serve_http sv cx (ct_baseURL c)) c worker limit lease s = (Inl (Refused e), s) \<and> ce_Status e = 422"
proof -
  let ?ms = "[(''lease_duration_ms'', int_json (milliseconds lease)), (''limit'', int_json limit), (''worker_id'', JStr worker)]"
  let ?p = "\<lparr>cp_WorkerID = worker, cp_Limit = limit, cp_LeaseDurationMS = milliseconds lease\<rparr>"
  let ?rq = "sent c [] (marshal (JObj ?ms))"
  have "read_claim (with_texts ?ms) = Some ?p"
    using assms(3,4) by (simp add: read_hints del: field.simps)
  then have "decodeJSON cx claim_names read_claim (sent c [] (marshal (JObj ?ms))) = Inr ?p"
    by (rule decode_sent [OF assms(5), rotated]) (simp add: claim_names_def)
  from claim_refused [OF this assms(2,6)]
  obtain m where h: "serve_route sv cx s ClaimRoute ?rq = (writeError cx ?rq (validation ''invalid_claim'' m), s)" by auto
  have status: "error_status (validation ''invalid_claim'' m) = 422" by (simp add: validation_def NewError_def)
  have "do_call (serve_http sv cx (ct_baseURL c)) c ''POST'' ''/v1/recovery/claims'' (Some (Some (marshal (JObj ?ms)))) decode_claims s
      = (read_answer decode_claims (server_answer (writeError cx ?rq (validation ''invalid_claim'' m))), s)"
    using remote_post [OF _ sample_routes(1,2), of sv c cx "marshal (JObj ?ms)" decode_claims s] assms(1) h by simp
  also have "\<dots> = (Inl (Refused (read_error 422 (marshal (error_envelope (requestID cx ?rq) (validation ''invalid_claim'' m)) @ [CHR 0x0A]))), s)"
    by (simp add: writeError_def writeJSON_def server_answer_def read_answer_def status)
  finally show ?thesis
    unfolding text_hints by (simp add: read_error_def Let_def)
qed

text \<open>
  The demo's worker answers a retryable operation by asking for a dispatch, which takes a new attempt
  first: the store refuses it.
\<close>

lemma retryable_needs_attempt:
  assumes "op_at s i = Some r" and "o_state r = StateRetryable"
  shows "fst (AuthorizeDispatch e s i v) \<noteq> Inr op"
proof
  assume "fst (AuthorizeDispatch e s i v) = Inr op"
  then obtain s' where "AuthorizeDispatch e s i v = (Inr op, s')" by (metis prod.collapse)
  then have "authorize_body e s i v = Inr (op, s')" by (simp add: AuthorizeDispatch_def run_tx_Inr)
  then show False by (rule authorize_ok) (use assms in simp)
qed

end
