(* ===== verification/Benchmark.thy ===== *)
theory Benchmark
  imports Client
begin

text \<open>
  The experiments' configuration and scoring, \<open>internal/benchmark/config.go\<close> and \<open>score.go\<close>:
  the file that selects a matrix of strategies, service profiles and fault scenarios, the cells
  of the matrix that make sense, the score of one finished trial, and the assertions a
  validation run makes over its trials. The statistics over floating point numbers (\<open>Wilson\<close>,
  \<open>quantile\<close>, \<open>Bootstrap\<close>) and the hash of a configuration are left out, and a result carries
  only what the score and the assertions read or write.
\<close>

section \<open>The configuration\<close>

definition Strategies :: "string list" where
  "Strategies = [''blind_retry'', ''idempotency_key_retry'', ''checkpoint_recovery'', ''watchkeeper'']"

definition Profiles :: "string list" where
  "Profiles = [''receipt_status'', ''idempotency_only'', ''indirect_unique'', ''none'']"

definition Scenarios :: "string list" where
  "Scenarios = [''none'', ''before_intent'', ''before_dispatch'', ''accepted_before_commit'', ''after_commit'',
     ''after_response'', ''after_persistence'', ''lost_response'', ''duplicate_delivery'', ''delayed_commit'',
     ''service_unavailable'', ''database_unavailable'', ''coordinator_before_result'', ''coordinator_after_result'']"

record matrix_config =
  mc_version :: int
  mc_strategies :: "string list"
  mc_profiles :: "string list"
  mc_scenarios :: "string list"
  mc_repetitions :: int
  mc_seed :: int
  mc_deadline :: int
  mc_outage :: int
  mc_delay :: int
  mc_drain :: int
  mc_grace :: int
  mc_assert :: "string list"

datatype matrix_error =
    ReadFile string
  | DecodeFailed
  | NotOneObject
  | UnsupportedVersion int
  | GraceOutOfRange
  | NotPositive
  | UnknownOrRepeated string

text \<open>
  A \<open>[]string\<close> field of the configuration. A repeated member decodes into the slice of the one
  before it: \<open>null\<close> in place of an element leaves what its slot held, so the slots ever written
  are kept beside the length.
\<close>

fun fill_slots :: "string list \<Rightarrow> json list \<Rightarrow> string list option" where
  "fill_slots slots [] = Some slots"
| "fill_slots slots (JStr s # vs) = map_option ((#) s) (fill_slots (tl slots) vs)"
| "fill_slots slots (JNull # vs) =
     map_option ((#) (case slots of s # _ \<Rightarrow> s | [] \<Rightarrow> [])) (fill_slots (tl slots) vs)"
| "fill_slots slots (_ # vs) = None"

fun strings_field :: "string \<Rightarrow> string list \<times> nat \<Rightarrow> (string \<times> json) list \<Rightarrow> string list option" where
  "strings_field name (slots, n) [] = Some (take n slots)"
| "strings_field name (slots, n) ((k, v) # ms) =
     (if \<not> equal_fold k name then strings_field name (slots, n) ms
      else (case v of
         JNull \<Rightarrow> strings_field name ([], 0) ms
       | JArr [] \<Rightarrow> strings_field name ([], 0) ms
       | JArr vs \<Rightarrow>
           (case fill_slots slots vs of
              None \<Rightarrow> None
            | Some slots' \<Rightarrow> strings_field name (slots', length vs) ms)
       | _ \<Rightarrow> None))"

definition config_names :: "string list" where
  "config_names = [''version'', ''strategies'', ''profiles'', ''scenarios'', ''repetitions'', ''seed'', ''deadline_ms'',
     ''outage_ms'', ''delay_ms'', ''drain_ms'', ''prepared_grace_ms'', ''assert_no_duplicate_effects'']"

definition config_of_members :: "member list \<Rightarrow> matrix_config option" where
  "config_of_members ms =
     (let texts = (\<lambda>name. strings_field name ([], 0) (plain_members ms)) in
      if \<not> known config_names ms then None
      else case (int_field ''version'' ms, texts ''strategies'', texts ''profiles'', texts ''scenarios'',
                 int_field ''repetitions'' ms, int_field ''seed'' ms, int_field ''deadline_ms'' ms) of
        (Some v, Some st, Some pr, Some sc, Some re, Some se, Some de) \<Rightarrow>
          (case (int_field ''outage_ms'' ms, int_field ''delay_ms'' ms, int_field ''drain_ms'' ms,
                 int_field ''prepared_grace_ms'' ms, texts ''assert_no_duplicate_effects'') of
             (Some ou, Some dl, Some dr, Some gr, Some asserts) \<Rightarrow>
               Some \<lparr>mc_version = v, mc_strategies = st, mc_profiles = pr, mc_scenarios = sc,
                 mc_repetitions = re, mc_seed = se, mc_deadline = de, mc_outage = ou, mc_delay = dl,
                 mc_drain = dr, mc_grace = gr, mc_assert = asserts\<rparr>
           | _ \<Rightarrow> None)
      | _ \<Rightarrow> None)"

definition decode_config :: "string \<Rightarrow> matrix_error + matrix_config" where
  "decode_config raw =
     (case decode_one raw of
        None \<Rightarrow> Inl DecodeFailed
      | Some (v, rest) \<Rightarrow>
          bindE (of_opt DecodeFailed (case v of
                   JNull \<Rightarrow> config_of_members []
                 | JObj _ \<Rightarrow> (case object_members raw of None \<Rightarrow> None | Some ms \<Rightarrow> config_of_members ms)
                 | _ \<Rightarrow> None))
            (\<lambda>c. if skip_ws rest = [] then Inr c else Inl NotOneObject))"

definition default_list :: "string list \<Rightarrow> string list \<Rightarrow> string list" where
  "default_list all xs = (if xs = [] then all else xs)"

definition default_int :: "int \<Rightarrow> int \<Rightarrow> int" where
  "default_int d n = (if n = 0 then d else n)"

definition with_defaults :: "matrix_config \<Rightarrow> matrix_config" where
  "with_defaults c = c
     \<lparr>mc_strategies := default_list Strategies (mc_strategies c),
      mc_profiles := default_list Profiles (mc_profiles c),
      mc_scenarios := default_list Scenarios (mc_scenarios c),
      mc_repetitions := default_int 100 (mc_repetitions c),
      mc_seed := default_int 1 (mc_seed c),
      mc_deadline := default_int 60000 (mc_deadline c),
      mc_outage := default_int 2000 (mc_outage c),
      mc_delay := default_int 5000 (mc_delay c),
      mc_drain := default_int 10000 (mc_drain c),
      mc_grace := default_int 5000 (mc_grace c)\<rparr>"

text \<open>The loop over one dimension: the first value that is unknown or was seen before.\<close>

fun stray :: "string list \<Rightarrow> string list \<Rightarrow> string list \<Rightarrow> string option" where
  "stray known_values seen [] = None"
| "stray known_values seen (s # ss) =
     (if s \<notin> set known_values \<or> s \<in> set seen then Some s else stray known_values (s # seen) ss)"

definition no_stray :: "string list \<Rightarrow> string list \<Rightarrow> matrix_error + unit" where
  "no_stray got want = (case stray want [] got of None \<Rightarrow> Inr () | Some s \<Rightarrow> Inl (UnknownOrRepeated s))"

definition check_config :: "matrix_config \<Rightarrow> matrix_error + unit" where
  "check_config c =
     bindE (guardE (mc_grace c < 1 \<or> mc_grace c > mc_deadline c) GraceOutOfRange) (\<lambda>_.
     bindE (guardE (mc_repetitions c < 1 \<or> mc_deadline c < 1 \<or> mc_outage c < 1 \<or> mc_delay c < 1 \<or> mc_drain c < 1)
              NotPositive) (\<lambda>_.
     bindE (no_stray (mc_strategies c) Strategies) (\<lambda>_.
     bindE (no_stray (mc_profiles c) Profiles) (\<lambda>_.
     bindE (no_stray (mc_scenarios c) Scenarios) (\<lambda>_.
     no_stray (mc_assert c) (mc_strategies c))))))"

definition with_none :: "matrix_config \<Rightarrow> matrix_config" where
  "with_none c = (if ''none'' \<in> set (mc_scenarios c) then c else c\<lparr>mc_scenarios := ''none'' # mc_scenarios c\<rparr>)"

definition settle :: "matrix_config \<Rightarrow> matrix_error + matrix_config" where
  "settle c =
     bindE (guardE (mc_version c \<noteq> 1) (UnsupportedVersion (mc_version c))) (\<lambda>_.
     let d = with_defaults c in bindE (check_config d) (\<lambda>_. Inr (with_none d)))"

definition LoadConfig :: "(string \<Rightarrow> string + string) \<Rightarrow> string \<Rightarrow> matrix_error + matrix_config" where
  "LoadConfig read_file path =
     (case read_file path of
        Inl e \<Rightarrow> Inl (ReadFile e)
      | Inr raw \<Rightarrow> bindE (decode_config raw) settle)"

text \<open>Which cells of the matrix are run.\<close>

definition Supported :: "string \<Rightarrow> string \<Rightarrow> string \<Rightarrow> bool" where
  "Supported strategy profile scenario =
     (if strategy = ''idempotency_key_retry'' \<and> profile \<noteq> ''idempotency_only'' then False
      else if (scenario = ''coordinator_before_result'' \<or> scenario = ''coordinator_after_result'')
              \<and> strategy \<noteq> ''watchkeeper'' then False
      else if scenario = ''database_unavailable''
              \<and> (strategy = ''blind_retry'' \<or> strategy = ''idempotency_key_retry'') then False
      else True)"

section \<open>What a loaded configuration satisfies\<close>

lemma stray_None:
  "stray known_values seen got = None \<longleftrightarrow>
     set got \<subseteq> set known_values \<and> distinct got \<and> set got \<inter> set seen = {}"
  by (induction got arbitrary: seen) auto

lemma no_stray_ok [simp]: "no_stray got want = Inr u \<longleftrightarrow> set got \<subseteq> set want \<and> distinct got"
  by (cases "stray want [] got") (use stray_None [of want "[]" got] in \<open>auto simp: no_stray_def\<close>)

definition sound_config :: "matrix_config \<Rightarrow> bool" where
  "sound_config c \<longleftrightarrow>
     mc_version c = 1 \<and> mc_seed c \<noteq> 0
     \<and> 1 \<le> mc_grace c \<and> mc_grace c \<le> mc_deadline c
     \<and> 1 \<le> mc_repetitions c \<and> 1 \<le> mc_outage c \<and> 1 \<le> mc_delay c \<and> 1 \<le> mc_drain c
     \<and> mc_strategies c \<noteq> [] \<and> set (mc_strategies c) \<subseteq> set Strategies \<and> distinct (mc_strategies c)
     \<and> mc_profiles c \<noteq> [] \<and> set (mc_profiles c) \<subseteq> set Profiles \<and> distinct (mc_profiles c)
     \<and> ''none'' \<in> set (mc_scenarios c) \<and> set (mc_scenarios c) \<subseteq> set Scenarios \<and> distinct (mc_scenarios c)
     \<and> set (mc_assert c) \<subseteq> set (mc_strategies c) \<and> distinct (mc_assert c)"

lemma none_is_scenario: "''none'' \<in> set Scenarios"
  by (simp add: Scenarios_def)

lemma defaults_nonempty:
  "default_list Strategies xs \<noteq> []" "default_list Profiles xs \<noteq> []" "default_list Scenarios xs \<noteq> []"
  by (simp_all add: default_list_def Strategies_def Profiles_def Scenarios_def)

lemma check_config_ok:
  "check_config c = Inr u \<longleftrightarrow>
     1 \<le> mc_grace c \<and> mc_grace c \<le> mc_deadline c
     \<and> 1 \<le> mc_repetitions c \<and> 1 \<le> mc_outage c \<and> 1 \<le> mc_delay c \<and> 1 \<le> mc_drain c
     \<and> set (mc_strategies c) \<subseteq> set Strategies \<and> distinct (mc_strategies c)
     \<and> set (mc_profiles c) \<subseteq> set Profiles \<and> distinct (mc_profiles c)
     \<and> set (mc_scenarios c) \<subseteq> set Scenarios \<and> distinct (mc_scenarios c)
     \<and> set (mc_assert c) \<subseteq> set (mc_strategies c) \<and> distinct (mc_assert c)"
  by (auto simp: check_config_def bindE_Inr_iff)

lemma settle_sound:
  assumes "settle c = Inr d"
  shows "sound_config d"
proof -
  have "mc_version c = 1" and chk: "check_config (with_defaults c) = Inr ()" and d: "d = with_none (with_defaults c)"
    using assms by (auto simp: settle_def Let_def bindE_Inr_iff)
  moreover have "mc_seed (with_defaults c) \<noteq> 0" "mc_version (with_defaults c) = mc_version c"
    "mc_strategies (with_defaults c) \<noteq> []" "mc_profiles (with_defaults c) \<noteq> []"
    by (simp_all add: with_defaults_def default_int_def defaults_nonempty)
  ultimately show ?thesis
    using none_is_scenario by (auto simp: check_config_ok sound_config_def with_none_def)
qed

lemma settle_fixed:
  assumes "sound_config c"
  shows "settle c = Inr c"
proof -
  have "mc_scenarios c \<noteq> []" using assms by (auto simp: sound_config_def)
  then have "with_defaults c = c"
    using assms by (auto simp: sound_config_def with_defaults_def default_list_def default_int_def)
  moreover have "check_config c = Inr ()" "with_none c = c" "mc_version c = 1"
    using assms by (auto simp: check_config_ok with_none_def sound_config_def)
  ultimately show ?thesis by (simp add: settle_def)
qed

text \<open>A loaded configuration is sound, and loading what was loaded changes nothing.\<close>

lemma LoadConfig_sound: "LoadConfig read_file path = Inr c \<Longrightarrow> sound_config c \<and> settle c = Inr c"
  by (auto simp: LoadConfig_def settle_fixed dest: settle_sound split: sum.splits)

text \<open>Every strategy meets every profile it makes sense for; Watchkeeper meets every cell.\<close>

lemma watchkeeper_supported: "Supported ''watchkeeper'' profile scenario"
  by (simp add: Supported_def)

lemma fault_free_supported:
  "Supported strategy profile ''none'' \<longleftrightarrow> strategy \<noteq> ''idempotency_key_retry'' \<or> profile = ''idempotency_only''"
  by (simp add: Supported_def)

end
