(* ===== verification/Scoring.thy ===== *)
theory Scoring
  imports Benchmark
begin

text \<open>
  The score of one trial and the assertions over all trials, \<open>internal/benchmark/score.go\<close>.
  The score walks over the steps and adds to counters; the lemmas say what the counters are in
  terms of the steps, how they relate to each other, and exactly when a validation run fails.
\<close>

section \<open>Trials\<close>

record trial_step =
  ts_key :: string
  ts_attempted :: bool
  ts_acknowledged :: bool
  ts_uncertain :: bool
  ts_effects :: int
  ts_deadline_effects :: int

record trial_result =
  tr_execution :: string
  tr_cell :: string
  tr_strategy :: string
  tr_scenario :: string
  tr_status :: string
  tr_steps :: "trial_step list"
  tr_completed :: bool
  tr_censored :: bool
  tr_duplicate :: bool
  tr_excess :: int
  tr_missing :: int
  tr_unattempted :: int
  tr_uncertain_missing :: int
  tr_abandoned :: int
  tr_orphans :: int
  tr_false_completion :: int
  tr_uncertain :: bool
  tr_fault_triggered :: bool

definition score_step :: "trial_step \<Rightarrow> trial_result \<Rightarrow> trial_result" where
  "score_step s r0 =
     (let r1 = (if ts_acknowledged s then r0 else r0\<lparr>tr_completed := False\<rparr>);
          r2 = (if ts_effects s > 1
                then r1\<lparr>tr_duplicate := True, tr_excess := tr_excess r1 + (ts_effects s - 1)\<rparr> else r1);
          r3 = (if ts_deadline_effects s = 0
                then let m = r2\<lparr>tr_missing := tr_missing r2 + 1\<rparr> in
                     if \<not> ts_attempted s then m\<lparr>tr_unattempted := tr_unattempted m + 1\<rparr>
                     else if ts_uncertain s then m\<lparr>tr_uncertain_missing := tr_uncertain_missing m + 1\<rparr>
                     else if \<not> tr_censored m then m\<lparr>tr_abandoned := tr_abandoned m + 1\<rparr>
                     else m
                else r2);
          acknowledged_effects = (if ts_acknowledged s then 1 else 0);
          r4 = r3\<lparr>tr_orphans := tr_orphans r3 + max 0 (ts_effects s - acknowledged_effects)\<rparr>;
          r5 = (if ts_acknowledged s \<and> ts_effects s = 0
                then r4\<lparr>tr_false_completion := tr_false_completion r4 + 1\<rparr> else r4)
      in r5\<lparr>tr_uncertain := tr_uncertain r5 \<or> ts_uncertain s\<rparr>)"

definition Score :: "trial_result \<Rightarrow> trial_result" where
  "Score r = fold score_step (tr_steps r) (r\<lparr>tr_completed := True\<rparr>)"

section \<open>Assertions\<close>

definition violation :: "trial_result \<Rightarrow> string" where
  "violation r = tr_cell r @ '' execution='' @ tr_execution r @ '' excess_effects='' @ itoa (tr_excess r)"

definition asserted_trial :: "matrix_config \<Rightarrow> trial_result \<Rightarrow> bool" where
  "asserted_trial c r \<longleftrightarrow>
     \<not> (tr_status r \<noteq> ''completed'' \<or> tr_strategy r \<notin> set (mc_assert c)) \<and> tr_scenario r \<noteq> ''duplicate_delivery''"

fun observe_trials :: "matrix_config \<Rightarrow> trial_result list \<Rightarrow> string list \<Rightarrow> string list \<Rightarrow> string list \<times> string list" where
  "observe_trials c [] observed violations = (observed, violations)"
| "observe_trials c (r # rs) observed violations =
     (if \<not> asserted_trial c r then observe_trials c rs observed violations
      else observe_trials c rs (tr_strategy r # observed)
             (if tr_duplicate r \<or> tr_excess r > 0 then violations @ [violation r] else violations))"

definition unobserved :: "string list \<Rightarrow> string list \<Rightarrow> string list" where
  "unobserved observed strategies =
     map (\<lambda>s. s @ '' produced no completed trials to assert on'') (filter (\<lambda>s. s \<notin> set observed) strategies)"

fun join_complaints :: "string list \<Rightarrow> string" where
  "join_complaints [] = []"
| "join_complaints [s] = s"
| "join_complaints (s # ss) = s @ ''; '' @ join_complaints ss"

definition CheckAssertions :: "matrix_config \<Rightarrow> trial_result list \<Rightarrow> string option" where
  "CheckAssertions c results =
     (if mc_assert c = [] then None
      else let (observed, violations) = observe_trials c results [] [];
               complaints = violations @ unobserved observed (mc_assert c)
           in if complaints = [] then None
              else Some (''duplicate-effect assertion failed: '' @ join_complaints complaints))"

section \<open>What the score counts\<close>

text \<open>The counters of a score, each as a sum over the steps.\<close>

definition count_steps :: "(trial_step \<Rightarrow> bool) \<Rightarrow> trial_step list \<Rightarrow> int" where
  "count_steps p ss = int (length (filter p ss))"

definition excess_of :: "trial_step \<Rightarrow> int" where
  "excess_of s = max 0 (ts_effects s - 1)"

definition orphans_of :: "trial_step \<Rightarrow> int" where
  "orphans_of s = max 0 (ts_effects s - (if ts_acknowledged s then 1 else 0))"

definition absent :: "trial_step \<Rightarrow> bool" where
  "absent s \<longleftrightarrow> ts_deadline_effects s = 0"

lemma count_steps_Nil [simp]: "count_steps p [] = 0"
  by (simp add: count_steps_def)

lemma count_steps_Cons [simp]: "count_steps p (s # ss) = (if p s then 1 else 0) + count_steps p ss"
  by (simp add: count_steps_def)

text \<open>What one step does to every counter.\<close>

lemma score_step_sel:
  "tr_completed (score_step s r) = (tr_completed r \<and> ts_acknowledged s)"
  "tr_censored (score_step s r) = tr_censored r"
  "tr_duplicate (score_step s r) = (tr_duplicate r \<or> 1 < ts_effects s)"
  "tr_excess (score_step s r) = tr_excess r + excess_of s"
  "tr_missing (score_step s r) = tr_missing r + (if absent s then 1 else 0)"
  "tr_unattempted (score_step s r) = tr_unattempted r + (if absent s \<and> \<not> ts_attempted s then 1 else 0)"
  "tr_uncertain_missing (score_step s r) =
     tr_uncertain_missing r + (if absent s \<and> ts_attempted s \<and> ts_uncertain s then 1 else 0)"
  "tr_abandoned (score_step s r) =
     tr_abandoned r + (if absent s \<and> ts_attempted s \<and> \<not> ts_uncertain s \<and> \<not> tr_censored r then 1 else 0)"
  "tr_orphans (score_step s r) = tr_orphans r + orphans_of s"
  "tr_false_completion (score_step s r) =
     tr_false_completion r + (if ts_acknowledged s \<and> ts_effects s = 0 then 1 else 0)"
  "tr_uncertain (score_step s r) = (tr_uncertain r \<or> ts_uncertain s)"
  by (simp_all add: score_step_def Let_def excess_of_def orphans_of_def absent_def)

lemma score_fold:
  "tr_completed (fold score_step ss r) = (tr_completed r \<and> list_all ts_acknowledged ss)"
  "tr_censored (fold score_step ss r) = tr_censored r"
  "tr_duplicate (fold score_step ss r) = (tr_duplicate r \<or> list_ex (\<lambda>s. 1 < ts_effects s) ss)"
  "tr_excess (fold score_step ss r) = tr_excess r + sum_list (map excess_of ss)"
  "tr_missing (fold score_step ss r) = tr_missing r + count_steps absent ss"
  "tr_unattempted (fold score_step ss r) = tr_unattempted r + count_steps (\<lambda>s. absent s \<and> \<not> ts_attempted s) ss"
  "tr_uncertain_missing (fold score_step ss r) =
     tr_uncertain_missing r + count_steps (\<lambda>s. absent s \<and> ts_attempted s \<and> ts_uncertain s) ss"
  "tr_abandoned (fold score_step ss r) =
     tr_abandoned r + count_steps (\<lambda>s. absent s \<and> ts_attempted s \<and> \<not> ts_uncertain s \<and> \<not> tr_censored r) ss"
  "tr_orphans (fold score_step ss r) = tr_orphans r + sum_list (map orphans_of ss)"
  "tr_false_completion (fold score_step ss r) =
     tr_false_completion r + count_steps (\<lambda>s. ts_acknowledged s \<and> ts_effects s = 0) ss"
  "tr_uncertain (fold score_step ss r) = (tr_uncertain r \<or> list_ex ts_uncertain ss)"
  by (induction ss arbitrary: r) (simp_all add: score_step_sel)

lemma count_steps_split: "count_steps p ss = count_steps (\<lambda>s. p s \<and> q s) ss + count_steps (\<lambda>s. p s \<and> \<not> q s) ss"
  by (induction ss) simp_all

lemma count_steps_False [simp]: "count_steps (\<lambda>s. False) ss = 0"
  by (simp add: count_steps_def)

definition unscored :: "trial_result \<Rightarrow> bool" where
  "unscored r \<longleftrightarrow>
     \<not> tr_duplicate r \<and> tr_excess r = 0 \<and> tr_missing r = 0 \<and> tr_unattempted r = 0 \<and> tr_uncertain_missing r = 0
     \<and> tr_abandoned r = 0 \<and> tr_orphans r = 0 \<and> tr_false_completion r = 0 \<and> \<not> tr_uncertain r"

lemma excess_nonneg: "0 \<le> sum_list (map excess_of ss)"
  by (rule sum_list_nonneg) (auto simp: excess_of_def)

lemma excess_positive: "0 < sum_list (map excess_of ss) \<longleftrightarrow> list_ex (\<lambda>s. 1 < ts_effects s) ss"
proof (induction ss)
  case (Cons s ss)
  have "0 \<le> excess_of s" "0 < excess_of s \<longleftrightarrow> 1 < ts_effects s" by (auto simp: excess_of_def)
  then show ?case using Cons excess_nonneg [of ss] by auto
qed simp

text \<open>A trial is a duplicate exactly when it has excess effects.\<close>

lemma duplicate_iff_excess: "unscored r \<Longrightarrow> tr_duplicate (Score r) \<longleftrightarrow> 0 < tr_excess (Score r)"
  by (simp add: Score_def score_fold unscored_def excess_positive)

text \<open>
  Every missing step is unattempted, uncertain or abandoned; only in a censored trial are the
  attempted ones that are not uncertain counted as missing alone.
\<close>

lemma missing_explained:
  assumes "unscored r"
  shows "tr_missing (Score r) =
     tr_unattempted (Score r) + tr_uncertain_missing (Score r) + tr_abandoned (Score r)
     + (if tr_censored r then count_steps (\<lambda>s. absent s \<and> ts_attempted s \<and> \<not> ts_uncertain s) (tr_steps r) else 0)"
  using assms count_steps_split [of absent "tr_steps r" ts_attempted]
    count_steps_split [of "\<lambda>s. absent s \<and> ts_attempted s" "tr_steps r" ts_uncertain]
  by (simp add: Score_def score_fold unscored_def conj_assoc)

text \<open>
  The effects of all steps are the unacknowledged ones and one for each acknowledged step that
  is not a false completion.
\<close>

lemma effects_accounted:
  assumes "unscored r" and "\<forall>s\<in>set (tr_steps r). 0 \<le> ts_effects s"
  shows "sum_list (map ts_effects (tr_steps r)) =
     tr_orphans (Score r) + count_steps ts_acknowledged (tr_steps r) - tr_false_completion (Score r)"
proof -
  have "sum_list (map ts_effects ss) =
      sum_list (map orphans_of ss) + count_steps ts_acknowledged ss - count_steps (\<lambda>s. ts_acknowledged s \<and> ts_effects s = 0) ss"
    if "\<forall>s\<in>set ss. 0 \<le> ts_effects s" for ss
    using that by (induction ss) (auto simp: orphans_of_def)
  with assms show ?thesis by (simp add: Score_def score_fold unscored_def)
qed

text \<open>A trial without anomalies: completed, no orphan, no false completion: one effect for each step.\<close>

lemma clean_trial_exact:
  assumes "unscored r" and "\<forall>s\<in>set (tr_steps r). 0 \<le> ts_effects s"
    and "tr_completed (Score r)" and "tr_orphans (Score r) = 0" and "tr_false_completion (Score r) = 0"
    and "s \<in> set (tr_steps r)"
  shows "ts_effects s = 1"
proof -
  have ack: "ts_acknowledged s"
    using assms by (simp add: Score_def score_fold list_all_iff)
  have "sum_list (map orphans_of (tr_steps r)) = 0"
    using assms by (simp add: Score_def score_fold unscored_def)
  moreover have "\<forall>x\<in>set (map orphans_of (tr_steps r)). 0 \<le> x" by (auto simp: orphans_of_def)
  ultimately have "orphans_of s = 0"
    using assms(6) sum_list_nonneg_eq_0_iff [of "map orphans_of (tr_steps r)"] by auto
  moreover have "filter (\<lambda>s. ts_acknowledged s \<and> ts_effects s = 0) (tr_steps r) = []"
    using assms(1,5) by (simp add: Score_def score_fold unscored_def count_steps_def)
  then have "\<not> (ts_acknowledged s \<and> ts_effects s = 0)"
    using assms(6) by (simp add: filter_empty_conv)
  ultimately show ?thesis
    using ack assms(2,6) by (force simp: orphans_of_def)
qed

section \<open>When a validation run fails\<close>

lemma observe_trials_eq:
  "observe_trials c rs observed violations =
     (rev (map tr_strategy (filter (asserted_trial c) rs)) @ observed,
      violations @ map violation (filter (\<lambda>r. asserted_trial c r \<and> (tr_duplicate r \<or> tr_excess r > 0)) rs))"
  by (induction c rs observed violations rule: observe_trials.induct) simp_all

text \<open>
  A validation run passes exactly when every asserted strategy has a completed trial of a
  scenario other than duplicated delivery and none of these trials has a duplicate.
\<close>

lemma CheckAssertions_spec:
  "CheckAssertions c results = None \<longleftrightarrow>
     (\<forall>s\<in>set (mc_assert c). \<exists>r\<in>set results. asserted_trial c r \<and> tr_strategy r = s)
     \<and> (\<forall>r\<in>set results. asserted_trial c r \<longrightarrow> \<not> tr_duplicate r \<and> tr_excess r \<le> 0)"
proof (cases "mc_assert c = []")
  case True
  then show ?thesis by (simp add: CheckAssertions_def asserted_trial_def)
next
  case False
  then show ?thesis
    by (auto simp: CheckAssertions_def observe_trials_eq unobserved_def filter_empty_conv image_iff not_less) metis
qed

text \<open>Every complaint about a trial names its cell, its execution and its count.\<close>

lemma scored_violation_positive:
  assumes "unscored r" and "asserted_trial c (Score r)" and "tr_duplicate (Score r)" and "Score r \<in> set results"
  shows "CheckAssertions c results \<noteq> None" and "0 < tr_excess (Score r)"
  using assms duplicate_iff_excess [of r] by (auto simp: CheckAssertions_spec)

end
