(* ===== verification/Faults.thy ===== *)
theory Faults
  imports Scoring Simulator "HOL-Library.AList"
begin

text \<open>
  The fault injection of the experiments, \<open>internal/benchmark/fault.go\<close>: the children and the
  email service report every protocol point they reach; at the point the scenario names, in the
  second step and once, the controller kills a process, loses a response, cuts the service or
  the database off, or delays the commit, and later records the release. A critical section
  between \<open>mu.Lock\<close> and \<open>mu.Unlock\<close> is one function on the trial. The clock (which stands
  still within one section), the two journals
  and the killing of a process are parameters; a journal that is \<open>nil\<close> is one that never fails.
\<close>

section \<open>Trials\<close>

record fault_event =
  fe_phase :: string
  fe_barrier :: string
  fe_step :: string
  fe_operation :: string
  fe_attempt :: int
  fe_at :: time

record trial =
  ft_config :: matrix_config
  ft_result :: trial_result
  ft_token :: string
  ft_events :: "fault_event list"
  ft_worker :: "string option"
  ft_coordinator :: "string option"
  ft_worker_kills :: nat
  ft_coordinator_kills :: nat
  ft_triggered :: bool
  ft_trigger_at :: time
  ft_service_until :: time
  ft_proxy_until :: time
  ft_step_dispatches :: "(string \<times> int) list"
  ft_dispatches :: int
  ft_verifications :: int
  ft_err :: "string option"

record controls =
  fc_now :: time
  fc_write :: "fault_event \<Rightarrow> string option"     \<comment> \<open>the event file\<close>
  fc_persist :: "fault_event \<Rightarrow> string option"   \<comment> \<open>the journal of injected faults\<close>
  fc_kill :: "string \<Rightarrow> string option"

definition failed_with :: "string option \<Rightarrow> trial \<Rightarrow> trial" where
  "failed_with e t = (case e of None \<Rightarrow> t | Some m \<Rightarrow> t\<lparr>ft_err := Some m\<rparr>)"

definition scenario_of :: "trial \<Rightarrow> string" where
  "scenario_of t = tr_scenario (ft_result t)"

definition record_event :: "controls \<Rightarrow> fault_event \<Rightarrow> trial \<Rightarrow> trial" where
  "record_event env e0 t =
     (let e = (if fe_at e0 = zero_time then e0\<lparr>fe_at := fc_now env\<rparr> else e0);
          t1 = failed_with (fc_write env e) (t\<lparr>ft_events := ft_events t @ [e]\<rparr>)
      in if fe_barrier e = scenario_of t \<and> (fe_phase e = ''triggered'' \<or> fe_phase e = ''released'')
         then failed_with (fc_persist env e) t1 else t1)"

definition fault_event_at :: "string \<Rightarrow> string \<Rightarrow> string \<Rightarrow> string \<Rightarrow> int \<Rightarrow> fault_event" where
  "fault_event_at phase point stp operation attempt =
     \<lparr>fe_phase = phase, fe_barrier = point, fe_step = stp, fe_operation = operation, fe_attempt = attempt,
      fe_at = zero_time\<rparr>"

section \<open>Reaching a barrier\<close>

definition mark_step :: "string \<Rightarrow> fault_event \<Rightarrow> trial_step \<Rightarrow> trial_step" where
  "mark_step strategy e s =
     (if ts_key s \<noteq> fe_step e then s
      else
        let s1 = (if fe_barrier e = ''before_intent'' \<or> fe_barrier e = ''before_dispatch''
                     \<or> fe_barrier e = ''accepted_before_commit''
                  then s\<lparr>ts_attempted := True\<rparr> else s);
            s2 = (if (fe_barrier e = ''step_acknowledged'' \<or> fe_barrier e = ''after_persistence'')
                     \<and> (strategy = ''watchkeeper'' \<or> strategy = ''checkpoint_recovery'')
                  then s1\<lparr>ts_acknowledged := True\<rparr> else s1)
        in if fe_barrier e = ''step_uncertain'' then s2\<lparr>ts_uncertain := True\<rparr> else s2)"

definition mark_steps :: "fault_event \<Rightarrow> trial \<Rightarrow> trial" where
  "mark_steps e t = t\<lparr>ft_result := (ft_result t)
     \<lparr>tr_steps := map (mark_step (tr_strategy (ft_result t)) e) (tr_steps (ft_result t))\<rparr>\<rparr>"

definition coordinator_scenario :: "string \<Rightarrow> bool" where
  "coordinator_scenario s \<longleftrightarrow> take (length ''coordinator_'') s = ''coordinator_''"

text \<open>A coordinator scenario needs a pending operation: the worker is killed after its commit.\<close>

definition setup_kill :: "controls \<Rightarrow> fault_event \<Rightarrow> trial \<Rightarrow> trial" where
  "setup_kill env e t =
     (if coordinator_scenario (scenario_of t) \<and> fe_step e = ''step-2'' \<and> fe_barrier e = ''after_commit''
         \<and> ft_worker_kills t = 0
      then (case ft_worker t of
              None \<Rightarrow> t
            | Some h \<Rightarrow>
                let t1 = failed_with (fc_kill env h) t;
                    t2 = t1\<lparr>ft_worker_kills := ft_worker_kills t1 + 1\<rparr>
                in record_event env (fault_event_at ''triggered'' ''setup_lost_confirmation'' (fe_step e) [] (fe_attempt e)) t2)
      else t)"

definition target_of :: "string \<Rightarrow> string" where
  "target_of scenario =
     (if scenario = ''lost_response'' then ''after_commit''
      else if scenario = ''delayed_commit'' then ''accepted_before_commit''
      else if scenario = ''service_unavailable'' then ''before_dispatch''
      else if scenario = ''database_unavailable'' then ''after_response''
      else scenario)"

definition millis :: "int \<Rightarrow> duration" where
  "millis n = n * 1000000"

text \<open>
  What is left to do when the critical section ends: return; return while a goroutine records
  the release after the outage; or, still inside the barrier, wait and record the release.
\<close>

datatype after =
    Returns "string option"
  | ReturnsReleasing fault_event duration
  | Holds fault_event duration

definition kill_child :: "controls \<Rightarrow> trial \<Rightarrow> trial" where
  "kill_child env t =
     (let coord = coordinator_scenario (scenario_of t) in
      case (if coord then ft_coordinator t else ft_worker t) of
        None \<Rightarrow> t\<lparr>ft_err := Some ''barrier reached without child process''\<rparr>
      | Some h \<Rightarrow>
          (case fc_kill env h of
             Some m \<Rightarrow> t\<lparr>ft_err := Some m\<rparr>
           | None \<Rightarrow> if coord then t\<lparr>ft_coordinator_kills := ft_coordinator_kills t + 1\<rparr>
                     else t\<lparr>ft_worker_kills := ft_worker_kills t + 1\<rparr>))"

definition set_triggered :: "controls \<Rightarrow> trial \<Rightarrow> trial" where
  "set_triggered env t = t\<lparr>ft_triggered := True, ft_trigger_at := fc_now env,
     ft_result := (ft_result t)\<lparr>tr_fault_triggered := True\<rparr>\<rparr>"

definition fire :: "controls \<Rightarrow> fault_event \<Rightarrow> trial \<Rightarrow> trial \<times> after" where
  "fire env e t0 =
     (let scenario = scenario_of t0;
          outage = millis (mc_outage (ft_config t0));
          t = record_event env (fault_event_at ''triggered'' scenario (fe_step e) (fe_operation e) (fe_attempt e))
                (set_triggered env t0);
          released = fault_event_at ''released'' scenario (fe_step e) []
      in if scenario = ''lost_response''
         then (record_event env (released 0) t, Returns (Some ''injected lost response''))
         else if scenario = ''service_unavailable''
         then (t\<lparr>ft_service_until := fc_now env + outage\<rparr>, ReturnsReleasing (released 0) outage)
         else if scenario = ''database_unavailable''
         then (t\<lparr>ft_proxy_until := fc_now env + outage\<rparr>, ReturnsReleasing (released 0) outage)
         else (kill_child env t,
               Holds (released (fe_attempt e))
                 (if scenario = ''delayed_commit'' then millis (mc_delay (ft_config t0)) else 0)))"

definition trial_barrier :: "controls \<Rightarrow> fault_event \<Rightarrow> trial \<Rightarrow> trial \<times> after" where
  "trial_barrier env e t0 =
     (let t = setup_kill env e (mark_steps e (record_event env e t0))
      in if fe_step e \<noteq> ''step-2'' \<or> fe_barrier e \<noteq> target_of (scenario_of t) \<or> ft_triggered t
         then (t, Returns None)
         else fire env e t)"

section \<open>The doors\<close>

text \<open>
  \<open>control\<close> up to the barrier: the token, and one JSON value within the first 8192 bytes.
\<close>

definition event_of_members :: "(string \<times> json) list \<Rightarrow> fault_event option" where
  "event_of_members ms =
     (case (field as_string ''phase'' [] ms, field as_string ''barrier'' [] ms, field as_string ''step'' [] ms,
            field as_string ''operation_id'' [] ms, field as_int64 ''attempt'' 0 ms, field as_time ''at'' zero_time ms) of
        (Some ph, Some ba, Some st, Some op, Some at, Some tm) \<Rightarrow>
          Some \<lparr>fe_phase = ph, fe_barrier = ba, fe_step = st, fe_operation = op, fe_attempt = at, fe_at = tm\<rparr>
      | _ \<Rightarrow> None)"

definition event_limit :: nat where
  "event_limit = 8192"

definition decode_fault_event :: "string \<Rightarrow> fault_event option" where
  "decode_fault_event body =
     (case decode_one (take event_limit body) of
        None \<Rightarrow> None
      | Some (JObj _, _) \<Rightarrow> Option.bind (object_members (take event_limit body)) (\<lambda>ms. event_of_members (plain_members ms))
      | Some (JNull, rest) \<Rightarrow> if rest = [] \<and> event_limit < length body then None else event_of_members []
      | _ \<Rightarrow> None)"

definition control :: "request \<Rightarrow> trial \<Rightarrow> (int \<times> string) + fault_event" where
  "control rq t =
     (if header rq ''Authorization'' \<noteq> ''Bearer '' @ ft_token t then Inl (401, ''unauthorized'')
      else of_opt (400, ''invalid event'') (decode_fault_event (rq_body rq)))"

definition count_of :: "(string \<times> int) list \<Rightarrow> string \<Rightarrow> int" where
  "count_of counts key = (case map_of counts key of Some n \<Rightarrow> n | None \<Rightarrow> 0)"

definition simHook :: "string \<Rightarrow> string \<Rightarrow> EmailRequest \<Rightarrow> trial \<Rightarrow> fault_event" where
  "simHook name operation rq t =
     fault_event_at ''reached'' name (er_Template rq) operation (count_of (ft_step_dispatches t) (er_Template rq))"

text \<open>
  The critical sections of \<open>simulatorHandler\<close>: a request arrives and learns whether the service
  is cut off; a dispatch is counted; a dispatch may be delivered twice.
\<close>

definition posts_message :: "string \<Rightarrow> string \<Rightarrow> bool" where
  "posts_message verb path \<longleftrightarrow> verb = ''POST'' \<and> path = ''/email/messages''"

definition arrive :: "controls \<Rightarrow> string \<Rightarrow> string \<Rightarrow> trial \<Rightarrow> trial \<times> bool" where
  "arrive env verb path t =
     (let t1 = (if posts_message verb path then t\<lparr>ft_dispatches := ft_dispatches t + 1\<rparr> else t);
          t2 = (if verb = ''GET'' then t1\<lparr>ft_verifications := ft_verifications t1 + 1\<rparr> else t1)
      in (t2, fc_now env < ft_service_until t2))"

definition count_dispatch :: "string \<Rightarrow> trial \<Rightarrow> trial" where
  "count_dispatch key t =
     t\<lparr>ft_step_dispatches := AList.update key (count_of (ft_step_dispatches t) key + 1) (ft_step_dispatches t)\<rparr>"

definition duplicate_released :: fault_event where
  "duplicate_released = fault_event_at ''released'' ''duplicate_delivery'' ''step-2'' [] 1"

definition duplicate :: "controls \<Rightarrow> string \<Rightarrow> trial \<Rightarrow> trial \<times> bool" where
  "duplicate env key t =
     (if scenario_of t = ''duplicate_delivery'' \<and> key = ''step-2'' \<and> \<not> ft_triggered t
      then let t1 = set_triggered env t;
               t2 = count_dispatch key (t1\<lparr>ft_dispatches := ft_dispatches t1 + 1\<rparr>)
           in (record_event env (fault_event_at ''triggered'' ''duplicate_delivery'' ''step-2'' [] 1) t2, True)
      else (t, False))"

text \<open>\<open>json.Unmarshal\<close> of the payload with its error ignored: what was decoded stays.\<close>

definition payload_template :: "string \<Rightarrow> string" where
  "payload_template raw =
     (case decode_all raw of
        Some (JObj ms) \<Rightarrow>
          foldl (\<lambda>acc (k, v). if equal_fold k ''template'' then (case as_string v of Some s \<Rightarrow> s | None \<Rightarrow> acc) else acc) [] ms
      | _ \<Rightarrow> [])"

text \<open>A child is started, and the effects of the service's ledger are read into the steps.\<close>

definition start_child :: "string \<Rightarrow> string \<Rightarrow> trial \<Rightarrow> trial" where
  "start_child role h t = (if role = ''worker'' then t\<lparr>ft_worker := Some h\<rparr> else t\<lparr>ft_coordinator := Some h\<rparr>)"

section \<open>Trials as a step relation\<close>

text \<open>
  Barriers, releases and requests interleave at the critical sections. A held release of a
  delayed commit is dropped when the request's context ends first.
\<close>

type_synonym fault_state = "trial \<times> (fault_event \<times> bool) list"

definition left_over :: "after \<Rightarrow> (fault_event \<times> bool) list" where
  "left_over a = (case a of Returns _ \<Rightarrow> [] | ReturnsReleasing e _ \<Rightarrow> [(e, False)] | Holds e d \<Rightarrow> [(e, d > 0)])"

definition report_phase :: "string \<Rightarrow> bool" where
  "report_phase p \<longleftrightarrow> p \<noteq> ''triggered'' \<and> p \<noteq> ''released''"

inductive fault_step :: "fault_state \<Rightarrow> fault_state \<Rightarrow> bool" where
  Reach: "report_phase (fe_phase e) \<Longrightarrow> trial_barrier env e t = (t', a) \<Longrightarrow>
            fault_step (t, ps) (t', left_over a @ ps)"
| Release: "(e, c) \<in> set ps \<Longrightarrow> fault_step (t, ps) (record_event env e t, remove1 (e, c) ps)"
| Abandon: "(e, True) \<in> set ps \<Longrightarrow> fault_step (t, ps) (t, remove1 (e, True) ps)"
| Arrive: "fault_step (t, ps) (fst (arrive env verb path t), ps)"
| Count: "fault_step (t, ps) (count_dispatch key t, ps)"
| Twice: "duplicate env key t = (t', b) \<Longrightarrow>
            fault_step (t, ps) (t', (if b then [(duplicate_released, False)] else []) @ ps)"
| Start: "fault_step (t, ps) (start_child role h t, ps)"

definition fresh_trial :: "trial \<Rightarrow> bool" where
  "fresh_trial t \<longleftrightarrow>
     \<not> ft_triggered t \<and> \<not> tr_fault_triggered (ft_result t) \<and> ft_worker_kills t = 0 \<and> ft_coordinator_kills t = 0
     \<and> list_all (\<lambda>e. report_phase (fe_phase e)) (ft_events t) \<and> scenario_of t \<noteq> ''setup_lost_confirmation''"

definition fault_count :: "string \<Rightarrow> trial \<Rightarrow> nat" where
  "fault_count phase t = length (filter (\<lambda>e. fe_phase e = phase \<and> fe_barrier e = scenario_of t) (ft_events t))"

definition once :: "trial \<Rightarrow> nat" where
  "once t = (if ft_triggered t then 1 else 0)"

section \<open>A fault is injected once\<close>

lemma failed_with_sel [simp]:
  "ft_result (failed_with m t) = ft_result t" "ft_events (failed_with m t) = ft_events t"
  "ft_triggered (failed_with m t) = ft_triggered t" "ft_worker (failed_with m t) = ft_worker t"
  "ft_coordinator (failed_with m t) = ft_coordinator t" "ft_worker_kills (failed_with m t) = ft_worker_kills t"
  "ft_coordinator_kills (failed_with m t) = ft_coordinator_kills t"
  "scenario_of (failed_with m t) = scenario_of t"
  by (simp_all add: failed_with_def scenario_of_def split: option.split)

lemma record_fault_event_sel [simp]:
  "ft_result (record_event env e t) = ft_result t"
  "ft_triggered (record_event env e t) = ft_triggered t" "ft_worker (record_event env e t) = ft_worker t"
  "ft_coordinator (record_event env e t) = ft_coordinator t"
  "ft_worker_kills (record_event env e t) = ft_worker_kills t"
  "ft_coordinator_kills (record_event env e t) = ft_coordinator_kills t"
  "scenario_of (record_event env e t) = scenario_of t"
  by (simp_all add: record_event_def Let_def scenario_of_def)

lemma fault_count_record [simp]:
  "fault_count p (record_event env e t) =
     fault_count p t + (if fe_phase e = p \<and> fe_barrier e = scenario_of t then 1 else 0)"
  by (simp add: fault_count_def record_event_def Let_def scenario_of_def)

lemma fault_event_sel [simp]:
  "fe_phase (fault_event_at p b s i n) = p" "fe_barrier (fault_event_at p b s i n) = b" "fe_step (fault_event_at p b s i n) = s"
  "fe_attempt (fault_event_at p b s i n) = n" "fe_operation (fault_event_at p b s i n) = i"
  by (simp_all add: fault_event_at_def)

text \<open>
  The invariant: the trigger is recorded exactly when it has happened, and then once; every
  release, recorded or pending, belongs to it; and the kills of each child are bounded.
\<close>

definition fault_inv :: "fault_state \<Rightarrow> bool" where
  "fault_inv s \<longleftrightarrow> (case s of (t, ps) \<Rightarrow>
     scenario_of t \<noteq> ''setup_lost_confirmation''
     \<and> tr_fault_triggered (ft_result t) = ft_triggered t
     \<and> fault_count ''triggered'' t = once t
     \<and> fault_count ''released'' t + length ps \<le> once t
     \<and> (\<forall>(e, c) \<in> set ps. fe_phase e = ''released'' \<and> fe_barrier e = scenario_of t)
     \<and> ft_worker_kills t \<le> (if coordinator_scenario (scenario_of t) then 1 else once t)
     \<and> ft_coordinator_kills t \<le> (if coordinator_scenario (scenario_of t) then once t else 0))"

lemma mark_steps_sel [simp]:
  "ft_triggered (mark_steps e t) = ft_triggered t" "ft_events (mark_steps e t) = ft_events t"
  "ft_worker_kills (mark_steps e t) = ft_worker_kills t" "ft_coordinator_kills (mark_steps e t) = ft_coordinator_kills t"
  "scenario_of (mark_steps e t) = scenario_of t" "ft_worker (mark_steps e t) = ft_worker t"
  "tr_fault_triggered (ft_result (mark_steps e t)) = tr_fault_triggered (ft_result t)"
  by (simp_all add: mark_steps_def scenario_of_def)

lemma fault_inv_init: "fresh_trial t \<Longrightarrow> fault_inv (t, [])"
  by (auto simp: fresh_trial_def fault_inv_def fault_count_def once_def report_phase_def filter_empty_conv list_all_iff)

lemma fault_view:
  assumes "ft_events t' = ft_events t" and "ft_triggered t' = ft_triggered t" and "scenario_of t' = scenario_of t"
  shows "once t' = once t" and "fault_count p t' = fault_count p t"
  using assms by (simp_all add: once_def fault_count_def)

lemma fault_inv_cong:
  assumes "fault_inv (t, ps)" and "ft_events t' = ft_events t" and "ft_triggered t' = ft_triggered t"
    and "tr_fault_triggered (ft_result t') = tr_fault_triggered (ft_result t)"
    and "ft_worker_kills t' = ft_worker_kills t" and "ft_coordinator_kills t' = ft_coordinator_kills t"
    and "scenario_of t' = scenario_of t"
  shows "fault_inv (t', ps)"
  using assms(1) unfolding fault_inv_def prod.case assms(4-7) fault_view [OF assms(2,3,7)] assms(3) .

lemma once_record [simp]: "once (record_event env e t) = once t"
  by (simp add: once_def)

lemma fault_inv_report:
  assumes "fault_inv (t, ps)" and "report_phase (fe_phase e)"
  shows "fault_inv (record_event env e t, ps)"
  using assms by (auto simp: fault_inv_def report_phase_def split: if_splits)

lemma fault_inv_setup:
  assumes "fault_inv (t, ps)"
  shows "fault_inv (setup_kill env e t, ps)"
proof (cases "coordinator_scenario (scenario_of t) \<and> fe_step e = ''step-2'' \<and> fe_barrier e = ''after_commit''
    \<and> ft_worker_kills t = 0")
  case True
  show ?thesis
  proof (cases "ft_worker t")
    case (Some h)
    define t2 where "t2 = (failed_with (fc_kill env h) t)\<lparr>ft_worker_kills := ft_worker_kills t + 1\<rparr>"
    have sel: "ft_events t2 = ft_events t" "ft_triggered t2 = ft_triggered t" "ft_result t2 = ft_result t"
      "ft_worker_kills t2 = 1" "ft_coordinator_kills t2 = ft_coordinator_kills t" "scenario_of t2 = scenario_of t"
      using True by (simp_all add: t2_def scenario_of_def)
    have "setup_kill env e t =
        record_event env (fault_event_at ''triggered'' ''setup_lost_confirmation'' (fe_step e) [] (fe_attempt e)) t2"
      using True Some by (simp add: setup_kill_def t2_def Let_def)
    moreover have "''setup_lost_confirmation'' \<noteq> scenario_of t" using assms by (auto simp: fault_inv_def)
    ultimately show ?thesis
      using assms True by (simp add: fault_inv_def sel fault_view [OF sel(1,2,6)])
  qed (use assms in \<open>simp add: setup_kill_def\<close>)
qed (use assms in \<open>auto simp: setup_kill_def\<close>)

lemma set_triggered_sel [simp]:
  "ft_events (set_triggered env t) = ft_events t" "ft_triggered (set_triggered env t)"
  "tr_fault_triggered (ft_result (set_triggered env t))" "scenario_of (set_triggered env t) = scenario_of t"
  "ft_worker_kills (set_triggered env t) = ft_worker_kills t"
  "ft_coordinator_kills (set_triggered env t) = ft_coordinator_kills t"
  "fault_count p (set_triggered env t) = fault_count p t" "once (set_triggered env t) = 1"
  by (simp_all add: set_triggered_def scenario_of_def fault_count_def once_def)

text \<open>What holds right after the trigger was recorded: nothing is released yet.\<close>

definition just_triggered :: "trial \<Rightarrow> bool" where
  "just_triggered t \<longleftrightarrow>
     scenario_of t \<noteq> ''setup_lost_confirmation'' \<and> ft_triggered t \<and> tr_fault_triggered (ft_result t)
     \<and> fault_count ''triggered'' t = 1 \<and> fault_count ''released'' t = 0
     \<and> ft_worker_kills t \<le> (if coordinator_scenario (scenario_of t) then 1 else 0) \<and> ft_coordinator_kills t = 0"

lemma trigger_recorded:
  assumes "fault_inv (t, ps)" and "\<not> ft_triggered t" and "b = scenario_of t"
  shows "ps = []" and "just_triggered (record_event env (fault_event_at ''triggered'' b s i n) (set_triggered env t))"
  using assms by (auto simp: fault_inv_def just_triggered_def once_def split: if_splits)

lemma just_triggered_inv:
  assumes "just_triggered t" and "length ps \<le> 1"
    and "\<forall>(e, c) \<in> set ps. fe_phase e = ''released'' \<and> fe_barrier e = scenario_of t"
  shows "fault_inv (t, ps)"
  using assms by (auto simp: fault_inv_def just_triggered_def once_def split: if_splits)

lemma kill_child_sel [simp]:
  "ft_events (kill_child env t) = ft_events t" "ft_triggered (kill_child env t) = ft_triggered t"
  "ft_result (kill_child env t) = ft_result t" "scenario_of (kill_child env t) = scenario_of t"
  by (simp_all add: kill_child_def Let_def scenario_of_def split: option.split)

lemma kill_child_kills:
  "ft_worker_kills (kill_child env t) \<le> ft_worker_kills t + (if coordinator_scenario (scenario_of t) then 0 else 1)"
  "ft_coordinator_kills (kill_child env t) \<le> ft_coordinator_kills t + (if coordinator_scenario (scenario_of t) then 1 else 0)"
  by (simp_all add: kill_child_def Let_def split: option.split)

lemma killed_inv:
  assumes "just_triggered t" and "fe_phase e = ''released''" and "fe_barrier e = scenario_of t"
  shows "fault_inv (kill_child env t, [(e, c)])"
proof -
  have v: "once (kill_child env t) = 1" "fault_count p (kill_child env t) = fault_count p t" for p
    using assms by (simp_all add: once_def fault_count_def just_triggered_def)
  show ?thesis
    using assms kill_child_kills [of env t] by (auto simp: fault_inv_def just_triggered_def v split: if_splits)
qed

lemma fire_inv:
  assumes "fault_inv (t, ps)" and "\<not> ft_triggered t" and "fire env e t = (t', a)"
  shows "fault_inv (t', left_over a @ ps)"
proof -
  define u where "u = record_event env (fault_event_at ''triggered'' (scenario_of t) (fe_step e) (fe_operation e) (fe_attempt e))
     (set_triggered env t)"
  have ps: "ps = []" and u: "just_triggered u"
    unfolding u_def by (rule trigger_recorded [OF assms(1,2)], rule refl, rule trigger_recorded [OF assms(1,2) refl])
  have sc: "scenario_of u = scenario_of t" by (simp add: u_def)
  note fire = assms(3) [unfolded fire_def Let_def, folded u_def]
  note onward = just_triggered_inv [OF u]
  show ?thesis
  proof (cases "scenario_of t = ''lost_response''")
    case True
    then have "t' = record_event env (fault_event_at ''released'' (scenario_of t) (fe_step e) [] 0) u" "left_over a = []"
      using fire by (auto simp: left_over_def)
    then show ?thesis using u ps sc by (simp add: fault_inv_def just_triggered_def once_def split: if_splits)
  next
    case other: False
    show ?thesis
    proof (cases "scenario_of t = ''service_unavailable'' \<or> scenario_of t = ''database_unavailable''")
      case True
      then have "left_over a = [(fault_event_at ''released'' (scenario_of t) (fe_step e) [] 0, False)]"
        using fire other by (auto simp: left_over_def split: if_splits)
      moreover have "fault_inv (u, left_over a)"
        by (rule onward) (simp_all add: calculation sc)
      ultimately show ?thesis
        using fire other True ps by (auto split: if_splits intro: fault_inv_cong simp: scenario_of_def)
    next
      case False
      then have "t' = kill_child env u" "\<exists>c. left_over a = [(fault_event_at ''released'' (scenario_of t) (fe_step e) [] (fe_attempt e), c)]"
        using fire other by (auto simp: left_over_def split: if_splits)
      then show ?thesis using killed_inv [OF u] ps sc by auto
    qed
  qed
qed

lemma barrier_inv:
  assumes "fault_inv (t, ps)" and "report_phase (fe_phase e)" and "trial_barrier env e t = (t', a)"
  shows "fault_inv (t', left_over a @ ps)"
proof -
  define u where "u = setup_kill env e (mark_steps e (record_event env e t))"
  have "fault_inv (mark_steps e (record_event env e t), ps)"
    by (rule fault_inv_cong [OF fault_inv_report [OF assms(1,2), of env]]) simp_all
  then have u: "fault_inv (u, ps)" unfolding u_def by (rule fault_inv_setup)
  show ?thesis
  proof (cases "fe_step e \<noteq> ''step-2'' \<or> fe_barrier e \<noteq> target_of (scenario_of u) \<or> ft_triggered u")
    case True
    then show ?thesis using assms(3) u by (auto simp: trial_barrier_def Let_def left_over_def simp flip: u_def)
  next
    case False
    then have "fire env e u = (t', a)" "\<not> ft_triggered u"
      using assms(3) by (auto simp: trial_barrier_def Let_def simp flip: u_def)
    then show ?thesis using fire_inv [OF u] by blast
  qed
qed

text \<open>A pending release is recorded, or dropped when its request is over.\<close>

lemma pending_gone:
  assumes "fault_inv (t, ps)" and "(e, c) \<in> set ps"
  shows "fault_inv (record_event env e t, remove1 (e, c) ps)" and "fault_inv (t, remove1 (e, c) ps)"
proof -
  have "length ps = Suc (length (remove1 (e, c) ps))" using length_pos_if_in_set [OF assms(2)] assms(2) by (simp add: length_remove1)
  moreover have "set (remove1 (e, c) ps) \<subseteq> set ps" by (rule set_remove1_subset)
  moreover have "fe_phase e = ''released'' \<and> fe_barrier e = scenario_of t" using assms by (auto simp: fault_inv_def)
  ultimately show "fault_inv (record_event env e t, remove1 (e, c) ps)" "fault_inv (t, remove1 (e, c) ps)"
    using assms(1) by (auto simp: fault_inv_def)
qed

lemma duplicate_inv:
  assumes "fault_inv (t, ps)" and "duplicate env key t = (t', True)"
  shows "fault_inv (t', (duplicate_released, False) # ps)"
proof -
  define w where "w = count_dispatch key (t\<lparr>ft_dispatches := ft_dispatches t + 1\<rparr>)"
  define u where "u = record_event env (fault_event_at ''triggered'' (scenario_of w) ''step-2'' [] 1) (set_triggered env w)"
  have w: "fault_inv (w, ps)"
    by (rule fault_inv_cong [OF assms(1)]) (simp_all add: w_def count_dispatch_def scenario_of_def)
  have t: "scenario_of t = ''duplicate_delivery''" "\<not> ft_triggered t" using assms(2) by (auto simp: duplicate_def split: if_splits)
  have sw: "scenario_of w = scenario_of t" "\<not> ft_triggered w" using t(2) by (simp_all add: w_def count_dispatch_def scenario_of_def)
  have twice: "count_dispatch key ((set_triggered env t)\<lparr>ft_dispatches := ft_dispatches (set_triggered env t) + 1\<rparr>) = set_triggered env w"
    by (simp add: count_dispatch_def set_triggered_def w_def)
  have key: "key = ''step-2''" using assms(2) by (auto simp: duplicate_def split: if_splits)
  have "t' = u" using assms(2) t sw twice by (simp add: duplicate_def Let_def u_def key)
  moreover have u: "ps = []" "just_triggered u" unfolding u_def using trigger_recorded [OF w sw(2) refl] by auto
  moreover have "fault_inv (u, [(duplicate_released, False)])"
    by (rule just_triggered_inv [OF u(2)]) (simp_all add: duplicate_released_def u_def sw t)
  ultimately show ?thesis by simp
qed

lemma fault_step_inv: "fault_step s s' \<Longrightarrow> fault_inv s \<Longrightarrow> fault_inv s'"
proof (induction rule: fault_step.induct)
  case (Reach e env t t' a ps)
  then show ?case by (auto intro: barrier_inv)
next
  case (Release e c ps t env)
  then show ?case by (auto intro: pending_gone)
next
  case (Abandon e ps t)
  then show ?case by (auto intro: pending_gone)
next
  case (Arrive t ps env verb path)
  then show ?case by (rule fault_inv_cong) (simp_all add: arrive_def Let_def scenario_of_def)
next
  case (Count t ps key)
  then show ?case by (rule fault_inv_cong) (simp_all add: count_dispatch_def scenario_of_def)
next
  case (Twice env key t t' b ps)
  then show ?case using duplicate_inv [of t ps env key t'] by (cases b) (auto simp: duplicate_def Let_def split: if_splits)
next
  case (Start t ps role h)
  then show ?case by (rule fault_inv_cong) (simp_all add: start_child_def scenario_of_def)
qed

text \<open>
  In every interleaving of a trial the fault is injected at most once, the event log says so exactly
  when the result does, at most one release is recorded and only after the trigger, and no more
  children are killed than the scenario asks for.
\<close>

lemma injected_once:
  assumes "fault_step\<^sup>*\<^sup>* (t0, []) (t, ps)" and "fresh_trial t0"
  shows "fault_count ''triggered'' t = (if tr_fault_triggered (ft_result t) then 1 else 0)"
    and "fault_count ''released'' t \<le> fault_count ''triggered'' t"
    and "ft_worker_kills t + ft_coordinator_kills t \<le> (if coordinator_scenario (scenario_of t) then 2 else 1)"
proof -
  have "fault_inv (t, ps)"
    using assms(1) by (induction rule: rtranclp_induct) (auto intro: fault_inv_init fault_step_inv assms(2))
  then show "fault_count ''triggered'' t = (if tr_fault_triggered (ft_result t) then 1 else 0)"
    "fault_count ''released'' t \<le> fault_count ''triggered'' t"
    "ft_worker_kills t + ft_coordinator_kills t \<le> (if coordinator_scenario (scenario_of t) then 2 else 1)"
    by (auto simp: fault_inv_def once_def split: if_splits)
qed

end
