(* ===== verification/Spec2Isabelle.thy ===== *)
theory Spec2Isabelle
  imports Store_Recovery Verifier_Safety Worker_Ends Remote_Contract Coordinator_Round Canonical Site Faults
begin

text \<open>
  Watchkeeper records the intent of an external side effect before it is performed, lets one worker
  perform it, and reconciles the intents whose outcome is unknown.

  \<^bold>\<open>The program and its model.\<close> A workflow worker prepares an operation, asks for the permission of
  its one dispatch, sends the request to an external service and confirms the receipt. Operations
  left without a receipt are claimed by a recovery coordinator, which asks the service and reports
  what it observed; the store decides by a table. Workers, coordinators and operators call the store
  through an HTTP server and a client. The theories follow that structure.

  \<^item> \<open>Prelude\<close>: errors as sums (\<open>bindE\<close>, \<open>guardE\<close>), lists of rows as tables, times.
  \<^item> \<open>Encoding\<close>, \<open>Sha256\<close>, \<open>Json\<close>, \<open>Time\<close>, \<open>Http\<close>, \<open>Flags\<close>: what the code uses of Go's standard
    library: hex, base64, SHA-256, encoding/json, RFC 3339 times, request bodies, flags.
  \<^item> \<open>Domain\<close> (\<open>internal/domain\<close>): states, errors, the transition table, fingerprints, records.
  \<^item> \<open>Schema\<close> (\<open>migrations/watchkeeper\<close> and the transaction wrapper), \<open>Store\<close> (\<open>internal/store/postgres.go\<close>,
    \<open>dispatch.go\<close>), \<open>Recovery_Store\<close> (\<open>recovery.go\<close>), \<open>Listing\<close> (\<open>cursor.go\<close> and the listings).
  \<^item> \<open>Simulator\<close> (\<open>internal/simulator\<close>), \<open>Coordinator\<close> (\<open>internal/recovery\<close>), \<open>Worker\<close>
    (\<open>internal/workflow\<close>), \<open>Api\<close> and \<open>Wire\<close> (\<open>internal/api\<close>), \<open>Client\<close> (\<open>pkg/client\<close>), \<open>Config\<close>
    (\<open>internal/config\<close>).
  \<^item> \<open>Programs\<close>, \<open>Console\<close>, \<open>Demo\<close> (\<open>cmd\<close>): the programs over a machine that gives them the
    environment, HTTP, identifiers and time; \<open>Site\<close>: such a machine made of the two servers.
  \<^item> \<open>Benchmark\<close>, \<open>Scoring\<close>, \<open>Faults\<close> (\<open>internal/benchmark\<close>: \<open>config.go\<close>, \<open>score.go\<close>, \<open>fault.go\<close>): the
    matrix of the experiments, the score of a trial and its assertions, the injection of faults.

  \<^bold>\<open>What is shown.\<close>
  \<^item> \<open>Lifecycle\<close> is the abstract specification of one operation's life, a step relation on its log.
    \<open>Store_Invariant\<close>, \<open>Store_Steps\<close>, \<open>Store_System\<close>, \<open>Store_Contract\<close>: every store operation keeps
    the invariant and is a step of that specification, for every failure of a statement and every
    fate of a commit. \<open>Store_Tables\<close> adds what the schema declares: in every database the store reaches
    the rows of all seven tables meet their checks, keys and references.
  \<^item> \<open>Store_Safety\<close>, \<open>Store_Behaviour\<close>, \<open>Store_Replay\<close>, \<open>Store_Leases\<close>, \<open>Store_Recovery\<close>: the store's
    safety, functional behaviour on each branch, replays, leases and recovery, in any order of calls.
    \<open>Scenario\<close> holds the databases the witnesses run on.
  \<^item> \<open>Simulator_Contract\<close>, \<open>Simulator_Safety\<close>, \<open>Verifier_Safety\<close>: the service spends a key once; what
    the verifier concludes is what the service holds.
  \<^item> \<open>System\<close>, \<open>System_Safety\<close>, \<open>System_Scenario\<close>: store, workers and service as a small-step system
    in which messages are lost, delayed and repeated: one effect per operation and declared absence.
    \<open>Worker_Contract\<close>, \<open>Worker_Run\<close>: the worker's \<open>Execute\<close> refines it; \<open>Worker_Ends\<close>: it terminates.
  \<^item> \<open>Coordinator_Round\<close>: a round of the coordinator settles what it claims.
  \<^item> \<open>Json_Round\<close>, \<open>Members\<close>, \<open>Time_Round\<close>, \<open>Compact_Round\<close>, \<open>Canonical\<close>: printing and reading back
    documents, struct members, times and compacted text; the canonical form behind the fingerprints.
  \<^item> \<open>Api_Contract\<close>: what a request can do; \<open>Remote\<close>, \<open>Remote_Contract\<close>: calling through client, HTTP
    and server is calling the store.
  \<^item> \<open>Programs_Contract\<close>, \<open>Console_Contract\<close>, \<open>Site\<close>: the programs end, send the messages they say, and
    what they do with settings the server refuses.
  \<^item> \<open>Benchmark\<close>, \<open>Scoring\<close>, \<open>Faults\<close> end with what a loaded configuration satisfies, what the counters
    of a score mean in terms of the steps, when a validation run fails, and that in every interleaving
    of a trial its fault is injected at most once and released at most once, after that.

  \<^bold>\<open>Modelling decisions.\<close> A transaction is atomic; its statements fail by label and its commit is
  performed, refused, or performed with the reply lost, as the environment \<open>env\<close> of a call says; the
  environment also gives the clock and the new identifiers and tokens. The rows read under
  \<open>FOR UPDATE\<close> make the calls of one operation serial, so a history is a list of calls; plain reads
  take their snapshots as arguments. Identifiers are canonical text; what \<open>uuid.Parse\<close> and
  PostgreSQL's cast accept are parameters. Times are nanoseconds in UTC, versions and attempts are
  integers. A \<open>jsonb\<close> value is the parsed document. A \<open>char(64)\<close> column is a string without blank
  padding: the digests the code stores there have 64 digits. A workflow's run id is an optional text.
  A negative \<open>LIMIT\<close>, which the server never passes on, lists nothing. A URL that \<open>http.NewRequest\<close>
  rejects is a failure of the transport. Case folding of member names is that of ASCII;
  texts of error messages of libraries are parameters or abbreviated. The router's patterns are a
  table. In the configuration \<open>time.ParseDuration\<close>, \<open>os.ReadFile\<close> and the environment are parameters.

  \<^bold>\<open>Fuel.\<close> \<open>Execute\<close>, the coordinator's loop and the programs that wait have no bound of their own and
  take a number of rounds; \<open>None\<close> is still waiting. A context that is over from tick \<open>d\<close> on ends
  \<open>Execute\<close> in \<open>d + 1\<close> rounds (\<open>Worker_Ends\<close>); the smoke test needs 102 reads for its twenty
  seconds, the demo's worker 402 for its forty, a run of the console one round more than its forty
  seconds have quarters (\<open>Programs_Contract\<close>, \<open>Console_Contract\<close>).

  \<^bold>\<open>Not modelled.\<close> The access log, the metrics, connection pools, listening and shutting down, the pings;
  the starting and killing of processes and the terminal in \<open>cmd/demo\<close>; the page of the demo console;
  the migration program (it calls goose); the runner, the children, the proxy, the evidence and the
  report of the benchmark, which drive processes, connections and database dumps around the modelled
  parts, and its statistics over floating point numbers; \<open>dispatch\<close> of \<open>cmd/workflow-worker\<close>, which nothing calls.
\<close>

end
